(* ===== verification/Prelude.thy ===== *)
theory Prelude
  imports Complex_Main "HOL-Library.AList" "HOL-Library.Word"
begin

text \<open>
  Shared vocabulary of the development: the parts of Python and of its standard library that
  the backend uses, as executable HOL definitions, with the lemmas the components share.

  \<^item> Strings are Latin-1 strings: one \<open>char\<close> is one code point below U+0100. This covers
    every literal of the backend. \<open>casefold\<close> and \<open>upper\<close> follow Unicode on that range;
    U+00B5 (whose folding leaves the range) is kept, the upper case of U+00FF is kept.
  \<^item> A float is a rational or one of the three special values. Comparisons are those of IEEE
    (every comparison with NaN is false); a finite double stands for the number its shortest
    decimal representation denotes, an order-preserving reading of doubles. Rounding of
    arithmetic is not modelled.
  \<^item> A timestamp is a number of microseconds. An aware \<open>datetime\<close> is the UTC instant, a naive
    one its wall-clock value; comparing the two kinds raises \<open>TypeError\<close>.
  \<^item> A \<open>dict\<close> is an association list in insertion order; assignment replaces in place or
    appends, as Python does.
  \<^item> A raise is \<open>Inl\<close> of an error value, a normal return is \<open>Inr\<close>.
\<close>

section \<open>Collections of rules\<close>

named_theorems pydict "equations of the insertion-ordered dictionary"
named_theorems pyfloat "comparison of floats"
named_theorems pystr "string operations of the standard library"

section \<open>Names for common types\<close>

type_synonym uuid = "128 word"
type_synonym instant = int

abbreviation second :: int where "second \<equiv> 1000000"
abbreviation minute :: int where "minute \<equiv> 60000000"
abbreviation hour :: int where "hour \<equiv> 3600000000"
abbreviation day :: int where "day \<equiv> 86400000000"

section \<open>Floats\<close>

datatype pyfloat = Fin rat | PInf | NInf | NaN

fun flt :: "pyfloat \<Rightarrow> pyfloat \<Rightarrow> bool" where
  "flt (Fin a) (Fin b) = (a < b)"
| "flt (Fin a) PInf = True"
| "flt NInf (Fin b) = True"
| "flt NInf PInf = True"
| "flt _ _ = False"

fun feq :: "pyfloat \<Rightarrow> pyfloat \<Rightarrow> bool" where
  "feq NaN _ = False"
| "feq _ NaN = False"
| "feq a b = (a = b)"

definition fle :: "pyfloat \<Rightarrow> pyfloat \<Rightarrow> bool" where
  "fle a b = (flt a b \<or> feq a b)"

text \<open>Chained comparison \<open>lo <= x <= hi\<close>.\<close>

definition fbetween :: "rat \<Rightarrow> pyfloat \<Rightarrow> rat \<Rightarrow> bool" where
  "fbetween lo x hi = (fle (Fin lo) x \<and> fle x (Fin hi))"

text \<open>Python's \<open>max(a, b)\<close> and \<open>min(a, b)\<close> keep the first argument unless the second is
  strictly larger (smaller), which decides what happens to NaN.\<close>

definition fmax :: "pyfloat \<Rightarrow> pyfloat \<Rightarrow> pyfloat" where
  "fmax a b = (if flt a b then b else a)"

definition fmin :: "pyfloat \<Rightarrow> pyfloat \<Rightarrow> pyfloat" where
  "fmin a b = (if flt b a then b else a)"

lemma fle_Fin [simp, pyfloat]: "fle (Fin a) (Fin b) = (a \<le> b)"
  by (auto simp: fle_def)

lemma fle_NaN [simp, pyfloat]: "\<not> fle NaN x" "\<not> fle x NaN"
  by (auto simp: fle_def) (cases x; simp)

lemma fle_PInf_Fin [simp, pyfloat]: "\<not> fle PInf (Fin a)" "\<not> fle (Fin a) NInf"
  by (auto simp: fle_def)

lemma fbetween_Fin [simp, pyfloat]: "fbetween lo (Fin x) hi = (lo \<le> x \<and> x \<le> hi)"
  by (simp add: fbetween_def)

lemma fbetween_finite: "fbetween lo x hi \<Longrightarrow> \<exists>r. x = Fin r \<and> lo \<le> r \<and> r \<le> hi"
  by (cases x) (auto simp: fbetween_def)

lemma clamp_unit_bounds:
  "fmin (fmax x (Fin 0)) (Fin 1) = NaN \<or> fbetween 0 (fmin (fmax x (Fin 0)) (Fin 1)) 1"
  by (cases x) (auto simp: fmin_def fmax_def)

text \<open>The number a finite float stands for; formatting is only reached with finite ones.\<close>

fun finite_value :: "pyfloat \<Rightarrow> rat" where
  "finite_value (Fin r) = r"
| "finite_value _ = 0"

text \<open>\<open>round(x)\<close> of a finite float: to nearest, ties to even.\<close>

definition round_half_even :: "rat \<Rightarrow> int" where
  "round_half_even r =
     (let f = \<lfloor>r\<rfloor>; d = r - of_int f
      in if d < 1/2 then f else if d > 1/2 then f + 1 else if even f then f else f + 1)"

lemma round_half_even_bounds:
  "of_int lo \<le> r \<Longrightarrow> r \<le> of_int hi \<Longrightarrow> lo \<le> round_half_even r \<and> round_half_even r \<le> hi"
proof -
  assume lo: "of_int lo \<le> r" and hi: "r \<le> of_int hi"
  then have f: "lo \<le> \<lfloor>r\<rfloor>" "\<lfloor>r\<rfloor> \<le> hi" by (simp_all add: le_floor_iff floor_le_iff)
  have "\<lfloor>r\<rfloor> + 1 \<le> hi" if "r \<noteq> of_int \<lfloor>r\<rfloor>"
  proof -
    from that have "of_int \<lfloor>r\<rfloor> < r" using of_int_floor_le [of r] by linarith
    with hi have "of_int \<lfloor>r\<rfloor> < (of_int hi :: rat)" by linarith
    then show ?thesis by simp
  qed
  with f show ?thesis by (auto simp: round_half_even_def Let_def)
qed

lemma round_half_even_int [simp]: "round_half_even (of_int n) = n"
  by (simp add: round_half_even_def)

section \<open>Timestamps\<close>

datatype pydatetime = Naive int | Aware instant

fun is_aware :: "pydatetime \<Rightarrow> bool" where
  "is_aware (Aware _) = True"
| "is_aware (Naive _) = False"

text \<open>The number an aware value carries; used where the code has checked awareness.\<close>

fun aware_instant :: "pydatetime \<Rightarrow> instant" where
  "aware_instant (Aware t) = t"
| "aware_instant (Naive t) = t"

section \<open>Insertion-ordered dictionaries\<close>

type_synonym ('k, 'v) pydict = "('k \<times> 'v) list"

abbreviation dict_get :: "('k, 'v) pydict \<Rightarrow> 'k \<Rightarrow> 'v option" where "dict_get \<equiv> map_of"
abbreviation dict_set :: "'k \<Rightarrow> 'v \<Rightarrow> ('k, 'v) pydict \<Rightarrow> ('k, 'v) pydict" where
  "dict_set \<equiv> AList.update"
abbreviation dict_del :: "'k \<Rightarrow> ('k, 'v) pydict \<Rightarrow> ('k, 'v) pydict" where
  "dict_del \<equiv> AList.delete"
abbreviation dict_values :: "('k, 'v) pydict \<Rightarrow> 'v list" where "dict_values \<equiv> map snd"
abbreviation dict_ok :: "('k, 'v) pydict \<Rightarrow> bool" where "dict_ok d \<equiv> distinct (map fst d)"

lemma dict_get_set [simp, pydict]: "dict_get (dict_set k v d) = (dict_get d)(k \<mapsto> v)"
  by (simp add: update_conv')

lemma dict_get_del [simp, pydict]: "dict_get (dict_del k d) = (dict_get d)(k := None)"
  by (simp add: delete_conv')

lemma dict_ok_set [simp, intro, pydict]: "dict_ok d \<Longrightarrow> dict_ok (dict_set k v d)"
  by (rule distinct_update)

lemma dict_ok_del [simp, intro, pydict]: "dict_ok d \<Longrightarrow> dict_ok (dict_del k d)"
  by (rule distinct_delete)

lemma in_dict_values: "v \<in> set (dict_values d) \<Longrightarrow> dict_ok d \<Longrightarrow> \<exists>k. dict_get d k = Some v"
  by force

lemma dict_get_in_values: "dict_get d k = Some v \<Longrightarrow> v \<in> set (dict_values d)"
  by (force dest: map_of_SomeD)

lemma dict_values_iff: "dict_ok d \<Longrightarrow> v \<in> set (dict_values d) \<longleftrightarrow> (\<exists>k. dict_get d k = Some v)"
  using in_dict_values dict_get_in_values by fast

lemma set_dict_set: "dict_ok d \<Longrightarrow> set (dict_set k v d) = {p \<in> set d. fst p \<noteq> k} \<union> {(k, v)}"
  by (induction d) (auto simp: image_iff)

lemma set_dict_set_subset: "set (dict_set k v d) \<subseteq> insert (k, v) (set d)"
  by (induction d) auto

lemma set_dict_del: "set (dict_del k d) \<subseteq> set d"
  by (induction d) auto

lemma filter_dict_ok [simp, intro]: "dict_ok d \<Longrightarrow> dict_ok (filter P d)"
  by (rule distinct_map_filter)

lemma map_of_filter_key_value:
  "dict_ok d \<Longrightarrow> map_of (filter (\<lambda>(k, v). P k v) d) k =
     (case map_of d k of None \<Rightarrow> None | Some v \<Rightarrow> if P k v then Some v else None)"
  by (induction d) (auto simp: image_iff split: option.splits dest: map_of_SomeD)

section \<open>Selection and sorting\<close>

text \<open>\<open>max(xs, key=...)\<close> returns the first element of maximal key; \<open>None\<close> on the empty list,
  where Python raises unless a default is given.\<close>

fun first_max :: "('a \<Rightarrow> 'k::linorder) \<Rightarrow> 'a list \<Rightarrow> 'a option" where
  "first_max key [] = None"
| "first_max key (x # xs) =
     (case first_max key xs of
        None \<Rightarrow> Some x
      | Some y \<Rightarrow> if key y \<le> key x then Some x else Some y)"

lemma first_max_None [simp]: "first_max key xs = None \<longleftrightarrow> xs = []"
  by (cases xs) (auto split: option.splits)

lemma first_max_in: "first_max key xs = Some x \<Longrightarrow> x \<in> set xs"
  by (induction xs arbitrary: x) (auto split: option.splits if_splits)

lemma first_max_ge: "first_max key xs = Some x \<Longrightarrow> y \<in> set xs \<Longrightarrow> key y \<le> key x"
proof (induction xs arbitrary: x)
  case (Cons z zs)
  then show ?case
    by (cases "first_max key zs") (fastforce split: if_splits intro: order_trans)+
qed simp

text \<open>\<open>sorted(xs, key=...)\<close> is stable, as \<open>sort_key\<close> is; a slice \<open>[:n]\<close> with a non-negative
  bound is \<open>take\<close>, and Python's negative bound drops from the end.\<close>

definition slice_to :: "int \<Rightarrow> 'a list \<Rightarrow> 'a list" where
  "slice_to n xs = (if 0 \<le> n then take (nat n) xs else take (nat (int (length xs) + n)) xs)"

lemma slice_to_nonneg [simp]: "0 \<le> n \<Longrightarrow> slice_to n xs = take (nat n) xs"
  by (simp add: slice_to_def)

lemma set_slice_to: "set (slice_to n xs) \<subseteq> set xs"
  by (auto simp: slice_to_def dest: in_set_takeD)

lemma sorted_map_take: "sorted (map f xs) \<Longrightarrow> sorted (map f (take n xs))"
  by (simp add: take_map [symmetric] sorted_wrt_take)

lemma find_Some_D: "find P xs = Some x \<Longrightarrow> x \<in> set xs \<and> P x"
  by (induction xs) (auto split: if_splits)

lemma find_None_iff': "find P xs = None \<longleftrightarrow> (\<forall>x \<in> set xs. \<not> P x)"
  by (induction xs) auto

section \<open>Strings\<close>

definition is_space :: "char \<Rightarrow> bool" where
  "is_space c = (of_char c \<in> {9, 10, 11, 12, 13, 28, 29, 30, 31, 32, 133, 160 :: nat})"

definition py_strip :: "string \<Rightarrow> string" where
  "py_strip s = rev (dropWhile is_space (rev (dropWhile is_space s)))"

definition is_digit :: "char \<Rightarrow> bool" where
  "is_digit c = (of_char c \<in> {48 ..< 58 :: nat})"

definition fold_char :: "char \<Rightarrow> string" where
  "fold_char c = (let n = of_char c :: nat in
     if 65 \<le> n \<and> n \<le> 90 then [char_of (n + 32)]
     else if 192 \<le> n \<and> n \<le> 222 \<and> n \<noteq> 215 then [char_of (n + 32)]
     else if n = 223 then ''ss''
     else [c])"

definition casefold :: "string \<Rightarrow> string" where
  "casefold s = concat (map fold_char s)"

definition upper_char :: "char \<Rightarrow> string" where
  "upper_char c = (let n = of_char c :: nat in
     if 97 \<le> n \<and> n \<le> 122 then [char_of (n - 32)]
     else if 224 \<le> n \<and> n \<le> 254 \<and> n \<noteq> 247 then [char_of (n - 32)]
     else if n = 223 then ''SS''
     else [c])"

definition py_upper :: "string \<Rightarrow> string" where
  "py_upper s = concat (map upper_char s)"

text \<open>\<open>s.split()\<close>: maximal runs of characters that are not white space.\<close>

fun split_ws_aux :: "string \<Rightarrow> string \<Rightarrow> string list" where
  "split_ws_aux acc [] = (if acc = [] then [] else [rev acc])"
| "split_ws_aux acc (c # cs) =
     (if is_space c then (if acc = [] then split_ws_aux [] cs else rev acc # split_ws_aux [] cs)
      else split_ws_aux (c # acc) cs)"

definition split_ws :: "string \<Rightarrow> string list" where
  "split_ws s = split_ws_aux [] s"

fun py_join :: "string \<Rightarrow> string list \<Rightarrow> string" where
  "py_join sep [] = []"
| "py_join sep [x] = x"
| "py_join sep (x # y # ys) = x @ sep @ py_join sep (y # ys)"

fun starts_with :: "string \<Rightarrow> string \<Rightarrow> bool" where
  "starts_with [] _ = True"
| "starts_with (_ # _) [] = False"
| "starts_with (p # ps) (c # cs) = (p = c \<and> starts_with ps cs)"

text \<open>\<open>needle in haystack\<close>.\<close>

fun str_in :: "string \<Rightarrow> string \<Rightarrow> bool" where
  "str_in p [] = (p = [])"
| "str_in p (c # cs) = (starts_with p (c # cs) \<or> str_in p cs)"

definition replace_char :: "char \<Rightarrow> char \<Rightarrow> string \<Rightarrow> string" where
  "replace_char a b s = map (\<lambda>c. if c = a then b else c) s"

lemma py_strip_plain: "s \<noteq> [] \<Longrightarrow> \<not> is_space (hd s) \<Longrightarrow> \<not> is_space (last s) \<Longrightarrow> py_strip s = s"
proof -
  assume s: "s \<noteq> []" "\<not> is_space (hd s)" "\<not> is_space (last s)"
  then have "dropWhile is_space s = s" "dropWhile is_space (rev s) = rev s"
    by (simp_all add: dropWhile_eq_self_iff hd_rev)
  then show ?thesis by (simp add: py_strip_def)
qed

lemma strip_ends:
  assumes "m = rev (dropWhile p (rev (dropWhile p s)))" "m \<noteq> []"
  shows "\<not> p (hd m)" and "\<not> p (last m)"
proof -
  define x where "x = dropWhile p s"
  have m: "rev m = dropWhile p (rev x)" using assms(1) by (simp only: x_def rev_rev_ident)
  obtain u where "rev x = u @ rev m" unfolding m by (metis takeWhile_dropWhile_id)
  then have "x = m @ rev u" by (metis rev_append rev_rev_ident)
  then have "hd x = hd m" "x \<noteq> []" using assms(2) by (simp_all add: hd_append)
  then show "\<not> p (hd m)" using hd_dropWhile [of p s] unfolding x_def by metis
  have "dropWhile p (rev x) \<noteq> []" unfolding m [symmetric] using assms(2) by simp
  then have "\<not> p (hd (rev m))" unfolding m by (rule hd_dropWhile)
  then show "\<not> p (last m)" using assms(2) by (simp add: hd_rev)
qed

lemma py_strip_idem [simp]: "py_strip (py_strip s) = py_strip s"
proof (cases "py_strip s = []")
  case True
  have "py_strip [] = []" by (simp add: py_strip_def)
  with True show ?thesis by simp
next
  case False
  from strip_ends [OF py_strip_def this] show ?thesis by (intro py_strip_plain False)
qed

lemma starts_with_iff [pystr]: "starts_with p s \<longleftrightarrow> (\<exists>t. s = p @ t)"
  by (induction p s rule: starts_with.induct) auto

lemma str_in_iff [pystr]: "str_in p s \<longleftrightarrow> (\<exists>a b. s = a @ p @ b)"
proof (induction s)
  case Nil
  show ?case by auto
next
  case (Cons c cs)
  have "(\<exists>a b. c # cs = a @ p @ b) \<longleftrightarrow> (\<exists>b. c # cs = p @ b) \<or> (\<exists>a b. cs = a @ p @ b)"
    by (metis append_Cons append_Nil list.exhaust list.sel(3))
  with Cons show ?case by (simp add: starts_with_iff)
qed

lemma split_ws_aux_nonempty: "w \<in> set (split_ws_aux acc s) \<Longrightarrow> w \<noteq> []"
  by (induction acc s rule: split_ws_aux.induct) (auto split: if_splits)

lemma split_ws_aux_no_space:
  "list_all (\<lambda>c. \<not> is_space c) acc \<Longrightarrow> w \<in> set (split_ws_aux acc s) \<Longrightarrow> c \<in> set w \<Longrightarrow> \<not> is_space c"
  by (induction acc s arbitrary: w rule: split_ws_aux.induct)
     (auto simp: list_all_iff split: if_splits)

lemma split_ws_words: "w \<in> set (split_ws s) \<Longrightarrow> w \<noteq> [] \<and> (\<forall>c \<in> set w. \<not> is_space c)"
  unfolding split_ws_def using split_ws_aux_nonempty split_ws_aux_no_space [of "[]"] by fastforce

text \<open>Decimal and hexadecimal numerals.\<close>

definition digit_char :: "nat \<Rightarrow> char" where
  "digit_char d = (if d < 10 then char_of (48 + d) else char_of (87 + d))"

fun nat_str :: "nat \<Rightarrow> string" where
  "nat_str n = (if n < 10 then [digit_char n] else nat_str (n div 10) @ [digit_char (n mod 10)])"

declare nat_str.simps [simp del]

definition int_str :: "int \<Rightarrow> string" where
  "int_str i = (if i < 0 then ''-'' @ nat_str (nat (- i)) else nat_str (nat i))"

fun hex_fixed :: "nat \<Rightarrow> nat \<Rightarrow> string" where
  "hex_fixed 0 n = []"
| "hex_fixed (Suc k) n = hex_fixed k (n div 16) @ [digit_char (n mod 16)]"

definition uuid_hex :: "uuid \<Rightarrow> string" where
  "uuid_hex u = hex_fixed 32 (unat u)"

definition uuid_str :: "uuid \<Rightarrow> string" where
  "uuid_str u = (let h = uuid_hex u in
     take 8 h @ ''-'' @ take 4 (drop 8 h) @ ''-'' @ take 4 (drop 12 h) @ ''-''
       @ take 4 (drop 16 h) @ ''-'' @ drop 20 h)"

text \<open>\<open>f"{x:.kf}"\<close> of a finite float.\<close>

definition pad_left :: "nat \<Rightarrow> string \<Rightarrow> string" where
  "pad_left w s = replicate (w - length s) (CHR ''0'') @ s"

definition fmt_fixed :: "nat \<Rightarrow> rat \<Rightarrow> string" where
  "fmt_fixed k x =
     (let n = round_half_even (\<bar>x\<bar> * of_nat (10 ^ k));
          q = nat n div 10 ^ k; r = nat n mod 10 ^ k
      in (if x < 0 then ''-'' else '''') @ nat_str q @
         (if k = 0 then '''' else ''.'' @ pad_left k (nat_str r)))"

text \<open>\<open>a or b\<close> on an optional string: the empty string is falsy.\<close>

fun str_or :: "string option \<Rightarrow> string \<Rightarrow> string" where
  "str_or (Some (c # cs)) _ = c # cs"
| "str_or _ d = d"

lemma length_hex_fixed [simp]: "length (hex_fixed k n) = k"
  by (induction k arbitrary: n) auto

lemma length_uuid_str: "length (uuid_str u) = 36"
  by (simp add: uuid_str_def uuid_hex_def Let_def)

lemma digit_char_inj: "a < 16 \<Longrightarrow> b < 16 \<Longrightarrow> digit_char a = digit_char b \<Longrightarrow> a = b"
proof -
  assume *: "a < 16" "b < 16" "digit_char a = digit_char b"
  have of_char: "(of_char (digit_char x) :: nat) = (if x < 10 then 48 + x else 87 + x)"
    if "x < 16" for x
    using that by (simp add: digit_char_def of_char_of take_bit_eq_mod)
  from *(3) have "(of_char (digit_char a) :: nat) = of_char (digit_char b)" by simp
  with *(1,2) show "a = b" by (auto simp: of_char split: if_splits)
qed

lemma hex_fixed_inj:
  "n < 16 ^ k \<Longrightarrow> m < 16 ^ k \<Longrightarrow> hex_fixed k n = hex_fixed k m \<Longrightarrow> n = m"
proof (induction k arbitrary: n m)
  case (Suc k)
  then have "hex_fixed k (n div 16) = hex_fixed k (m div 16)"
    and d: "n mod 16 = m mod 16"
    using digit_char_inj [of "n mod 16" "m mod 16"] by auto
  moreover have "n div 16 < 16 ^ k" "m div 16 < 16 ^ k"
    using Suc.prems(1,2) by (simp_all add: less_mult_imp_div_less mult.commute)
  ultimately have "n div 16 = m div 16" using Suc.IH by blast
  with d show ?case by (metis div_mult_mod_eq)
qed simp

text \<open>The hexadecimal form of a UUID identifies it.\<close>

lemma uuid_hex_inj: "uuid_hex u = uuid_hex v \<Longrightarrow> u = v"
proof -
  assume "uuid_hex u = uuid_hex v"
  moreover have "unat w < 16 ^ 32" for w :: uuid
    using unsigned_less [of w, where ?'a = nat] by simp
  ultimately have "unat u = unat v" unfolding uuid_hex_def by (blast intro: hex_fixed_inj)
  then show "u = v" by (rule unsigned_word_eqI)
qed

section \<open>Parsing identifiers\<close>

definition hex_value :: "char \<Rightarrow> nat option" where
  "hex_value c = (let n = of_char c :: nat in
     if 48 \<le> n \<and> n \<le> 57 then Some (n - 48)
     else if 97 \<le> n \<and> n \<le> 102 then Some (n - 87)
     else if 65 \<le> n \<and> n \<le> 70 then Some (n - 55)
     else None)"

fun parse_hex :: "nat \<Rightarrow> string \<Rightarrow> nat option" where
  "parse_hex acc [] = Some acc"
| "parse_hex acc (c # cs) =
     (case hex_value c of None \<Rightarrow> None | Some d \<Rightarrow> parse_hex (acc * 16 + d) cs)"

text \<open>\<open>UUID(s)\<close>: hyphens and enclosing braces are dropped and 32 hexadecimal digits must
  remain (\<open>None\<close> is the \<open>ValueError\<close>). The spellings \<open>urn:uuid:\<close> and digits grouped with
  underscores, which \<open>UUID\<close> also takes, are answered \<open>None\<close> here.\<close>

definition parse_uuid :: "string \<Rightarrow> uuid option" where
  "parse_uuid s =
     (let brace = (\<lambda>c. c = CHR ''{'' \<or> c = CHR ''}'');
          h = filter (\<lambda>c. c \<noteq> CHR ''-'')
                (rev (dropWhile brace (rev (dropWhile brace s))))
      in if length h \<noteq> 32 then None else map_option of_nat (parse_hex 0 h))"

lemma of_char_digit_char: "d < 16 \<Longrightarrow> (of_char (digit_char d) :: nat) = (if d < 10 then 48 + d else 87 + d)"
  by (simp add: digit_char_def of_char_of take_bit_eq_mod)

lemma hex_value_digit_char [simp]: "d < 16 \<Longrightarrow> hex_value (digit_char d) = Some d"
  by (simp add: hex_value_def of_char_digit_char Let_def)

lemma digit_char_plain: "d < 16 \<Longrightarrow> digit_char d \<notin> {CHR ''-'', CHR ''{'', CHR ''}''}"
  using hex_value_digit_char [of d] by (auto simp: hex_value_def)

lemma hex_fixed_plain: "c \<in> set (hex_fixed k n) \<Longrightarrow> c \<notin> {CHR ''-'', CHR ''{'', CHR ''}''}"
proof (induction k arbitrary: n)
  case (Suc k)
  then show ?case using digit_char_plain [of "n mod 16"] by auto
qed simp

lemma parse_hex_append:
  "parse_hex acc (xs @ ys) = (case parse_hex acc xs of None \<Rightarrow> None | Some a \<Rightarrow> parse_hex a ys)"
  by (induction xs arbitrary: acc) (auto split: option.splits)

lemma parse_hex_fixed: "n < 16 ^ k \<Longrightarrow> parse_hex acc (hex_fixed k n) = Some (acc * 16 ^ k + n)"
proof (induction k arbitrary: n acc)
  case (Suc k)
  then have "n div 16 < 16 ^ k" by (simp add: less_mult_imp_div_less mult.commute)
  with Suc.IH have "parse_hex acc (hex_fixed k (n div 16)) = Some (acc * 16 ^ k + n div 16)" by blast
  then show ?case by (simp add: parse_hex_append algebra_simps)
qed simp

text \<open>The canonical form of a UUID parses back to it.\<close>

lemma parse_uuid_str [simp]: "parse_uuid (uuid_str u) = Some u"
proof -
  let ?h = "uuid_hex u"
  have plain: "c \<in> set ?h \<Longrightarrow> c \<notin> {CHR ''-'', CHR ''{'', CHR ''}''}" for c
    unfolding uuid_hex_def by (rule hex_fixed_plain)
  have noflt: "filter (\<lambda>c. c \<noteq> CHR ''-'') xs = xs" if "set xs \<subseteq> set ?h" for xs
    using plain that by (intro filter_True) blast
  have parts: "filter (\<lambda>c. c \<noteq> CHR ''-'') (uuid_str u) = ?h"
  proof -
    have "filter (\<lambda>c. c \<noteq> CHR ''-'') (uuid_str u) = take 8 ?h @ take 4 (drop 8 ?h)
        @ take 4 (drop 12 ?h) @ take 4 (drop 16 ?h) @ drop 20 ?h"
      by (simp add: uuid_str_def Let_def noflt set_take_subset set_drop_subset
          order_trans [OF set_take_subset set_drop_subset])
    also have "take 4 (drop 16 ?h) @ drop 20 ?h = drop 16 ?h"
      using append_take_drop_id [of 4 "drop 16 ?h"] by simp
    also have "take 4 (drop 12 ?h) @ drop 16 ?h = drop 12 ?h"
      using append_take_drop_id [of 4 "drop 12 ?h"] by simp
    also have "take 4 (drop 8 ?h) @ drop 12 ?h = drop 8 ?h"
      using append_take_drop_id [of 4 "drop 8 ?h"] by simp
    also have "take 8 ?h @ drop 8 ?h = ?h" by (rule append_take_drop_id)
    finally show ?thesis .
  qed
  have "set (uuid_str u) \<subseteq> set ?h \<union> {CHR ''-''}"
    by (auto simp: uuid_str_def Let_def dest: in_set_takeD in_set_dropD)
  then have nobrace: "c \<in> set (uuid_str u) \<Longrightarrow> \<not> (c = CHR ''{'' \<or> c = CHR ''}'')" for c
    using plain [of c] by auto
  have drop_id: "dropWhile (\<lambda>c. c = CHR ''{'' \<or> c = CHR ''}'') xs = xs"
    if "set xs \<subseteq> set (uuid_str u)" for xs
    using that nobrace by (cases xs) auto
  have "unat u < 16 ^ 32" using unsigned_less [of u, where ?'a = nat] by simp
  then show ?thesis
    by (simp add: parse_uuid_def Let_def drop_id parts)
       (simp add: uuid_hex_def parse_hex_fixed)
qed

lemma uuid_str_inj: "uuid_str u = uuid_str v \<Longrightarrow> u = v"
  by (metis option.inject parse_uuid_str)

section \<open>Results of all elements, and the first of a sorted list\<close>

lemma those_Some: "those xs = Some ys \<longleftrightarrow> xs = map Some ys"
  by (induction xs arbitrary: ys) (auto split: option.splits)

lemma those_total: "\<forall>x \<in> set xs. x \<noteq> None \<Longrightarrow> \<exists>ys. those xs = Some ys"
  by (induction xs) auto

lemma take_sort_complete:
  assumes "x \<in> set xs"
  shows "x \<in> set (take n (sort_key f xs))
    \<or> length (take n (sort_key f xs)) = n \<and> (\<forall>y \<in> set (take n (sort_key f xs)). f y \<le> f x)"
proof (cases "x \<in> set (drop n (sort_key f xs))")
  case True
  have "sorted (map f (take n (sort_key f xs) @ drop n (sort_key f xs)))" by simp
  then have "\<forall>y \<in> set (take n (sort_key f xs)). f y \<le> f x"
    using True unfolding map_append sorted_append by auto
  moreover have "length (take n (sort_key f xs)) = n" using True by (cases "n \<le> length xs") auto
  ultimately show ?thesis by blast
next
  case False
  have "set (sort_key f xs) = set (take n (sort_key f xs)) \<union> set (drop n (sort_key f xs))"
    by (metis append_take_drop_id set_append)
  with assms False show ?thesis by auto
qed

end
