(* ===== verification/Parking_Domain.thy ===== *)
theory Parking_Domain
  imports Prelude
begin

text \<open>
  Data of \<open>app/modules/parking/domain.py\<close>: the enumerations with their string values, the
  temporal rules, the parking zone and the score bands. Constructors carry a short prefix
  where two enumerations of the source share a member name.
\<close>

section \<open>Enumerations\<close>

datatype provenance = OFFICIAL | COMMUNITY_VERIFIED | AI_PREDICTION | ESTIMATED

fun provenance_value :: "provenance \<Rightarrow> string" where
  "provenance_value OFFICIAL = ''official''"
| "provenance_value COMMUNITY_VERIFIED = ''community_verified''"
| "provenance_value AI_PREDICTION = ''ai_prediction''"
| "provenance_value ESTIMATED = ''estimated''"

datatype RiskLevel = RISK_VERY_SAFE | RISK_SAFE | RISK_READ_SIGNS | RISK_HIGH_RISK
  | RISK_VERY_HIGH_RISK | RISK_DO_NOT_PARK

fun risk_value :: "RiskLevel \<Rightarrow> string" where
  "risk_value RISK_VERY_SAFE = ''very_safe''"
| "risk_value RISK_SAFE = ''safe''"
| "risk_value RISK_READ_SIGNS = ''read_signs''"
| "risk_value RISK_HIGH_RISK = ''high_risk''"
| "risk_value RISK_VERY_HIGH_RISK = ''very_high_risk''"
| "risk_value RISK_DO_NOT_PARK = ''do_not_park''"

datatype zone_type = GENERAL | RESIDENT_ONLY | PRIVATE_PROPERTY | COMMERCIAL | ZT_TOWING_HOTSPOT

fun zone_type_value :: "zone_type \<Rightarrow> string" where
  "zone_type_value GENERAL = ''general''"
| "zone_type_value RESIDENT_ONLY = ''resident_only''"
| "zone_type_value PRIVATE_PROPERTY = ''private_property''"
| "zone_type_value COMMERCIAL = ''commercial''"
| "zone_type_value ZT_TOWING_HOTSPOT = ''towing_hotspot''"

datatype decision_outcome = OUT_PARK | OUT_CAUTION | OUT_DO_NOT_PARK | OUT_INDETERMINATE

datatype coverage_status = VERIFIED_COVERAGE | CS_NO_VERIFIED_COVERAGE | CS_STALE_DATA
  | CS_LOCATION_PRECISION_INSUFFICIENT | CS_UNVERIFIABLE_SOURCE
  | CS_LOCATION_CONSENT_REQUIRED | CS_LOCATION_STALE

datatype decision_reason_code = OFFICIAL_RESTRICTION | RESIDENT_PERMIT_REQUIRED | TOWING_RISK
  | RC_NO_VERIFIED_COVERAGE | RC_STALE_DATA | RC_LOCATION_PRECISION_INSUFFICIENT
  | RC_DECISION_INDETERMINATE | RC_UNVERIFIABLE_SOURCE | RC_LOCATION_CONSENT_REQUIRED
  | RC_LOCATION_STALE | RC_TEMPORAL_RULE_INDETERMINATE

datatype rule_effect = EFF_PARK | EFF_CAUTION | EFF_DO_NOT_PARK

text \<open>A \<open>StrEnum\<close> is looked up by value: \<open>ParkingDecisionOutcome(effect.value)\<close>.\<close>

fun effect_value :: "rule_effect \<Rightarrow> string" where
  "effect_value EFF_PARK = ''PARK''"
| "effect_value EFF_CAUTION = ''CAUTION''"
| "effect_value EFF_DO_NOT_PARK = ''DO_NOT_PARK''"

fun outcome_value :: "decision_outcome \<Rightarrow> string" where
  "outcome_value OUT_PARK = ''PARK''"
| "outcome_value OUT_CAUTION = ''CAUTION''"
| "outcome_value OUT_DO_NOT_PARK = ''DO_NOT_PARK''"
| "outcome_value OUT_INDETERMINATE = ''INDETERMINATE''"

definition outcome_of_value :: "string \<Rightarrow> decision_outcome option" where
  "outcome_of_value v =
     find (\<lambda>o'. outcome_value o' = v) [OUT_PARK, OUT_CAUTION, OUT_DO_NOT_PARK, OUT_INDETERMINATE]"

lemma outcome_of_value_inverse [simp]: "outcome_of_value (outcome_value x) = Some x"
  by (cases x) (simp_all add: outcome_of_value_def)

fun effect_outcome :: "rule_effect \<Rightarrow> decision_outcome" where
  "effect_outcome EFF_PARK = OUT_PARK"
| "effect_outcome EFF_CAUTION = OUT_CAUTION"
| "effect_outcome EFF_DO_NOT_PARK = OUT_DO_NOT_PARK"

lemma outcome_of_effect [simp]: "outcome_of_value (effect_value e) = Some (effect_outcome e)"
  by (cases e) (simp_all add: outcome_of_value_def)

section \<open>Temporal rules\<close>

text \<open>
  A \<open>datetime.time\<close> is its microseconds of the day, without a time zone or with a UTC offset in
  microseconds; a date is its days since 1970-01-01. Two times of day with offsets are compared
  after subtracting the whole seconds of the offset; a time with an offset is never equal to one
  without, and to order the two is a \<open>TypeError\<close>, here \<open>None\<close>.
\<close>

datatype pytime = NaiveTime int | AwareTime int int
type_synonym pydate = int

fun time_naive :: "pytime \<Rightarrow> bool" where
  "time_naive (NaiveTime t) = True"
| "time_naive (AwareTime t offset) = False"

fun time_key :: "pytime \<Rightarrow> int" where
  "time_key (NaiveTime t) = t"
| "time_key (AwareTime t offset) = t - offset div second * second"

definition time_eq :: "pytime \<Rightarrow> pytime \<Rightarrow> bool" where
  "time_eq a b \<longleftrightarrow> time_naive a = time_naive b \<and> time_key a = time_key b"

definition time_less :: "pytime \<Rightarrow> pytime \<Rightarrow> bool option" where
  "time_less a b = (if time_naive a = time_naive b then Some (time_key a < time_key b) else None)"

definition time_le :: "pytime \<Rightarrow> pytime \<Rightarrow> bool option" where
  "time_le a b = (if time_naive a = time_naive b then Some (time_key a \<le> time_key b) else None)"

record temporal_window =
  starts_at :: pytime
  ends_at :: pytime

definition window_naive :: "temporal_window \<Rightarrow> bool" where
  "window_naive w \<longleftrightarrow> time_naive (starts_at w) \<and> time_naive (ends_at w)"

record temporal_rule =
  rule_id :: string
  effect :: rule_effect
  weekdays :: "int list"
  window :: temporal_window
  rule_timezone :: string
  valid_from :: pydatetime
  valid_until :: "pydatetime option"
  exception_dates :: "pydate list"
  not_applicable_windows :: "temporal_window list"
  special_restrictions :: "string list"

text \<open>Every time of day in the rule is a local one, without an offset.\<close>

definition schedule_naive :: "temporal_rule \<Rightarrow> bool" where
  "schedule_naive r \<longleftrightarrow> window_naive (window r) \<and> list_all window_naive (not_applicable_windows r)"

section \<open>Score bands\<close>

datatype parking_error = InvalidViewportError string | ParkingValueError string
  | ParkingTypeError

definition risk_level :: "int \<Rightarrow> parking_error + RiskLevel" where
  "risk_level score =
     (if \<not> (0 \<le> score \<and> score \<le> 100)
      then Inl (ParkingValueError ''parking score must be between 0 and 100'')
      else if score \<ge> 90 then Inr RISK_VERY_SAFE
      else if score \<ge> 75 then Inr RISK_SAFE
      else if score \<ge> 55 then Inr RISK_READ_SIGNS
      else if score \<ge> 35 then Inr RISK_HIGH_RISK
      else if score > 0 then Inr RISK_VERY_HIGH_RISK
      else Inr RISK_DO_NOT_PARK)"

fun risk_rank :: "RiskLevel \<Rightarrow> nat" where
  "risk_rank RISK_VERY_SAFE = 0"
| "risk_rank RISK_SAFE = 1"
| "risk_rank RISK_READ_SIGNS = 2"
| "risk_rank RISK_HIGH_RISK = 3"
| "risk_rank RISK_VERY_HIGH_RISK = 4"
| "risk_rank RISK_DO_NOT_PARK = 5"

lemma risk_level_total: "0 \<le> s \<Longrightarrow> s \<le> 100 \<Longrightarrow> \<exists>r. risk_level s = Inr r"
  by (simp add: risk_level_def)

lemma risk_level_error: "\<not> (0 \<le> s \<and> s \<le> 100) \<Longrightarrow> \<exists>e. risk_level s = Inl e"
  by (auto simp: risk_level_def)

section \<open>Zones\<close>

record parking_zone =
  z_id :: uuid
  z_name :: string
  z_type :: zone_type
  z_geometry_geojson :: string
  z_parking_score :: int
  z_provenance :: provenance
  z_confidence :: pyfloat
  z_restriction_summary :: "string option"
  z_average_towing_cost_cents :: "int option"
  z_towing_hotspot :: bool
  z_observed_at :: instant
  z_expires_at :: "instant option"
  z_source_id :: "uuid option"
  z_import_batch_id :: "uuid option"
  z_jurisdiction :: "string option"
  z_temporal_rules :: "temporal_rule list"
  z_temporal_schedule_required :: bool

definition zone_risk_level :: "parking_zone \<Rightarrow> parking_error + RiskLevel" where
  "zone_risk_level z = risk_level (z_parking_score z)"

text \<open>Both persistent and in-memory sources keep a zone current until its expiry instant.\<close>

definition zone_current :: "instant \<Rightarrow> parking_zone \<Rightarrow> bool" where
  "zone_current now z = (case z_expires_at z of None \<Rightarrow> True | Some e \<Rightarrow> e > now)"

text \<open>A concrete zone, for the examples of the development.\<close>

definition sample_zone :: parking_zone where
  "sample_zone = \<lparr>z_id = 7, z_name = ''Main'', z_type = GENERAL, z_geometry_geojson = ''{}'',
     z_parking_score = 80, z_provenance = OFFICIAL, z_confidence = Fin (95/100),
     z_restriction_summary = None, z_average_towing_cost_cents = None, z_towing_hotspot = False,
     z_observed_at = 0, z_expires_at = None, z_source_id = None, z_import_batch_id = None,
     z_jurisdiction = None, z_temporal_rules = [], z_temporal_schedule_required = False\<rparr>"

text \<open>
  The score bands are monotone: a zone with a higher score never gets a worse risk level,
  and every score from 0 to 100 gets one.
\<close>

lemma risk_level_monotone:
  assumes "0 \<le> a" and "a \<le> b" and "b \<le> 100"
  shows "\<exists>ra rb. risk_level a = Inr ra \<and> risk_level b = Inr rb \<and> risk_rank rb \<le> risk_rank ra"
  using assms by (simp add: risk_level_def)

lemma risk_level_monotone_witness:
  "\<exists>ra rb. risk_level 40 = Inr ra \<and> risk_level 92 = Inr rb \<and> risk_rank rb \<le> risk_rank ra"
  by (rule risk_level_monotone) simp_all

end
