(* ===== verification/Parking_Decision.thy ===== *)
theory Parking_Decision
  imports Parking_Domain
begin

text \<open>
  \<open>app/modules/parking/service.py\<close>: the map service over a zone repository and the
  fail-closed parking decision. The repository port is a record of its two queries; the time
  zone database (the IANA data behind \<open>ZoneInfo\<close>) is a parameter \<open>tzdb\<close>.
\<close>

section \<open>Ports\<close>

record zone_repository =
  in_viewport :: "pyfloat \<Rightarrow> pyfloat \<Rightarrow> pyfloat \<Rightarrow> pyfloat \<Rightarrow> int \<Rightarrow> parking_zone list"
  at_location :: "pyfloat \<Rightarrow> pyfloat \<Rightarrow> bool \<Rightarrow> parking_zone option"

text \<open>\<open>ZoneInfo(key)\<close>: an offset for every instant, \<open>ZoneInfoNotFoundError\<close>, or the
  \<open>ValueError\<close> raised for a key that is not a normalised relative path.\<close>

datatype tz_lookup = TzFound "instant \<Rightarrow> int" | TzNotFound | TzInvalidKey

section \<open>ParkingMapService\<close>

definition viewport_ok :: "pyfloat \<Rightarrow> pyfloat \<Rightarrow> pyfloat \<Rightarrow> pyfloat \<Rightarrow> bool" where
  "viewport_ok west south east north =
     (fle (Fin (-180)) west \<and> flt west east \<and> fle east (Fin 180) \<and>
      fle (Fin (-90)) south \<and> flt south north \<and> fle north (Fin 90))"

definition viewport ::
  "zone_repository \<Rightarrow> pyfloat \<Rightarrow> pyfloat \<Rightarrow> pyfloat \<Rightarrow> pyfloat \<Rightarrow> int \<Rightarrow>
     parking_error + parking_zone list" where
  "viewport zones west south east north limit =
     (if \<not> viewport_ok west south east north
      then Inl (InvalidViewportError ''invalid viewport bounds'')
      else let bounded_limit = min (max limit 1) 1000
           in Inr (in_viewport zones west south east north bounded_limit))"

definition coordinates_ok :: "pyfloat \<Rightarrow> pyfloat \<Rightarrow> bool" where
  "coordinates_ok longitude latitude =
     (fbetween (-180) longitude 180 \<and> fbetween (-90) latitude 90)"

definition map_decision ::
  "zone_repository \<Rightarrow> pyfloat \<Rightarrow> pyfloat \<Rightarrow> parking_error + parking_zone option" where
  "map_decision zones longitude latitude =
     (if \<not> coordinates_ok longitude latitude
      then Inl (InvalidViewportError ''invalid coordinates'')
      else Inr (at_location zones longitude latitude False))"

definition map_expired_decision ::
  "zone_repository \<Rightarrow> pyfloat \<Rightarrow> pyfloat \<Rightarrow> parking_error + parking_zone option" where
  "map_expired_decision zones longitude latitude =
     (if \<not> coordinates_ok longitude latitude
      then Inl (InvalidViewportError ''invalid coordinates'')
      else Inr (at_location zones longitude latitude True))"

section \<open>Decisions\<close>

record decision_reason =
  reason_code :: decision_reason_code
  reason_message :: string

record parking_decision =
  outcome :: decision_outcome
  coverage :: coverage_status
  reasons :: "decision_reason list"
  decision_zone :: "parking_zone option"
  evaluated_at :: instant
  decision_rule_id :: "string option"

definition maximum_accuracy_meters :: rat where "maximum_accuracy_meters = 20"
definition maximum_location_age :: int where "maximum_location_age = 2 * minute"

definition indeterminate ::
  "coverage_status \<Rightarrow> decision_reason_code \<Rightarrow> string \<Rightarrow> instant \<Rightarrow> parking_zone option \<Rightarrow> parking_decision" where
  "indeterminate c code message moment zone =
     \<lparr>outcome = OUT_INDETERMINATE, coverage = c,
      reasons = [\<lparr>reason_code = code, reason_message = message\<rparr>],
      decision_zone = zone, evaluated_at = moment, decision_rule_id = None\<rparr>"

text \<open>A decision backed by current verified evidence, with its single reason.\<close>

definition verified ::
  "decision_outcome \<Rightarrow> decision_reason_code \<Rightarrow> string \<Rightarrow> parking_zone \<Rightarrow> instant \<Rightarrow> string option \<Rightarrow> parking_decision" where
  "verified out code message zone moment rule =
     \<lparr>outcome = out, coverage = VERIFIED_COVERAGE,
      reasons = [\<lparr>reason_code = code, reason_message = message\<rparr>],
      decision_zone = Some zone, evaluated_at = moment, decision_rule_id = rule\<rparr>"

definition from_verified_zone :: "parking_zone \<Rightarrow> bool \<Rightarrow> instant \<Rightarrow> parking_decision" where
  "from_verified_zone zone has_resident_permit moment =
     (if z_type zone = PRIVATE_PROPERTY
      then verified OUT_DO_NOT_PARK OFFICIAL_RESTRICTION
        ''Official evidence identifies private property requiring owner permission.'' zone moment None
      else if z_type zone = RESIDENT_ONLY \<and> \<not> has_resident_permit
      then verified OUT_DO_NOT_PARK RESIDENT_PERMIT_REQUIRED
        ''Official evidence requires a resident permit.'' zone moment None
      else if z_towing_hotspot zone \<or> z_type zone = ZT_TOWING_HOTSPOT
      then verified OUT_DO_NOT_PARK TOWING_RISK
        ''Official evidence identifies elevated towing risk.'' zone moment None
      else verified (if z_parking_score zone \<ge> 75 then OUT_PARK else OUT_CAUTION)
        OFFICIAL_RESTRICTION
        ''Official parking evidence is current for this location.'' zone moment None)"

subsection \<open>Temporal rules\<close>

text \<open>\<open>_in_window\<close>: half-open, and wrapping past midnight when it ends before it starts. The
  comparisons short-circuit; \<open>None\<close> is the \<open>TypeError\<close> of one that mixes times with and without
  an offset.\<close>

definition in_window :: "pytime \<Rightarrow> pytime \<Rightarrow> pytime \<Rightarrow> bool option" where
  "in_window v starts ends =
     (case time_less starts ends of
        None \<Rightarrow> None
      | Some True \<Rightarrow>
          (case time_le starts v of
             None \<Rightarrow> None
           | Some True \<Rightarrow> time_less v ends
           | Some False \<Rightarrow> Some False)
      | Some False \<Rightarrow>
          (case time_le starts v of
             None \<Rightarrow> None
           | Some True \<Rightarrow> Some True
           | Some False \<Rightarrow> time_less v ends))"

fun any_window :: "pytime \<Rightarrow> temporal_window list \<Rightarrow> bool option" where
  "any_window v [] = Some False"
| "any_window v (w # ws) =
     (case in_window v (starts_at w) (ends_at w) of
        None \<Rightarrow> None
      | Some True \<Rightarrow> Some True
      | Some False \<Rightarrow> any_window v ws)"

text \<open>Local wall clock of an instant: weekday (Monday is 0), date and time of day.\<close>

definition local_wall :: "(instant \<Rightarrow> int) \<Rightarrow> instant \<Rightarrow> int" where
  "local_wall off t = t + off t"
definition local_weekday :: "int \<Rightarrow> int" where "local_weekday w = (w div day + 3) mod 7"
definition local_date :: "int \<Rightarrow> pydate" where "local_date w = w div day"
definition local_time :: "int \<Rightarrow> pytime" where "local_time w = NaiveTime (w mod day)"

definition rule_invalid :: "temporal_rule \<Rightarrow> bool" where
  "rule_invalid r =
     (rule_id r = [] \<or> weekdays r = [] \<or> list_ex (\<lambda>d. \<not> (0 \<le> d \<and> d < 7)) (weekdays r)
      \<or> time_eq (starts_at (window r)) (ends_at (window r))
      \<or> \<not> is_aware (valid_from r)
      \<or> (case valid_until r of
           None \<Rightarrow> True
         | Some u \<Rightarrow> \<not> is_aware u \<or> aware_instant u \<le> aware_instant (valid_from r)))"

text \<open>The rest of the loop body for a valid rule: whether it is appended, \<open>None\<close> where a window
  cannot be compared with the local time.\<close>

definition rule_applies :: "temporal_rule \<Rightarrow> instant \<Rightarrow> int \<Rightarrow> bool option" where
  "rule_applies r moment wall =
     (case valid_until r of
        None \<Rightarrow> Some False
      | Some u \<Rightarrow>
          if aware_instant u \<le> moment then Some False
          else if moment < aware_instant (valid_from r) \<or> local_weekday wall \<notin> set (weekdays r)
               \<or> local_date wall \<in> set (exception_dates r) then Some False
          else case in_window (local_time wall) (starts_at (window r)) (ends_at (window r)) of
            None \<Rightarrow> None
          | Some False \<Rightarrow> Some False
          | Some True \<Rightarrow> map_option Not (any_window (local_time wall) (not_applicable_windows r)))"

text \<open>The loop over the rules: it returns at the first rule that is not verifiable.\<close>

fun active_rules ::
  "(string \<Rightarrow> tz_lookup) \<Rightarrow> parking_zone \<Rightarrow> instant \<Rightarrow> temporal_rule list \<Rightarrow> temporal_rule list \<Rightarrow>
     (parking_error + parking_decision) + temporal_rule list" where
  "active_rules tzdb zone moment [] active = Inr active"
| "active_rules tzdb zone moment (r # rs) active =
     (case tzdb (rule_timezone r) of
        TzInvalidKey \<Rightarrow> Inl (Inl (ParkingValueError ''ZoneInfo keys must be normalized''))
      | TzNotFound \<Rightarrow> Inl (Inr (indeterminate VERIFIED_COVERAGE RC_TEMPORAL_RULE_INDETERMINATE
          ''Parking schedule timezone is not verifiable.'' moment (Some zone)))
      | TzFound off \<Rightarrow>
          if rule_invalid r
          then Inl (Inr (indeterminate VERIFIED_COVERAGE RC_TEMPORAL_RULE_INDETERMINATE
            ''Parking schedule is incomplete.'' moment (Some zone)))
          else case rule_applies r moment (local_wall off moment) of
            None \<Rightarrow> Inl (Inl ParkingTypeError)
          | Some True \<Rightarrow> active_rules tzdb zone moment rs (active @ [r])
          | Some False \<Rightarrow> active_rules tzdb zone moment rs active)"

fun effect_priority :: "rule_effect \<Rightarrow> nat" where
  "effect_priority EFF_PARK = 0"
| "effect_priority EFF_CAUTION = 1"
| "effect_priority EFF_DO_NOT_PARK = 2"

definition temporal_decision ::
  "(string \<Rightarrow> tz_lookup) \<Rightarrow> parking_zone \<Rightarrow> instant \<Rightarrow> parking_error + parking_decision option" where
  "temporal_decision tzdb zone moment =
     (if \<not> z_temporal_schedule_required zone \<and> z_temporal_rules zone = [] then Inr None
      else if z_temporal_rules zone = []
      then Inr (Some (indeterminate VERIFIED_COVERAGE RC_TEMPORAL_RULE_INDETERMINATE
        ''Verified parking evidence requires a current temporal schedule.'' moment (Some zone)))
      else case active_rules tzdb zone moment (z_temporal_rules zone) [] of
        Inl (Inl e) \<Rightarrow> Inl e
      | Inl (Inr d) \<Rightarrow> Inr (Some d)
      | Inr active \<Rightarrow>
          (case first_max (\<lambda>r. effect_priority (effect r)) active of
             None \<Rightarrow> Inr (Some (indeterminate VERIFIED_COVERAGE RC_TEMPORAL_RULE_INDETERMINATE
               ''No current parking rule applies at this time.'' moment (Some zone)))
           | Some selected \<Rightarrow>
               (case outcome_of_value (effect_value (effect selected)) of
                  None \<Rightarrow> Inl (ParkingValueError ''not a valid ParkingDecisionOutcome'')
                | Some out \<Rightarrow> Inr (Some (verified out OFFICIAL_RESTRICTION
                    ''Official current parking schedule applies.'' zone moment
                    (Some (rule_id selected)))))))"

subsection \<open>evaluate\<close>

definition evaluate_at ::
  "(string \<Rightarrow> tz_lookup) \<Rightarrow> zone_repository \<Rightarrow> pyfloat \<Rightarrow> pyfloat \<Rightarrow> bool \<Rightarrow> instant \<Rightarrow>
     parking_error + parking_decision" where
  "evaluate_at tzdb zones longitude latitude has_resident_permit moment =
     (case map_decision zones longitude latitude of
        Inl e \<Rightarrow> Inl e
      | Inr None \<Rightarrow>
          (case map_expired_decision zones longitude latitude of
             Inl e \<Rightarrow> Inl e
           | Inr (Some expired) \<Rightarrow> Inr (indeterminate CS_STALE_DATA RC_STALE_DATA
               ''Parking evidence for this location is no longer current.'' moment (Some expired))
           | Inr None \<Rightarrow> Inr (indeterminate CS_NO_VERIFIED_COVERAGE RC_NO_VERIFIED_COVERAGE
               ''No verified parking evidence covers this location.'' moment None))
      | Inr (Some zone) \<Rightarrow>
          if z_provenance zone \<noteq> OFFICIAL \<or> flt (z_confidence zone) (Fin (9/10))
          then Inr (indeterminate CS_UNVERIFIABLE_SOURCE RC_UNVERIFIABLE_SOURCE
            ''Parking evidence for this location is not verified for a decision.'' moment (Some zone))
          else case temporal_decision tzdb zone moment of
            Inl e \<Rightarrow> Inl e
          | Inr (Some temporal) \<Rightarrow> Inr temporal
          | Inr None \<Rightarrow> Inr (from_verified_zone zone has_resident_permit moment))"

text \<open>
  \<open>now\<close> is the optional argument, \<open>clock\<close> the value of \<open>datetime.now(UTC)\<close>. An early return
  carries \<open>evaluated_at\<close> as it is; where it is naive and the location aware, the subtraction
  raises \<open>TypeError\<close>. \<open>aware_instant\<close> reads the instant for the result.
\<close>

definition evaluate ::
  "(string \<Rightarrow> tz_lookup) \<Rightarrow> zone_repository \<Rightarrow> pyfloat \<Rightarrow> pyfloat \<Rightarrow> pyfloat \<Rightarrow> pydatetime \<Rightarrow> bool \<Rightarrow>
     bool \<Rightarrow> pydatetime option \<Rightarrow> instant \<Rightarrow> parking_error + parking_decision" where
  "evaluate tzdb zones longitude latitude accuracy_meters located_at location_consent
      has_resident_permit now clock =
     (let moment = (case now of Some t \<Rightarrow> t | None \<Rightarrow> Aware clock) in
      if \<not> location_consent
      then Inr (indeterminate CS_LOCATION_CONSENT_REQUIRED RC_LOCATION_CONSENT_REQUIRED
        ''Location consent is required to evaluate parking at this location.''
        (aware_instant moment) None)
      else if flt (Fin maximum_accuracy_meters) accuracy_meters
      then Inr (indeterminate CS_LOCATION_PRECISION_INSUFFICIENT RC_LOCATION_PRECISION_INSUFFICIENT
        ''Location accuracy is not sufficient for a parking decision.'' (aware_instant moment) None)
      else case located_at of
        Naive _ \<Rightarrow> Inr (indeterminate CS_LOCATION_STALE RC_DECISION_INDETERMINATE
          ''Location is too old to make a parking decision.'' (aware_instant moment) None)
      | Aware located \<Rightarrow>
          (case moment of
             Naive _ \<Rightarrow> Inl ParkingTypeError
           | Aware t \<Rightarrow>
               if \<bar>t - located\<bar> > maximum_location_age
               then Inr (indeterminate CS_LOCATION_STALE RC_DECISION_INDETERMINATE
                 ''Location is too old to make a parking decision.'' t None)
               else evaluate_at tzdb zones longitude latitude has_resident_permit t))"


section \<open>Lemmas\<close>

lemma indeterminate_sel [simp]:
  "outcome (indeterminate c k m t z) = OUT_INDETERMINATE"
  "coverage (indeterminate c k m t z) = c"
  "decision_zone (indeterminate c k m t z) = z"
  "evaluated_at (indeterminate c k m t z) = t"
  "length (reasons (indeterminate c k m t z)) = 1"
  by (simp_all add: indeterminate_def)

lemma verified_sel [simp]:
  "outcome (verified out k m z t r) = out"
  "coverage (verified out k m z t r) = VERIFIED_COVERAGE"
  "decision_zone (verified out k m z t r) = Some z"
  "decision_rule_id (verified out k m z t r) = r"
  "evaluated_at (verified out k m z t r) = t"
  "length (reasons (verified out k m z t r)) = 1"
  by (simp_all add: verified_def)

text \<open>A rule takes part in the decision when its zone is known, it is valid and it applies.\<close>

definition rule_active :: "(string \<Rightarrow> tz_lookup) \<Rightarrow> instant \<Rightarrow> temporal_rule \<Rightarrow> bool" where
  "rule_active tzdb t r =
     (case tzdb (rule_timezone r) of
        TzFound off \<Rightarrow> \<not> rule_invalid r \<and> rule_applies r t (local_wall off t) = Some True
      | _ \<Rightarrow> False)"

definition rule_verifiable :: "(string \<Rightarrow> tz_lookup) \<Rightarrow> temporal_rule \<Rightarrow> bool" where
  "rule_verifiable tzdb r =
     (case tzdb (rule_timezone r) of TzFound off \<Rightarrow> \<not> rule_invalid r | _ \<Rightarrow> False)"

text \<open>The windows of a rule can be compared with the local time; those of a rule without offsets
  always can.\<close>

definition rule_comparable :: "(string \<Rightarrow> tz_lookup) \<Rightarrow> instant \<Rightarrow> temporal_rule \<Rightarrow> bool" where
  "rule_comparable tzdb t r =
     (case tzdb (rule_timezone r) of TzFound off \<Rightarrow> rule_applies r t (local_wall off t) \<noteq> None | _ \<Rightarrow> True)"

lemma in_window_naive:
  "time_naive v \<Longrightarrow> time_naive s \<Longrightarrow> time_naive e \<Longrightarrow> in_window v s e =
     Some (if time_key s < time_key e then time_key s \<le> time_key v \<and> time_key v < time_key e
           else time_key s \<le> time_key v \<or> time_key v < time_key e)"
  by (simp add: in_window_def time_less_def time_le_def split: bool.splits)

lemma any_window_naive: "time_naive v \<Longrightarrow> list_all window_naive ws \<Longrightarrow> any_window v ws \<noteq> None"
  by (induction ws) (auto simp: window_naive_def in_window_naive split: bool.splits)

lemma rule_applies_naive: "schedule_naive r \<Longrightarrow> rule_applies r moment wall \<noteq> None"
  using any_window_naive [of "local_time wall" "not_applicable_windows r"]
  by (auto simp: rule_applies_def schedule_naive_def window_naive_def in_window_naive local_time_def
      split: option.splits bool.splits)

lemma naive_comparable: "schedule_naive r \<Longrightarrow> rule_comparable tzdb t r"
  using rule_applies_naive unfolding rule_comparable_def by (auto split: tz_lookup.splits)

text \<open>A window with an offset cannot be compared, whatever its times and the local time.\<close>

lemma in_window_aware: "\<not> time_naive s \<or> \<not> time_naive e \<Longrightarrow> in_window (local_time w) s e = None"
  by (auto simp: in_window_def time_less_def time_le_def local_time_def split: bool.splits)

lemma active_rules_Inr:
  "active_rules tzdb zone t rs acc = Inr active \<longleftrightarrow>
     list_all (rule_verifiable tzdb) rs \<and> list_all (rule_comparable tzdb t) rs
       \<and> active = acc @ filter (rule_active tzdb t) rs"
proof (induction rs arbitrary: acc)
  case (Cons r rs)
  then show ?case
    by (cases "tzdb (rule_timezone r)")
      (auto simp: rule_active_def rule_verifiable_def rule_comparable_def split: option.splits bool.splits)
qed auto

lemma active_rules_early:
  "active_rules tzdb zone t rs acc = Inl (Inr d) \<Longrightarrow>
     outcome d = OUT_INDETERMINATE \<and> length (reasons d) = 1"
  by (induction rs arbitrary: acc) (auto split: tz_lookup.splits if_splits option.splits bool.splits)

lemma active_rules_error:
  "active_rules tzdb zone t rs acc = Inl (Inl e) \<Longrightarrow>
     \<exists>r \<in> set rs. tzdb (rule_timezone r) = TzInvalidKey \<or> \<not> rule_comparable tzdb t r"
  by (induction rs arbitrary: acc)
    (fastforce simp: rule_comparable_def split: tz_lookup.splits if_splits option.splits bool.splits)+

lemma temporal_decision_verified:
  assumes "temporal_decision tzdb zone t = Inr (Some d)" and "outcome d \<noteq> OUT_INDETERMINATE"
  obtains r where "first_max (\<lambda>r. effect_priority (effect r))
      (filter (rule_active tzdb t) (z_temporal_rules zone)) = Some r"
    and "d = verified (effect_outcome (effect r)) OFFICIAL_RESTRICTION
      ''Official current parking schedule applies.'' zone t (Some (rule_id r))"
    and "list_all (rule_verifiable tzdb) (z_temporal_rules zone)"
proof (cases "active_rules tzdb zone t (z_temporal_rules zone) []")
  case (Inl x)
  with assms show ?thesis
    by (cases x) (auto simp: temporal_decision_def dest: active_rules_early split: if_splits)
next
  case (Inr active)
  then have "list_all (rule_verifiable tzdb) (z_temporal_rules zone)"
    and "active = filter (rule_active tzdb t) (z_temporal_rules zone)"
    by (simp_all only: active_rules_Inr append_Nil)
  with Inr assms that show ?thesis
    by (auto simp: temporal_decision_def split: if_splits option.splits)
qed

lemma temporal_decision_no_raise:
  assumes "\<forall>r \<in> set (z_temporal_rules zone). tzdb (rule_timezone r) \<noteq> TzInvalidKey \<and> schedule_naive r"
  shows "\<exists>d. temporal_decision tzdb zone t = Inr d \<and> (\<forall>x. d = Some x \<longrightarrow> length (reasons x) = 1)"
proof (cases "active_rules tzdb zone t (z_temporal_rules zone) []")
  case (Inl x)
  then have "\<nexists>e. x = Inl e" using assms active_rules_error naive_comparable by blast
  with Inl show ?thesis
    by (cases x) (auto simp: temporal_decision_def dest: active_rules_early)
qed (auto simp: temporal_decision_def split: option.splits)

lemma from_verified_zone_sel [simp]:
  "outcome (from_verified_zone z p t) \<noteq> OUT_INDETERMINATE"
  "coverage (from_verified_zone z p t) = VERIFIED_COVERAGE"
  "decision_zone (from_verified_zone z p t) = Some z"
  "length (reasons (from_verified_zone z p t)) = 1"
  by (simp_all add: from_verified_zone_def)

lemma temporal_decision_evidence:
  assumes "temporal_decision tzdb zone t = Inr (Some d)" and "outcome d \<noteq> OUT_INDETERMINATE"
  shows "coverage d = VERIFIED_COVERAGE \<and> decision_zone d = Some zone"
  using assms by (auto elim!: temporal_decision_verified)

lemma evaluate_at_evidence:
  assumes "evaluate_at tzdb zones lon lat permit t = Inr d" and "outcome d \<noteq> OUT_INDETERMINATE"
  shows "\<exists>z. at_location zones lon lat False = Some z \<and> decision_zone d = Some z
     \<and> z_provenance z = OFFICIAL \<and> \<not> flt (z_confidence z) (Fin (9/10))
     \<and> coverage d = VERIFIED_COVERAGE"
  using assms unfolding evaluate_at_def map_decision_def
  by (auto split: if_splits option.splits sum.splits dest!: temporal_decision_evidence)

section \<open>Properties of the decision\<close>

text \<open>
  The decision is fail-closed. Any outcome other than \<open>INDETERMINATE\<close> requires consent, an
  accuracy not above 20 metres, an aware location timestamp at most two minutes from the
  evaluation time, and a current zone at the location whose evidence is official and whose
  confidence is not below 0.9; the decision carries that zone and verified coverage.
\<close>

lemma decision_fail_closed:
  assumes "evaluate tzdb zones lon lat accuracy located consent permit now clock = Inr d"
    and "outcome d \<noteq> OUT_INDETERMINATE"
  shows "consent \<and> \<not> flt (Fin 20) accuracy
    \<and> (\<exists>loc t. located = Aware loc
         \<and> (case now of None \<Rightarrow> t = clock | Some n \<Rightarrow> n = Aware t) \<and> \<bar>t - loc\<bar> \<le> 2 * minute)
    \<and> (\<exists>z. at_location zones lon lat False = Some z \<and> decision_zone d = Some z
         \<and> z_provenance z = OFFICIAL \<and> \<not> flt (z_confidence z) (Fin (9/10))
         \<and> coverage d = VERIFIED_COVERAGE)"
  using assms
  by (auto simp: evaluate_def Let_def maximum_accuracy_meters_def maximum_location_age_def
      split: if_splits option.splits pydatetime.splits dest: evaluate_at_evidence)

definition sample_repository :: zone_repository where
  "sample_repository = \<lparr>in_viewport = (\<lambda>_ _ _ _ _. [sample_zone]),
     at_location = (\<lambda>_ _ _. Some sample_zone)\<rparr>"

lemma sample_evaluation:
  "evaluate (\<lambda>_. TzNotFound) sample_repository (Fin 1) (Fin 2) (Fin 5) (Aware 0) True False
     None minute =
   Inr (verified OUT_PARK OFFICIAL_RESTRICTION
     ''Official parking evidence is current for this location.'' sample_zone minute None)"
  by (simp add: evaluate_def evaluate_at_def sample_repository_def sample_zone_def Let_def
      maximum_accuracy_meters_def maximum_location_age_def map_decision_def coordinates_ok_def
      temporal_decision_def from_verified_zone_def)

lemma decision_fail_closed_witness:
  "\<exists>z. at_location sample_repository (Fin 1) (Fin 2) False = Some z \<and> z_provenance z = OFFICIAL"
  using decision_fail_closed [OF sample_evaluation] by auto

text \<open>
  The evaluation returns a decision, with exactly one reason, for every coordinate in range, every
  location input and every aware evaluation time, as long as no temporal rule of the zone names a key
  the time zone database refuses as malformed or has a window with a UTC offset.
\<close>

lemma evaluate_returns:
  assumes "coordinates_ok lon lat"
    and "case now of None \<Rightarrow> True | Some n \<Rightarrow> is_aware n"
    and "\<forall>z r. at_location zones lon lat False = Some z \<longrightarrow> r \<in> set (z_temporal_rules z) \<longrightarrow>
           tzdb (rule_timezone r) \<noteq> TzInvalidKey \<and> schedule_naive r"
  shows "\<exists>d. evaluate tzdb zones lon lat accuracy located consent permit now clock = Inr d
    \<and> length (reasons d) = 1"
proof -
  have *: "\<exists>d. evaluate_at tzdb zones lon lat permit t = Inr d \<and> length (reasons d) = 1" for t
  proof (cases "at_location zones lon lat False")
    case None
    with assms(1) show ?thesis
      by (auto simp: evaluate_at_def map_decision_def map_expired_decision_def split: option.splits)
  next
    case (Some z)
    with assms(3) obtain td where "temporal_decision tzdb z t = Inr td"
      and "\<forall>x. td = Some x \<longrightarrow> length (reasons x) = 1"
      using temporal_decision_no_raise by blast
    with Some assms(1) show ?thesis
      by (auto simp: evaluate_at_def map_decision_def split: option.splits)
  qed
  from assms(2) obtain t where "(case now of Some t \<Rightarrow> t | None \<Rightarrow> Aware clock) = Aware t"
    by (cases now) (auto elim: is_aware.elims)
  with * show ?thesis by (auto simp: evaluate_def Let_def split: pydatetime.splits)
qed

lemma evaluate_returns_witness:
  "\<exists>d. evaluate (\<lambda>_. TzNotFound) sample_repository (Fin 1) (Fin 2) (Fin 5) (Aware 0) True False
     None 5 = Inr d \<and> length (reasons d) = 1"
  by (rule evaluate_returns) (simp_all add: coordinates_ok_def sample_repository_def sample_zone_def)

text \<open>
  C1: overlapping temporal rules are resolved conservatively. When a schedule decides, the
  decision names an active rule of the zone, carries that rule's effect as its outcome, and no
  active rule of the zone is stricter; in particular one active \<open>DO_NOT_PARK\<close> rule forces
  \<open>DO_NOT_PARK\<close>, and no rule of the zone was unverifiable.
\<close>

theorem temporal_conservative:
  assumes "temporal_decision tzdb zone t = Inr (Some d)" and "outcome d \<noteq> OUT_INDETERMINATE"
  shows "(\<exists>r \<in> set (z_temporal_rules zone). rule_active tzdb t r
            \<and> decision_rule_id d = Some (rule_id r) \<and> outcome d = effect_outcome (effect r)
            \<and> (\<forall>r' \<in> set (z_temporal_rules zone). rule_active tzdb t r' \<longrightarrow>
                  effect_priority (effect r') \<le> effect_priority (effect r)))
    \<and> list_all (rule_verifiable tzdb) (z_temporal_rules zone)"
proof -
  from assms obtain r where r: "first_max (\<lambda>r. effect_priority (effect r))
      (filter (rule_active tzdb t) (z_temporal_rules zone)) = Some r"
    and d: "d = verified (effect_outcome (effect r)) OFFICIAL_RESTRICTION
      ''Official current parking schedule applies.'' zone t (Some (rule_id r))"
    and all: "list_all (rule_verifiable tzdb) (z_temporal_rules zone)"
    by (rule temporal_decision_verified)
  from first_max_in [OF r] first_max_ge [OF r] d all show ?thesis by auto
qed


definition sample_rule :: temporal_rule where
  "sample_rule = \<lparr>rule_id = ''r1'', effect = EFF_PARK, weekdays = [3],
     window = \<lparr>starts_at = NaiveTime (8 * hour), ends_at = NaiveTime (18 * hour)\<rparr>, rule_timezone = ''UTC'',
     valid_from = Aware 0, valid_until = Some (Aware (7 * day)), exception_dates = [],
     not_applicable_windows = [], special_restrictions = []\<rparr>"

abbreviation utc_only :: "string \<Rightarrow> tz_lookup" where
  "utc_only k \<equiv> (if k = ''UTC'' then TzFound (\<lambda>_. 0) else TzNotFound)"

lemma sample_rule_active: "rule_active utc_only (9 * hour) sample_rule"
  by (simp add: rule_active_def sample_rule_def rule_invalid_def rule_applies_def local_wall_def
      local_weekday_def local_date_def local_time_def in_window_naive time_eq_def)

lemma sample_temporal:
  "temporal_decision utc_only (sample_zone\<lparr>z_temporal_rules := [sample_rule]\<rparr>) (9 * hour) =
   Inr (Some (verified OUT_PARK OFFICIAL_RESTRICTION
     ''Official current parking schedule applies.''
     (sample_zone\<lparr>z_temporal_rules := [sample_rule]\<rparr>) (9 * hour) (Some ''r1'')))"
  using sample_rule_active
  by (simp add: temporal_decision_def rule_active_def sample_rule_def outcome_of_value_def)

theorem temporal_conservative_witness:
  "\<exists>r. rule_active utc_only (9 * hour) r \<and> rule_id r = ''r1''"
  using temporal_conservative [OF sample_temporal] by auto

fun outcome_rank :: "decision_outcome \<Rightarrow> nat" where
  "outcome_rank OUT_PARK = 0"
| "outcome_rank OUT_CAUTION = 1"
| "outcome_rank OUT_DO_NOT_PARK = 2"
| "outcome_rank OUT_INDETERMINATE = 3"

text \<open>
  Without a schedule the zone decides alone: \<open>DO_NOT_PARK\<close> exactly for private property, a
  resident-only zone without a permit, or a towing hotspot; otherwise \<open>PARK\<close> exactly from score
  75, and \<open>CAUTION\<close> below it. Holding a permit never makes the outcome stricter.
\<close>

lemma static_decision_table:
  "(outcome (from_verified_zone z permit t) = OUT_DO_NOT_PARK) =
     (z_type z = PRIVATE_PROPERTY \<or> (z_type z = RESIDENT_ONLY \<and> \<not> permit)
      \<or> z_towing_hotspot z \<or> z_type z = ZT_TOWING_HOTSPOT)
   \<and> (outcome (from_verified_zone z permit t) = OUT_PARK) =
     (\<not> (z_type z = PRIVATE_PROPERTY \<or> (z_type z = RESIDENT_ONLY \<and> \<not> permit)
      \<or> z_towing_hotspot z \<or> z_type z = ZT_TOWING_HOTSPOT) \<and> 75 \<le> z_parking_score z)
   \<and> outcome_rank (outcome (from_verified_zone z True t))
      \<le> outcome_rank (outcome (from_verified_zone z False t))"
  by (simp add: from_verified_zone_def)

lemma active_rule_listed: "rule_active tzdb t r \<Longrightarrow> active_rules tzdb z t [r] [] = Inr [r]"
  by (auto simp: active_rules_Inr rule_active_def rule_verifiable_def rule_comparable_def split: tz_lookup.splits)

text \<open>
  An active schedule is consulted before the static hard stops. For an official private
  property zone whose only rule is an active \<open>PARK\<close> rule the evaluation answers \<open>PARK\<close>,
  with or without a resident permit.
\<close>

lemma schedule_precedes_private_property_stop:
  assumes "coordinates_ok lon lat" and "at_location zones lon lat False = Some z"
    and "z_provenance z = OFFICIAL" and "\<not> flt (z_confidence z) (Fin (9/10))"
    and "z_type z = PRIVATE_PROPERTY"
    and "z_temporal_rules z = [r]" and "rule_active tzdb t r" and "effect r = EFF_PARK"
  shows "\<exists>d. evaluate_at tzdb zones lon lat permit t = Inr d \<and> outcome d = OUT_PARK
    \<and> decision_rule_id d = Some (rule_id r)"
proof -
  from assms(7) have "active_rules tzdb z t [r] [] = Inr [r]"
    by (rule active_rule_listed)
  with assms show ?thesis
    by (simp add: evaluate_at_def map_decision_def temporal_decision_def outcome_of_value_def)
qed

lemma schedule_precedes_private_property_stop_witness:
  "\<exists>d. evaluate_at utc_only (sample_repository\<lparr>at_location :=
       (\<lambda>_ _ _. Some (sample_zone\<lparr>z_type := PRIVATE_PROPERTY, z_temporal_rules := [sample_rule]\<rparr>))\<rparr>)
     (Fin 1) (Fin 2) False (9 * hour) = Inr d \<and> outcome d = OUT_PARK
     \<and> decision_rule_id d = Some (rule_id sample_rule)"
  by (rule schedule_precedes_private_property_stop
        [where z = "sample_zone\<lparr>z_type := PRIVATE_PROPERTY, z_temporal_rules := [sample_rule]\<rparr>"])
     (simp_all only: sample_rule_active, simp_all add: coordinates_ok_def sample_repository_def
       sample_zone_def sample_rule_def)

text \<open>
  A window is the circular interval of the clock: a time of day lies in it exactly when its
  distance after the start, around midnight if need be, is below the length of the window.
\<close>

lemma in_window_circular:
  assumes "0 \<le> v" "v < day" and "0 \<le> s" "s < day" and "0 \<le> e" "e < day" and "s \<noteq> e"
  shows "in_window (NaiveTime v) (NaiveTime s) (NaiveTime e) = Some ((v - s) mod day < (e - s) mod day)"
proof -
  have wrap: "(x - s) mod day = (if s \<le> x then x - s else x - s + day)"
    if "0 \<le> x" "x < day" for x
  proof (cases "s \<le> x")
    case True
    then show ?thesis using that assms(3) by (simp add: mod_pos_pos_trivial)
  next
    case False
    then have "(x - s + day) mod day = x - s + day"
      using that assms(3,4) by (intro mod_pos_pos_trivial) auto
    with False show ?thesis by (simp add: mod_add_self2)
  qed
  show ?thesis using assms by (auto simp: in_window_naive wrap)
qed

lemma in_window_circular_witness:
  "in_window (NaiveTime (23 * hour)) (NaiveTime (22 * hour)) (NaiveTime (6 * hour))
     = Some ((23 * hour - 22 * hour) mod day < (6 * hour - 22 * hour) mod day)"
  by (rule in_window_circular) simp_all

text \<open>
  The map service passes only well-formed viewports on and bounds the number of zones it
  asks for: the repository is queried with a limit between 1 and 1000 and with bounds inside
  the WGS84 ranges, none of them NaN or infinite; any other viewport is refused.
\<close>

lemma viewport_guards:
  "(\<exists>rs. viewport zones w s e n limit = Inr rs) = viewport_ok w s e n
   \<and> (viewport_ok w s e n \<longrightarrow>
        (\<exists>k wr sr er nr. 1 \<le> k \<and> k \<le> 1000 \<and> (1 \<le> limit \<and> limit \<le> 1000 \<longrightarrow> k = limit)
          \<and> w = Fin wr \<and> s = Fin sr \<and> e = Fin er \<and> n = Fin nr
          \<and> -180 \<le> wr \<and> wr < er \<and> er \<le> 180 \<and> -90 \<le> sr \<and> sr < nr \<and> nr \<le> 90
          \<and> viewport zones w s e n limit = Inr (in_viewport zones w s e n k)))"
proof -
  have fin: "\<exists>wr sr er nr. w = Fin wr \<and> s = Fin sr \<and> e = Fin er \<and> n = Fin nr
      \<and> -180 \<le> wr \<and> wr < er \<and> er \<le> 180 \<and> -90 \<le> sr \<and> sr < nr \<and> nr \<le> 90"
    if "viewport_ok w s e n"
    using that by (cases w; cases s; cases e; cases n) (auto simp: viewport_ok_def fle_def)
  define k where "k = min (max limit 1) 1000"
  have k: "1 \<le> k" "k \<le> 1000" "1 \<le> limit \<and> limit \<le> 1000 \<longrightarrow> k = limit"
    by (auto simp: k_def)
  have eq: "viewport zones w s e n limit = (if viewport_ok w s e n
      then Inr (in_viewport zones w s e n k)
      else Inl (InvalidViewportError ''invalid viewport bounds''))"
    by (simp add: viewport_def k_def Let_def)
  with fin k show ?thesis by (cases "viewport_ok w s e n") (simp, blast, simp)
qed

lemma viewport_guards_witness:
  "viewport_ok (Fin 0) (Fin 0) (Fin 1) (Fin 1)
   \<and> (\<exists>rs. viewport sample_repository (Fin 0) (Fin 0) (Fin 1) (Fin 1) 9999 = Inr rs)"
  using viewport_guards [of sample_repository "Fin 0" "Fin 0" "Fin 1" "Fin 1" 9999]
  by (simp add: viewport_ok_def)

end
