(* ===== verification/Parking_Source.thy ===== *)
theory Parking_Source
  imports Parking_Decision "HOL-Library.Product_Lexorder"
begin

text \<open>
  The repository interface behind the parking decision, as a locale, and the PostGIS adapter
  \<open>app/modules/parking/sql_repository.py\<close> that provides it. A table row is a geometry with the
  zone decoded from its columns; the spatial predicates \<open>ST_Covers\<close> and \<open>ST_Intersects\<close> are
  parameters. Rows are in the order the scan delivers them, which decides ties.
\<close>

section \<open>The interface\<close>

text \<open>Official evidence first, then community, then predictions; worst score first.\<close>

fun provenance_priority :: "provenance \<Rightarrow> nat" where
  "provenance_priority OFFICIAL = 0"
| "provenance_priority COMMUNITY_VERIFIED = 1"
| "provenance_priority AI_PREDICTION = 2"
| "provenance_priority ESTIMATED = 3"

definition zone_key :: "parking_zone \<Rightarrow> nat \<times> int" where
  "zone_key z = (provenance_priority (z_provenance z), z_parking_score z)"

locale zone_source =
  fixes repo :: "instant \<Rightarrow> zone_repository"
    and holds :: "parking_zone \<Rightarrow> pyfloat \<Rightarrow> pyfloat \<Rightarrow> bool"
  assumes served: "at_location (repo now) lon lat False = Some z \<Longrightarrow>
      holds z lon lat \<and> zone_current now z"
    and served_any: "at_location (repo now) lon lat True = Some z \<Longrightarrow> holds z lon lat"
    and complete: "at_location (repo now) lon lat False = None \<Longrightarrow> holds z lon lat \<Longrightarrow>
      \<not> zone_current now z"
    and preferred: "at_location (repo now) lon lat False = Some z \<Longrightarrow> holds z' lon lat \<Longrightarrow>
      zone_current now z' \<Longrightarrow> zone_key z \<le> zone_key z'"
begin

lemma stale_means_no_current:
  assumes "evaluate_at tzdb (repo now) lon lat permit t = Inr d" and "coverage d = CS_STALE_DATA"
  shows "(\<exists>z. holds z lon lat \<and> decision_zone d = Some z) \<and> (\<forall>z. holds z lon lat \<longrightarrow> \<not> zone_current now z)"
proof -
  have td: "coverage x = VERIFIED_COVERAGE" if "temporal_decision tzdb z t = Inr (Some x)" for z x
  proof (cases "outcome x = OUT_INDETERMINATE")
    case True
    have early: "active_rules tzdb z t rs acc = Inl (Inr y) \<Longrightarrow> coverage y = VERIFIED_COVERAGE"
      for rs acc y
      by (induction rs arbitrary: acc) (auto split: tz_lookup.splits if_splits option.splits bool.splits)
    from that show ?thesis
      by (auto simp: temporal_decision_def dest: early split: if_splits sum.splits option.splits)
  qed (use temporal_decision_evidence [OF that] in simp)
  from assms have "at_location (repo now) lon lat False = None"
    and "\<exists>z. at_location (repo now) lon lat True = Some z \<and> decision_zone d = Some z"
    by (auto simp: evaluate_at_def map_decision_def map_expired_decision_def
        split: if_splits option.splits sum.splits dest: td)
  then show ?thesis using served_any complete by blast
qed

lemma official_evidence_wins:
  assumes "at_location (repo now) lon lat False = Some z"
    and "holds z' lon lat" "zone_current now z'" "z_provenance z' = OFFICIAL"
  shows "z_provenance z = OFFICIAL \<and> z_parking_score z \<le> z_parking_score z'"
proof -
  from preferred [OF assms(1-3)] assms(4) have "provenance_priority (z_provenance z) = 0"
    and "z_parking_score z \<le> z_parking_score z'"
    by (auto simp: zone_key_def less_eq_prod_def)
  then show ?thesis by (cases "z_provenance z") auto
qed

lemma static_park_scores:
  assumes "evaluate_at tzdb (repo now) lon lat permit t = Inr d"
    and "outcome d = OUT_PARK" and "decision_rule_id d = None"
    and "holds z' lon lat" "zone_current now z'" "z_provenance z' = OFFICIAL"
  shows "75 \<le> z_parking_score z'"
proof -
  from evaluate_at_evidence [OF assms(1)] assms(2) obtain z
    where z: "at_location (repo now) lon lat False = Some z" by auto
  have "75 \<le> z_parking_score z"
    using assms(1-3) z
    by (auto simp: evaluate_at_def map_decision_def from_verified_zone_def
        split: if_splits sum.splits option.splits elim: temporal_decision_verified)
  with official_evidence_wins [OF z assms(4-6)] show ?thesis by simp
qed

end

section \<open>SqlParkingZoneRepository\<close>

type_synonym 'g zone_row = "'g \<times> parking_zone"

definition sql_in_viewport ::
  "('g \<Rightarrow> pyfloat \<Rightarrow> pyfloat \<Rightarrow> pyfloat \<Rightarrow> pyfloat \<Rightarrow> bool) \<Rightarrow> instant \<Rightarrow> 'g zone_row list \<Rightarrow>
     pyfloat \<Rightarrow> pyfloat \<Rightarrow> pyfloat \<Rightarrow> pyfloat \<Rightarrow> int \<Rightarrow> parking_zone list" where
  "sql_in_viewport intersects now rows west south east north limit =
     slice_to limit (sort_key z_parking_score
       (map snd (filter (\<lambda>(g, z). intersects g west south east north \<and> zone_current now z) rows)))"

definition sql_at_location ::
  "('g \<Rightarrow> pyfloat \<Rightarrow> pyfloat \<Rightarrow> bool) \<Rightarrow> instant \<Rightarrow> 'g zone_row list \<Rightarrow>
     pyfloat \<Rightarrow> pyfloat \<Rightarrow> bool \<Rightarrow> parking_zone option" where
  "sql_at_location covers now rows longitude latitude include_expired =
     (case take 1 (sort_key zone_key (map snd (filter (\<lambda>(g, z). covers g longitude latitude
             \<and> (include_expired \<or> zone_current now z)) rows))) of
        [] \<Rightarrow> None
      | z # _ \<Rightarrow> Some z)"

definition sql_zone_repository ::
  "('g \<Rightarrow> pyfloat \<Rightarrow> pyfloat \<Rightarrow> bool) \<Rightarrow> ('g \<Rightarrow> pyfloat \<Rightarrow> pyfloat \<Rightarrow> pyfloat \<Rightarrow> pyfloat \<Rightarrow> bool) \<Rightarrow>
     'g zone_row list \<Rightarrow> instant \<Rightarrow> zone_repository" where
  "sql_zone_repository covers intersects rows now =
     \<lparr>in_viewport = sql_in_viewport intersects now rows,
      at_location = sql_at_location covers now rows\<rparr>"

lemma head_sort_key:
  assumes "take 1 (sort_key f xs) = y # ys"
  shows "y \<in> set xs \<and> (\<forall>x \<in> set xs. f y \<le> f x)"
proof -
  from assms obtain zs where eq: "sort_key f xs = y # zs" by (cases "sort_key f xs") auto
  then have "set xs = set (y # zs)" by (metis set_sort)
  moreover have "sorted (map f (y # zs))" by (metis eq sorted_sort_key)
  ultimately show ?thesis by auto
qed

lemma sql_at_location_None:
  "sql_at_location covers now rows lon lat inc = None \<longleftrightarrow>
     (\<forall>(g, z) \<in> set rows. covers g lon lat \<longrightarrow> \<not> inc \<and> \<not> zone_current now z)"
proof -
  let ?c = "filter (\<lambda>(g, z). covers g lon lat \<and> (inc \<or> zone_current now z)) rows"
  have "take 1 (sort_key zone_key xs) = [] \<longleftrightarrow> xs = []" for xs
    by (cases "sort_key zone_key xs") (auto dest: arg_cong [of _ _ length])
  then have "sql_at_location covers now rows lon lat inc = None \<longleftrightarrow> ?c = []"
    unfolding sql_at_location_def by (metis (no_types, lifting) list.case list.exhaust
      list.map_disc_iff option.distinct(1))
  then show ?thesis by (auto simp: filter_empty_conv)
qed

lemma sql_at_location_Some:
  assumes "sql_at_location covers now rows lon lat inc = Some z"
  shows "(\<exists>g. (g, z) \<in> set rows \<and> covers g lon lat) \<and> (inc \<or> zone_current now z)
     \<and> (\<forall>(g, z') \<in> set rows. covers g lon lat \<and> (inc \<or> zone_current now z') \<longrightarrow>
          zone_key z \<le> zone_key z')"
proof -
  from assms obtain zs where "take 1 (sort_key zone_key (map snd (filter (\<lambda>(g, z).
      covers g lon lat \<and> (inc \<or> zone_current now z)) rows))) = z # zs"
    by (auto simp: sql_at_location_def split: list.splits)
  from head_sort_key [OF this] show ?thesis by force
qed

interpretation sql_zones: zone_source
  "sql_zone_repository covers intersects rows"
  "\<lambda>z lon lat. \<exists>g. (g, z) \<in> set rows \<and> covers g lon lat"
  for covers intersects rows
proof (unfold_locales, goal_cases)
  case (1 now lon lat z)
  then show ?case by (auto simp: sql_zone_repository_def dest: sql_at_location_Some)
next
  case (2 now lon lat z)
  then show ?case by (auto simp: sql_zone_repository_def dest: sql_at_location_Some)
next
  case (3 now lon lat z)
  then show ?case by (auto simp: sql_zone_repository_def sql_at_location_None)
next
  case (4 now lon lat z z')
  then show ?case by (auto simp: sql_zone_repository_def dest!: sql_at_location_Some)
qed

section \<open>Properties\<close>

text \<open>
  C2: over the PostGIS repository a static \<open>PARK\<close> answer speaks for every official zone there:
  when the evaluation answers \<open>PARK\<close> without a schedule, every current official zone that
  covers the point has a score of at least 75, however zones overlap and rows are ordered.
\<close>

theorem sql_static_park_all_official:
  assumes "evaluate_at tzdb (sql_zone_repository covers intersects rows now) lon lat permit t = Inr d"
    and "outcome d = OUT_PARK" and "decision_rule_id d = None"
    and "(g, z) \<in> set rows" and "covers g lon lat" and "zone_current now z"
    and "z_provenance z = OFFICIAL"
  shows "75 \<le> z_parking_score z"
  using sql_zones.static_park_scores [OF assms(1-3) _ assms(6,7)] assms(4,5) by blast

abbreviation sample_rows :: "unit zone_row list" where
  "sample_rows \<equiv> [((), sample_zone\<lparr>z_provenance := ESTIMATED, z_parking_score := 5\<rparr>), ((), sample_zone)]"

lemma sample_sql_at_location:
  "sql_at_location (\<lambda>_ _ _. True) 0 sample_rows lon lat False = Some sample_zone"
  by (simp add: sql_at_location_def sample_zone_def zone_current_def zone_key_def)

theorem sql_static_park_all_official_witness: "75 \<le> z_parking_score sample_zone"
proof -
  have "evaluate_at utc_only (sql_zone_repository (\<lambda>_ _ _. True) (\<lambda>_ _ _ _ _. True) sample_rows 0)
      (Fin 1) (Fin 2) False 0 = Inr (from_verified_zone sample_zone False 0)"
    by (simp add: evaluate_at_def map_decision_def coordinates_ok_def sql_zone_repository_def
        sample_sql_at_location) (simp add: sample_zone_def temporal_decision_def)
  from sql_static_park_all_official [OF this, of "()" sample_zone]
  show ?thesis by (simp add: from_verified_zone_def sample_zone_def zone_current_def verified_def)
qed

text \<open>
  The answer \<open>STALE_DATA\<close> is given only when evidence for the point is stored and none of
  it is current; a zone that has not expired is never reported as stale.
\<close>

lemma sql_stale_only_without_current:
  assumes "evaluate_at tzdb (sql_zone_repository covers intersects rows now) lon lat permit t = Inr d"
    and "coverage d = CS_STALE_DATA"
  shows "(\<exists>g z. (g, z) \<in> set rows \<and> covers g lon lat \<and> decision_zone d = Some z)
    \<and> (\<forall>g z. (g, z) \<in> set rows \<and> covers g lon lat \<longrightarrow> \<not> zone_current now z)"
  using sql_zones.stale_means_no_current [OF assms] by blast

lemma sql_stale_only_without_current_witness:
  "\<not> zone_current 9 (sample_zone\<lparr>z_expires_at := Some 5\<rparr>)"
proof -
  let ?z = "sample_zone\<lparr>z_expires_at := Some 5\<rparr>"
  have "evaluate_at utc_only (sql_zone_repository (\<lambda>_ _ _. True) (\<lambda>_ _ _ _ _. True) [((), ?z)] 9)
      (Fin 1) (Fin 2) False 9 = Inr (indeterminate CS_STALE_DATA RC_STALE_DATA
        ''Parking evidence for this location is no longer current.'' 9 (Some ?z))"
    by (simp add: evaluate_at_def map_decision_def map_expired_decision_def coordinates_ok_def
        sql_zone_repository_def sql_at_location_def zone_current_def)
  from sql_stale_only_without_current [OF this] show ?thesis by auto
qed

text \<open>
  A viewport answer lists only current zones that intersect the viewport, worst score
  first, and never more of them than the limit asked for.
\<close>

lemma sql_viewport_sorted_bounded:
  assumes "0 \<le> limit" and "zs = sql_in_viewport intersects now rows west south east north limit"
  shows "sorted (map z_parking_score zs) \<and> int (length zs) \<le> limit
    \<and> (\<forall>z \<in> set zs. zone_current now z \<and> (\<exists>g. (g, z) \<in> set rows \<and> intersects g west south east north))"
  using assms by (auto simp: sql_in_viewport_def sorted_map_take dest!: in_set_takeD) blast

lemma sql_viewport_sorted_bounded_witness:
  "sorted (map z_parking_score
     (sql_in_viewport (\<lambda>_ _ _ _ _. True) 0 sample_rows (Fin 0) (Fin 0) (Fin 1) (Fin 1) 2))"
  using sql_viewport_sorted_bounded [of 2, OF _ refl] by fastforce

end
