(* ===== verification/Billing.thy ===== *)
theory Billing
  imports Prelude
begin

text \<open>
  \<open>app/modules/billing\<close>: subscription records, the reconciliation of verified purchases and
  the entitlement evaluation (\<open>service.py\<close>), over the repository port of \<open>domain.py\<close>. The
  in-memory (\<open>repositories.py\<close>) and PostgreSQL (\<open>sql_repository.py\<close>) adapters are in
  \<open>Billing_Adapters\<close>. HMAC-SHA-256 and \<open>uuid5\<close> are parameters; the store verifier
  is a parameter that returns, refuses or raises.
\<close>

section \<open>Data\<close>

datatype store_platform = APPLE_APP_STORE | GOOGLE_PLAY
datatype entitlement_code = PREMIUM
datatype subscription_status = SUB_ACTIVE | GRACE_PERIOD | PAUSED | SUB_EXPIRED | REVOKED
datatype store_environment = SANDBOX | PRODUCTION

fun platform_value :: "store_platform \<Rightarrow> string" where
  "platform_value APPLE_APP_STORE = ''apple_app_store''"
| "platform_value GOOGLE_PLAY = ''google_play''"

fun entitlement_value :: "entitlement_code \<Rightarrow> string" where
  "entitlement_value PREMIUM = ''premium''"

fun status_value :: "subscription_status \<Rightarrow> string" where
  "status_value SUB_ACTIVE = ''active''"
| "status_value GRACE_PERIOD = ''grace_period''"
| "status_value PAUSED = ''paused''"
| "status_value SUB_EXPIRED = ''expired''"
| "status_value REVOKED = ''revoked''"

fun environment_value :: "store_environment \<Rightarrow> string" where
  "environment_value SANDBOX = ''sandbox''"
| "environment_value PRODUCTION = ''production''"

record billing_product =
  bp_platform :: store_platform
  bp_product_id :: string
  bp_entitlement :: entitlement_code

record verification_request =
  vr_user_id :: uuid
  vr_platform :: store_platform
  vr_product_id :: string
  vr_signed_payload :: string

record verified_purchase =
  vp_user_id :: uuid
  vp_platform :: store_platform
  vp_product_id :: string
  vp_entitlement :: entitlement_code
  vp_status :: subscription_status
  vp_environment :: store_environment
  vp_provider_event_id :: string
  vp_transaction_id :: string
  vp_original_transaction_id :: string
  vp_purchased_at :: pydatetime
  vp_expires_at :: "pydatetime option"
  vp_verified_at :: pydatetime
  vp_auto_renews :: bool

record subscription_record =
  sr_id :: uuid
  sr_user_id :: "uuid option"
  sr_subject_reference :: string
  sr_platform :: store_platform
  sr_product_id :: string
  sr_entitlement :: entitlement_code
  sr_status :: subscription_status
  sr_environment :: store_environment
  sr_transaction_reference :: string
  sr_original_reference :: string
  sr_purchased_at :: instant
  sr_expires_at :: "instant option"
  sr_verified_at :: instant
  sr_auto_renews :: bool

record billing_event =
  be_id :: uuid
  be_subscription_id :: uuid
  be_reference :: string
  be_status :: subscription_status
  be_occurred_at :: instant
  be_received_at :: instant

record entitlement_snapshot =
  tier :: string
  es_status :: string
  es_platform :: "store_platform option"
  es_product_id :: "string option"
  es_expires_at :: "instant option"
  es_auto_renews :: bool
  es_last_verified_at :: "instant option"

datatype billing_error = BillingError string | BillingUnavailable string
  | PersistenceError string

text \<open>The repository port, over a state of type \<open>'s\<close>.\<close>

record 's billing_repository =
  current :: "uuid \<Rightarrow> 's \<Rightarrow> subscription_record option"
  reconcile :: "subscription_record \<Rightarrow> billing_event \<Rightarrow> 's \<Rightarrow> (billing_error + subscription_record) \<times> 's"

datatype verifier_result = Verified verified_purchase | VerifierUnavailable string | VerifierRaised

section \<open>BillingService\<close>

record billing_service =
  subject_secret :: string
  products :: "billing_product list"
  enabled_flag :: bool
  allowed_environments :: "store_environment set"

text \<open>The constructor and its checks.\<close>

definition product_key :: "billing_product \<Rightarrow> store_platform \<times> string" where
  "product_key p = (bp_platform p, bp_product_id p)"

definition billing_service_init ::
  "string \<Rightarrow> billing_product list \<Rightarrow> bool \<Rightarrow> store_environment set \<Rightarrow> string + billing_service" where
  "billing_service_init secret prods enabled allowed =
     (if length secret < 32
      then Inl ''billing subject secret must contain at least 32 characters''
      else if card (set (map product_key prods)) \<noteq> length prods
         \<or> list_ex (\<lambda>p. py_strip (bp_product_id p) = [] \<or> length (bp_product_id p) > 200) prods
      then Inl ''billing products must have unique bounded identifiers''
      else if allowed = {}
      then Inl ''at least one store environment must be allowed''
      else Inr \<lparr>subject_secret = secret, products = prods, enabled_flag = enabled,
                allowed_environments = allowed\<rparr>)"

definition billing_enabled :: "billing_service \<Rightarrow> bool" where
  "billing_enabled svc = (enabled_flag svc \<and> products svc \<noteq> [])"

text \<open>\<open>entitlement\<close>, with \<open>now\<close> the clock it reads.\<close>

definition entitlement_of :: "subscription_record option \<Rightarrow> instant \<Rightarrow> entitlement_snapshot" where
  "entitlement_of cur now =
     (case cur of
        None \<Rightarrow> \<lparr>tier = ''free'', es_status = ''inactive'', es_platform = None,
                 es_product_id = None, es_expires_at = None, es_auto_renews = False,
                 es_last_verified_at = None\<rparr>
      | Some c \<Rightarrow>
          let active_status = sr_status c \<in> {SUB_ACTIVE, GRACE_PERIOD};
              expired_by_time = (case sr_expires_at c of None \<Rightarrow> False | Some e \<Rightarrow> e \<le> now);
              active = (active_status \<and> \<not> expired_by_time);
              effective = (if expired_by_time then SUB_EXPIRED else sr_status c)
          in \<lparr>tier = (if active then entitlement_value (sr_entitlement c) else ''free''),
              es_status = status_value effective, es_platform = Some (sr_platform c),
              es_product_id = Some (sr_product_id c), es_expires_at = sr_expires_at c,
              es_auto_renews = sr_auto_renews c, es_last_verified_at = Some (sr_verified_at c)\<rparr>)"

definition entitlement ::
  "'s billing_repository \<Rightarrow> uuid \<Rightarrow> instant \<Rightarrow> 's \<Rightarrow> entitlement_snapshot" where
  "entitlement repo user now s = entitlement_of (current repo user s) now"

definition reference :: "(string \<Rightarrow> string \<Rightarrow> string) \<Rightarrow> billing_service \<Rightarrow> string \<Rightarrow> string \<Rightarrow> string" where
  "reference hmac svc namespace value = hmac (subject_secret svc) (namespace @ '':'' @ value)"

definition subject ::
  "(string \<Rightarrow> string \<Rightarrow> string) \<Rightarrow> billing_service \<Rightarrow> uuid \<Rightarrow> string" where
  "subject hmac svc user = reference hmac svc ''subject'' (uuid_hex user)"

definition validate_verified ::
  "billing_service \<Rightarrow> verified_purchase \<Rightarrow> uuid \<Rightarrow> billing_product \<Rightarrow> billing_error option" where
  "validate_verified svc v user product =
     (if \<not> is_aware (vp_purchased_at v) \<or> \<not> is_aware (vp_verified_at v)
         \<or> (case vp_expires_at v of None \<Rightarrow> False | Some e \<Rightarrow> \<not> is_aware e)
      then Some (BillingError ''verified store timestamps must include a timezone'')
      else if vp_user_id v \<noteq> user
      then Some (BillingError ''verified purchase belongs to another account'')
      else if vp_platform v \<noteq> bp_platform product \<or> vp_product_id v \<noteq> bp_product_id product
      then Some (BillingError ''verified purchase does not match the requested product'')
      else if vp_entitlement v \<noteq> bp_entitlement product
      then Some (BillingError ''verified purchase grants an unexpected entitlement'')
      else if vp_environment v \<notin> allowed_environments svc
      then Some (BillingError ''verified purchase is from an unapproved store environment'')
      else if (case vp_expires_at v of None \<Rightarrow> False
               | Some e \<Rightarrow> aware_instant e \<le> aware_instant (vp_purchased_at v))
      then Some (BillingError ''verified subscription expiry is invalid'')
      else if aware_instant (vp_verified_at v) < aware_instant (vp_purchased_at v)
      then Some (BillingError ''store verification predates the purchase'')
      else None)"

text \<open>\<open>_subscription\<close>: only HMAC references of the store identifiers are kept.\<close>

definition subscription ::
  "(string \<Rightarrow> string \<Rightarrow> string) \<Rightarrow> (uuid \<Rightarrow> string \<Rightarrow> uuid) \<Rightarrow> billing_service \<Rightarrow> verified_purchase \<Rightarrow>
     subscription_record" where
  "subscription hmac uuid5 svc v =
     (let platform = platform_value (vp_platform v);
          original = reference hmac svc (''original:'' @ platform) (vp_original_transaction_id v)
      in \<lparr>sr_id = uuid5 (vp_user_id v)
            (platform @ '':'' @ environment_value (vp_environment v) @ '':'' @ original),
          sr_user_id = Some (vp_user_id v), sr_subject_reference = subject hmac svc (vp_user_id v),
          sr_platform = vp_platform v, sr_product_id = vp_product_id v,
          sr_entitlement = vp_entitlement v, sr_status = vp_status v,
          sr_environment = vp_environment v,
          sr_transaction_reference =
            reference hmac svc (''transaction:'' @ platform) (vp_transaction_id v),
          sr_original_reference = original,
          sr_purchased_at = aware_instant (vp_purchased_at v),
          sr_expires_at = map_option aware_instant (vp_expires_at v),
          sr_verified_at = aware_instant (vp_verified_at v),
          sr_auto_renews = vp_auto_renews v\<rparr>)"

definition purchase_event ::
  "(string \<Rightarrow> string \<Rightarrow> string) \<Rightarrow> billing_service \<Rightarrow> verified_purchase \<Rightarrow> uuid \<Rightarrow> uuid \<Rightarrow> instant \<Rightarrow>
     billing_event" where
  "purchase_event hmac svc v event_id sub_id received =
     \<lparr>be_id = event_id, be_subscription_id = sub_id,
      be_reference = reference hmac svc (''event:'' @ platform_value (vp_platform v) @ '':''
        @ environment_value (vp_environment v)) (vp_provider_event_id v),
      be_status = vp_status v, be_occurred_at = aware_instant (vp_verified_at v),
      be_received_at = received\<rparr>"

text \<open>
  \<open>verify_purchase\<close>: \<open>event_id\<close> is the \<open>uuid4()\<close> of the event, \<open>received\<close> and \<open>now\<close> the two
  clock readings. The result comes with the repository state after the call.
\<close>

definition verify_purchase ::
  "(string \<Rightarrow> string \<Rightarrow> string) \<Rightarrow> (uuid \<Rightarrow> string \<Rightarrow> uuid) \<Rightarrow> 's billing_repository \<Rightarrow>
     (verification_request \<Rightarrow> verifier_result) \<Rightarrow> billing_service \<Rightarrow>
     uuid \<Rightarrow> store_platform \<Rightarrow> string \<Rightarrow> string \<Rightarrow> uuid \<Rightarrow> instant \<Rightarrow> instant \<Rightarrow> 's \<Rightarrow>
     (billing_error + entitlement_snapshot) \<times> 's" where
  "verify_purchase hmac uuid5 repo verifier svc user platform product_id payload
      event_id received now s =
     (if \<not> billing_enabled svc
      then (Inl (BillingUnavailable ''store purchase verification is not enabled''), s)
      else case find (\<lambda>p. bp_platform p = platform \<and> bp_product_id p = product_id) (products svc) of
        None \<Rightarrow> (Inl (BillingError ''product is not in the approved store catalog''), s)
      | Some product \<Rightarrow>
          if py_strip payload = [] \<or> length payload > 131072
          then (Inl (BillingError
            ''signed store payload must contain at most 131072 characters''), s)
          else case verifier \<lparr>vr_user_id = user, vr_platform = platform,
                 vr_product_id = product_id, vr_signed_payload = payload\<rparr> of
            VerifierUnavailable m \<Rightarrow> (Inl (BillingUnavailable m), s)
          | VerifierRaised \<Rightarrow>
              (Inl (BillingUnavailable ''store purchase verification is unavailable''), s)
          | Verified v \<Rightarrow>
              (case validate_verified svc v user product of
                 Some e \<Rightarrow> (Inl e, s)
               | None \<Rightarrow>
                   let sub = subscription hmac uuid5 svc v;
                       ev = purchase_event hmac svc v event_id (sr_id sub) received
                   in (case reconcile repo sub ev s of
                         (Inl e, s') \<Rightarrow> (Inl e, s')
                       | (Inr r, s') \<Rightarrow> (Inr (entitlement repo user now s'), s'))))"

section \<open>Lemmas\<close>

lemma entitlement_free: "tier (entitlement_of None now) = ''free''"
  by (simp add: entitlement_of_def)

lemma entitlement_paid:
  "tier (entitlement_of cur now) \<noteq> ''free'' \<Longrightarrow>
     \<exists>c. cur = Some c \<and> sr_status c \<in> {SUB_ACTIVE, GRACE_PERIOD}
       \<and> (case sr_expires_at c of None \<Rightarrow> True | Some e \<Rightarrow> now < e)
       \<and> tier (entitlement_of cur now) = entitlement_value (sr_entitlement c)"
  by (auto simp: entitlement_of_def Let_def split: option.splits if_splits)

lemma validate_verified_None:
  "validate_verified svc v user product = None \<Longrightarrow>
     vp_user_id v = user \<and> vp_platform v = bp_platform product
     \<and> vp_product_id v = bp_product_id product \<and> vp_entitlement v = bp_entitlement product
     \<and> vp_environment v \<in> allowed_environments svc
     \<and> is_aware (vp_purchased_at v) \<and> is_aware (vp_verified_at v)
     \<and> aware_instant (vp_purchased_at v) \<le> aware_instant (vp_verified_at v)
     \<and> (\<forall>e. vp_expires_at v = Some e \<longrightarrow> is_aware e
          \<and> aware_instant (vp_purchased_at v) < aware_instant e)"
  by (auto simp: validate_verified_def split: if_splits option.splits)

text \<open>What a call that reached the repository has established.\<close>

definition purchase_accepted ::
  "(verification_request \<Rightarrow> verifier_result) \<Rightarrow> billing_service \<Rightarrow> uuid \<Rightarrow> store_platform \<Rightarrow> string \<Rightarrow>
     string \<Rightarrow> verified_purchase \<Rightarrow> bool" where
  "purchase_accepted verifier svc user platform product_id payload v =
     (billing_enabled svc \<and> py_strip payload \<noteq> [] \<and> length payload \<le> 131072
      \<and> verifier \<lparr>vr_user_id = user, vr_platform = platform, vr_product_id = product_id,
           vr_signed_payload = payload\<rparr> = Verified v
      \<and> (\<exists>p \<in> set (products svc). bp_platform p = platform \<and> bp_product_id p = product_id
           \<and> validate_verified svc v user p = None))"

lemma purchase_acceptedI:
  assumes "billing_enabled svc"
    and "find (\<lambda>p. bp_platform p = platform \<and> bp_product_id p = product_id) (products svc) = Some p"
    and "py_strip payload \<noteq> []" and "\<not> 131072 < length payload"
    and "verifier \<lparr>vr_user_id = user, vr_platform = platform, vr_product_id = product_id,
      vr_signed_payload = payload\<rparr> = Verified v"
    and "validate_verified svc v user p = None"
  shows "purchase_accepted verifier svc user platform product_id payload v"
  using assms find_Some_D [OF assms(2)] by (auto simp: purchase_accepted_def)

lemma verify_purchase_cases:
  assumes "verify_purchase hmac uuid5 repo verifier svc user platform product_id payload
      event_id received now s = (r, s')"
  obtains (refused) e where "r = Inl e" and "s' = s"
  | (reconciled) v x where "purchase_accepted verifier svc user platform product_id payload v"
      and "reconcile repo (subscription hmac uuid5 svc v)
        (purchase_event hmac svc v event_id (sr_id (subscription hmac uuid5 svc v)) received) s
        = (x, s')"
      and "r = (case x of Inl e \<Rightarrow> Inl e | Inr _ \<Rightarrow> Inr (entitlement repo user now s'))"
proof (cases "\<exists>v. purchase_accepted verifier svc user platform product_id payload v")
  case False
  then show thesis using assms that(1)
    by (auto simp: verify_purchase_def dest: purchase_acceptedI
        split: if_splits option.splits verifier_result.splits)
next
  case True
  then obtain v p where acc: "purchase_accepted verifier svc user platform product_id payload v"
    and p: "find (\<lambda>p. bp_platform p = platform \<and> bp_product_id p = product_id) (products svc) = Some p"
    by (cases "find (\<lambda>p. bp_platform p = platform \<and> bp_product_id p = product_id) (products svc)")
       (auto simp: purchase_accepted_def find_None_iff')
  show thesis
  proof (cases "validate_verified svc v user p")
    case (Some e)
    with acc p assms that(1) show thesis
      by (auto simp: verify_purchase_def purchase_accepted_def)
  next
    case None
    with acc p assms that(2) [OF acc] show thesis
      by (auto simp: verify_purchase_def purchase_accepted_def Let_def
          split: prod.splits sum.splits)
  qed
qed

end
