(* ===== verification/Billing_Adapters.thy ===== *)
theory Billing_Adapters
  imports Billing
begin

text \<open>
  What the billing service relies on in a repository, as the locale \<open>billing_store\<close> with the
  service's guarantees proved in it, and its two providers: the in-memory adapter
  (\<open>app/modules/billing/repositories.py\<close>) and the PostgreSQL adapter (\<open>sql_repository.py\<close>,
  its upsert read on a list of rows, unique indexes included).
\<close>

section \<open>The interface\<close>

text \<open>The unique index of a subscription: platform, environment, original transaction.\<close>

datatype sub_index = SubIndex store_platform store_environment string

definition sub_key :: "subscription_record \<Rightarrow> sub_index" where
  "sub_key r = SubIndex (sr_platform r) (sr_environment r) (sr_original_reference r)"

definition row_of ::
  "sub_index \<Rightarrow> subscription_record list \<Rightarrow> subscription_record option" where
  "row_of k rs = find (\<lambda>r. sub_key r = k) rs"

text \<open>No other subscription has the identifier of the new one (\<open>uuid5\<close> did not collide).\<close>

definition id_free :: "subscription_record \<Rightarrow> subscription_record list \<Rightarrow> bool" where
  "id_free sub rs = list_all (\<lambda>r. sr_id r = sr_id sub \<longrightarrow> sub_key r = sub_key sub) rs"

text \<open>The stored row carries the new evidence, under the identifier it had.\<close>

definition replaces :: "subscription_record \<Rightarrow> subscription_record \<Rightarrow> subscription_record \<Rightarrow> bool" where
  "replaces sub old r =
     (r\<lparr>sr_id := sr_id sub\<rparr> = sub \<and> sr_verified_at old \<le> sr_verified_at sub)"

lemma replaces_verified: "replaces sub old r \<Longrightarrow> sr_verified_at r = sr_verified_at sub"
  unfolding replaces_def by (metis subscription_record.select_convs(13) subscription_record.surjective
      subscription_record.update_convs(1))

lemma replaces_newer: "replaces sub old r \<Longrightarrow> sr_verified_at old \<le> sr_verified_at r"
  by (frule replaces_verified) (simp add: replaces_def)

lemma row_of_SomeD: "row_of k rs = Some r \<Longrightarrow> r \<in> set rs \<and> sub_key r = k"
  unfolding row_of_def by (drule find_Some_D) simp

lemma row_of_iff:
  "inj_on sub_key (set rs) \<Longrightarrow> row_of k rs = Some r \<longleftrightarrow> r \<in> set rs \<and> sub_key r = k"
  unfolding row_of_def
  by (cases "find (\<lambda>r. sub_key r = k) rs")
     (auto simp: find_None_iff' inj_on_def dest!: find_Some_D)

lemma row_of_None: "row_of k rs = None \<longleftrightarrow> (\<forall>r \<in> set rs. sub_key r \<noteq> k)"
  by (simp add: row_of_def find_None_iff')

lemma row_of_append:
  "row_of k (rs @ [r]) =
     (if row_of k rs = None \<and> sub_key r = k then Some r else row_of k rs)"
  unfolding row_of_def by (induction rs) simp_all

text \<open>Two tables that agree on the rows of a key look the same at it.\<close>

lemma row_of_cong:
  assumes "inj_on sub_key (set rs)" and "inj_on sub_key (set rs')"
    and "\<And>r. sub_key r = k \<Longrightarrow> r \<in> set rs \<longleftrightarrow> r \<in> set rs'"
  shows "row_of k rs = row_of k rs'"
  using row_of_iff [OF assms(1)] row_of_iff [OF assms(2)] assms(3)
  by (metis option.exhaust)

lemma newest_of_user:
  assumes "first_max sr_verified_at (filter (\<lambda>r. sr_user_id r = Some u) rs) = Some r"
  shows "r \<in> set rs \<and> sr_user_id r = Some u
    \<and> (\<forall>r' \<in> set rs. sr_user_id r' = Some u \<longrightarrow> sr_verified_at r' \<le> sr_verified_at r)"
  using first_max_in [OF assms] first_max_ge [OF assms] by simp

lemma no_newest_of_user:
  "first_max sr_verified_at (filter (\<lambda>r. sr_user_id r = Some u) rs) = None \<Longrightarrow> r \<in> set rs \<Longrightarrow>
     sr_user_id r \<noteq> Some u"
  by (simp add: filter_empty_conv)

locale billing_store =
  fixes repo :: "'s billing_repository"
    and rows :: "'s \<Rightarrow> subscription_record list"
    and inv :: "'s \<Rightarrow> bool"
  assumes current_newest: "inv s \<Longrightarrow> current repo u s = Some r \<Longrightarrow>
      r \<in> set (rows s) \<and> sr_user_id r = Some u \<and>
      (\<forall>r' \<in> set (rows s). sr_user_id r' = Some u \<longrightarrow> sr_verified_at r' \<le> sr_verified_at r)"
    and current_none: "inv s \<Longrightarrow> current repo u s = None \<Longrightarrow> r \<in> set (rows s) \<Longrightarrow>
      sr_user_id r \<noteq> Some u"
    and reconcile_step: "inv s \<Longrightarrow> id_free sub (rows s) \<Longrightarrow>
      \<exists>r s'. reconcile repo sub ev s = (Inr r, s') \<and> inv s'
        \<and> row_of (sub_key sub) (rows s') = Some r
        \<and> (\<forall>k. k \<noteq> sub_key sub \<longrightarrow> row_of k (rows s') = row_of k (rows s))
        \<and> (case row_of (sub_key sub) (rows s) of
             None \<Rightarrow> r = sub
           | Some old \<Rightarrow> r = old \<or> replaces sub old r)"
begin

lemma reconcileE:
  assumes "inv s" and "id_free sub (rows s)" and "reconcile repo sub ev s = (x, s')"
  obtains r where "x = Inr r" and "inv s'" and "row_of (sub_key sub) (rows s') = Some r"
    and "\<And>k. k \<noteq> sub_key sub \<Longrightarrow> row_of k (rows s') = row_of k (rows s)"
    and "row_of (sub_key sub) (rows s) = None \<Longrightarrow> r = sub"
    and "\<And>old. row_of (sub_key sub) (rows s) = Some old \<Longrightarrow>
      r = old \<or> replaces sub old r"
proof -
  from reconcile_step [OF assms(1,2), of ev] assms(3) obtain r where "x = Inr r" "inv s'"
      "row_of (sub_key sub) (rows s') = Some r"
      "\<forall>k. k \<noteq> sub_key sub \<longrightarrow> row_of k (rows s') = row_of k (rows s)"
      "case row_of (sub_key sub) (rows s) of None \<Rightarrow> r = sub
       | Some old \<Rightarrow> r = old \<or> replaces sub old r"
    by auto
  then show thesis by (intro that [of r]) (simp_all split: option.splits)
qed

lemma reconcile_never_regresses:
  assumes "inv s" and "id_free sub (rows s)" and "reconcile repo sub ev s = (x, s')"
    and old: "row_of k (rows s) = Some old"
  shows "\<exists>new. row_of k (rows s') = Some new \<and> sr_verified_at old \<le> sr_verified_at new
    \<and> (k \<noteq> sub_key sub \<or> sr_verified_at sub < sr_verified_at old \<longrightarrow> new = old)"
  using assms(1-3)
proof (cases rule: reconcileE)
  case (1 r)
  show ?thesis
  proof (cases "k = sub_key sub")
    case True
    with 1(6) [of old] old have "r = old \<or> replaces sub old r" by simp
    with True 1(3) show ?thesis
      using replaces_newer [of sub old r] by (auto simp: replaces_def)
  next
    case False
    with 1(4) [of k] old show ?thesis by simp
  qed
qed

lemma verify_never_regresses:
  assumes "inv s"
    and "verify_purchase hmac uuid5 repo verifier svc user platform product_id payload
      event_id received now s = (r, s')"
    and "\<And>v. id_free (subscription hmac uuid5 svc v) (rows s)"
    and "row_of k (rows s) = Some old"
  shows "\<exists>new. row_of k (rows s') = Some new \<and> sr_verified_at old \<le> sr_verified_at new"
  using assms(2)
proof (cases rule: verify_purchase_cases)
  case (reconciled v x)
  from reconcile_never_regresses [OF assms(1) assms(3) reconciled(2) assms(4)]
  show ?thesis by blast
qed (use assms(4) in simp)

lemma premium_is_backed:
  assumes "inv s"
    and "verify_purchase hmac uuid5 repo verifier svc user platform product_id payload
      event_id received now s = (Inr snap, s')"
    and "\<And>v. id_free (subscription hmac uuid5 svc v) (rows s)"
    and "tier snap \<noteq> ''free''"
  shows "\<exists>c \<in> set (rows s'). sr_user_id c = Some user
    \<and> sr_status c \<in> {SUB_ACTIVE, GRACE_PERIOD}
    \<and> (case sr_expires_at c of None \<Rightarrow> True | Some e \<Rightarrow> now < e)
    \<and> (\<forall>c' \<in> set (rows s'). sr_user_id c' = Some user \<longrightarrow> sr_verified_at c' \<le> sr_verified_at c)"
  using assms(2)
proof (cases rule: verify_purchase_cases)
  case (reconciled v x)
  from assms(1) assms(3) reconciled(2) have "inv s'" by (rule reconcileE)
  moreover from reconciled(3) have "snap = entitlement_of (current repo user s') now"
    by (cases x) (auto simp: entitlement_def)
  ultimately show ?thesis using entitlement_paid [of "current repo user s'" now] assms(4)
    by (metis current_newest)
qed simp

lemma new_purchase_stored:
  assumes "inv s"
    and "verify_purchase hmac uuid5 repo verifier svc user platform product_id payload
      event_id received now s = (Inr snap, s')"
    and "\<And>v. id_free (subscription hmac uuid5 svc v) (rows s)"
  shows "\<exists>v. purchase_accepted verifier svc user platform product_id payload v
    \<and> (\<forall>k. k \<noteq> sub_key (subscription hmac uuid5 svc v) \<longrightarrow> row_of k (rows s') = row_of k (rows s))
    \<and> (row_of (sub_key (subscription hmac uuid5 svc v)) (rows s) = None \<longrightarrow>
        row_of (sub_key (subscription hmac uuid5 svc v)) (rows s') = Some (subscription hmac uuid5 svc v))"
  using assms(2)
proof (cases rule: verify_purchase_cases)
  case (reconciled v x)
  from assms(1) assms(3) reconciled(2) show ?thesis
  proof (cases rule: reconcileE)
    case (1 r)
    with reconciled(1) show ?thesis by (intro exI [of _ v]) auto
  qed
qed simp

end

section \<open>InMemoryBillingRepository\<close>

record inmem_billing =
  im_subscriptions :: "(uuid, subscription_record) pydict"
  im_events :: "(string, billing_event) pydict"

definition inmem_current :: "uuid \<Rightarrow> inmem_billing \<Rightarrow> subscription_record option" where
  "inmem_current user s =
     first_max sr_verified_at
       (filter (\<lambda>r. sr_user_id r = Some user) (dict_values (im_subscriptions s)))"

definition inmem_existing :: "subscription_record \<Rightarrow> inmem_billing \<Rightarrow> subscription_record option" where
  "inmem_existing sub s =
     find (\<lambda>r. sr_platform r = sr_platform sub \<and> sr_environment r = sr_environment sub
              \<and> sr_original_reference r = sr_original_reference sub)
       (dict_values (im_subscriptions s))"

definition inmem_reconcile ::
  "subscription_record \<Rightarrow> billing_event \<Rightarrow> inmem_billing \<Rightarrow>
     (billing_error + subscription_record) \<times> inmem_billing" where
  "inmem_reconcile sub ev s =
     (let record_event = (\<lambda>t. t\<lparr>im_events := dict_set (be_reference ev) ev (im_events t)\<rparr>);
          put = (\<lambda>t. t\<lparr>im_subscriptions := dict_set (sr_id sub) sub (im_subscriptions t)\<rparr>)
      in case inmem_existing sub s of
           Some existing \<Rightarrow>
             if dict_get (im_events s) (be_reference ev) \<noteq> None then (Inr existing, s)
             else if sr_verified_at existing > sr_verified_at sub
             then (Inr existing, record_event s)
             else (Inr sub, record_event (put
               (s\<lparr>im_subscriptions := dict_del (sr_id existing) (im_subscriptions s)\<rparr>)))
         | None \<Rightarrow> (Inr sub, record_event (put s)))"

definition inmem_billing_repository :: "inmem_billing billing_repository" where
  "inmem_billing_repository = \<lparr>current = inmem_current, reconcile = inmem_reconcile\<rparr>"

definition inmem_rows :: "inmem_billing \<Rightarrow> subscription_record list" where
  "inmem_rows s = dict_values (im_subscriptions s)"

definition inmem_inv :: "inmem_billing \<Rightarrow> bool" where
  "inmem_inv s \<longleftrightarrow> dict_ok (im_subscriptions s)
     \<and> list_all (\<lambda>(k, r). sr_id r = k) (im_subscriptions s)
     \<and> inj_on sub_key (set (inmem_rows s))"

lemma inmem_existing_row: "inmem_existing sub s = row_of (sub_key sub) (inmem_rows s)"
  by (simp add: inmem_existing_def row_of_def inmem_rows_def sub_key_def)

text \<open>Storing a record under its own identifier, after the row it replaces is gone.\<close>

lemma inmem_put:
  fixes d :: "(uuid, subscription_record) pydict"
  assumes ok: "dict_ok d" "list_all (\<lambda>(k, r). sr_id r = k) d" "inj_on sub_key (set (dict_values d))"
    and free: "\<And>r. r \<in> set (dict_values d) \<Longrightarrow> sr_id r \<noteq> sr_id sub"
    and new: "\<And>r. r \<in> set (dict_values d) \<Longrightarrow> sub_key r \<noteq> sub_key sub"
  shows "dict_ok (dict_set (sr_id sub) sub d)"
    and "list_all (\<lambda>(k, r). sr_id r = k) (dict_set (sr_id sub) sub d)"
    and "inj_on sub_key (set (dict_values (dict_set (sr_id sub) sub d)))"
    and "set (dict_values (dict_set (sr_id sub) sub d)) = insert sub (set (dict_values d))"
proof -
  have keys: "p \<in> set d \<Longrightarrow> fst p \<noteq> sr_id sub" for p
    using free [of "snd p"] ok(2) by (force simp: list_all_iff)
  then have set: "set (dict_set (sr_id sub) sub d) = insert (sr_id sub, sub) (set d)"
    using set_dict_set [OF ok(1), of "sr_id sub" sub] by auto
  show "dict_ok (dict_set (sr_id sub) sub d)" using ok(1) by (rule dict_ok_set)
  show "list_all (\<lambda>(k, r). sr_id r = k) (dict_set (sr_id sub) sub d)"
    using ok(2) by (simp add: list_all_iff set)
  show eq: "set (dict_values (dict_set (sr_id sub) sub d)) = insert sub (set (dict_values d))"
    by (simp add: set)
  show "inj_on sub_key (set (dict_values (dict_set (sr_id sub) sub d)))"
    unfolding eq using ok(3) new by (fastforce simp: inj_on_insert)
qed

lemma dict_values_del:
  "dict_ok d \<Longrightarrow> list_all (\<lambda>(k, r). f r = k) d \<Longrightarrow>
     set (dict_values (dict_del k d)) = {r \<in> set (dict_values d). f r \<noteq> k}"
  by (induction d) (auto simp: list_all_iff)

lemma same_id_same_row:
  fixes f :: "'v \<Rightarrow> 'k" and d :: "('k, 'v) pydict"
  assumes ok: "dict_ok d" and keys: "list_all (\<lambda>(k, r). f r = k) d"
    and r: "r \<in> set (dict_values d)" and r': "r' \<in> set (dict_values d)" and same: "f r = f r'"
  shows "r = r'"
proof -
  have get: "dict_get d (f x) = Some x" if x: "x \<in> set (dict_values d)" for x
  proof -
    from x obtain k where kx: "(k, x) \<in> set d" by auto
    with keys have "f x = k" unfolding list_all_iff by fast
    from this map_of_is_SomeI [OF ok kx] show ?thesis by (rule ssubst)
  qed
  have "Some r = dict_get d (f r)" using get [OF r] by (rule sym)
  also have "\<dots> = Some r'" unfolding same by (rule get [OF r'])
  finally show ?thesis by (rule option.inject [THEN iffD1])
qed

lemma inmem_reconcile_step:
  assumes inv: "inmem_inv s" and free: "id_free sub (inmem_rows s)"
  shows "\<exists>r s'. inmem_reconcile sub ev s = (Inr r, s') \<and> inmem_inv s'
    \<and> row_of (sub_key sub) (inmem_rows s') = Some r
    \<and> (\<forall>k. k \<noteq> sub_key sub \<longrightarrow> row_of k (inmem_rows s') = row_of k (inmem_rows s))
    \<and> (case row_of (sub_key sub) (inmem_rows s) of
         None \<Rightarrow> r = sub | Some old \<Rightarrow> r = old \<or> replaces sub old r)"
proof -
  let ?d = "im_subscriptions s"
  from inv have ok: "dict_ok ?d" "list_all (\<lambda>(k, r). sr_id r = k) ?d"
      "inj_on sub_key (set (inmem_rows s))"
    by (simp_all add: inmem_inv_def)
  have put: "inmem_inv s' \<and> row_of (sub_key sub) (inmem_rows s') = Some sub
      \<and> (\<forall>k. k \<noteq> sub_key sub \<longrightarrow> row_of k (inmem_rows s') = row_of k (inmem_rows s))"
    if d: "dict_ok d" "list_all (\<lambda>(k, r). sr_id r = k) d"
      and vals: "set (dict_values d) = {r \<in> set (inmem_rows s). sub_key r \<noteq> sub_key sub}"
      and s': "im_subscriptions s' = dict_set (sr_id sub) sub d" for s' d
  proof -
    have inj: "inj_on sub_key (set (dict_values d))"
      using ok(3) unfolding vals by (auto simp: inj_on_def)
    have nid: "sr_id r \<noteq> sr_id sub" if "r \<in> set (dict_values d)" for r
      using that free unfolding vals id_free_def list_all_iff by auto
    have nkey: "sub_key r \<noteq> sub_key sub" if "r \<in> set (dict_values d)" for r
      using that unfolding vals by simp
    note put = inmem_put [OF d inj nid nkey]
    have rows': "set (inmem_rows s') = insert sub {r \<in> set (inmem_rows s). sub_key r \<noteq> sub_key sub}"
      using put(4) unfolding vals by (simp add: inmem_rows_def s')
    have inv': "inmem_inv s'" using put(1-3) by (simp add: inmem_inv_def inmem_rows_def s')
    then have inj': "inj_on sub_key (set (inmem_rows s'))" by (simp add: inmem_inv_def)
    have "row_of (sub_key sub) (inmem_rows s') = Some sub"
      unfolding row_of_iff [OF inj'] rows' by simp
    moreover have "row_of k (inmem_rows s') = row_of k (inmem_rows s)" if "k \<noteq> sub_key sub" for k
      using that by (intro row_of_cong [OF inj' ok(3)]) (auto simp: rows')
    ultimately show ?thesis using inv' by blast
  qed
  show ?thesis
  proof (cases "inmem_existing sub s")
    case None
    then have none: "row_of (sub_key sub) (inmem_rows s) = None" by (simp add: inmem_existing_row)
    then have "{r \<in> set (inmem_rows s). sub_key r \<noteq> sub_key sub} = set (dict_values ?d)"
      by (auto simp: row_of_None inmem_rows_def)
    from put [OF ok(1,2) this [symmetric]] None none show ?thesis
      by (simp add: inmem_reconcile_def Let_def)
  next
    case (Some old)
    then have row: "row_of (sub_key sub) (inmem_rows s) = Some old"
      by (simp add: inmem_existing_row)
    then have old: "old \<in> set (inmem_rows s)" "sub_key old = sub_key sub"
      by (auto dest: row_of_SomeD)
    have unique: "r \<in> set (inmem_rows s) \<Longrightarrow> sub_key r = sub_key sub \<longleftrightarrow> sr_id r = sr_id old" for r
      using same_id_same_row [OF ok(1,2), of r old] inj_onD [OF ok(3), of r old] old
      by (auto simp: inmem_rows_def [symmetric])
    then have "set (dict_values (dict_del (sr_id old) ?d))
        = {r \<in> set (inmem_rows s). sub_key r \<noteq> sub_key sub}"
      using dict_values_del [OF ok(1,2), of "sr_id old"] by (auto simp: inmem_rows_def)
    moreover have "list_all (\<lambda>(k, r). sr_id r = k) (dict_del (sr_id old) ?d)"
      using ok(2) set_dict_del [of "sr_id old" ?d] unfolding list_all_iff by blast
    moreover have "dict_ok (dict_del (sr_id old) ?d)" using ok(1) by (rule dict_ok_del)
    ultimately have replaced: "inmem_inv s' \<and> row_of (sub_key sub) (inmem_rows s') = Some sub
        \<and> (\<forall>k. k \<noteq> sub_key sub \<longrightarrow> row_of k (inmem_rows s') = row_of k (inmem_rows s))"
      if "im_subscriptions s' = dict_set (sr_id sub) sub (dict_del (sr_id old) ?d)" for s'
      using put that by blast
    have kept: "inmem_inv (s\<lparr>im_events := e\<rparr>) \<and> inmem_rows (s\<lparr>im_events := e\<rparr>) = inmem_rows s" for e
      using inv by (simp add: inmem_inv_def inmem_rows_def)
    show ?thesis using Some row inv replaced kept
      by (simp add: inmem_reconcile_def Let_def replaces_def not_less)
  qed
qed

interpretation inmem_store: billing_store inmem_billing_repository inmem_rows inmem_inv
proof
  show "inmem_inv s \<Longrightarrow> current inmem_billing_repository u s = Some r \<Longrightarrow>
      r \<in> set (inmem_rows s) \<and> sr_user_id r = Some u \<and>
      (\<forall>r' \<in> set (inmem_rows s). sr_user_id r' = Some u \<longrightarrow> sr_verified_at r' \<le> sr_verified_at r)"
    for s u r
    using newest_of_user [of u "inmem_rows s" r]
    by (simp add: inmem_billing_repository_def inmem_current_def inmem_rows_def)
  show "inmem_inv s \<Longrightarrow> current inmem_billing_repository u s = None \<Longrightarrow> r \<in> set (inmem_rows s) \<Longrightarrow>
      sr_user_id r \<noteq> Some u" for s u r
    using no_newest_of_user [of u "inmem_rows s" r]
    by (simp add: inmem_billing_repository_def inmem_current_def inmem_rows_def)
qed (simp add: inmem_billing_repository_def inmem_reconcile_step)

section \<open>SqlBillingRepository\<close>

record sql_billing =
  subscription_rows :: "subscription_record list"
  event_rows :: "billing_event list"

definition sql_current :: "uuid \<Rightarrow> sql_billing \<Rightarrow> subscription_record option" where
  "sql_current user s =
     first_max sr_verified_at (filter (\<lambda>r. sr_user_id r = Some user) (subscription_rows s))"

text \<open>\<open>INSERT .. ON CONFLICT (platform, environment, original) DO UPDATE .. WHERE\<close>; a clash on
  the primary key alone is an \<open>IntegrityError\<close>.\<close>

definition upsert_subscription ::
  "subscription_record \<Rightarrow> subscription_record list \<Rightarrow> subscription_record list option" where
  "upsert_subscription sub rs =
     (case row_of (sub_key sub) rs of
        Some old \<Rightarrow>
          Some (if sr_verified_at sub \<ge> sr_verified_at old
                then map (\<lambda>r. if sub_key r = sub_key sub then sub\<lparr>sr_id := sr_id r\<rparr> else r) rs
                else rs)
      | None \<Rightarrow> if list_ex (\<lambda>r. sr_id r = sr_id sub) rs then None else Some (rs @ [sub]))"

definition insert_event :: "billing_event \<Rightarrow> billing_event list \<Rightarrow> billing_event list" where
  "insert_event ev es =
     (if list_ex (\<lambda>e. be_reference e = be_reference ev) es then es else es @ [ev])"

definition sql_reconcile ::
  "subscription_record \<Rightarrow> billing_event \<Rightarrow> sql_billing \<Rightarrow>
     (billing_error + subscription_record) \<times> sql_billing" where
  "sql_reconcile sub ev s =
     (case upsert_subscription sub (subscription_rows s) of
        None \<Rightarrow> (Inl (PersistenceError ''IntegrityError''), s)
      | Some rs \<Rightarrow>
          (case row_of (sub_key sub) rs of
             None \<Rightarrow> (Inl (PersistenceError ''verified subscription could not be persisted''),
                      s\<lparr>subscription_rows := rs\<rparr>)
           | Some persisted \<Rightarrow>
               (Inr persisted, s\<lparr>subscription_rows := rs,
                  event_rows := insert_event (ev\<lparr>be_subscription_id := sr_id persisted\<rparr>)
                    (event_rows s)\<rparr>)))"

definition sql_billing_repository :: "sql_billing billing_repository" where
  "sql_billing_repository = \<lparr>current = sql_current, reconcile = sql_reconcile\<rparr>"

definition sql_inv :: "sql_billing \<Rightarrow> bool" where
  "sql_inv s \<longleftrightarrow> distinct (map sub_key (subscription_rows s))"

lemma row_of_upsert:
  assumes "row_of (sub_key sub) rs = Some old"
  shows "row_of (sub_key sub) (map (\<lambda>r. if sub_key r = sub_key sub then sub\<lparr>sr_id := sr_id r\<rparr> else r) rs)
      = Some (sub\<lparr>sr_id := sr_id old\<rparr>)"
    and "k \<noteq> sub_key sub \<Longrightarrow>
      row_of k (map (\<lambda>r. if sub_key r = sub_key sub then sub\<lparr>sr_id := sr_id r\<rparr> else r) rs) = row_of k rs"
proof -
  have key: "sub_key (sub\<lparr>sr_id := i\<rparr>) = sub_key sub" for i by (simp add: sub_key_def)
  show "row_of (sub_key sub) (map (\<lambda>r. if sub_key r = sub_key sub then sub\<lparr>sr_id := sr_id r\<rparr> else r) rs)
      = Some (sub\<lparr>sr_id := sr_id old\<rparr>)"
    using assms unfolding row_of_def by (induction rs) (simp_all add: key split: if_splits)
  show "k \<noteq> sub_key sub \<Longrightarrow>
      row_of k (map (\<lambda>r. if sub_key r = sub_key sub then sub\<lparr>sr_id := sr_id r\<rparr> else r) rs) = row_of k rs"
    unfolding row_of_def by (induction rs) (auto simp: key)
qed

lemma upsert_twice:
  assumes "upsert_subscription sub rs = Some rs'" and "id_free sub rs"
  shows "upsert_subscription sub rs' = Some rs'"
proof (cases "row_of (sub_key sub) rs")
  case None
  with assms(1) have rs': "rs' = rs @ [sub]"
    by (simp add: upsert_subscription_def split: if_splits)
  have "map (\<lambda>r. if sub_key r = sub_key sub then sub\<lparr>sr_id := sr_id r\<rparr> else r) rs = rs"
    using None by (intro map_idI) (auto simp: row_of_None)
  with None show ?thesis by (simp add: rs' upsert_subscription_def row_of_append)
next
  case (Some old)
  show ?thesis
  proof (cases "sr_verified_at sub \<ge> sr_verified_at old")
    case True
    have "map (\<lambda>r. if sub_key r = sub_key sub then sub\<lparr>sr_id := sr_id r\<rparr> else r) rs' = rs'"
      using assms(1) Some True
      by (intro map_idI) (auto simp: upsert_subscription_def sub_key_def)
    with Some True assms(1) row_of_upsert(1) [OF Some] show ?thesis
      by (simp add: upsert_subscription_def)
  next
    case False
    with Some assms(1) show ?thesis by (simp add: upsert_subscription_def)
  qed
qed

lemma sql_reconcile_step:
  assumes inv: "sql_inv s" and free: "id_free sub (subscription_rows s)"
  shows "\<exists>r s'. sql_reconcile sub ev s = (Inr r, s') \<and> sql_inv s'
    \<and> row_of (sub_key sub) (subscription_rows s') = Some r
    \<and> (\<forall>k. k \<noteq> sub_key sub \<longrightarrow> row_of k (subscription_rows s') = row_of k (subscription_rows s))
    \<and> (case row_of (sub_key sub) (subscription_rows s) of
         None \<Rightarrow> r = sub | Some old \<Rightarrow> r = old \<or> replaces sub old r)"
proof (cases "row_of (sub_key sub) (subscription_rows s)")
  case None
  have "\<not> list_ex (\<lambda>r. sr_id r = sr_id sub) (subscription_rows s)"
    using free None by (auto simp: row_of_None id_free_def list_all_iff list_ex_iff)
  moreover from None have "sub_key sub \<notin> set (map sub_key (subscription_rows s))"
    by (auto simp: row_of_None)
  ultimately show ?thesis using inv None
    by (simp add: sql_reconcile_def upsert_subscription_def sql_inv_def row_of_append)
next
  case (Some old)
  show ?thesis
  proof (cases "sr_verified_at sub \<ge> sr_verified_at old")
    case True
    have "map sub_key (map (\<lambda>r. if sub_key r = sub_key sub then sub\<lparr>sr_id := sr_id r\<rparr> else r)
        (subscription_rows s)) = map sub_key (subscription_rows s)"
      by (auto simp: sub_key_def)
    with Some True row_of_upsert [OF Some] inv show ?thesis
      by (simp add: sql_reconcile_def upsert_subscription_def sql_inv_def replaces_def del: map_map)
  next
    case False
    with Some inv show ?thesis
      by (simp add: sql_reconcile_def upsert_subscription_def sql_inv_def)
  qed
qed

interpretation sql_store: billing_store sql_billing_repository subscription_rows sql_inv
proof
  show "sql_inv s \<Longrightarrow> current sql_billing_repository u s = Some r \<Longrightarrow>
      r \<in> set (subscription_rows s) \<and> sr_user_id r = Some u \<and>
      (\<forall>r' \<in> set (subscription_rows s). sr_user_id r' = Some u \<longrightarrow> sr_verified_at r' \<le> sr_verified_at r)"
    for s u r
    using newest_of_user [of u "subscription_rows s" r]
    by (simp add: sql_billing_repository_def sql_current_def)
  show "sql_inv s \<Longrightarrow> current sql_billing_repository u s = None \<Longrightarrow> r \<in> set (subscription_rows s) \<Longrightarrow>
      sr_user_id r \<noteq> Some u" for s u r
    using no_newest_of_user [of u "subscription_rows s" r]
    by (simp add: sql_billing_repository_def sql_current_def)
qed (simp add: sql_billing_repository_def sql_reconcile_step)

section \<open>Sample data\<close>

definition sample_service :: billing_service where
  "sample_service = \<lparr>subject_secret = replicate 32 (CHR ''s''),
     products = [\<lparr>bp_platform = APPLE_APP_STORE, bp_product_id = ''premium.monthly'',
       bp_entitlement = PREMIUM\<rparr>],
     enabled_flag = True, allowed_environments = {PRODUCTION}\<rparr>"

definition sample_purchase :: verified_purchase where
  "sample_purchase = \<lparr>vp_user_id = 7, vp_platform = APPLE_APP_STORE,
     vp_product_id = ''premium.monthly'', vp_entitlement = PREMIUM, vp_status = SUB_ACTIVE,
     vp_environment = PRODUCTION, vp_provider_event_id = ''e'', vp_transaction_id = ''t'',
     vp_original_transaction_id = ''o'', vp_purchased_at = Aware 10, vp_expires_at = Some (Aware 99),
     vp_verified_at = Aware 20, vp_auto_renews = True\<rparr>"

definition sample_verifier :: "verification_request \<Rightarrow> verifier_result" where
  "sample_verifier rq = (if vr_signed_payload rq = ''evidence'' then Verified sample_purchase
     else VerifierRaised)"

definition sample_hmac :: "string \<Rightarrow> string \<Rightarrow> string" where
  "sample_hmac k v = take 5 v"

definition sample_uuid5 :: "uuid \<Rightarrow> string \<Rightarrow> uuid" where
  "sample_uuid5 u s = u + 1"

lemmas billing_samples = sample_service_def sample_purchase_def sample_verifier_def
  sample_hmac_def sample_uuid5_def

definition no_rows :: sql_billing where
  "no_rows = \<lparr>subscription_rows = [], event_rows = []\<rparr>"

definition one_row :: sql_billing where
  "one_row = \<lparr>subscription_rows = [subscription sample_hmac sample_uuid5 sample_service sample_purchase],
     event_rows = [purchase_event sample_hmac sample_service sample_purchase 1 8 30]\<rparr>"

lemma sample_call_result:
  "verify_purchase sample_hmac sample_uuid5 sql_billing_repository sample_verifier
     sample_service 7 APPLE_APP_STORE ''premium.monthly'' ''evidence'' 1 30 31 no_rows =
   (Inr \<lparr>tier = ''premium'', es_status = ''active'',
      es_platform = Some APPLE_APP_STORE, es_product_id = Some ''premium.monthly'',
      es_expires_at = Some 99, es_auto_renews = True, es_last_verified_at = Some 20\<rparr>, one_row)"
  by (simp add: verify_purchase_def billing_enabled_def validate_verified_def subscription_def
      purchase_event_def reference_def subject_def entitlement_def entitlement_of_def Let_def
      sql_billing_repository_def sql_reconcile_def upsert_subscription_def insert_event_def
      sql_current_def row_of_def sub_key_def no_rows_def one_row_def billing_samples py_strip_def is_space_def)

section \<open>Properties\<close>

text \<open>
  C3: Over the PostgreSQL adapter, a verification that reports a paid tier leaves behind a
  stored subscription of that very account that is active or in its grace period, has not
  expired at the moment of the answer, and is the account's most recently verified one.
\<close>
theorem premium_is_backed_by_a_live_row:
  assumes "sql_inv s"
    and "verify_purchase hmac uuid5 sql_billing_repository verifier svc user platform product_id
      payload event_id received now s = (Inr snap, s')"
    and "\<And>v. id_free (subscription hmac uuid5 svc v) (subscription_rows s)"
    and "tier snap \<noteq> ''free''"
  shows "\<exists>c \<in> set (subscription_rows s'). sr_user_id c = Some user
    \<and> sr_status c \<in> {SUB_ACTIVE, GRACE_PERIOD}
    \<and> (case sr_expires_at c of None \<Rightarrow> True | Some e \<Rightarrow> now < e)
    \<and> (\<forall>c' \<in> set (subscription_rows s'). sr_user_id c' = Some user \<longrightarrow>
         sr_verified_at c' \<le> sr_verified_at c)"
  using assms by (rule sql_store.premium_is_backed)

theorem premium_is_backed_by_a_live_row_witness:
  "\<exists>c \<in> set (subscription_rows one_row). sr_user_id c = Some 7
    \<and> sr_status c \<in> {SUB_ACTIVE, GRACE_PERIOD}
    \<and> (case sr_expires_at c of None \<Rightarrow> True | Some e \<Rightarrow> 31 < e)
    \<and> (\<forall>c' \<in> set (subscription_rows one_row). sr_user_id c' = Some 7 \<longrightarrow>
         sr_verified_at c' \<le> sr_verified_at c)"
  by (rule premium_is_backed_by_a_live_row [OF _ sample_call_result])
     (simp_all add: sql_inv_def no_rows_def id_free_def)
text \<open>
  C4: Over the PostgreSQL adapter, no verification, accepted or refused, removes a stored
  subscription or moves its verification time back: older evidence never overwrites newer.
\<close>
theorem verification_never_regresses:
  assumes "sql_inv s"
    and "verify_purchase hmac uuid5 sql_billing_repository verifier svc user platform product_id
      payload event_id received now s = (r, s')"
    and "\<And>v. id_free (subscription hmac uuid5 svc v) (subscription_rows s)"
    and "row_of k (subscription_rows s) = Some old"
  shows "\<exists>new. row_of k (subscription_rows s') = Some new \<and> sr_verified_at old \<le> sr_verified_at new"
  using assms by (rule sql_store.verify_never_regresses)

definition other_row :: subscription_record where
  "other_row = \<lparr>sr_id = 50, sr_user_id = Some 9, sr_subject_reference = [], sr_platform = GOOGLE_PLAY,
     sr_product_id = ''p'', sr_entitlement = PREMIUM, sr_status = REVOKED, sr_environment = SANDBOX,
     sr_transaction_reference = ''t'', sr_original_reference = ''o'', sr_purchased_at = 1,
     sr_expires_at = None, sr_verified_at = 15, sr_auto_renews = False\<rparr>"

theorem verification_never_regresses_witness:
  "\<exists>new. row_of (sub_key other_row) (subscription_rows (snd (verify_purchase sample_hmac (\<lambda>_ _. 8)
       sql_billing_repository sample_verifier sample_service 7 APPLE_APP_STORE ''premium.monthly''
       ''evidence'' 1 30 31 \<lparr>subscription_rows = [other_row], event_rows = []\<rparr>))) = Some new
     \<and> 15 \<le> sr_verified_at new"
  using verification_never_regresses [of "\<lparr>subscription_rows = [other_row], event_rows = []\<rparr>",
      OF _ surjective_pairing, of sample_hmac "\<lambda>_ _. 8" sample_service "sub_key other_row" other_row
      sample_verifier 7 APPLE_APP_STORE "''premium.monthly''" "''evidence''" 1 30 31]
  by (simp add: sql_inv_def id_free_def row_of_def subscription_def Let_def other_row_def sub_key_def)

text \<open>
  Reconciling the same evidence a second time changes nothing in PostgreSQL: neither the
  subscription nor the event log, whatever the first call found there.
\<close>
lemma sql_reconcile_idempotent:
  assumes "sql_inv s" and "id_free sub (subscription_rows s)"
    and "sql_reconcile sub ev s = (r, s')"
    and "be_reference ev' = be_reference ev"
  shows "sql_reconcile sub ev' s' = (r, s')"
proof -
  have twice: "upsert_subscription sub rs' = Some rs'"
    if "upsert_subscription sub (subscription_rows s) = Some rs'" for rs'
    using that assms(2) by (rule upsert_twice)
  from sql_reconcile_step [OF assms(1,2), of ev] assms(3)
  obtain p where r: "r = Inr p" "row_of (sub_key sub) (subscription_rows s') = Some p"
      "upsert_subscription sub (subscription_rows s) = Some (subscription_rows s')"
      "event_rows s' = insert_event (ev\<lparr>be_subscription_id := sr_id p\<rparr>) (event_rows s)"
    by (auto simp: sql_reconcile_def split: option.splits)
  moreover have "list_ex (\<lambda>e. be_reference e = be_reference ev) (event_rows s')"
    by (simp add: r insert_event_def)
  ultimately show ?thesis using twice assms(4) by (simp add: sql_reconcile_def insert_event_def)
qed

lemma sql_reconcile_idempotent_witness:
  "sql_reconcile other_row \<lparr>be_id = 2, be_subscription_id = 50, be_reference = ''x'',
      be_status = REVOKED, be_occurred_at = 15, be_received_at = 99\<rparr>
     \<lparr>subscription_rows = [other_row], event_rows = [\<lparr>be_id = 1, be_subscription_id = 50,
        be_reference = ''x'', be_status = REVOKED, be_occurred_at = 15, be_received_at = 16\<rparr>]\<rparr>
   = (Inr other_row,
     \<lparr>subscription_rows = [other_row], event_rows = [\<lparr>be_id = 1, be_subscription_id = 50,
        be_reference = ''x'', be_status = REVOKED, be_occurred_at = 15, be_received_at = 16\<rparr>]\<rparr>)"
  by (rule sql_reconcile_idempotent [where s = no_rows and ev = "\<lparr>be_id = 1, be_subscription_id = 50,
        be_reference = ''x'', be_status = REVOKED, be_occurred_at = 15, be_received_at = 16\<rparr>"])
     (simp_all add: sql_inv_def no_rows_def id_free_def sql_reconcile_def upsert_subscription_def
       insert_event_def row_of_def other_row_def)

text \<open>
  C5: Whatever repository is behind it, a call that changes the stored state or reports success
  has passed every check: billing is enabled, the payload is bounded, and the verifier's answer
  to exactly this account, platform and product carries that account, platform, product, its
  entitlement, an allowed store environment, aware timestamps in order and an expiry after the
  purchase.
\<close>
theorem accepted_purchase_is_bound:
  assumes "verify_purchase hmac uuid5 repo verifier svc user platform product_id
      payload event_id received now s = (r, s')"
    and "s' \<noteq> s \<or> (\<exists>snap. r = Inr snap)"
  shows "\<exists>v p. billing_enabled svc \<and> py_strip payload \<noteq> [] \<and> length payload \<le> 131072
    \<and> verifier \<lparr>vr_user_id = user, vr_platform = platform, vr_product_id = product_id,
         vr_signed_payload = payload\<rparr> = Verified v
    \<and> p \<in> set (products svc) \<and> vp_user_id v = user \<and> vp_platform v = platform
    \<and> vp_product_id v = product_id \<and> vp_entitlement v = bp_entitlement p
    \<and> vp_environment v \<in> allowed_environments svc
    \<and> aware_instant (vp_purchased_at v) \<le> aware_instant (vp_verified_at v)
    \<and> (\<forall>e. vp_expires_at v = Some e \<longrightarrow> aware_instant (vp_purchased_at v) < aware_instant e)"
  using assms(1)
proof (cases rule: verify_purchase_cases)
  case (reconciled v x)
  then show ?thesis unfolding purchase_accepted_def by (metis validate_verified_None)
qed (use assms(2) in simp)

theorem accepted_purchase_is_bound_witness:
  "\<exists>v p. billing_enabled sample_service \<and> py_strip ''evidence'' \<noteq> [] \<and> length ''evidence'' \<le> 131072
    \<and> sample_verifier \<lparr>vr_user_id = 7, vr_platform = APPLE_APP_STORE,
         vr_product_id = ''premium.monthly'', vr_signed_payload = ''evidence''\<rparr> = Verified v
    \<and> p \<in> set (products sample_service) \<and> vp_user_id v = 7 \<and> vp_platform v = APPLE_APP_STORE
    \<and> vp_product_id v = ''premium.monthly'' \<and> vp_entitlement v = bp_entitlement p
    \<and> vp_environment v \<in> allowed_environments sample_service
    \<and> aware_instant (vp_purchased_at v) \<le> aware_instant (vp_verified_at v)
    \<and> (\<forall>e. vp_expires_at v = Some e \<longrightarrow> aware_instant (vp_purchased_at v) < aware_instant e)"
  by (rule accepted_purchase_is_bound [OF sample_call_result]) simp

end
