(* ===== verification/Identity_Domain.thy ===== *)
theory Identity_Domain
  imports Prelude
begin

text \<open>
  Identity entities and ports (\<open>app/modules/identity/domain.py\<close>, \<open>audit.py\<close>,
  \<open>authorization.py\<close>), with the in-memory (\<open>repositories.py\<close>) and PostgreSQL
  (\<open>sql_repositories.py\<close>) adapters for users and sessions. Each port has a locale with the laws
  the identity service relies on; both adapters are interpreted in it.
\<close>

section \<open>Entities and ports\<close>

datatype role = USER | MODERATOR | ADMIN

fun role_value :: "role \<Rightarrow> string" where
  "role_value USER = ''user''"
| "role_value MODERATOR = ''moderator''"
| "role_value ADMIN = ''admin''"

definition role_of :: "string \<Rightarrow> role option" where
  "role_of s = find (\<lambda>r. role_value r = s) [USER, MODERATOR, ADMIN]"

lemma role_of_value [simp]: "role_of (role_value r) = Some r"
  by (cases r) (simp_all add: role_of_def)

record user =
  user_id :: uuid
  email :: string
  password_hash :: string
  user_role :: role
  is_active :: bool
  is_verified :: bool
  user_created_at :: instant
  mfa_secret :: "string option"
  mfa_enabled :: bool

record session =
  session_id :: uuid
  session_user :: uuid
  session_created_at :: instant
  session_expires_at :: instant

record 's user_repository =
  add_user :: "user \<Rightarrow> 's \<Rightarrow> bool \<times> 's"
  get_by_email :: "string \<Rightarrow> 's \<Rightarrow> user option"
  get_by_id :: "uuid \<Rightarrow> 's \<Rightarrow> user option"
  mark_verified :: "uuid \<Rightarrow> 's \<Rightarrow> user option \<times> 's"
  update_password :: "uuid \<Rightarrow> string \<Rightarrow> 's \<Rightarrow> user option \<times> 's"
  set_mfa :: "uuid \<Rightarrow> string \<Rightarrow> bool \<Rightarrow> 's \<Rightarrow> user option \<times> 's"

text \<open>\<open>add\<close> answers \<open>None\<close> for the \<open>IntegrityError\<close> of a key already in use; the readings of
  the clock are arguments.\<close>

record 's session_repository =
  add_session :: "uuid \<Rightarrow> uuid \<Rightarrow> instant \<Rightarrow> instant \<Rightarrow> 's \<Rightarrow> 's option"
  consume :: "uuid \<Rightarrow> instant \<Rightarrow> 's \<Rightarrow> uuid option \<times> 's"
  revoke :: "uuid \<Rightarrow> 's \<Rightarrow> 's"
  revoke_all :: "uuid \<Rightarrow> 's \<Rightarrow> 's"
  list_for_user :: "uuid \<Rightarrow> instant \<Rightarrow> 's \<Rightarrow> session list"
  revoke_for_user :: "uuid \<Rightarrow> uuid \<Rightarrow> 's \<Rightarrow> bool \<times> 's"

datatype audit_action = USER_REGISTERED | EMAIL_VERIFIED | LOGIN_SUCCEEDED | LOGIN_FAILED
  | TOKEN_REFRESHED | LOGOUT | SESSION_REVOKED | PASSWORD_RESET_REQUESTED | PASSWORD_RESET_COMPLETED

record audit_event =
  audit_action :: audit_action
  audit_subject :: "uuid option"
  audit_occurred_at :: instant

definition event :: "audit_action \<Rightarrow> uuid option \<Rightarrow> instant \<Rightarrow> audit_event" where
  "event a subject now = \<lparr>audit_action = a, audit_subject = subject, audit_occurred_at = now\<rparr>"

definition authorize :: "user \<Rightarrow> role set \<Rightarrow> bool" where
  "authorize u allowed = (\<not> (\<not> is_active u \<or> user_role u \<notin> allowed))"

section \<open>User repositories\<close>

text \<open>What a repository holds is a map from identifiers; \<open>seal\<close> is what comes back of an MFA
  secret that was stored.\<close>

locale user_store =
  fixes repo :: "'s user_repository"
    and users_of :: "'s \<Rightarrow> uuid \<Rightarrow> user option"
    and inv :: "'s \<Rightarrow> bool"
    and seal :: "string \<Rightarrow> string option"
  assumes id_law: "inv s \<Longrightarrow> get_by_id repo i s = users_of s i"
    and email_law: "inv s \<Longrightarrow> get_by_email repo e s = Some u \<longleftrightarrow>
      users_of s (user_id u) = Some u \<and> email u = e"
    and key_law: "inv s \<Longrightarrow> users_of s i = Some u \<Longrightarrow> user_id u = i"
    and add_law: "inv s \<Longrightarrow> users_of s (user_id u) = None \<Longrightarrow> mfa_secret u = None \<Longrightarrow>
      (if get_by_email repo (email u) s = None
       then \<exists>s'. add_user repo u s = (True, s') \<and> inv s' \<and> users_of s' = (users_of s)(user_id u \<mapsto> u)
       else add_user repo u s = (False, s))"
    and verify_law: "inv s \<Longrightarrow> \<exists>s'. inv s' \<and>
      mark_verified repo i s = (map_option (is_verified_update (\<lambda>_. True)) (users_of s i), s') \<and>
      users_of s' = (users_of s)(i := map_option (is_verified_update (\<lambda>_. True)) (users_of s i))"
    and password_law: "inv s \<Longrightarrow> \<exists>s'. inv s' \<and>
      update_password repo i h s = (map_option (password_hash_update (\<lambda>_. h)) (users_of s i), s') \<and>
      users_of s' = (users_of s)(i := map_option (password_hash_update (\<lambda>_. h)) (users_of s i))"
    and mfa_law: "inv s \<Longrightarrow> \<exists>s'. inv s' \<and>
      set_mfa repo i secret b s =
        (map_option (\<lambda>u. u\<lparr>mfa_secret := seal secret, mfa_enabled := b\<rparr>) (users_of s i), s') \<and>
      users_of s' = (users_of s)(i :=
        map_option (\<lambda>u. u\<lparr>mfa_secret := seal secret, mfa_enabled := b\<rparr>) (users_of s i))"
begin

lemma email_found: "inv s \<Longrightarrow> get_by_email repo e s = Some u \<Longrightarrow>
    get_by_id repo (user_id u) s = Some u \<and> email u = e"
  using email_law id_law by metis

lemma no_two_users_share_an_email:
  "inv s \<Longrightarrow> users_of s i = Some u \<Longrightarrow> users_of s j = Some v \<Longrightarrow> email u = email v \<Longrightarrow> u = v"
  by (metis email_law key_law option.inject)

lemma password_is_replaced:
  assumes "inv s" and "update_password repo i h s = (r, s')"
  shows "inv s' \<and> get_by_id repo i s' = map_option (password_hash_update (\<lambda>_. h)) (get_by_id repo i s)
    \<and> r = get_by_id repo i s' \<and> (\<forall>j. j \<noteq> i \<longrightarrow> get_by_id repo j s' = get_by_id repo j s)"
  using password_law [OF assms(1), of i h] assms by (auto simp: id_law)

end

subsection \<open>InMemoryUserRepository\<close>

record inmem_users =
  by_id :: "(uuid, user) pydict"
  by_email :: "(string, uuid) pydict"

definition inmem_get_by_email :: "string \<Rightarrow> inmem_users \<Rightarrow> user option" where
  "inmem_get_by_email e s = Option.bind (dict_get (by_email s) e) (dict_get (by_id s))"

definition inmem_add_user :: "user \<Rightarrow> inmem_users \<Rightarrow> bool \<times> inmem_users" where
  "inmem_add_user u s =
     (if dict_get (by_email s) (email u) \<noteq> None then (False, s)
      else (True, s\<lparr>by_id := dict_set (user_id u) u (by_id s),
                    by_email := dict_set (email u) (user_id u) (by_email s)\<rparr>))"

definition inmem_replace :: "(user \<Rightarrow> user) \<Rightarrow> uuid \<Rightarrow> inmem_users \<Rightarrow> user option \<times> inmem_users" where
  "inmem_replace f i s =
     (case dict_get (by_id s) i of
        None \<Rightarrow> (None, s)
      | Some u \<Rightarrow> (Some (f u), s\<lparr>by_id := dict_set i (f u) (by_id s)\<rparr>))"

definition inmem_mark_verified :: "uuid \<Rightarrow> inmem_users \<Rightarrow> user option \<times> inmem_users" where
  "inmem_mark_verified = inmem_replace (\<lambda>u. u\<lparr>is_verified := True\<rparr>)"

definition inmem_update_password :: "uuid \<Rightarrow> string \<Rightarrow> inmem_users \<Rightarrow> user option \<times> inmem_users" where
  "inmem_update_password i h = inmem_replace (\<lambda>u. u\<lparr>password_hash := h\<rparr>) i"

definition inmem_set_mfa :: "uuid \<Rightarrow> string \<Rightarrow> bool \<Rightarrow> inmem_users \<Rightarrow> user option \<times> inmem_users" where
  "inmem_set_mfa i secret b = inmem_replace (\<lambda>u. u\<lparr>mfa_secret := Some secret, mfa_enabled := b\<rparr>) i"

definition inmem_user_repository :: "inmem_users user_repository" where
  "inmem_user_repository = \<lparr>add_user = inmem_add_user, get_by_email = inmem_get_by_email,
     get_by_id = (\<lambda>i s. dict_get (by_id s) i), mark_verified = inmem_mark_verified,
     update_password = inmem_update_password, set_mfa = inmem_set_mfa\<rparr>"

definition inmem_users_ok :: "inmem_users \<Rightarrow> bool" where
  "inmem_users_ok s \<longleftrightarrow>
     (\<forall>i u. dict_get (by_id s) i = Some u \<longrightarrow>
        user_id u = i \<and> dict_get (by_email s) (email u) = Some i) \<and>
     (\<forall>e i. dict_get (by_email s) e = Some i \<longrightarrow>
        (\<exists>u. dict_get (by_id s) i = Some u \<and> email u = e))"

lemma by_id_ok: "inmem_users_ok s \<Longrightarrow> dict_get (by_id s) i = Some u \<Longrightarrow>
    user_id u = i \<and> dict_get (by_email s) (email u) = Some i"
  unfolding inmem_users_ok_def by (elim conjE allE [of _ i] allE [of _ u]) (erule mp)

lemma by_email_ok: "inmem_users_ok s \<Longrightarrow> dict_get (by_email s) e = Some i \<Longrightarrow>
    \<exists>u. dict_get (by_id s) i = Some u \<and> email u = e"
  unfolding inmem_users_ok_def by (elim conjE) (erule allE [of _ e], erule allE [of _ i], erule mp)

lemma inmem_email_law:
  "inmem_users_ok s \<Longrightarrow> inmem_get_by_email e s = Some u \<longleftrightarrow>
     dict_get (by_id s) (user_id u) = Some u \<and> email u = e"
proof
  assume ok: "inmem_users_ok s" and "inmem_get_by_email e s = Some u"
  then obtain i where i: "dict_get (by_email s) e = Some i" "dict_get (by_id s) i = Some u"
    by (auto simp: inmem_get_by_email_def bind_eq_Some_conv)
  with by_email_ok [OF ok i(1)] by_id_ok [OF ok i(2)]
  show "dict_get (by_id s) (user_id u) = Some u \<and> email u = e" by auto
next
  assume ok: "inmem_users_ok s" and u: "dict_get (by_id s) (user_id u) = Some u \<and> email u = e"
  with by_id_ok [OF ok, of "user_id u" u] show "inmem_get_by_email e s = Some u"
    by (simp add: inmem_get_by_email_def)
qed

lemma inmem_replace_law:
  assumes ok: "inmem_users_ok s" and f: "\<And>u. user_id (f u) = user_id u" "\<And>u. email (f u) = email u"
  shows "\<exists>s'. inmem_users_ok s' \<and> inmem_replace f i s = (map_option f (dict_get (by_id s) i), s')
    \<and> dict_get (by_id s') = (dict_get (by_id s))(i := map_option f (dict_get (by_id s) i))"
proof (cases "dict_get (by_id s) i")
  case None
  with ok show ?thesis by (auto simp: inmem_replace_def)
next
  case (Some u)
  have "inmem_users_ok (s\<lparr>by_id := dict_set i (f u) (by_id s)\<rparr>)"
    using ok Some f unfolding inmem_users_ok_def by (auto split: if_splits; metis option.inject)
  with Some show ?thesis by (simp add: inmem_replace_def)
qed

lemma inmem_add_law:
  assumes ok: "inmem_users_ok s" and fresh: "dict_get (by_id s) (user_id u) = None"
  shows "if inmem_get_by_email (email u) s = None
    then \<exists>s'. inmem_add_user u s = (True, s') \<and> inmem_users_ok s'
      \<and> dict_get (by_id s') = (dict_get (by_id s))(user_id u \<mapsto> u)
    else inmem_add_user u s = (False, s)"
proof -
  have known: "inmem_get_by_email (email u) s = None \<longleftrightarrow> dict_get (by_email s) (email u) = None"
    using by_email_ok [OF ok, of "email u"]
    by (cases "dict_get (by_email s) (email u)") (auto simp: inmem_get_by_email_def)
  have "inmem_users_ok (s\<lparr>by_id := dict_set (user_id u) u (by_id s),
      by_email := dict_set (email u) (user_id u) (by_email s)\<rparr>)"
    if "dict_get (by_email s) (email u) = None"
    using ok fresh that unfolding inmem_users_ok_def by (auto split: if_splits) (metis option.distinct(1))+
  with known show ?thesis by (auto simp: inmem_add_user_def)
qed

lemmas inmem_user_ops = inmem_user_repository_def inmem_mark_verified_def inmem_update_password_def
  inmem_set_mfa_def

interpretation inmem_user_store:
  user_store inmem_user_repository "\<lambda>s. dict_get (by_id s)" inmem_users_ok Some
proof
  show "inmem_users_ok s \<Longrightarrow> dict_get (by_id s) i = Some u \<Longrightarrow> user_id u = i" for s i u
    by (simp add: inmem_users_ok_def)
qed (simp_all add: inmem_user_ops inmem_email_law inmem_add_law inmem_replace_law)

subsection \<open>SqlUserRepository\<close>

record user_row =
  row_id :: uuid
  row_email :: string
  row_password_hash :: string
  row_role :: string
  row_is_active :: bool
  row_is_verified :: bool
  row_created_at :: instant
  row_mfa_secret :: "string option"
  row_mfa_enabled :: bool

text \<open>\<open>_user\<close>; \<open>dec\<close> is \<open>decrypt_secret\<close> under the application secret. The role column is
  written by this adapter only, so it names a role.\<close>

definition of_user_row :: "(string \<Rightarrow> string) \<Rightarrow> user_row \<Rightarrow> user" where
  "of_user_row dec r = \<lparr>user_id = row_id r, email = row_email r, password_hash = row_password_hash r,
     user_role = the (role_of (row_role r)), is_active = row_is_active r,
     is_verified = row_is_verified r, user_created_at = row_created_at r,
     mfa_secret = (case row_mfa_secret r of
        None \<Rightarrow> None | Some c \<Rightarrow> if c = [] then None else Some (dec c)),
     mfa_enabled = row_mfa_enabled r\<rparr>"

definition to_user_row :: "(string \<Rightarrow> string) \<Rightarrow> user \<Rightarrow> user_row" where
  "to_user_row enc u = \<lparr>row_id = user_id u, row_email = email u, row_password_hash = password_hash u,
     row_role = role_value (user_role u), row_is_active = is_active u,
     row_is_verified = is_verified u, row_created_at = user_created_at u,
     row_mfa_secret = (case mfa_secret u of
        None \<Rightarrow> None | Some m \<Rightarrow> if m = [] then None else Some (enc m)),
     row_mfa_enabled = mfa_enabled u\<rparr>"

text \<open>The primary key and the unique e-mail raise \<open>IntegrityError\<close>, reported as the same error.\<close>

definition sql_add_user :: "(string \<Rightarrow> string) \<Rightarrow> user \<Rightarrow> user_row list \<Rightarrow> bool \<times> user_row list" where
  "sql_add_user enc u rows =
     (if list_ex (\<lambda>r. row_id r = user_id u \<or> row_email r = email u) rows then (False, rows)
      else (True, rows @ [to_user_row enc u]))"

definition sql_get_by_email :: "(string \<Rightarrow> string) \<Rightarrow> string \<Rightarrow> user_row list \<Rightarrow> user option" where
  "sql_get_by_email dec e rows = map_option (of_user_row dec) (find (\<lambda>r. row_email r = e) rows)"

definition sql_get_by_id :: "(string \<Rightarrow> string) \<Rightarrow> uuid \<Rightarrow> user_row list \<Rightarrow> user option" where
  "sql_get_by_id dec i rows = map_option (of_user_row dec) (find (\<lambda>r. row_id r = i) rows)"

text \<open>\<open>UPDATE .. WHERE id = i RETURNING\<close>.\<close>

definition update_returning ::
  "(string \<Rightarrow> string) \<Rightarrow> (user_row \<Rightarrow> user_row) \<Rightarrow> uuid \<Rightarrow> user_row list \<Rightarrow> user option \<times> user_row list" where
  "update_returning dec f i rows =
     (let rows' = map (\<lambda>r. if row_id r = i then f r else r) rows
      in (sql_get_by_id dec i rows', rows'))"

definition sql_mark_verified :: "(string \<Rightarrow> string) \<Rightarrow> uuid \<Rightarrow> user_row list \<Rightarrow> user option \<times> user_row list" where
  "sql_mark_verified dec = update_returning dec (\<lambda>r. r\<lparr>row_is_verified := True\<rparr>)"

definition sql_update_password ::
  "(string \<Rightarrow> string) \<Rightarrow> uuid \<Rightarrow> string \<Rightarrow> user_row list \<Rightarrow> user option \<times> user_row list" where
  "sql_update_password dec i h = update_returning dec (\<lambda>r. r\<lparr>row_password_hash := h\<rparr>) i"

definition sql_set_mfa ::
  "(string \<Rightarrow> string) \<Rightarrow> (string \<Rightarrow> string) \<Rightarrow> uuid \<Rightarrow> string \<Rightarrow> bool \<Rightarrow> user_row list \<Rightarrow>
     user option \<times> user_row list" where
  "sql_set_mfa enc dec i secret b =
     update_returning dec (\<lambda>r. r\<lparr>row_mfa_secret := Some (enc secret), row_mfa_enabled := b\<rparr>) i"

definition sql_user_repository ::
  "(string \<Rightarrow> string) \<Rightarrow> (string \<Rightarrow> string) \<Rightarrow> user_row list user_repository" where
  "sql_user_repository enc dec = \<lparr>add_user = sql_add_user enc, get_by_email = sql_get_by_email dec,
     get_by_id = sql_get_by_id dec, mark_verified = sql_mark_verified dec,
     update_password = sql_update_password dec, set_mfa = sql_set_mfa enc dec\<rparr>"

definition user_rows_ok :: "user_row list \<Rightarrow> bool" where
  "user_rows_ok rows \<longleftrightarrow> distinct (map row_id rows) \<and> distinct (map row_email rows)"

definition sealed :: "(string \<Rightarrow> string) \<Rightarrow> (string \<Rightarrow> string) \<Rightarrow> string \<Rightarrow> string option" where
  "sealed enc dec m = (if enc m = [] then None else Some (dec (enc m)))"

lemma of_user_row_simps [simp]:
  "user_id (of_user_row dec r) = row_id r" "email (of_user_row dec r) = row_email r"
  by (simp_all add: of_user_row_def)

lemma of_to_user_row: "mfa_secret u = None \<Longrightarrow> of_user_row dec (to_user_row enc u) = u"
  by (simp add: of_user_row_def to_user_row_def)

lemma find_distinct_key:
  "distinct (map f xs) \<Longrightarrow> find (\<lambda>x. f x = k) xs = Some x \<longleftrightarrow> x \<in> set xs \<and> f x = k"
  by (induction xs) auto

lemma sql_email_law:
  "user_rows_ok rows \<Longrightarrow> sql_get_by_email dec e rows = Some u \<longleftrightarrow>
     sql_get_by_id dec (user_id u) rows = Some u \<and> email u = e"
  by (auto simp: sql_get_by_email_def sql_get_by_id_def user_rows_ok_def find_distinct_key)

lemma sql_add_law:
  assumes "user_rows_ok rows" and "sql_get_by_id dec (user_id u) rows = None" and "mfa_secret u = None"
  shows "if sql_get_by_email dec (email u) rows = None
    then \<exists>s'. sql_add_user enc u rows = (True, s') \<and> user_rows_ok s'
      \<and> (\<lambda>i. sql_get_by_id dec i s') = (\<lambda>i. sql_get_by_id dec i rows)(user_id u \<mapsto> u)
    else sql_add_user enc u rows = (False, rows)"
proof -
  have app: "find P (rows @ [r]) = (case find P rows of Some x \<Rightarrow> Some x | None \<Rightarrow> if P r then Some r else None)"
    for P r
    by (induction rows) auto
  have rid: "row_id (to_user_row enc u) = user_id u" "row_email (to_user_row enc u) = email u"
    by (simp_all add: to_user_row_def)
  show ?thesis
  proof (cases "sql_get_by_email dec (email u) rows")
    case None
    with assms have new: "\<not> list_ex (\<lambda>r. row_id r = user_id u \<or> row_email r = email u) rows"
      by (auto simp: sql_get_by_id_def sql_get_by_email_def find_None_iff' list_ex_iff)
    then have "user_rows_ok (rows @ [to_user_row enc u])"
      using assms(1) by (auto simp: user_rows_ok_def rid list_ex_iff)
    moreover have "(\<lambda>i. sql_get_by_id dec i (rows @ [to_user_row enc u]))
        = (\<lambda>i. sql_get_by_id dec i rows)(user_id u \<mapsto> u)"
      using assms(2) by (auto simp: sql_get_by_id_def app rid of_to_user_row assms(3) fun_eq_iff
          split: option.splits)
    ultimately show ?thesis using None new by (simp add: sql_add_user_def)
  next
    case (Some v)
    then show ?thesis
      by (auto simp: sql_add_user_def sql_get_by_email_def list_ex_iff dest: find_Some_D)
  qed
qed

lemma sql_update_law:
  assumes ok: "user_rows_ok rows"
    and f: "\<And>r. row_id (f r) = row_id r" "\<And>r. row_email (f r) = row_email r"
    and g: "\<And>r. of_user_row dec (f r) = g (of_user_row dec r)"
  shows "\<exists>s'. user_rows_ok s' \<and>
    update_returning dec f i rows = (map_option g (sql_get_by_id dec i rows), s') \<and>
    (\<lambda>j. sql_get_by_id dec j s') = (\<lambda>j. sql_get_by_id dec j rows)(i := map_option g (sql_get_by_id dec i rows))"
proof -
  let ?rows' = "map (\<lambda>r. if row_id r = i then f r else r) rows"
  have "map row_id ?rows' = map row_id rows" "map row_email ?rows' = map row_email rows"
    by (auto simp: f)
  then have "user_rows_ok ?rows'" using ok by (simp add: user_rows_ok_def del: map_map)
  moreover have get: "sql_get_by_id dec j ?rows' =
      (if j = i then map_option g (sql_get_by_id dec i rows) else sql_get_by_id dec j rows)" for j
    unfolding sql_get_by_id_def by (induction rows) (auto simp: f g)
  ultimately show ?thesis by (intro exI [of _ ?rows']) (auto simp: update_returning_def Let_def)
qed

interpretation sql_user_store:
  user_store "sql_user_repository enc dec" "\<lambda>s i. sql_get_by_id dec i s" user_rows_ok "sealed enc dec"
  for enc dec
proof
  fix rows :: "user_row list"
  assume ok: "user_rows_ok rows"
  show "get_by_id (sql_user_repository enc dec) i rows = sql_get_by_id dec i rows" for i
    by (simp add: sql_user_repository_def)
  show "get_by_email (sql_user_repository enc dec) e rows = Some u \<longleftrightarrow>
      sql_get_by_id dec (user_id u) rows = Some u \<and> email u = e" for e u
    using sql_email_law [OF ok] by (simp add: sql_user_repository_def)
  show "user_id u = i" if "sql_get_by_id dec i rows = Some u" for i u
    using that by (auto simp: sql_get_by_id_def dest: find_Some_D)
  show "if get_by_email (sql_user_repository enc dec) (email u) rows = None
      then \<exists>s'. add_user (sql_user_repository enc dec) u rows = (True, s') \<and> user_rows_ok s' \<and>
        (\<lambda>i. sql_get_by_id dec i s') = (\<lambda>i. sql_get_by_id dec i rows)(user_id u \<mapsto> u)
      else add_user (sql_user_repository enc dec) u rows = (False, rows)"
    if "sql_get_by_id dec (user_id u) rows = None" "mfa_secret u = None" for u
    using sql_add_law [OF ok that] by (simp add: sql_user_repository_def)
  show "\<exists>s'. user_rows_ok s' \<and> mark_verified (sql_user_repository enc dec) i rows =
        (map_option (is_verified_update (\<lambda>_. True)) (sql_get_by_id dec i rows), s') \<and>
      (\<lambda>i. sql_get_by_id dec i s') = (\<lambda>i. sql_get_by_id dec i rows)
        (i := map_option (is_verified_update (\<lambda>_. True)) (sql_get_by_id dec i rows))" for i
    unfolding sql_user_repository_def sql_mark_verified_def user_repository.simps
    by (rule sql_update_law [OF ok]) (simp_all add: of_user_row_def)
  show "\<exists>s'. user_rows_ok s' \<and> update_password (sql_user_repository enc dec) i h rows =
        (map_option (password_hash_update (\<lambda>_. h)) (sql_get_by_id dec i rows), s') \<and>
      (\<lambda>i. sql_get_by_id dec i s') = (\<lambda>i. sql_get_by_id dec i rows)
        (i := map_option (password_hash_update (\<lambda>_. h)) (sql_get_by_id dec i rows))" for i h
    unfolding sql_user_repository_def sql_update_password_def user_repository.simps
    by (rule sql_update_law [OF ok]) (simp_all add: of_user_row_def)
  show "\<exists>s'. user_rows_ok s' \<and> set_mfa (sql_user_repository enc dec) i m b rows =
        (map_option (\<lambda>u. u\<lparr>mfa_secret := sealed enc dec m, mfa_enabled := b\<rparr>)
          (sql_get_by_id dec i rows), s') \<and>
      (\<lambda>i. sql_get_by_id dec i s') = (\<lambda>i. sql_get_by_id dec i rows)
        (i := map_option (\<lambda>u. u\<lparr>mfa_secret := sealed enc dec m, mfa_enabled := b\<rparr>)
          (sql_get_by_id dec i rows))" for i m b
    unfolding sql_user_repository_def sql_set_mfa_def user_repository.simps
    by (rule sql_update_law [OF ok]) (simp_all add: of_user_row_def sealed_def)
qed

end
