(* ===== verification/Identity_Sessions.thy ===== *)
theory Identity_Sessions
  imports Identity_Domain
begin

text \<open>
  Session repositories (\<open>app/modules/identity/repositories.py\<close> and \<open>sql_repositories.py\<close>): the
  locale \<open>session_store\<close> states what the identity service relies on in terms of the sessions
  that are live at an instant, which is all the two adapters agree on: the in-memory one drops
  an expired session when it is presented, the PostgreSQL one leaves its row in the table.
\<close>

section \<open>The interface\<close>

locale session_store =
  fixes repo :: "'s session_repository"
    and live :: "'s \<Rightarrow> instant \<Rightarrow> uuid \<Rightarrow> uuid option"
    and held :: "'s \<Rightarrow> uuid set"
    and inv :: "'s \<Rightarrow> bool"
  assumes live_held: "inv s \<Longrightarrow> live s t i \<noteq> None \<Longrightarrow> i \<in> held s"
    and live_earlier: "inv s \<Longrightarrow> live s t i = Some u \<Longrightarrow> t' \<le> t \<Longrightarrow> live s t' i = Some u"
    and add_law: "inv s \<Longrightarrow> i \<notin> held s \<Longrightarrow>
      \<exists>s'. add_session repo i u expiry now s = Some s' \<and> inv s' \<and> held s' = insert i (held s)
        \<and> (\<forall>t. live s' t = (live s t)(i := if t < expiry then Some u else None))"
    and consume_law: "inv s \<Longrightarrow> consume repo i now s = (r, s') \<Longrightarrow>
      r = live s now i \<and> inv s' \<and> held s' \<subseteq> held s
        \<and> (\<forall>t j. j \<noteq> i \<longrightarrow> live s' t j = live s t j) \<and> (\<forall>t \<ge> now. live s' t i = None)
        \<and> (\<forall>t. live s' t i = None \<or> live s' t i = live s t i)"
    and revoke_law: "inv s \<Longrightarrow> inv (revoke repo i s) \<and> held (revoke repo i s) \<subseteq> held s
        \<and> (\<forall>t. live (revoke repo i s) t = (live s t)(i := None))"
    and revoke_all_law: "inv s \<Longrightarrow> inv (revoke_all repo u s) \<and> held (revoke_all repo u s) \<subseteq> held s
        \<and> (\<forall>t j. live (revoke_all repo u s) t j = (if live s t j = Some u then None else live s t j))"
    and list_law: "inv s \<Longrightarrow> session_id ` set (list_for_user repo u now s) = {i. live s now i = Some u}"
    and revoke_for_law: "inv s \<Longrightarrow> revoke_for_user repo i u s = (b, s') \<Longrightarrow>
      inv s' \<and> held s' \<subseteq> held s \<and> (\<forall>t. live s t i = Some u \<longrightarrow> b)
        \<and> (\<forall>t. live s' t = (if b then (live s t)(i := None) else live s t))
        \<and> (b \<longrightarrow> (\<forall>t. live s t i = None \<or> live s t i = Some u))"
begin

lemma consumed_once:
  assumes "inv s" and "consume repo i now s = (Some u, s')" and "now \<le> later"
  shows "fst (consume repo i later s') = None"
proof -
  from consume_law [OF assms(1,2)] have inv': "inv s'" and dead: "live s' later i = None"
    using assms(3) by auto
  obtain r s'' where "consume repo i later s' = (r, s'')" by fastforce
  with consume_law [OF inv' this] dead show ?thesis by simp
qed

lemma revoked_user_has_nothing_live:
  assumes "inv s" and "live (revoke_all repo u s) t i = Some v"
  shows "v \<noteq> u"
  using revoke_all_law [OF assms(1), of u] assms(2) by (auto split: if_splits)

lemma revoke_for_only_own:
  assumes "inv s" and "revoke_for_user repo i u s = (b, s')" and "live s t j = Some v" and "v \<noteq> u"
  shows "live s' t j = Some v"
proof -
  from revoke_for_law [OF assms(1,2)]
  have l: "live s' t = (if b then (live s t)(i := None) else live s t)"
    and o: "b \<Longrightarrow> live s t i = None \<or> live s t i = Some u" by blast+
  have "j \<noteq> i" if b using o [OF that] assms(3,4) by auto
  with l assms(3) show ?thesis by (cases b) auto
qed

end

section \<open>InMemorySessionRepository\<close>

type_synonym session_dict = "(uuid, session) pydict"

definition inmem_add_session :: "uuid \<Rightarrow> uuid \<Rightarrow> instant \<Rightarrow> instant \<Rightarrow> session_dict \<Rightarrow> session_dict option" where
  "inmem_add_session i u expiry now d =
     Some (dict_set i \<lparr>session_id = i, session_user = u, session_created_at = now,
                       session_expires_at = expiry\<rparr> d)"

definition inmem_consume :: "uuid \<Rightarrow> instant \<Rightarrow> session_dict \<Rightarrow> uuid option \<times> session_dict" where
  "inmem_consume i now d =
     (case dict_get d i of
        None \<Rightarrow> (None, d)
      | Some x \<Rightarrow>
          (if session_expires_at x \<le> now then None else Some (session_user x), dict_del i d))"

definition inmem_revoke :: "uuid \<Rightarrow> session_dict \<Rightarrow> session_dict" where
  "inmem_revoke i d = dict_del i d"

definition inmem_revoke_all :: "uuid \<Rightarrow> session_dict \<Rightarrow> session_dict" where
  "inmem_revoke_all u d = filter (\<lambda>(i, x). session_user x \<noteq> u) d"

definition inmem_list_for_user :: "uuid \<Rightarrow> instant \<Rightarrow> session_dict \<Rightarrow> session list" where
  "inmem_list_for_user u now d =
     filter (\<lambda>x. session_user x = u \<and> session_expires_at x > now) (dict_values d)"

definition inmem_revoke_for_user :: "uuid \<Rightarrow> uuid \<Rightarrow> session_dict \<Rightarrow> bool \<times> session_dict" where
  "inmem_revoke_for_user i u d =
     (case dict_get d i of
        None \<Rightarrow> (False, d)
      | Some x \<Rightarrow> if session_user x \<noteq> u then (False, d) else (True, dict_del i d))"

definition inmem_session_repository :: "session_dict session_repository" where
  "inmem_session_repository = \<lparr>add_session = inmem_add_session, consume = inmem_consume,
     revoke = inmem_revoke, revoke_all = inmem_revoke_all, list_for_user = inmem_list_for_user,
     revoke_for_user = inmem_revoke_for_user\<rparr>"

definition owner_at :: "instant \<Rightarrow> session option \<Rightarrow> uuid option" where
  "owner_at t x = (case x of None \<Rightarrow> None
     | Some x \<Rightarrow> if t < session_expires_at x then Some (session_user x) else None)"

definition sessions_ok :: "session_dict \<Rightarrow> bool" where
  "sessions_ok d \<longleftrightarrow> dict_ok d \<and> (\<forall>(i, x) \<in> set d. session_id x = i)"

lemma owner_at_simps [simp]:
  "owner_at t None = None"
  "owner_at t (Some x) = (if t < session_expires_at x then Some (session_user x) else None)"
  by (simp_all add: owner_at_def)

lemma live_ids:
  assumes "\<And>x i. x \<in> S \<and> session_id x = i \<longleftrightarrow> get i = Some x"
  shows "session_id ` {x \<in> S. session_user x = u \<and> now < session_expires_at x} =
    {i. owner_at now (get i) = Some u}" (is "?L = ?R")
proof (intro set_eqI iffI)
  fix i assume "i \<in> ?L"
  then obtain x where "x \<in> S" "session_user x = u" "now < session_expires_at x" "session_id x = i"
    by blast
  with assms [of x i] show "i \<in> ?R" by simp
next
  fix i assume r: "i \<in> ?R"
  then obtain x where x: "get i = Some x" by (cases "get i") auto
  with r have "session_user x = u \<and> now < session_expires_at x" by (simp split: if_splits)
  with x assms [of x i] show "i \<in> ?L" by blast
qed

lemma sessions_ok_get: "sessions_ok d \<Longrightarrow> dict_get d i = Some x \<Longrightarrow> session_id x = i"
  by (auto simp: sessions_ok_def dest!: map_of_SomeD)

lemma sessions_ok_subset: "sessions_ok d \<Longrightarrow> set d' \<subseteq> set d \<Longrightarrow> dict_ok d' \<Longrightarrow> sessions_ok d'"
  unfolding sessions_ok_def by blast

lemma sessions_ok_del: "sessions_ok d \<Longrightarrow> sessions_ok (dict_del i d)"
  by (rule sessions_ok_subset) (auto simp: sessions_ok_def dest: set_dict_del [THEN subsetD])

lemma sessions_ok_filter: "sessions_ok d \<Longrightarrow> sessions_ok (filter P d)"
  by (rule sessions_ok_subset) (auto simp: sessions_ok_def)

lemma sessions_ok_set: "sessions_ok d \<Longrightarrow> session_id x = i \<Longrightarrow> sessions_ok (dict_set i x d)"
  unfolding sessions_ok_def using set_dict_set [of d i x] by auto

interpretation inmem_session_store:
  session_store inmem_session_repository "\<lambda>d t i. owner_at t (dict_get d i)"
    "\<lambda>d. dom (dict_get d)" sessions_ok
proof
  fix d :: session_dict
  assume ok: "sessions_ok d"
  then have d: "dict_ok d" by (simp add: sessions_ok_def)
  show "i \<in> dom (dict_get d)" if "owner_at t (dict_get d i) \<noteq> None" for t i
    using that by (cases "dict_get d i") auto
  show "owner_at t' (dict_get d i) = Some u" if "owner_at t (dict_get d i) = Some u" "t' \<le> t" for t t' i u
    using that by (cases "dict_get d i") (auto split: if_splits)
  show "\<exists>s'. add_session inmem_session_repository i u expiry now d = Some s' \<and> sessions_ok s'
      \<and> dom (dict_get s') = insert i (dom (dict_get d))
      \<and> (\<forall>t. (\<lambda>j. owner_at t (dict_get s' j)) =
            (\<lambda>j. owner_at t (dict_get d j))(i := if t < expiry then Some u else None))" for i u expiry now
    using ok by (auto simp: inmem_session_repository_def inmem_add_session_def sessions_ok_set fun_eq_iff)
  show "r = owner_at now (dict_get d i) \<and> sessions_ok s' \<and> dom (dict_get s') \<subseteq> dom (dict_get d)
      \<and> (\<forall>t j. j \<noteq> i \<longrightarrow> owner_at t (dict_get s' j) = owner_at t (dict_get d j))
      \<and> (\<forall>t \<ge> now. owner_at t (dict_get s' i) = None)
      \<and> (\<forall>t. owner_at t (dict_get s' i) = None \<or> owner_at t (dict_get s' i) = owner_at t (dict_get d i))"
    if "consume inmem_session_repository i now d = (r, s')" for i now r s'
    using that ok by (auto simp: inmem_session_repository_def inmem_consume_def sessions_ok_del
        split: option.splits if_splits)
  show "sessions_ok (revoke inmem_session_repository i d)
      \<and> dom (dict_get (revoke inmem_session_repository i d)) \<subseteq> dom (dict_get d)
      \<and> (\<forall>t. (\<lambda>j. owner_at t (dict_get (revoke inmem_session_repository i d) j)) =
            (\<lambda>j. owner_at t (dict_get d j))(i := None))" for i
    using ok by (auto simp: inmem_session_repository_def inmem_revoke_def sessions_ok_del fun_eq_iff)
  have all: "dict_get (inmem_revoke_all u d) j = (case dict_get d j of None \<Rightarrow> None
      | Some x \<Rightarrow> if session_user x \<noteq> u then Some x else None)" for u j
    unfolding inmem_revoke_all_def using map_of_filter_key_value [OF d, of "\<lambda>i x. session_user x \<noteq> u"] by simp
  show "sessions_ok (revoke_all inmem_session_repository u d)
      \<and> dom (dict_get (revoke_all inmem_session_repository u d)) \<subseteq> dom (dict_get d)
      \<and> (\<forall>t j. owner_at t (dict_get (revoke_all inmem_session_repository u d) j) =
            (if owner_at t (dict_get d j) = Some u then None else owner_at t (dict_get d j)))" for u
    using ok by (auto simp: inmem_session_repository_def all dom_def split: option.splits)
      (simp add: inmem_revoke_all_def sessions_ok_filter)
  show "session_id ` set (list_for_user inmem_session_repository u now d) =
      {i. owner_at now (dict_get d i) = Some u}" for u now
  proof -
    have "x \<in> set (dict_values d) \<and> session_id x = i \<longleftrightarrow> dict_get d i = Some x" for x i
      using dict_values_iff [OF d, of x] sessions_ok_get [OF ok] by auto
    from live_ids [OF this, of u now] show ?thesis
      by (simp add: inmem_session_repository_def inmem_list_for_user_def)
  qed
  show "sessions_ok s' \<and> dom (dict_get s') \<subseteq> dom (dict_get d)
      \<and> (\<forall>t. owner_at t (dict_get d i) = Some u \<longrightarrow> b)
      \<and> (\<forall>t. (\<lambda>j. owner_at t (dict_get s' j)) = (if b then (\<lambda>j. owner_at t (dict_get d j))(i := None)
              else (\<lambda>j. owner_at t (dict_get d j))))
      \<and> (b \<longrightarrow> (\<forall>t. owner_at t (dict_get d i) = None \<or> owner_at t (dict_get d i) = Some u))"
    if "revoke_for_user inmem_session_repository i u d = (b, s')" for i u b s'
    using that ok by (auto simp: inmem_session_repository_def inmem_revoke_for_user_def sessions_ok_del
        fun_eq_iff split: option.splits if_splits)
qed

section \<open>SqlSessionRepository\<close>

definition sql_add_session :: "uuid \<Rightarrow> uuid \<Rightarrow> instant \<Rightarrow> instant \<Rightarrow> session list \<Rightarrow> session list option" where
  "sql_add_session i u expiry now rows =
     (if list_ex (\<lambda>r. session_id r = i) rows then None
      else Some (rows @ [\<lparr>session_id = i, session_user = u, session_created_at = now,
                          session_expires_at = expiry\<rparr>]))"

text \<open>\<open>DELETE .. WHERE p RETURNING\<close>.\<close>

definition delete_returning :: "(session \<Rightarrow> bool) \<Rightarrow> session list \<Rightarrow> session option \<times> session list" where
  "delete_returning p rows = (find p rows, filter (\<lambda>r. \<not> p r) rows)"

definition sql_consume :: "uuid \<Rightarrow> instant \<Rightarrow> session list \<Rightarrow> uuid option \<times> session list" where
  "sql_consume i now rows =
     (case delete_returning (\<lambda>r. session_id r = i \<and> session_expires_at r > now) rows of
        (r, rows') \<Rightarrow> (map_option session_user r, rows'))"

definition sql_revoke :: "uuid \<Rightarrow> session list \<Rightarrow> session list" where
  "sql_revoke i rows = filter (\<lambda>r. session_id r \<noteq> i) rows"

definition sql_revoke_all :: "uuid \<Rightarrow> session list \<Rightarrow> session list" where
  "sql_revoke_all u rows = filter (\<lambda>r. session_user r \<noteq> u) rows"

definition sql_list_for_user :: "uuid \<Rightarrow> instant \<Rightarrow> session list \<Rightarrow> session list" where
  "sql_list_for_user u now rows =
     sort_key session_created_at
       (filter (\<lambda>r. session_user r = u \<and> session_expires_at r > now) rows)"

definition sql_revoke_for_user :: "uuid \<Rightarrow> uuid \<Rightarrow> session list \<Rightarrow> bool \<times> session list" where
  "sql_revoke_for_user i u rows =
     (case delete_returning (\<lambda>r. session_id r = i \<and> session_user r = u) rows of
        (r, rows') \<Rightarrow> (r \<noteq> None, rows'))"

definition sql_session_repository :: "session list session_repository" where
  "sql_session_repository = \<lparr>add_session = sql_add_session, consume = sql_consume,
     revoke = sql_revoke, revoke_all = sql_revoke_all, list_for_user = sql_list_for_user,
     revoke_for_user = sql_revoke_for_user\<rparr>"

definition session_row :: "session list \<Rightarrow> uuid \<Rightarrow> session option" where
  "session_row rows i = find (\<lambda>r. session_id r = i) rows"

definition session_rows_ok :: "session list \<Rightarrow> bool" where
  "session_rows_ok rows \<longleftrightarrow> distinct (map session_id rows)"

lemma session_row_iff: "session_rows_ok rows \<Longrightarrow>
    session_row rows i = Some x \<longleftrightarrow> x \<in> set rows \<and> session_id x = i"
  unfolding session_row_def session_rows_ok_def by (rule find_distinct_key)

lemma session_row_id: "session_row rows i = Some x \<Longrightarrow> session_id x = i"
  unfolding session_row_def by (drule find_Some_D) simp

lemma session_rows_ok_filter: "session_rows_ok rows \<Longrightarrow> session_rows_ok (filter P rows)"
  by (simp add: session_rows_ok_def distinct_map_filter)

lemma find_key_notin: "k \<notin> f ` set xs \<Longrightarrow> find (\<lambda>x. f x = k) xs = None"
    "k \<notin> f ` set xs \<Longrightarrow> find (\<lambda>x. f x = k \<and> P x) xs = None"
  by (auto simp: find_None_iff')

lemma session_row_filter: "session_rows_ok rows \<Longrightarrow>
    session_row (filter P rows) i = (case session_row rows i of None \<Rightarrow> None
      | Some x \<Rightarrow> if P x then Some x else None)"
  unfolding session_row_def session_rows_ok_def
  by (induction rows) (auto simp: find_key_notin split: option.splits)

lemma session_row_find: "session_rows_ok rows \<Longrightarrow>
    find (\<lambda>r. session_id r = i \<and> P r) rows = (case session_row rows i of None \<Rightarrow> None
      | Some x \<Rightarrow> if P x then Some x else None)"
  unfolding session_row_def session_rows_ok_def
  by (induction rows) (auto simp: find_key_notin split: option.splits)

lemma session_row_snoc: "session_row (rows @ [x]) i =
    (case session_row rows i of Some y \<Rightarrow> Some y | None \<Rightarrow> if session_id x = i then Some x else None)"
  unfolding session_row_def by (induction rows) auto

interpretation sql_session_store:
  session_store sql_session_repository "\<lambda>rows t i. owner_at t (session_row rows i)"
    "\<lambda>rows. dom (session_row rows)" session_rows_ok
proof
  fix rows :: "session list"
  assume ok: "session_rows_ok rows"
  note flt = session_row_filter [OF ok]
  have dom_flt: "dom (session_row (filter P rows)) \<subseteq> dom (session_row rows)" for P
    by (auto simp: flt split: option.splits)
  show "i \<in> dom (session_row rows)" if "owner_at t (session_row rows i) \<noteq> None" for t i
    using that by (cases "session_row rows i") auto
  show "owner_at t' (session_row rows i) = Some u" if "owner_at t (session_row rows i) = Some u" "t' \<le> t"
    for t t' i u
    using that by (cases "session_row rows i") (auto split: if_splits)
  show "\<exists>s'. add_session sql_session_repository i u expiry now rows = Some s' \<and> session_rows_ok s'
      \<and> dom (session_row s') = insert i (dom (session_row rows))
      \<and> (\<forall>t. (\<lambda>j. owner_at t (session_row s' j)) =
            (\<lambda>j. owner_at t (session_row rows j))(i := if t < expiry then Some u else None))"
    if "i \<notin> dom (session_row rows)" for i u expiry now
  proof -
    have new: "session_row rows i = None" using that by blast
    then have "\<not> list_ex (\<lambda>r. session_id r = i) rows"
      by (auto simp: session_row_def find_None_iff' list_ex_iff)
    with ok new show ?thesis
      by (auto simp: sql_session_repository_def sql_add_session_def session_rows_ok_def list_ex_iff
          session_row_snoc fun_eq_iff dom_def split: option.splits)
  qed
  show "r = owner_at now (session_row rows i) \<and> session_rows_ok s'
      \<and> dom (session_row s') \<subseteq> dom (session_row rows)
      \<and> (\<forall>t j. j \<noteq> i \<longrightarrow> owner_at t (session_row s' j) = owner_at t (session_row rows j))
      \<and> (\<forall>t \<ge> now. owner_at t (session_row s' i) = None)
      \<and> (\<forall>t. owner_at t (session_row s' i) = None
            \<or> owner_at t (session_row s' i) = owner_at t (session_row rows i))"
    if "consume sql_session_repository i now rows = (r, s')" for i now r s'
  proof -
    have r: "r = map_option session_user (find (\<lambda>r. session_id r = i \<and> session_expires_at r > now) rows)"
      and s': "s' = filter (\<lambda>r. \<not> (session_id r = i \<and> session_expires_at r > now)) rows"
      using that by (simp_all add: sql_session_repository_def sql_consume_def delete_returning_def)
    have "session_row s' j = (if j = i \<and> owner_at now (session_row rows i) \<noteq> None then None
        else session_row rows j)" for j
      unfolding s' flt by (cases "j = i") (auto dest: session_row_id split: option.splits)
    then show ?thesis unfolding r session_row_find [OF ok]
      by (cases "session_row rows i") (auto simp: s' session_rows_ok_filter ok split: if_splits)
  qed
  show "session_rows_ok (revoke sql_session_repository i rows)
      \<and> dom (session_row (revoke sql_session_repository i rows)) \<subseteq> dom (session_row rows)
      \<and> (\<forall>t. (\<lambda>j. owner_at t (session_row (revoke sql_session_repository i rows) j)) =
            (\<lambda>j. owner_at t (session_row rows j))(i := None))" for i
  proof -
    have "session_row (sql_revoke i rows) j = (if j = i then None else session_row rows j)" for j
      unfolding sql_revoke_def flt by (auto dest: session_row_id split: option.splits)
    then show ?thesis
      by (auto simp: sql_session_repository_def fun_eq_iff split: if_splits)
         (simp add: sql_revoke_def session_rows_ok_filter ok)
  qed
  show "session_rows_ok (revoke_all sql_session_repository u rows)
      \<and> dom (session_row (revoke_all sql_session_repository u rows)) \<subseteq> dom (session_row rows)
      \<and> (\<forall>t j. owner_at t (session_row (revoke_all sql_session_repository u rows) j) =
            (if owner_at t (session_row rows j) = Some u then None else owner_at t (session_row rows j)))"
    for u
    using ok by (auto simp: sql_session_repository_def sql_revoke_all_def session_rows_ok_filter flt
        split: option.splits)
  show "session_id ` set (list_for_user sql_session_repository u now rows) =
      {i. owner_at now (session_row rows i) = Some u}" for u now
    using live_ids [of "set rows" "session_row rows" u now] session_row_iff [OF ok]
    by (simp add: sql_session_repository_def sql_list_for_user_def)
  show "session_rows_ok s' \<and> dom (session_row s') \<subseteq> dom (session_row rows)
      \<and> (\<forall>t. owner_at t (session_row rows i) = Some u \<longrightarrow> b)
      \<and> (\<forall>t. (\<lambda>j. owner_at t (session_row s' j)) = (if b then (\<lambda>j. owner_at t (session_row rows j))(i := None)
              else (\<lambda>j. owner_at t (session_row rows j))))
      \<and> (b \<longrightarrow> (\<forall>t. owner_at t (session_row rows i) = None \<or> owner_at t (session_row rows i) = Some u))"
    if "revoke_for_user sql_session_repository i u rows = (b, s')" for i u b s'
  proof -
    have b: "b \<longleftrightarrow> find (\<lambda>r. session_id r = i \<and> session_user r = u) rows \<noteq> None"
      and s': "s' = filter (\<lambda>r. \<not> (session_id r = i \<and> session_user r = u)) rows"
      using that by (simp_all add: sql_session_repository_def sql_revoke_for_user_def delete_returning_def)
    have "session_row s' j = (if j = i \<and> b then None else session_row rows j)" for j
      unfolding s' flt b session_row_find [OF ok]
      by (cases "j = i") (auto dest: session_row_id split: option.splits)
    moreover have "b \<longleftrightarrow> (case session_row rows i of None \<Rightarrow> False | Some x \<Rightarrow> session_user x = u)"
      unfolding b session_row_find [OF ok] by (auto split: option.splits)
    ultimately show ?thesis
      by (cases "session_row rows i")
         (auto simp: s' session_rows_ok_filter ok fun_eq_iff split: if_splits)
  qed
qed

end
