(* ===== verification/Identity_Abuse.thy ===== *)
theory Identity_Abuse
  imports Prelude
begin

text \<open>
  Login abuse control (\<open>app/modules/identity/abuse.py\<close> and \<open>sql_abuse.py\<close>): the port, the
  in-memory sliding-window limiter over a monotonic clock in seconds, and the PostgreSQL
  fixed-window limiter over a table keyed by the attempt key. A float clock reading is the
  rational it denotes.
\<close>

section \<open>Configuration and port\<close>

record limiter_config =
  max_failures :: int
  window_seconds :: int
  lock_seconds :: int

definition limiter_init :: "int \<Rightarrow> int \<Rightarrow> int \<Rightarrow> string + limiter_config" where
  "limiter_init failures window lock =
     (if min failures (min window lock) \<le> 0 then Inl ''rate limit values must be positive''
      else Inr \<lparr>max_failures = failures, window_seconds = window, lock_seconds = lock\<rparr>)"

definition config_ok :: "limiter_config \<Rightarrow> bool" where
  "config_ok cfg = (0 < max_failures cfg \<and> 0 < window_seconds cfg \<and> 0 < lock_seconds cfg)"

lemma limiter_init_ok: "limiter_init f w l = Inr cfg \<Longrightarrow> config_ok cfg"
  by (auto simp: limiter_init_def config_ok_def split: if_splits)

text \<open>\<open>check\<close> answers the \<open>retry_after_seconds\<close> of \<open>RateLimitExceeded\<close>, or \<open>None\<close>.\<close>

record 'l login_limiter =
  check :: "string \<Rightarrow> instant \<Rightarrow> 'l \<Rightarrow> int option \<times> 'l"
  record_failure :: "string \<Rightarrow> instant \<Rightarrow> 'l \<Rightarrow> 'l"
  reset :: "string \<Rightarrow> 'l \<Rightarrow> 'l"

section \<open>InMemoryLoginRateLimiter\<close>

record attempt_state =
  failures :: "rat list"
  locked_until :: "rat option"

type_synonym attempt_table = "string \<Rightarrow> attempt_state option"

definition inmem_check ::
  "limiter_config \<Rightarrow> string \<Rightarrow> rat \<Rightarrow> attempt_table \<Rightarrow> int option \<times> attempt_table" where
  "inmem_check cfg key now states =
     (case states key of
        None \<Rightarrow> (None, states)
      | Some st \<Rightarrow>
          (case locked_until st of
             None \<Rightarrow> (None, states)
           | Some until \<Rightarrow>
               if until > now then (Some (max 1 \<lfloor>until - now\<rfloor>), states)
               else (None, states(key := None))))"

definition inmem_record_failure ::
  "limiter_config \<Rightarrow> string \<Rightarrow> rat \<Rightarrow> attempt_table \<Rightarrow> attempt_table" where
  "inmem_record_failure cfg key now states =
     (let st = (case states key of None \<Rightarrow> \<lparr>failures = [], locked_until = None\<rparr> | Some st \<Rightarrow> st);
          kept = filter (\<lambda>t. t > now - of_int (window_seconds cfg)) (failures st) @ [now];
          until = (if int (length kept) \<ge> max_failures cfg
                   then Some (now + of_int (lock_seconds cfg)) else locked_until st)
      in states(key \<mapsto> \<lparr>failures = kept, locked_until = until\<rparr>))"

definition inmem_reset :: "string \<Rightarrow> attempt_table \<Rightarrow> attempt_table" where
  "inmem_reset key states = states(key := None)"

text \<open>The monotonic clock read at an instant.\<close>

definition monotonic :: "instant \<Rightarrow> rat" where
  "monotonic t = of_int t / of_int second"

definition inmem_limiter :: "limiter_config \<Rightarrow> attempt_table login_limiter" where
  "inmem_limiter cfg = \<lparr>
     check = (\<lambda>key now. inmem_check cfg key (monotonic now)),
     record_failure = (\<lambda>key now. inmem_record_failure cfg key (monotonic now)),
     reset = inmem_reset\<rparr>"

section \<open>SqlLoginRateLimiter\<close>

record login_rate_limit_row =
  failure_count :: int
  window_started_at :: instant
  row_locked_until :: "instant option"
  updated_at :: instant

type_synonym limit_table = "string \<Rightarrow> login_rate_limit_row option"

definition sql_reset :: "string \<Rightarrow> limit_table \<Rightarrow> limit_table" where
  "sql_reset key table = table(key := None)"

text \<open>\<open>math.ceil\<close> of a positive duration in seconds.\<close>

definition ceil_seconds :: "int \<Rightarrow> int" where
  "ceil_seconds d = - ((- d) div second)"

definition sql_check ::
  "string \<Rightarrow> instant \<Rightarrow> limit_table \<Rightarrow> int option \<times> limit_table" where
  "sql_check key now table =
     (case Option.bind (table key) row_locked_until of
        None \<Rightarrow> (None, table)
      | Some until \<Rightarrow>
          if until > now then (Some (max 1 (ceil_seconds (until - now))), table)
          else (None, sql_reset key table))"

definition upsert_failure ::
  "limiter_config \<Rightarrow> instant \<Rightarrow> login_rate_limit_row option \<Rightarrow> login_rate_limit_row" where
  "upsert_failure cfg now old =
     (case old of
        None \<Rightarrow> \<lparr>failure_count = 1, window_started_at = now, row_locked_until = None,
                 updated_at = now\<rparr>
      | Some r \<Rightarrow>
          let window_expired = (window_started_at r \<le> now - window_seconds cfg * second);
              next_count = failure_count r + 1
          in \<lparr>failure_count = (if window_expired then 1 else next_count),
              window_started_at = (if window_expired then now else window_started_at r),
              row_locked_until =
                (if window_expired then None
                 else if next_count \<ge> max_failures cfg then Some (now + lock_seconds cfg * second)
                 else row_locked_until r),
              updated_at = now\<rparr>)"

definition purge_stale :: "limiter_config \<Rightarrow> instant \<Rightarrow> limit_table \<Rightarrow> limit_table" where
  "purge_stale cfg now table =
     (let retention = max (window_seconds cfg) (lock_seconds cfg) * 2 * second
      in (\<lambda>k. case table k of
                None \<Rightarrow> None
              | Some r \<Rightarrow> if updated_at r < now - retention then None else Some r))"

definition sql_record_failure ::
  "limiter_config \<Rightarrow> string \<Rightarrow> instant \<Rightarrow> limit_table \<Rightarrow> limit_table" where
  "sql_record_failure cfg key now table =
     purge_stale cfg now (table(key \<mapsto> upsert_failure cfg now (table key)))"

definition sql_limiter :: "limiter_config \<Rightarrow> limit_table login_limiter" where
  "sql_limiter cfg = \<lparr>check = sql_check, record_failure = sql_record_failure cfg, reset = sql_reset\<rparr>"

section \<open>Bursts of failures\<close>

text \<open>A series of failures of one key, in the order in which they happen.\<close>

definition burst :: "'l login_limiter \<Rightarrow> string \<Rightarrow> instant list \<Rightarrow> 'l \<Rightarrow> 'l" where
  "burst l key ts s = fold (record_failure l key) ts s"

lemma burst_Nil [simp]: "burst l key [] s = s"
  and burst_one [simp]: "burst l key [t] s = record_failure l key t s"
  and burst_snoc [simp]: "burst l key (ts @ [t]) s = record_failure l key t (burst l key ts s)"
  by (simp_all add: burst_def)

lemma inmem_limiter_ops [simp]:
  "check (inmem_limiter cfg) key now = inmem_check cfg key (monotonic now)"
  "record_failure (inmem_limiter cfg) key now = inmem_record_failure cfg key (monotonic now)"
  "reset (inmem_limiter cfg) = inmem_reset"
  by (simp_all add: inmem_limiter_def)

lemma sql_limiter_ops [simp]:
  "check (sql_limiter cfg) = sql_check"
  "record_failure (sql_limiter cfg) = sql_record_failure cfg"
  "reset (sql_limiter cfg) = sql_reset"
  by (simp_all add: sql_limiter_def)

text \<open>All failures fall into the window that the first one opens.\<close>

definition within_window :: "limiter_config \<Rightarrow> instant list \<Rightarrow> bool" where
  "within_window cfg ts = (\<forall>a \<in> set ts. \<forall>b \<in> set ts. b < a + window_seconds cfg * second)"

lemma within_window_snoc: "within_window cfg (ts @ [t]) \<Longrightarrow> within_window cfg ts"
  by (simp add: within_window_def)

lemma monotonic_add: "monotonic (a + s * second) = monotonic a + of_int s"
  by (simp add: monotonic_def field_simps)

lemma monotonic_less [simp]: "monotonic a < monotonic b \<longleftrightarrow> a < b"
  by (simp add: monotonic_def field_simps)

lemma monotonic_in_window:
  "b < a + w * second \<Longrightarrow> monotonic b - of_int w < monotonic a"
  using monotonic_less [of b "a + w * second"] by (simp add: monotonic_add)

lemma inmem_burst:
  assumes "states key = None" and "within_window cfg ts" and "ts \<noteq> []"
  shows "burst (inmem_limiter cfg) key ts states key = Some
    \<lparr>failures = map monotonic ts,
     locked_until = (if int (length ts) \<ge> max_failures cfg
                     then Some (monotonic (last ts + lock_seconds cfg * second)) else None)\<rparr>"
  using assms(2,3)
proof (induction ts rule: rev_induct)
  case (snoc t ts)
  have kept: "filter (\<lambda>u. monotonic t - of_int (window_seconds cfg) < u) (map monotonic ts)
      = map monotonic ts"
    using snoc.prems by (intro filter_True) (auto simp: within_window_def intro: monotonic_in_window)
  show ?case
  proof (cases "ts = []")
    case True
    with assms(1) show ?thesis
      by (simp add: inmem_record_failure_def monotonic_add)
  next
    case False
    with snoc.IH [OF within_window_snoc [OF snoc.prems(1)]] kept show ?thesis
      by (simp add: inmem_record_failure_def Let_def monotonic_add)
  qed
qed simp

lemma sql_burst:
  assumes "table key = None" and "within_window cfg ts" and "ts \<noteq> []" and ok: "config_ok cfg"
  shows "burst (sql_limiter cfg) key ts table key = Some
    \<lparr>failure_count = int (length ts), window_started_at = hd ts,
     row_locked_until = (if length ts \<ge> 2 \<and> int (length ts) \<ge> max_failures cfg
                         then Some (last ts + lock_seconds cfg * second) else None),
     updated_at = last ts\<rparr>"
  using assms(2,3)
proof (induction ts rule: rev_induct)
  case (snoc t ts)
  have keep: "purge_stale cfg t m key = m key" if "m key = Some r" "updated_at r = t" for m r
    using that ok by (simp add: purge_stale_def config_ok_def Let_def)
  show ?case
  proof (cases "ts = []")
    case True
    with assms(1) show ?thesis
      by (simp add: sql_record_failure_def upsert_failure_def keep)
  next
    case False
    then have "\<not> hd ts \<le> t - window_seconds cfg * second"
      using snoc.prems(1) by (simp add: within_window_def not_le less_diff_eq [symmetric])
        (metis add.commute hd_in_set less_diff_eq diff_less_eq)
    with False snoc.IH [OF within_window_snoc [OF snoc.prems(1)]] show ?thesis
      by (simp add: sql_record_failure_def upsert_failure_def keep Let_def Suc_le_eq)
  qed
qed simp

section \<open>Where the limiters agree\<close>

text \<open>
  The lock that a burst within one window leaves. The insert of a key's first failure stores no
  lock in the table, whatever the configured number of failures.
\<close>

lemma inmem_burst_check:
  assumes "states key = None" and "within_window cfg ts" and "ts \<noteq> []"
  shows "fst (check (inmem_limiter cfg) key now (burst (inmem_limiter cfg) key ts states)) =
    (if int (length ts) \<ge> max_failures cfg \<and> now < last ts + lock_seconds cfg * second
     then Some (max 1 \<lfloor>monotonic (last ts + lock_seconds cfg * second) - monotonic now\<rfloor>) else None)"
  using inmem_burst [of states key cfg ts, OF assms] monotonic_less [of now "last ts + lock_seconds cfg * second"]
  by (simp add: inmem_check_def del: monotonic_less)

lemma sql_burst_check:
  assumes "table key = None" and "within_window cfg ts" and "ts \<noteq> []" and "config_ok cfg"
  shows "fst (check (sql_limiter cfg) key now (burst (sql_limiter cfg) key ts table)) =
    (if 2 \<le> length ts \<and> int (length ts) \<ge> max_failures cfg \<and> now < last ts + lock_seconds cfg * second
     then Some (max 1 (ceil_seconds (last ts + lock_seconds cfg * second - now))) else None)"
  using sql_burst [of table key cfg ts, OF assms] by (simp add: sql_check_def)

text \<open>
  Beyond one window the two differ: the table counts from the start of a fixed window, the in-memory
  limiter over the last \<open>window_seconds\<close>. With four failures allowed in ten seconds, failures after
  0, 8, 9, 11 and 12 seconds lock the key in memory and not in the table.
\<close>

definition straddling :: "instant list" where
  "straddling = map (\<lambda>s. s * second) [0, 8, 9, 11, 12]"

definition four_in_ten :: limiter_config where
  "four_in_ten = \<lparr>max_failures = 4, window_seconds = 10, lock_seconds = 60\<rparr>"

lemma windows_differ:
  "fst (check (inmem_limiter four_in_ten) ''k'' (13 * second)
      (burst (inmem_limiter four_in_ten) ''k'' straddling Map.empty)) = Some 59
    \<and> fst (check (sql_limiter four_in_ten) ''k'' (13 * second)
      (burst (sql_limiter four_in_ten) ''k'' straddling Map.empty)) = None"
  by code_simp

section \<open>Properties\<close>

text \<open>
  C10: How the limiters lock a key that has no earlier state, under any accepted configuration. After
  failures that all fall into one window, a check in memory is refused exactly when the configured
  number of failures has been reached and the lock of the last failure has not run out; a check
  against the table needs at least two failures besides, because the insert of the first one stores no
  lock. So the verdicts are the same but for one case, a single failure where the configuration allows
  only one, which locks in memory and not in the table. Every refusal names at least one second to
  wait.
\<close>
theorem limiters_lock_after_the_same_bursts:
  assumes "limiter_init m w l = Inr cfg"
    and "states key = None" and "table key = None"
    and "within_window cfg ts" and "ts \<noteq> []"
  shows "(let mem = fst (check (inmem_limiter cfg) key now (burst (inmem_limiter cfg) key ts states));
              sql = fst (check (sql_limiter cfg) key now (burst (sql_limiter cfg) key ts table));
              due = (int (length ts) \<ge> m \<and> now < last ts + l * second)
          in (mem \<noteq> None \<longleftrightarrow> due)
           \<and> (sql \<noteq> None \<longleftrightarrow> due \<and> 2 \<le> length ts)
           \<and> ((mem \<noteq> None) \<noteq> (sql \<noteq> None) \<longleftrightarrow> m = 1 \<and> length ts = 1 \<and> now < last ts + l * second)
           \<and> (\<forall>n. mem = Some n \<or> sql = Some n \<longrightarrow> 1 \<le> n))"
proof -
  have cfg: "max_failures cfg = m" "lock_seconds cfg = l" "0 < m"
    using assms(1) by (auto simp: limiter_init_def split: if_splits)
  have one: "length ts = 1" if "\<not> 2 \<le> length ts" using that assms(5) by (cases ts rule: list.exhaust) (auto simp: Suc_le_eq)
  note mem = inmem_burst_check [of states key cfg ts now, OF assms(2,4,5)]
  note sql = sql_burst_check [of table key cfg ts now, OF assms(3-5) limiter_init_ok [OF assms(1)]]
  have last: "m = 1 \<and> length ts = 1 \<longleftrightarrow> m \<le> int (length ts) \<and> \<not> 2 \<le> length ts"
    using cfg(3) one by auto
  show ?thesis unfolding Let_def mem sql cfg using last by (auto simp: le_max_iff_disj split: if_splits)
qed

theorem limiters_lock_after_the_same_bursts_witness:
  "fst (check (sql_limiter \<lparr>max_failures = 2, window_seconds = 900, lock_seconds = 900\<rparr>) ''k'' 7
      (burst (sql_limiter \<lparr>max_failures = 2, window_seconds = 900, lock_seconds = 900\<rparr>) ''k''
        [1, 5] Map.empty)) \<noteq> None
    \<and> fst (check (inmem_limiter \<lparr>max_failures = 1, window_seconds = 900, lock_seconds = 900\<rparr>) ''k'' 7
      (burst (inmem_limiter \<lparr>max_failures = 1, window_seconds = 900, lock_seconds = 900\<rparr>) ''k''
        [1] Map.empty)) \<noteq> None
    \<and> fst (check (sql_limiter \<lparr>max_failures = 1, window_seconds = 900, lock_seconds = 900\<rparr>) ''k'' 7
      (burst (sql_limiter \<lparr>max_failures = 1, window_seconds = 900, lock_seconds = 900\<rparr>) ''k''
        [1] Map.empty)) = None"
  using limiters_lock_after_the_same_bursts
      [of 2 900 900 "\<lparr>max_failures = 2, window_seconds = 900, lock_seconds = 900\<rparr>" Map.empty "''k''"
        Map.empty "[1, 5]" 7]
    limiters_lock_after_the_same_bursts
      [of 1 900 900 "\<lparr>max_failures = 1, window_seconds = 900, lock_seconds = 900\<rparr>" Map.empty "''k''"
        Map.empty "[1]" 7]
  by (simp add: limiter_init_def within_window_def Let_def)

end
