(* ===== verification/Identity.thy ===== *)
theory Identity
  imports Identity_Sessions Identity_Abuse
begin

text \<open>
  Tokens (\<open>app/modules/identity/security.py\<close>) and the identity service (\<open>service.py\<close>) over the
  user, session and limiter ports. PyJWT and the password hash are parameters of the service
  record; the identifiers \<open>uuid4\<close> draws and the clock reading of a call are arguments of it.
  A result is an error or a value, with the state after the call.
\<close>

section \<open>Tokens\<close>

datatype token_type = ACCESS | REFRESH

fun token_type_value :: "token_type \<Rightarrow> string" where
  "token_type_value ACCESS = ''access''"
| "token_type_value REFRESH = ''refresh''"

text \<open>The claims \<open>jwt.encode\<close> is given and the payload \<open>jwt.decode\<close> returns, a dictionary whose
  keys may be missing; \<open>exp\<close> is a number of seconds in it.\<close>

record jwt_claims =
  c_sub :: string
  c_role :: "string option"
  c_jti :: "string option"
  c_type :: string
  c_iat :: instant
  c_exp :: instant
  c_iss :: string

record jwt_payload =
  p_sub :: "string option"
  p_role :: "string option"
  p_jti :: "string option"
  p_type :: "string option"
  p_exp :: "int option"

text \<open>\<open>decode token secret issuer now\<close> is \<open>None\<close> when PyJWT raises.\<close>

record jwt_library =
  encode :: "jwt_claims \<Rightarrow> string \<Rightarrow> string"
  decode :: "string \<Rightarrow> string \<Rightarrow> string \<Rightarrow> instant \<Rightarrow> jwt_payload option"

record token_manager =
  tm_secret :: string
  access_ttl :: int
  refresh_ttl :: int

record token_claims =
  claims_subject :: uuid
  claims_role :: role
  claims_token_id :: uuid
  claims_type :: token_type
  claims_expires_at :: instant

record reset_claims =
  rc_user_id :: uuid
  rc_token_id :: uuid
  rc_expires_at :: instant

definition issuer :: string where "issuer = ''parkshield-api''"

definition token_manager_init :: "string \<Rightarrow> int \<Rightarrow> int \<Rightarrow> string + token_manager" where
  "token_manager_init secret access_minutes refresh_days =
     (if length secret < 32 then Inl ''JWT secret must contain at least 32 characters''
      else Inr \<lparr>tm_secret = secret, access_ttl = access_minutes * minute,
                refresh_ttl = refresh_days * day\<rparr>)"

definition access_ttl_seconds :: "token_manager \<Rightarrow> int" where
  "access_ttl_seconds tm = access_ttl tm div second"

definition create_token ::
  "jwt_library \<Rightarrow> token_manager \<Rightarrow> uuid \<Rightarrow> role \<Rightarrow> token_type \<Rightarrow> uuid \<Rightarrow> instant \<Rightarrow>
     string \<times> token_claims" where
  "create_token jwt tm subject role ttype jti now =
     (let expires_at = now + (if ttype = ACCESS then access_ttl tm else refresh_ttl tm)
      in (encode jwt \<lparr>c_sub = uuid_str subject, c_role = Some (role_value role),
            c_jti = Some (uuid_str jti), c_type = token_type_value ttype, c_iat = now,
            c_exp = expires_at, c_iss = issuer\<rparr> (tm_secret tm),
          \<lparr>claims_subject = subject, claims_role = role, claims_token_id = jti,
           claims_type = ttype, claims_expires_at = expires_at\<rparr>))"

text \<open>\<open>None\<close> is \<open>InvalidTokenError\<close>: a library error, another type, a missing key or a value
  that does not parse.\<close>

definition decode_token ::
  "jwt_library \<Rightarrow> token_manager \<Rightarrow> token_type \<Rightarrow> instant \<Rightarrow> string \<Rightarrow> token_claims option" where
  "decode_token jwt tm expected now token =
     (case decode jwt token (tm_secret tm) issuer now of
        None \<Rightarrow> None
      | Some p \<Rightarrow>
          if p_type p \<noteq> Some (token_type_value expected) then None
          else case (Option.bind (p_sub p) parse_uuid, Option.bind (p_role p) role_of,
                     Option.bind (p_jti p) parse_uuid, p_exp p) of
                 (Some sub, Some r, Some jti, Some e) \<Rightarrow>
                   Some \<lparr>claims_subject = sub, claims_role = r, claims_token_id = jti,
                         claims_type = expected, claims_expires_at = e * second\<rparr>
               | _ \<Rightarrow> None)"

definition verification_ttl :: int where "verification_ttl = 24 * hour"
definition reset_ttl :: int where "reset_ttl = 30 * minute"

definition create_verification :: "jwt_library \<Rightarrow> string \<Rightarrow> uuid \<Rightarrow> instant \<Rightarrow> string" where
  "create_verification jwt secret user now =
     encode jwt \<lparr>c_sub = uuid_str user, c_role = None, c_jti = None, c_type = ''verify_email'',
       c_iat = now, c_exp = now + verification_ttl, c_iss = issuer\<rparr> secret"

definition decode_verification :: "jwt_library \<Rightarrow> string \<Rightarrow> instant \<Rightarrow> string \<Rightarrow> uuid option" where
  "decode_verification jwt secret now token =
     (case decode jwt token secret issuer now of
        None \<Rightarrow> None
      | Some p \<Rightarrow> if p_type p \<noteq> Some ''verify_email'' then None else Option.bind (p_sub p) parse_uuid)"

definition create_reset ::
  "jwt_library \<Rightarrow> string \<Rightarrow> uuid \<Rightarrow> uuid \<Rightarrow> instant \<Rightarrow> string \<times> reset_claims" where
  "create_reset jwt secret user jti now =
     (encode jwt \<lparr>c_sub = uuid_str user, c_role = None, c_jti = Some (uuid_str jti),
        c_type = ''reset_password'', c_iat = now, c_exp = now + reset_ttl, c_iss = issuer\<rparr> secret,
      \<lparr>rc_user_id = user, rc_token_id = jti, rc_expires_at = now + reset_ttl\<rparr>)"

definition decode_reset :: "jwt_library \<Rightarrow> string \<Rightarrow> instant \<Rightarrow> string \<Rightarrow> reset_claims option" where
  "decode_reset jwt secret now token =
     (case decode jwt token secret issuer now of
        None \<Rightarrow> None
      | Some p \<Rightarrow>
          if p_type p \<noteq> Some ''reset_password'' then None
          else case (Option.bind (p_sub p) parse_uuid, Option.bind (p_jti p) parse_uuid, p_exp p) of
                 (Some sub, Some jti, Some e) \<Rightarrow>
                   Some \<lparr>rc_user_id = sub, rc_token_id = jti, rc_expires_at = e * second\<rparr>
               | _ \<Rightarrow> None)"

section \<open>IdentityService\<close>

record ('u, 's, 'l) identity_service =
  users :: "'u user_repository"
  sessions :: "'s session_repository"
  limiter :: "'l login_limiter"
  hash_password :: "string \<Rightarrow> string"
  verify_password :: "string \<Rightarrow> string \<Rightarrow> bool"
  jwt :: jwt_library
  tokens :: token_manager
  notifier :: "string \<Rightarrow> bool"

datatype mail = EmailVerification string string | PasswordReset string string

record ('u, 's, 'l) identity_state =
  st_users :: 'u
  st_sessions :: 's
  st_limiter :: 'l
  outbox :: "mail list"
  audit_trail :: "audit_event list"

text \<open>\<open>Failure\<close> stands for an exception the service does not catch: an \<open>IntegrityError\<close> on a
  session key or a notifier that raises (\<open>notifier\<close> answers whether the address accepts mail).\<close>

datatype identity_error = AuthenticationError string | RateLimitExceeded int | Failure

record token_pair =
  access_token :: string
  refresh_token :: string
  expires_in :: int

type_synonym ('u, 's, 'l, 'a) outcome = "(identity_error + 'a) \<times> ('u, 's, 'l) identity_state"

definition audit :: "audit_action \<Rightarrow> uuid option \<Rightarrow> instant \<Rightarrow> ('u, 's, 'l) identity_state \<Rightarrow>
    ('u, 's, 'l) identity_state" where
  "audit a subject now s = s\<lparr>audit_trail := audit_trail s @ [event a subject now]\<rparr>"

definition send :: "('u, 's, 'l) identity_service \<Rightarrow> string \<Rightarrow> mail \<Rightarrow> ('u, 's, 'l) identity_state \<Rightarrow>
    ('u, 's, 'l) identity_state option" where
  "send svc addr m s = (if notifier svc addr then Some (s\<lparr>outbox := outbox s @ [m]\<rparr>) else None)"

definition register ::
  "('u, 's, 'l) identity_service \<Rightarrow> string \<Rightarrow> string \<Rightarrow> uuid \<Rightarrow> instant \<Rightarrow>
     ('u, 's, 'l) identity_state \<Rightarrow> ('u, 's, 'l, user) outcome" where
  "register svc em password uid now s =
     (if get_by_email (users svc) em (st_users s) \<noteq> None
      then (Inl (AuthenticationError ''email already registered''), s)
      else
        let u = \<lparr>user_id = uid, email = em, password_hash = hash_password svc password,
                 user_role = USER, is_active = True, is_verified = False, user_created_at = now,
                 mfa_secret = None, mfa_enabled = False\<rparr>
        in case add_user (users svc) u (st_users s) of
             (False, us) \<Rightarrow>
               (Inl (AuthenticationError ''email already registered''), s\<lparr>st_users := us\<rparr>)
           | (True, us) \<Rightarrow>
               let s1 = s\<lparr>st_users := us\<rparr>;
                   token = create_verification (jwt svc) (tm_secret (tokens svc)) uid now
               in case send svc em (EmailVerification em token) s1 of
                    None \<Rightarrow> (Inl Failure, s1)
                  | Some s2 \<Rightarrow> (Inr u, audit USER_REGISTERED (Some uid) now s2))"

definition verify_email ::
  "('u, 's, 'l) identity_service \<Rightarrow> string \<Rightarrow> instant \<Rightarrow> ('u, 's, 'l) identity_state \<Rightarrow>
     ('u, 's, 'l, user) outcome" where
  "verify_email svc token now s =
     (case decode_verification (jwt svc) (tm_secret (tokens svc)) now token of
        None \<Rightarrow> (Inl (AuthenticationError ''invalid verification token''), s)
      | Some uid \<Rightarrow>
          (case mark_verified (users svc) uid (st_users s) of
             (None, us) \<Rightarrow>
               (Inl (AuthenticationError ''invalid verification token''), s\<lparr>st_users := us\<rparr>)
           | (Some u, us) \<Rightarrow>
               (Inr u, audit EMAIL_VERIFIED (Some (user_id u)) now (s\<lparr>st_users := us\<rparr>))))"

definition request_password_reset ::
  "('u, 's, 'l) identity_service \<Rightarrow> string \<Rightarrow> uuid \<Rightarrow> instant \<Rightarrow> ('u, 's, 'l) identity_state \<Rightarrow>
     ('u, 's, 'l, unit) outcome" where
  "request_password_reset svc em jti now s =
     (case get_by_email (users svc) (casefold (py_strip em)) (st_users s) of
        None \<Rightarrow> (Inr (), s)
      | Some u \<Rightarrow>
          if \<not> is_active u then (Inr (), s)
          else
            (case create_reset (jwt svc) (tm_secret (tokens svc)) (user_id u) jti now of
               (token, claims) \<Rightarrow>
                 (case add_session (sessions svc) (rc_token_id claims) (user_id u)
                         (rc_expires_at claims) now (st_sessions s) of
                    None \<Rightarrow> (Inl Failure, s)
                  | Some ss \<Rightarrow>
                      (case send svc (email u) (PasswordReset (email u) token) (s\<lparr>st_sessions := ss\<rparr>) of
                         None \<Rightarrow> (Inl Failure, s\<lparr>st_sessions := ss\<rparr>)
                       | Some s2 \<Rightarrow>
                           (Inr (), audit PASSWORD_RESET_REQUESTED (Some (user_id u)) now s2)))))"

definition reset_password ::
  "('u, 's, 'l) identity_service \<Rightarrow> string \<Rightarrow> string \<Rightarrow> instant \<Rightarrow> ('u, 's, 'l) identity_state \<Rightarrow>
     ('u, 's, 'l, unit) outcome" where
  "reset_password svc token new_password now s =
     (case decode_reset (jwt svc) (tm_secret (tokens svc)) now token of
        None \<Rightarrow> (Inl (AuthenticationError ''invalid password reset token''), s)
      | Some claims \<Rightarrow>
          (case consume (sessions svc) (rc_token_id claims) now (st_sessions s) of
             (owner, ss) \<Rightarrow>
               let s1 = s\<lparr>st_sessions := ss\<rparr> in
               if owner \<noteq> Some (rc_user_id claims)
               then (Inl (AuthenticationError ''invalid password reset token''), s1)
               else
                 (case update_password (users svc) (rc_user_id claims)
                         (hash_password svc new_password) (st_users s1) of
                    (None, us) \<Rightarrow>
                      (Inl (AuthenticationError ''invalid password reset token''), s1\<lparr>st_users := us\<rparr>)
                  | (Some u, us) \<Rightarrow>
                      (Inr (), audit PASSWORD_RESET_COMPLETED (Some (user_id u)) now
                         (s1\<lparr>st_users := us,
                             st_sessions := revoke_all (sessions svc) (user_id u) (st_sessions s1)\<rparr>)))))"

definition issue_pair ::
  "('u, 's, 'l) identity_service \<Rightarrow> user \<Rightarrow> uuid \<Rightarrow> uuid \<Rightarrow> instant \<Rightarrow> ('u, 's, 'l) identity_state \<Rightarrow>
     ('u, 's, 'l, token_pair) outcome" where
  "issue_pair svc u jti_access jti_refresh now s =
     (case create_token (jwt svc) (tokens svc) (user_id u) (user_role u) REFRESH jti_refresh now of
        (refresh, claims) \<Rightarrow>
          (case add_session (sessions svc) (claims_token_id claims) (user_id u)
                  (claims_expires_at claims) now (st_sessions s) of
             None \<Rightarrow> (Inl Failure, s)
           | Some ss \<Rightarrow>
               (Inr \<lparr>access_token = fst (create_token (jwt svc) (tokens svc) (user_id u) (user_role u)
                       ACCESS jti_access now),
                     refresh_token = refresh, expires_in = access_ttl_seconds (tokens svc)\<rparr>,
                s\<lparr>st_sessions := ss\<rparr>)))"

definition credentials_ok :: "('u, 's, 'l) identity_service \<Rightarrow> string \<Rightarrow> user option \<Rightarrow> bool" where
  "credentials_ok svc password found =
     (case found of
        None \<Rightarrow> False
      | Some u \<Rightarrow> is_active u \<and> is_verified u \<and> verify_password svc password (password_hash u))"

definition login ::
  "('u, 's, 'l) identity_service \<Rightarrow> string \<Rightarrow> string \<Rightarrow> string \<Rightarrow> uuid \<Rightarrow> uuid \<Rightarrow> instant \<Rightarrow>
     ('u, 's, 'l) identity_state \<Rightarrow> ('u, 's, 'l, token_pair) outcome" where
  "login svc em password attempt_key jti_access jti_refresh now s =
     (case check (limiter svc) attempt_key now (st_limiter s) of
        (Some retry, l) \<Rightarrow> (Inl (RateLimitExceeded retry), s\<lparr>st_limiter := l\<rparr>)
      | (None, l) \<Rightarrow>
          let found = get_by_email (users svc) (casefold (py_strip em)) (st_users s) in
          if \<not> credentials_ok svc password found
          then (Inl (AuthenticationError ''invalid credentials''),
                audit LOGIN_FAILED (map_option user_id found) now
                  (s\<lparr>st_limiter := record_failure (limiter svc) attempt_key now l\<rparr>))
          else issue_pair svc (the found) jti_access jti_refresh now
                 (audit LOGIN_SUCCEEDED (map_option user_id found) now
                   (s\<lparr>st_limiter := reset (limiter svc) attempt_key l\<rparr>)))"

definition refresh ::
  "('u, 's, 'l) identity_service \<Rightarrow> string \<Rightarrow> uuid \<Rightarrow> uuid \<Rightarrow> instant \<Rightarrow>
     ('u, 's, 'l) identity_state \<Rightarrow> ('u, 's, 'l, token_pair) outcome" where
  "refresh svc token jti_access jti_refresh now s =
     (case decode_token (jwt svc) (tokens svc) REFRESH now token of
        None \<Rightarrow> (Inl (AuthenticationError ''invalid session''), s)
      | Some claims \<Rightarrow>
          (case consume (sessions svc) (claims_token_id claims) now (st_sessions s) of
             (owner, ss) \<Rightarrow>
               let s1 = s\<lparr>st_sessions := ss\<rparr> in
               if owner \<noteq> Some (claims_subject claims)
               then (Inl (AuthenticationError ''invalid session''), s1)
               else
                 (case get_by_id (users svc) (claims_subject claims) (st_users s1) of
                    None \<Rightarrow> (Inl (AuthenticationError ''invalid session''), s1)
                  | Some u \<Rightarrow>
                      if \<not> is_active u then (Inl (AuthenticationError ''invalid session''), s1)
                      else issue_pair svc u jti_access jti_refresh now
                             (audit TOKEN_REFRESHED (Some (user_id u)) now s1))))"

definition logout ::
  "('u, 's, 'l) identity_service \<Rightarrow> string \<Rightarrow> instant \<Rightarrow> ('u, 's, 'l) identity_state \<Rightarrow>
     ('u, 's, 'l, unit) outcome" where
  "logout svc token now s =
     (case decode_token (jwt svc) (tokens svc) REFRESH now token of
        None \<Rightarrow> (Inr (), s)
      | Some claims \<Rightarrow>
          (Inr (), audit LOGOUT (Some (claims_subject claims)) now
             (s\<lparr>st_sessions := revoke (sessions svc) (claims_token_id claims) (st_sessions s)\<rparr>)))"

definition authenticate ::
  "('u, 's, 'l) identity_service \<Rightarrow> string \<Rightarrow> instant \<Rightarrow> ('u, 's, 'l) identity_state \<Rightarrow>
     identity_error + user" where
  "authenticate svc token now s =
     (case decode_token (jwt svc) (tokens svc) ACCESS now token of
        None \<Rightarrow> Inl (AuthenticationError ''invalid access token'')
      | Some claims \<Rightarrow>
          (case get_by_id (users svc) (claims_subject claims) (st_users s) of
             None \<Rightarrow> Inl (AuthenticationError ''invalid access token'')
           | Some u \<Rightarrow> if \<not> is_active u then Inl (AuthenticationError ''invalid access token'')
                      else Inr u))"

definition list_sessions ::
  "('u, 's, 'l) identity_service \<Rightarrow> uuid \<Rightarrow> instant \<Rightarrow> ('u, 's, 'l) identity_state \<Rightarrow> session list" where
  "list_sessions svc uid now s = list_for_user (sessions svc) uid now (st_sessions s)"

definition revoke_session ::
  "('u, 's, 'l) identity_service \<Rightarrow> uuid \<Rightarrow> uuid \<Rightarrow> instant \<Rightarrow> ('u, 's, 'l) identity_state \<Rightarrow>
     ('u, 's, 'l, unit) outcome" where
  "revoke_session svc uid sid now s =
     (case revoke_for_user (sessions svc) sid uid (st_sessions s) of
        (False, ss) \<Rightarrow> (Inl (AuthenticationError ''session not found''), s\<lparr>st_sessions := ss\<rparr>)
      | (True, ss) \<Rightarrow> (Inr (), audit SESSION_REVOKED (Some uid) now (s\<lparr>st_sessions := ss\<rparr>)))"

section \<open>Histories\<close>

text \<open>One call of the service at an instant; \<open>drawn\<close> is the set of token identifiers it draws
  for sessions.\<close>

inductive identity_step ::
  "('u, 's, 'l) identity_service \<Rightarrow> instant \<Rightarrow> uuid set \<Rightarrow> ('u, 's, 'l) identity_state \<Rightarrow>
     ('u, 's, 'l) identity_state \<Rightarrow> bool" for svc where
  step_register: "register svc em pw uid now s = (r, s') \<Longrightarrow> identity_step svc now {} s s'"
| step_verify_email: "verify_email svc tok now s = (r, s') \<Longrightarrow> identity_step svc now {} s s'"
| step_request_reset: "request_password_reset svc em jti now s = (r, s') \<Longrightarrow>
    identity_step svc now {jti} s s'"
| step_reset: "reset_password svc tok pw now s = (r, s') \<Longrightarrow> identity_step svc now {} s s'"
| step_login: "login svc em pw key ja jr now s = (r, s') \<Longrightarrow> identity_step svc now {jr} s s'"
| step_refresh: "refresh svc tok ja jr now s = (r, s') \<Longrightarrow> identity_step svc now {jr} s s'"
| step_logout: "logout svc tok now s = (r, s') \<Longrightarrow> identity_step svc now {} s s'"
| step_revoke: "revoke_session svc uid sid now s = (r, s') \<Longrightarrow> identity_step svc now {} s s'"

text \<open>A history of calls: each one happens no earlier than \<open>since\<close>, and the session identifiers
  it draws are new to the store and never \<open>avoid\<close>.\<close>

inductive identity_history ::
  "('u, 's, 'l) identity_service \<Rightarrow> ('s \<Rightarrow> uuid set) \<Rightarrow> uuid \<Rightarrow> instant \<Rightarrow>
     ('u, 's, 'l) identity_state \<Rightarrow> ('u, 's, 'l) identity_state \<Rightarrow> bool"
  for svc held avoid since s where
  history_start: "identity_history svc held avoid since s s"
| history_step: "identity_history svc held avoid since s s' \<Longrightarrow> identity_step svc now drawn s' s'' \<Longrightarrow>
    since \<le> now \<Longrightarrow> avoid \<notin> drawn \<Longrightarrow> drawn \<inter> held (st_sessions s') = {} \<Longrightarrow>
    identity_history svc held avoid since s s''"

end
