(* ===== verification/Identity_Safety.thy ===== *)
theory Identity_Safety
  imports Identity
begin

text \<open>
  What the identity service guarantees over any pair of repositories that keep the contracts
  \<open>user_store\<close> and \<open>session_store\<close>, and the two wirings of \<open>app/presentation/api/routes/auth.py\<close>
  (\<open>get_identity_service\<close> over PostgreSQL, \<open>build_identity_service\<close> in memory) as interpretations.
\<close>

section \<open>The service over its contracts\<close>

locale identity_stores =
  U: user_store "users svc" users_of users_inv seal +
  S: session_store "sessions svc" live held sess_inv
  for svc :: "('u, 's, 'l) identity_service" and users_of users_inv seal live held sess_inv
begin

text \<open>No session outside \<open>drawn\<close> has come to life or changed its owner.\<close>

definition quiet :: "uuid set \<Rightarrow> 's \<Rightarrow> 's \<Rightarrow> bool" where
  "quiet drawn ss ss' \<longleftrightarrow> sess_inv ss' \<and>
     (\<forall>i t. i \<notin> drawn \<longrightarrow> live ss' t i = None \<or> live ss' t i = live ss t i)"

lemma quiet_refl [simp]: "sess_inv ss \<Longrightarrow> quiet d ss ss"
  by (simp add: quiet_def)

lemma quiet_trans: "quiet d a b \<Longrightarrow> quiet d b c \<Longrightarrow> quiet d a c"
  unfolding quiet_def by metis

lemma quiet_add: "sess_inv ss \<Longrightarrow> i \<notin> held ss \<Longrightarrow>
    add_session (sessions svc) i u e now ss = Some ss' \<Longrightarrow> i \<in> d \<Longrightarrow> quiet d ss ss'"
  using S.add_law [of ss i u e now] by (auto simp: quiet_def)

lemma quiet_consume: "sess_inv ss \<Longrightarrow> consume (sessions svc) i now ss = (r, ss') \<Longrightarrow> quiet d ss ss'"
  using S.consume_law [of ss i now r ss'] unfolding quiet_def by metis

lemma quiet_revoke: "sess_inv ss \<Longrightarrow> quiet d ss (revoke (sessions svc) i ss)"
  using S.revoke_law [of ss i] by (simp add: quiet_def)

lemma quiet_revoke_all: "sess_inv ss \<Longrightarrow> quiet d ss (revoke_all (sessions svc) u ss)"
  using S.revoke_all_law [of ss u] by (simp add: quiet_def)

lemma quiet_revoke_for: "sess_inv ss \<Longrightarrow> revoke_for_user (sessions svc) i u ss = (b, ss') \<Longrightarrow>
    quiet d ss ss'"
  using S.revoke_for_law [of ss i u b ss'] by (simp add: quiet_def)

lemma held_consume: "sess_inv ss \<Longrightarrow> consume (sessions svc) i now ss = (r, ss') \<Longrightarrow>
    sess_inv ss' \<and> held ss' \<subseteq> held ss"
  using S.consume_law by blast

lemma issue_pair_quiet:
  assumes "sess_inv (st_sessions s)" and "jr \<notin> held (st_sessions s)"
    and "issue_pair svc u ja jr now s = (r, s')"
  shows "quiet {jr} (st_sessions s) (st_sessions s')"
  using assms quiet_add [OF assms(1,2)]
  by (auto simp: issue_pair_def create_token_def Let_def split: option.splits)

lemma refresh_quiet:
  assumes inv: "sess_inv (st_sessions s)" and new: "jr \<notin> held (st_sessions s)"
    and call: "refresh svc tok ja jr now s = (r, s')"
  shows "quiet {jr} (st_sessions s) (st_sessions s')"
proof (cases "decode_token (jwt svc) (tokens svc) REFRESH now tok")
  case None
  with call inv show ?thesis by (simp add: refresh_def)
next
  case (Some c)
  obtain o' ss where c: "consume (sessions svc) (claims_token_id c) now (st_sessions s) = (o', ss)"
    by fastforce
  from held_consume [OF inv c] new have ss: "sess_inv ss" "jr \<notin> held ss" by auto
  have pair: "quiet {jr} ss (st_sessions s'')"
    if "issue_pair svc u ja jr now (audit a x now (s\<lparr>st_sessions := ss\<rparr>)) = (r, s'')" for u a x r s''
    using issue_pair_quiet [OF _ _ that] ss by (simp add: audit_def)
  from quiet_consume [OF inv c] quiet_trans [OF quiet_consume [OF inv c] pair] call Some c
  show ?thesis by (auto simp: refresh_def Let_def split: option.splits if_splits)
qed

lemma reset_password_quiet:
  assumes inv: "sess_inv (st_sessions s)"
    and call: "reset_password svc tok pw now s = (r, s')"
  shows "quiet d (st_sessions s) (st_sessions s')"
proof (cases "decode_reset (jwt svc) (tm_secret (tokens svc)) now tok")
  case None
  with call inv show ?thesis by (simp add: reset_password_def)
next
  case (Some c)
  obtain o' ss where c: "consume (sessions svc) (rc_token_id c) now (st_sessions s) = (o', ss)"
    by fastforce
  from held_consume [OF inv c] have ss: "sess_inv ss" by blast
  from quiet_consume [OF inv c] quiet_trans [OF quiet_consume [OF inv c] quiet_revoke_all [OF ss]]
    call Some c show ?thesis
    by (auto simp: reset_password_def audit_def Let_def split: option.splits if_splits prod.splits)
qed

lemma login_quiet:
  assumes inv: "sess_inv (st_sessions s)" and new: "jr \<notin> held (st_sessions s)"
    and call: "login svc em pw key ja jr now s = (r, s')"
  shows "quiet {jr} (st_sessions s) (st_sessions s')"
proof -
  obtain x l where c: "check (limiter svc) key now (st_limiter s) = (x, l)" by fastforce
  have pair: "quiet {jr} (st_sessions s) (st_sessions s'')"
    if "issue_pair svc u ja jr now (audit a y now (s\<lparr>st_limiter := l'\<rparr>)) = (r, s'')" for u a y l' r s''
    using issue_pair_quiet [OF _ _ that] inv new by (simp add: audit_def)
  from call c inv show ?thesis
    by (auto simp: login_def audit_def [of LOGIN_FAILED] Let_def split: option.splits if_splits intro: pair)
qed

lemma step_quiet:
  assumes "identity_step svc now drawn s s'"
    and "sess_inv (st_sessions s)" and "drawn \<inter> held (st_sessions s) = {}"
  shows "quiet drawn (st_sessions s) (st_sessions s')"
  using assms
proof (cases rule: identity_step.cases)
  case (step_register em pw uid r)
  with assms(2) show ?thesis
    by (auto simp: register_def send_def audit_def Let_def split: if_splits prod.splits bool.splits
        option.splits)
next
  case (step_verify_email tok r)
  with assms(2) show ?thesis
    by (auto simp: verify_email_def audit_def split: option.splits prod.splits)
next
  case (step_request_reset em jti r)
  with assms(2,3) quiet_add [of "st_sessions s" jti] show ?thesis
    by (auto simp: request_password_reset_def create_reset_def send_def audit_def
        split: option.splits if_splits)
next
  case (step_logout tok r)
  with assms(2) quiet_revoke show ?thesis by (auto simp: logout_def audit_def split: option.splits)
next
  case (step_revoke uid sid r)
  with assms(2) quiet_revoke_for [OF assms(2)] show ?thesis
    by (auto simp: revoke_session_def audit_def split: prod.splits bool.splits)
qed (use assms(2,3) refresh_quiet login_quiet reset_password_quiet in auto)

lemma history_quiet:
  assumes "identity_history svc held avoid since s s'"
    and "sess_inv (st_sessions s)" and "\<forall>t \<ge> since. live (st_sessions s) t avoid = None"
  shows "sess_inv (st_sessions s') \<and> (\<forall>t \<ge> since. live (st_sessions s') t avoid = None)"
  using assms
proof (induction rule: identity_history.induct)
  case (history_step s' now drawn s'')
  then have "sess_inv (st_sessions s')" "\<forall>t \<ge> since. live (st_sessions s') t avoid = None" by auto
  with step_quiet [OF history_step(2) _ history_step(5)] history_step(4) show ?case
    unfolding quiet_def by metis
qed simp

text \<open>A refresh that succeeded has consumed its session: no later refresh of the same token does.\<close>

lemma refresh_spends:
  assumes inv: "sess_inv (st_sessions s)"
    and call: "refresh svc tok ja jr now s = (Inr pair, s1)"
    and new: "jr \<notin> held (st_sessions s)"
  obtains c where "decode_token (jwt svc) (tokens svc) REFRESH now tok = Some c"
    and "live (st_sessions s) now (claims_token_id c) = Some (claims_subject c)"
    and "sess_inv (st_sessions s1)" and "\<And>t. now \<le> t \<Longrightarrow> live (st_sessions s1) t (claims_token_id c) = None"
proof -
  from call obtain c where c: "decode_token (jwt svc) (tokens svc) REFRESH now tok = Some c"
    by (auto simp: refresh_def split: option.splits)
  obtain o' ss where k: "consume (sessions svc) (claims_token_id c) now (st_sessions s) = (o', ss)"
    by fastforce
  from call c k obtain u where o': "o' = Some (claims_subject c)"
      and pair: "issue_pair svc u ja jr now (audit TOKEN_REFRESHED (Some (user_id u)) now
        (s\<lparr>st_sessions := ss\<rparr>)) = (Inr pair, s1)"
    by (auto simp: refresh_def Let_def split: option.splits if_splits)
  from S.consume_law [OF inv k] have k': "o' = live (st_sessions s) now (claims_token_id c)"
      "sess_inv ss" "held ss \<subseteq> held (st_sessions s)"
      "\<And>t. now \<le> t \<Longrightarrow> live ss t (claims_token_id c) = None" by auto
  from k' o' have "claims_token_id c \<in> held (st_sessions s)" using S.live_held [OF inv] by force
  with new have "claims_token_id c \<notin> {jr}" by auto
  moreover have "quiet {jr} ss (st_sessions s1)"
    using issue_pair_quiet [OF _ _ pair] k'(2,3) new by (auto simp: audit_def)
  ultimately show thesis using that [OF c] k' o' unfolding quiet_def by metis
qed

lemma refresh_dead:
  assumes "sess_inv (st_sessions s)"
    and "decode_token (jwt svc) (tokens svc) REFRESH now tok = Some c"
    and "live (st_sessions s) now (claims_token_id c) \<noteq> Some (claims_subject c)"
  shows "fst (refresh svc tok ja jr now s) = Inl (AuthenticationError ''invalid session'')"
proof -
  obtain o' ss where k: "consume (sessions svc) (claims_token_id c) now (st_sessions s) = (o', ss)"
    by fastforce
  from S.consume_law [OF assms(1) k] assms(2,3) k show ?thesis by (simp add: refresh_def Let_def)
qed

text \<open>The claims of a token do not depend on when it is decoded.\<close>

lemma refresh_once:
  assumes "sess_inv (st_sessions s)" and "jr \<notin> held (st_sessions s)"
    and "refresh svc tok ja jr now s = (Inr pair, s1)"
    and "decode_token (jwt svc) (tokens svc) REFRESH now tok = Some c"
    and "identity_history svc held (claims_token_id c) now s1 s2" and "now \<le> later"
    and "\<And>c'. decode_token (jwt svc) (tokens svc) REFRESH later tok = Some c' \<Longrightarrow>
      claims_token_id c' = claims_token_id c"
  shows "fst (refresh svc tok ja' jr' later s2) = Inl (AuthenticationError ''invalid session'')"
proof (rule refresh_spends [OF assms(1,3,2)])
  fix c0
  assume c0: "decode_token (jwt svc) (tokens svc) REFRESH now tok = Some c0"
    and s1: "sess_inv (st_sessions s1)"
    and dead: "\<And>t. now \<le> t \<Longrightarrow> live (st_sessions s1) t (claims_token_id c0) = None"
  from c0 assms(4) have [simp]: "c0 = c" by simp
  from history_quiet [OF assms(5) s1] dead
  have s2: "sess_inv (st_sessions s2)" "live (st_sessions s2) later (claims_token_id c) = None"
    using assms(6) by auto
  show ?thesis
  proof (cases "decode_token (jwt svc) (tokens svc) REFRESH later tok")
    case None
    then show ?thesis by (simp add: refresh_def)
  next
    case (Some c')
    with assms(7) s2 show ?thesis by (intro refresh_dead) auto
  qed
qed

lemma reset_revokes:
  assumes uinv: "users_inv (st_users s)" and inv: "sess_inv (st_sessions s)"
    and call: "reset_password svc tok pw now s = (Inr (), s')"
  obtains c where "decode_reset (jwt svc) (tm_secret (tokens svc)) now tok = Some c"
    and "live (st_sessions s) now (rc_token_id c) = Some (rc_user_id c)"
    and "\<And>t i. live (st_sessions s') t i \<noteq> Some (rc_user_id c)"
    and "\<exists>u. get_by_id (users svc) (rc_user_id c) (st_users s) = Some u \<and>
      get_by_id (users svc) (rc_user_id c) (st_users s') = Some (u\<lparr>password_hash := hash_password svc pw\<rparr>)"
    and "sess_inv (st_sessions s')"
proof -
  from call obtain c where c: "decode_reset (jwt svc) (tm_secret (tokens svc)) now tok = Some c"
    by (auto simp: reset_password_def split: option.splits)
  obtain o' ss where k: "consume (sessions svc) (rc_token_id c) now (st_sessions s) = (o', ss)"
    by fastforce
  obtain x us where w: "update_password (users svc) (rc_user_id c) (hash_password svc pw) (st_users s) = (x, us)"
    by fastforce
  from call c k w obtain u where o': "o' = Some (rc_user_id c)" and x: "x = Some u"
      and s': "st_users s' = us" "st_sessions s' = revoke_all (sessions svc) (user_id u) ss"
    by (auto simp: reset_password_def audit_def Let_def split: option.splits if_splits)
  from S.consume_law [OF inv k] have k': "o' = live (st_sessions s) now (rc_token_id c)" "sess_inv ss"
    by auto
  from U.password_is_replaced [OF uinv w] x
  have up: "users_inv us" "get_by_id (users svc) (rc_user_id c) us = Some u"
      "Some u = map_option (password_hash_update (\<lambda>_. hash_password svc pw))
         (get_by_id (users svc) (rc_user_id c) (st_users s))" by auto
  then have uid: "user_id u = rc_user_id c" using U.key_law U.id_law by metis
  have "live (st_sessions s') t i \<noteq> Some (rc_user_id c)" for t i
    using S.revoked_user_has_nothing_live [OF k'(2)] unfolding s' uid by blast
  moreover have "sess_inv (st_sessions s')" using S.revoke_all_law [OF k'(2)] unfolding s' by blast
  moreover from up(3) obtain u0 where
    "get_by_id (users svc) (rc_user_id c) (st_users s) = Some u0" "u = u0\<lparr>password_hash := hash_password svc pw\<rparr>"
    by (auto simp: map_option_case split: option.splits)
  then have "\<exists>u. get_by_id (users svc) (rc_user_id c) (st_users s) = Some u \<and>
      get_by_id (users svc) (rc_user_id c) (st_users s') = Some (u\<lparr>password_hash := hash_password svc pw\<rparr>)"
    using up(2) s'(1) by blast
  moreover have "live (st_sessions s) now (rc_token_id c) = Some (rc_user_id c)" using k'(1) o' by simp
  ultimately show thesis using that [OF c] by blast
qed

lemma login_sound:
  assumes "login svc em pw key ja jr now s = (Inr pair, s')"
  shows "\<exists>u. get_by_email (users svc) (casefold (py_strip em)) (st_users s) = Some u
    \<and> is_active u \<and> is_verified u \<and> verify_password svc pw (password_hash u)
    \<and> fst (check (limiter svc) key now (st_limiter s)) = None
    \<and> st_limiter s' = reset (limiter svc) key (snd (check (limiter svc) key now (st_limiter s)))"
  using assms
  by (auto simp: login_def issue_pair_def create_token_def credentials_ok_def audit_def Let_def
      split: prod.splits option.splits if_splits)

end

end
