(* ===== verification/Identity_Http.thy ===== *)
theory Identity_Http
  imports Identity_Safety
begin

text \<open>
  The wirings of the identity service and its HTTP handlers
  (\<open>app/presentation/api/routes/auth.py\<close>), each in the transaction that \<open>database_session\<close>
  (\<open>app/infrastructure/database.py\<close>) opens around the request, and the properties of identity.
\<close>

section \<open>Wirings\<close>

definition default_limits :: limiter_config where
  "default_limits = \<lparr>max_failures = 5, window_seconds = 900, lock_seconds = 900\<rparr>"

definition get_identity_service ::
  "(string \<Rightarrow> string) \<Rightarrow> (string \<Rightarrow> string) \<Rightarrow> (string \<Rightarrow> string) \<Rightarrow> (string \<Rightarrow> string \<Rightarrow> bool) \<Rightarrow>
     jwt_library \<Rightarrow> token_manager \<Rightarrow> (string \<Rightarrow> bool) \<Rightarrow>
     (user_row list, session list, limit_table) identity_service" where
  "get_identity_service enc dec hash verify lib tm deliver =
     \<lparr>users = sql_user_repository enc dec, sessions = sql_session_repository,
      limiter = sql_limiter default_limits, hash_password = hash, verify_password = verify,
      jwt = lib, tokens = tm, notifier = deliver\<rparr>"

definition build_identity_service ::
  "(string \<Rightarrow> string) \<Rightarrow> (string \<Rightarrow> string \<Rightarrow> bool) \<Rightarrow> jwt_library \<Rightarrow> token_manager \<Rightarrow> (string \<Rightarrow> bool) \<Rightarrow>
     (inmem_users, session_dict, attempt_table) identity_service" where
  "build_identity_service hash verify lib tm deliver =
     \<lparr>users = inmem_user_repository, sessions = inmem_session_repository,
      limiter = inmem_limiter default_limits, hash_password = hash, verify_password = verify,
      jwt = lib, tokens = tm, notifier = deliver\<rparr>"

interpretation sql_identity: identity_stores "get_identity_service enc dec hash verify lib tm deliver"
    "\<lambda>s i. sql_get_by_id dec i s" user_rows_ok "sealed enc dec"
    "\<lambda>rows t i. owner_at t (session_row rows i)" "\<lambda>rows. dom (session_row rows)" session_rows_ok
  for enc dec hash verify lib tm deliver
  by (simp add: identity_stores_def get_identity_service_def sql_user_store.user_store_axioms
      sql_session_store.session_store_axioms)

interpretation inmem_identity: identity_stores "build_identity_service hash verify lib tm deliver"
    "\<lambda>s. dict_get (by_id s)" inmem_users_ok Some
    "\<lambda>d t i. owner_at t (dict_get d i)" "\<lambda>d. dom (dict_get d)" sessions_ok
  for hash verify lib tm deliver
  by (simp add: identity_stores_def build_identity_service_def inmem_user_store.user_store_axioms
      inmem_session_store.session_store_axioms)

section \<open>Handlers\<close>

record http_error =
  status_code :: nat
  detail :: string
  retry_after :: "string option"

definition http_exception :: "nat \<Rightarrow> string \<Rightarrow> http_error" where
  "http_exception code d = \<lparr>status_code = code, detail = d, retry_after = None\<rparr>"

text \<open>\<open>async with session.begin()\<close>: a request that ends in an exception leaves the database as
  it was. The notifier is not part of the transaction.\<close>

definition transaction ::
  "('u, 's, 'l) identity_state \<Rightarrow> (http_error + 'a) \<times> ('u, 's, 'l) identity_state \<Rightarrow>
     (http_error + 'a) \<times> ('u, 's, 'l) identity_state" where
  "transaction s res =
     (case res of
        (Inl e, s') \<Rightarrow> (Inl e, s\<lparr>outbox := outbox s'\<rparr>)
      | (Inr x, s') \<Rightarrow> (Inr x, s'))"

text \<open>What a handler makes of an exception of the service: its own status for an
  \<open>AuthenticationError\<close>; what it does not catch is answered 500.\<close>

definition raise_as :: "nat \<Rightarrow> identity_error + 'a \<Rightarrow> http_error + 'a" where
  "raise_as code r =
     (case r of
        Inr x \<Rightarrow> Inr x
      | Inl (AuthenticationError m) \<Rightarrow> Inl (http_exception code m)
      | Inl _ \<Rightarrow> Inl (http_exception 500 ''Unexpected server error.''))"

definition http ::
  "nat \<Rightarrow> ('u, 's, 'l) identity_state \<Rightarrow> ('u, 's, 'l, 'a) outcome \<Rightarrow>
     (http_error + 'a) \<times> ('u, 's, 'l) identity_state" where
  "http code s res = transaction s (raise_as code (fst res), snd res)"

text \<open>\<open>RegisterCommand.normalize_email\<close> with the length bounds of the model; \<open>None\<close> is 422.\<close>

definition normalize_email :: "string \<Rightarrow> string option" where
  "normalize_email value =
     (if length value < 3 \<or> length value > 320 then None
      else let n = casefold (py_strip value)
           in if length (filter (\<lambda>c. c = CHR ''@'') n) \<noteq> 1 \<or> starts_with ''@'' n
                 \<or> starts_with ''@'' (rev n)
              then None else Some n)"

definition password_bounds :: "string \<Rightarrow> bool" where
  "password_bounds p = (12 \<le> length p \<and> length p \<le> 128)"

definition route_register ::
  "('u, 's, 'l) identity_service \<Rightarrow> string \<Rightarrow> string \<Rightarrow> uuid \<Rightarrow> instant \<Rightarrow> ('u, 's, 'l) identity_state \<Rightarrow>
     (http_error + user) \<times> ('u, 's, 'l) identity_state" where
  "route_register svc em password uid now s =
     (case normalize_email em of
        None \<Rightarrow> (Inl (http_exception 422 ''Invalid request.''), s)
      | Some n \<Rightarrow>
          if \<not> password_bounds password then (Inl (http_exception 422 ''Invalid request.''), s)
          else http 409 s (register svc n password uid now s))"

text \<open>\<open>sha256\<close> is the hexadecimal digest of the attempt key.\<close>

definition attempt_key :: "(string \<Rightarrow> string) \<Rightarrow> string option \<Rightarrow> string \<Rightarrow> string" where
  "attempt_key sha256 client_host em =
     sha256 ((case client_host of None \<Rightarrow> ''unknown'' | Some h \<Rightarrow> h) @ '':'' @ casefold (py_strip em))"

definition route_login ::
  "(string \<Rightarrow> string) \<Rightarrow> ('u, 's, 'l) identity_service \<Rightarrow> string option \<Rightarrow> string \<Rightarrow> string \<Rightarrow> uuid \<Rightarrow>
     uuid \<Rightarrow> instant \<Rightarrow> ('u, 's, 'l) identity_state \<Rightarrow>
     (http_error + token_pair) \<times> ('u, 's, 'l) identity_state" where
  "route_login sha256 svc client_host em password ja jr now s =
     (case login svc em password (attempt_key sha256 client_host em) ja jr now s of
        (Inl (RateLimitExceeded n), s') \<Rightarrow>
          transaction s (Inl \<lparr>status_code = 429, detail = ''too many authentication attempts'',
            retry_after = Some (int_str n)\<rparr>, s')
      | res \<Rightarrow> http 401 s res)"

definition route_verify_email where
  "route_verify_email svc token now s = http 400 s (verify_email svc token now s)"

definition route_refresh where
  "route_refresh svc token ja jr now s = http 401 s (refresh svc token ja jr now s)"

definition route_request_password_reset where
  "route_request_password_reset svc em jti now s = http 500 s (request_password_reset svc em jti now s)"

definition route_confirm_password_reset where
  "route_confirm_password_reset svc token new_password now s =
     (if \<not> password_bounds new_password then (Inl (http_exception 422 ''Invalid request.''), s)
      else http 400 s (reset_password svc token new_password now s))"

definition route_logout where
  "route_logout svc token now s = http 500 s (logout svc token now s)"

definition current_user ::
  "('u, 's, 'l) identity_service \<Rightarrow> string option \<Rightarrow> instant \<Rightarrow> ('u, 's, 'l) identity_state \<Rightarrow>
     http_error + user" where
  "current_user svc credentials now s =
     (case credentials of
        None \<Rightarrow> Inl (http_exception 401 ''authentication required'')
      | Some token \<Rightarrow> raise_as 401 (authenticate svc token now s))"

definition require_roles :: "role set \<Rightarrow> http_error + user \<Rightarrow> http_error + user" where
  "require_roles allowed r =
     (case r of
        Inl e \<Rightarrow> Inl e
      | Inr u \<Rightarrow> if authorize u allowed then Inr u
                 else Inl (http_exception 403 ''insufficient permissions''))"

definition route_revoke_session ::
  "('u, 's, 'l) identity_service \<Rightarrow> string option \<Rightarrow> uuid \<Rightarrow> instant \<Rightarrow> ('u, 's, 'l) identity_state \<Rightarrow>
     (http_error + unit) \<times> ('u, 's, 'l) identity_state" where
  "route_revoke_session svc credentials sid now s =
     (case current_user svc credentials now s of
        Inl e \<Rightarrow> (Inl e, s)
      | Inr u \<Rightarrow> http 404 s (revoke_session svc (user_id u) sid now s))"

definition route_sessions ::
  "('u, 's, 'l) identity_service \<Rightarrow> string option \<Rightarrow> instant \<Rightarrow> ('u, 's, 'l) identity_state \<Rightarrow>
     http_error + session list" where
  "route_sessions svc credentials now s =
     (case current_user svc credentials now s of
        Inl e \<Rightarrow> Inl e
      | Inr u \<Rightarrow> Inr (list_sessions svc (user_id u) now s))"

section \<open>Lemmas\<close>

lemma login_outbox: "login svc em pw key ja jr now s = (r, s') \<Longrightarrow> outbox s' = outbox s"
  by (auto simp: login_def issue_pair_def create_token_def audit_def Let_def
      split: option.splits if_splits prod.splits)

lemma http_error_state: "http code s (r, s') = (Inl e, t) \<Longrightarrow> outbox s' = outbox s \<Longrightarrow> t = s"
  by (auto simp: http_def transaction_def split: sum.splits)

lemma failed_login_state: "route_login sha svc h em pw ja jr now s = (Inl e, s') \<Longrightarrow> s' = s"
  by (auto simp: route_login_def transaction_def split: prod.splits sum.splits identity_error.splits
      dest: login_outbox http_error_state [OF _ login_outbox])

lemma route_login_InrD:
  "route_login sha svc h em pw ja jr now s = (Inr p, s') \<Longrightarrow>
     login svc em pw (attempt_key sha h em) ja jr now s = (Inr p, s')"
  by (auto simp: route_login_def http_def transaction_def raise_as_def
      split: prod.splits sum.splits identity_error.splits)

lemma status_429:
  "route_login sha svc h em pw ja jr now s = (Inl e, s') \<Longrightarrow> status_code e = 429 \<Longrightarrow>
     fst (check (limiter svc) (attempt_key sha h em) now (st_limiter s)) \<noteq> None"
  by (auto simp: route_login_def login_def http_def transaction_def raise_as_def http_exception_def
      issue_pair_def create_token_def Let_def
      split: prod.splits sum.splits identity_error.splits option.splits if_splits)

section \<open>Sample data\<close>

definition sample_payload :: "string \<Rightarrow> jwt_payload" where
  "sample_payload ty = \<lparr>p_sub = Some (uuid_str 7), p_role = Some ''user'', p_jti = Some (uuid_str 1),
     p_type = Some ty, p_exp = Some 1000\<rparr>"

definition sample_jwt :: jwt_library where
  "sample_jwt = \<lparr>encode = (\<lambda>c secret. c_type c),
     decode = (\<lambda>token secret iss now. Some (sample_payload token))\<rparr>"

definition sample_user :: user_row where
  "sample_user = \<lparr>row_id = 7, row_email = ''a@b'', row_password_hash = ''h'', row_role = ''user'',
     row_is_active = True, row_is_verified = True, row_created_at = 0, row_mfa_secret = None,
     row_mfa_enabled = False\<rparr>"

definition sample_identity :: "(user_row list, session list, limit_table) identity_service" where
  "sample_identity = get_identity_service id id id (\<lambda>p h. p = h) sample_jwt
     \<lparr>tm_secret = [], access_ttl = 10, refresh_ttl = 20\<rparr> (\<lambda>_. True)"

definition sample_state :: "(user_row list, session list, limit_table) identity_state" where
  "sample_state = \<lparr>st_users = [sample_user],
     st_sessions = [\<lparr>session_id = 1, session_user = 7, session_created_at = 0, session_expires_at = 50\<rparr>],
     st_limiter = Map.empty, outbox = [], audit_trail = []\<rparr>"

lemma sample_jwt_ops [simp]:
  "encode sample_jwt c secret = c_type c"
  "decode sample_jwt token secret iss now = Some (sample_payload token)"
  by (simp_all add: sample_jwt_def)

lemmas identity_samples = sample_user_def sample_identity_def
  sample_state_def get_identity_service_def sql_user_repository_def sql_session_repository_def

lemmas sql_user_ops = sql_get_by_id_def sql_get_by_email_def of_user_row_def sql_update_password_def
  update_returning_def

lemmas sql_session_ops = sql_add_session_def sql_consume_def delete_returning_def sql_revoke_all_def

lemma sample_decode: "decode_token sample_jwt tm REFRESH t ''refresh'' = Some \<lparr>claims_subject = 7,
    claims_role = USER, claims_token_id = 1, claims_type = REFRESH, claims_expires_at = 1000 * second\<rparr>"
  by (simp add: decode_token_def sample_payload_def role_of_def)

lemma sample_refresh:
  "fst (refresh sample_identity ''refresh'' 2 3 10 sample_state) = Inr \<lparr>access_token = ''access'',
     refresh_token = ''refresh'', expires_in = 0\<rparr>"
  by (simp add: refresh_def sample_decode identity_samples issue_pair_def create_token_def audit_def
      sql_user_ops sql_session_ops access_ttl_seconds_def role_of_def)

section \<open>Properties\<close>

text \<open>
  C6: Refresh credentials are single use. Once a refresh over PostgreSQL has succeeded, the same
  token is refused as an invalid session at every later time, after any history of service calls
  (registrations, logins, refreshes, resets, logouts, revocations) that never draws the spent
  identifier again.
\<close>
theorem refresh_token_is_single_use:
  assumes "session_rows_ok (st_sessions s)" and "jr \<notin> dom (session_row (st_sessions s))"
    and "refresh (get_identity_service enc dec hash verify lib tm deliver) tok ja jr now s = (Inr pair, s1)"
    and "decode_token lib tm REFRESH now tok = Some c"
    and "identity_history (get_identity_service enc dec hash verify lib tm deliver)
      (\<lambda>rows. dom (session_row rows)) (claims_token_id c) now s1 s2"
    and "now \<le> later"
    and "\<And>c'. decode_token lib tm REFRESH later tok = Some c' \<Longrightarrow> claims_token_id c' = claims_token_id c"
  shows "fst (refresh (get_identity_service enc dec hash verify lib tm deliver) tok ja' jr' later s2)
    = Inl (AuthenticationError ''invalid session'')"
  using sql_identity.refresh_once [OF assms(1-3) _ assms(5,6)] assms(4,7)
  by (simp add: get_identity_service_def)

theorem refresh_token_is_single_use_witness:
  "fst (refresh sample_identity ''refresh'' 4 5 11
      (snd (refresh sample_identity ''refresh'' 2 3 10 sample_state)))
    = Inl (AuthenticationError ''invalid session'')"
  unfolding sample_identity_def
proof (rule refresh_token_is_single_use [where s = sample_state and jr = 3 and ja = 2 and now = 10
      and c = "\<lparr>claims_subject = 7, claims_role = USER, claims_token_id = 1, claims_type = REFRESH,
        claims_expires_at = 1000 * second\<rparr>"])
  show "refresh (get_identity_service id id id (\<lambda>p h. p = h) sample_jwt
      \<lparr>tm_secret = [], access_ttl = 10, refresh_ttl = 20\<rparr> (\<lambda>_. True)) ''refresh'' 2 3 10 sample_state =
    (Inr \<lparr>access_token = ''access'', refresh_token = ''refresh'', expires_in = 0\<rparr>,
     snd (refresh (get_identity_service id id id (\<lambda>p h. p = h) sample_jwt
      \<lparr>tm_secret = [], access_ttl = 10, refresh_ttl = 20\<rparr> (\<lambda>_. True)) ''refresh'' 2 3 10 sample_state))"
    using sample_refresh unfolding sample_identity_def by (metis prod.collapse)
qed (simp_all add: sample_decode history_start sample_state_def session_rows_ok_def session_row_def dom_def)

text \<open>
  C7: A completed password reset ends every session. When a reset token is accepted over
  PostgreSQL, its session was live and belonged to the account it names, afterwards no session of
  that account is live at any time, so every refresh token issued before is refused, and the
  account carries the hash of the new password and is otherwise unchanged.
\<close>
theorem password_reset_ends_all_sessions:
  assumes "user_rows_ok (st_users s)" and "session_rows_ok (st_sessions s)"
    and "reset_password (get_identity_service enc dec hash verify lib tm deliver) tok pw now s = (Inr (), s')"
  shows "\<exists>c u. decode_reset lib (tm_secret tm) now tok = Some c
    \<and> owner_at now (session_row (st_sessions s) (rc_token_id c)) = Some (rc_user_id c)
    \<and> sql_get_by_id dec (rc_user_id c) (st_users s) = Some u
    \<and> sql_get_by_id dec (rc_user_id c) (st_users s') = Some (u\<lparr>password_hash := hash pw\<rparr>)
    \<and> (\<forall>t i. owner_at t (session_row (st_sessions s') i) \<noteq> Some (rc_user_id c))
    \<and> (\<forall>old claims t ja jr. decode_token lib tm REFRESH t old = Some claims \<longrightarrow>
         claims_subject claims = rc_user_id c \<longrightarrow>
         fst (refresh (get_identity_service enc dec hash verify lib tm deliver) old ja jr t s')
           = Inl (AuthenticationError ''invalid session''))"
proof (rule sql_identity.reset_revokes [OF assms])
  fix c
  assume c: "decode_reset (identity_service.jwt (get_identity_service enc dec hash verify lib tm deliver))
      (tm_secret (tokens (get_identity_service enc dec hash verify lib tm deliver))) now tok = Some c"
    and live: "owner_at now (session_row (st_sessions s) (rc_token_id c)) = Some (rc_user_id c)"
    and dead: "\<And>t i. owner_at t (session_row (st_sessions s') i) \<noteq> Some (rc_user_id c)"
    and u: "\<exists>u. get_by_id (users (get_identity_service enc dec hash verify lib tm deliver)) (rc_user_id c)
        (st_users s) = Some u \<and>
      get_by_id (users (get_identity_service enc dec hash verify lib tm deliver)) (rc_user_id c) (st_users s')
        = Some (u\<lparr>password_hash := hash_password (get_identity_service enc dec hash verify lib tm deliver) pw\<rparr>)"
    and ok: "session_rows_ok (st_sessions s')"
  have refused: "fst (refresh (get_identity_service enc dec hash verify lib tm deliver) old ja jr t s')
      = Inl (AuthenticationError ''invalid session'')"
    if "decode_token lib tm REFRESH t old = Some claims" "claims_subject claims = rc_user_id c"
    for old claims t ja jr
    using sql_identity.refresh_dead [OF ok] that dead by (simp add: get_identity_service_def)
  from u obtain u where "sql_get_by_id dec (rc_user_id c) (st_users s) = Some u"
      "sql_get_by_id dec (rc_user_id c) (st_users s') = Some (u\<lparr>password_hash := hash pw\<rparr>)"
    by (auto simp: get_identity_service_def sql_user_repository_def)
  with c live dead refused show ?thesis
    by (intro exI [of _ c] exI [of _ u]) (simp add: get_identity_service_def)
qed

theorem password_reset_ends_all_sessions_witness:
  "\<exists>c u. decode_reset sample_jwt [] 10 ''reset_password'' = Some c
    \<and> sql_get_by_id id (rc_user_id c) (st_users sample_state) = Some u"
proof -
  have "reset_password (get_identity_service id id id (\<lambda>p h. p = h) sample_jwt
      \<lparr>tm_secret = [], access_ttl = 10, refresh_ttl = 20\<rparr> (\<lambda>_. True)) ''reset_password'' ''new'' 10 sample_state
    = (Inr (), snd (reset_password (get_identity_service id id id (\<lambda>p h. p = h) sample_jwt
      \<lparr>tm_secret = [], access_ttl = 10, refresh_ttl = 20\<rparr> (\<lambda>_. True)) ''reset_password'' ''new'' 10 sample_state))"
    by (simp add: reset_password_def decode_reset_def sample_payload_def identity_samples sql_user_ops sql_session_ops
        audit_def Let_def)
  from password_reset_ends_all_sessions [OF _ _ this] show ?thesis
    by (auto simp: sample_state_def user_rows_ok_def session_rows_ok_def)
qed

text \<open>
  C8: A login succeeds only for an active, verified account whose password verifies, on an attempt
  key that is not locked, and clears that key's failures; every refusal for the account's sake,
  unknown, inactive, unverified or wrong password, is the same error with the same effect on the
  limiter, so the answer does not reveal which.
\<close>
theorem login_is_sound_and_uniform:
  assumes "login svc em pw key ja jr now s = (r, s')"
  shows "case r of
      Inr pair \<Rightarrow> \<exists>u. get_by_email (users svc) (casefold (py_strip em)) (st_users s) = Some u
        \<and> is_active u \<and> is_verified u \<and> verify_password svc pw (password_hash u)
        \<and> fst (check (limiter svc) key now (st_limiter s)) = None
        \<and> st_limiter s' = reset (limiter svc) key (snd (check (limiter svc) key now (st_limiter s)))
    | Inl (RateLimitExceeded n) \<Rightarrow> fst (check (limiter svc) key now (st_limiter s)) = Some n
        \<and> st_sessions s' = st_sessions s \<and> audit_trail s' = audit_trail s
    | Inl (AuthenticationError m) \<Rightarrow> m = ''invalid credentials''
        \<and> st_users s' = st_users s \<and> st_sessions s' = st_sessions s \<and> outbox s' = outbox s
        \<and> st_limiter s' = record_failure (limiter svc) key now
            (snd (check (limiter svc) key now (st_limiter s)))
    | Inl Failure \<Rightarrow> add_session (sessions svc) jr
        (user_id (the (get_by_email (users svc) (casefold (py_strip em)) (st_users s))))
        (now + refresh_ttl (tokens svc)) now (st_sessions s) = None"
  using assms
  by (auto simp: login_def issue_pair_def create_token_def credentials_ok_def audit_def Let_def
      split: prod.splits option.splits if_splits sum.splits)

theorem login_is_sound_and_uniform_witness:
  "fst (login sample_identity ''a@b'' ''x'' ''k'' 2 3 10 sample_state)
      = Inl (AuthenticationError ''invalid credentials'')
    \<and> st_sessions (snd (login sample_identity ''a@b'' ''x'' ''k'' 2 3 10 sample_state)) = st_sessions sample_state"
proof -
  have "fst (login sample_identity ''a@b'' ''x'' ''k'' 2 3 10 sample_state)
      = Inl (AuthenticationError ''invalid credentials'')"
    by (simp add: login_def identity_samples sql_check_def credentials_ok_def sql_user_ops
        py_strip_def is_space_def casefold_def fold_char_def Let_def)
  then show ?thesis
    using login_is_sound_and_uniform [OF surjective_pairing,
        of sample_identity "''a@b''" "''x''" "''k''" 2 3 10 sample_state]
    by simp
qed

text \<open>
  C9: Token kinds are not interchangeable. Of the four decoders (access, refresh, e-mail
  verification, password reset) at most one accepts what PyJWT reads from a token.
\<close>
theorem token_kinds_are_disjoint:
  assumes "decode lib tok (tm_secret tm) issuer now = Some p"
  shows "length (filter id [decode_token lib tm ACCESS now tok \<noteq> None,
      decode_token lib tm REFRESH now tok \<noteq> None,
      decode_verification lib (tm_secret tm) now tok \<noteq> None,
      decode_reset lib (tm_secret tm) now tok \<noteq> None]) \<le> 1"
  using assms by (auto simp: decode_token_def decode_verification_def decode_reset_def)

theorem token_kinds_are_disjoint_witness:
  "decode_token sample_jwt \<lparr>tm_secret = [], access_ttl = 1, refresh_ttl = 1\<rparr> REFRESH 5 ''refresh'' \<noteq> None
    \<and> length (filter id [
        decode_token sample_jwt \<lparr>tm_secret = [], access_ttl = 1, refresh_ttl = 1\<rparr> ACCESS 5 ''refresh'' \<noteq> None,
        decode_token sample_jwt \<lparr>tm_secret = [], access_ttl = 1, refresh_ttl = 1\<rparr> REFRESH 5 ''refresh'' \<noteq> None,
        decode_verification sample_jwt [] 5 ''refresh'' \<noteq> None,
        decode_reset sample_jwt [] 5 ''refresh'' \<noteq> None]) \<le> 1"
  using token_kinds_are_disjoint [of sample_jwt "''refresh''"
      "\<lparr>tm_secret = [], access_ttl = 1, refresh_ttl = 1\<rparr>" 5 "sample_payload ''refresh''"]
  by (simp add: sample_decode)

text \<open>A sequence of login requests, each in its own transaction.\<close>

fun serve_logins ::
  "(string \<Rightarrow> string) \<Rightarrow> ('u, 's, 'l) identity_service \<Rightarrow>
     (string option \<times> string \<times> string \<times> uuid \<times> uuid \<times> instant) list \<Rightarrow> ('u, 's, 'l) identity_state \<Rightarrow>
     (http_error + token_pair) list" where
  "serve_logins sha svc [] s = []"
| "serve_logins sha svc ((h, em, pw, ja, jr, now) # qs) s =
     (case route_login sha svc h em pw ja jr now s of (r, s') \<Rightarrow> r # serve_logins sha svc qs s')"

definition no_key_locked :: "limit_table \<Rightarrow> bool" where
  "no_key_locked table \<longleftrightarrow> (\<forall>k r. table k = Some r \<longrightarrow> row_locked_until r = None)"

lemma no_key_locked_check: "no_key_locked t \<Longrightarrow> sql_check k now t = (None, t)"
  by (cases "t k") (auto simp: sql_check_def no_key_locked_def)

lemma no_key_locked_reset: "no_key_locked t \<Longrightarrow> no_key_locked (sql_reset k t)"
  by (auto simp: no_key_locked_def sql_reset_def)

text \<open>
  A failed login leaves no trace. Over PostgreSQL the transaction of the request is rolled
  back when the handler raises, so the failure that the limiter recorded is undone; from a state
  in which no key is locked, no sequence of logins of any length is ever answered 429.
\<close>
lemma rolled_back_failures_never_lock:
  assumes "limiter svc = sql_limiter cfg" and "no_key_locked (st_limiter s)"
    and "Inl e \<in> set (serve_logins sha svc qs s)"
  shows "status_code e \<noteq> 429"
  using assms(2,3)
proof (induction qs arbitrary: s)
  case (Cons q qs)
  obtain h em pw ja jr now where q: "q = (h, em, pw, ja, jr, now)" by (cases q)
  obtain r s' where r: "route_login sha svc h em pw ja jr now s = (r, s')" by fastforce
  have "no_key_locked (st_limiter s')"
  proof (cases r)
    case (Inl x)
    with r Cons.prems(1) show ?thesis by (auto dest: failed_login_state)
  next
    case (Inr p)
    with r have l: "login svc em pw (attempt_key sha h em) ja jr now s = (Inr p, s')"
      by (auto dest: route_login_InrD)
    have "st_limiter s' = sql_reset (attempt_key sha h em) (st_limiter s)"
      using l assms(1) no_key_locked_check [OF Cons.prems(1)]
      by (auto simp: login_def issue_pair_def create_token_def audit_def Let_def
          split: option.splits if_splits)
    with no_key_locked_reset Cons.prems(1) show ?thesis by simp
  qed
  moreover have "status_code e \<noteq> 429" if "r = Inl e"
    using status_429 [of sha svc h em pw ja jr now s e s'] r that assms(1)
      no_key_locked_check [OF Cons.prems(1)] by auto
  ultimately show ?case using Cons q r by auto
qed simp

lemma rolled_back_failures_never_lock_witness:
  "\<exists>e. serve_logins id sample_identity (replicate 6 (None, ''x@y'', ''bad'', 2, 3, 10)) sample_state
        = replicate 6 (Inl e) \<and> status_code e \<noteq> 429"
proof -
  let ?e = "http_exception 401 ''invalid credentials''"
  have one: "route_login id sample_identity None ''x@y'' ''bad'' 2 3 10 sample_state = (Inl ?e, sample_state)"
    by (simp add: route_login_def login_def identity_samples sql_check_def credentials_ok_def sql_user_ops
        py_strip_def is_space_def casefold_def fold_char_def Let_def http_def transaction_def raise_as_def audit_def)
  then have six: "serve_logins id sample_identity (replicate 6 (None, ''x@y'', ''bad'', 2, 3, 10)) sample_state
      = replicate 6 (Inl ?e)"
    by (simp add: numeral_eq_Suc)
  have "status_code ?e \<noteq> 429"
  proof (rule rolled_back_failures_never_lock [where cfg = default_limits and s = sample_state])
    show "Inl ?e \<in> set (serve_logins id sample_identity (replicate 6 (None, ''x@y'', ''bad'', 2, 3, 10)) sample_state)"
      unfolding six by simp
  qed (simp_all add: sample_identity_def get_identity_service_def no_key_locked_def sample_state_def)
  with six show ?thesis by blast
qed

text \<open>
  Token round trip. If PyJWT gives back the claims it was handed, with the expiry in whole
  seconds and only until that second, then an issued token decodes, under the type it was issued
  for and no other, to the account, role and identifier it was created with, exactly until its
  expiry truncated to the second.
\<close>
lemma token_roundtrip:
  assumes "create_token lib tm u r ty jti issued = (tok, claims)"
    and "decode lib tok (tm_secret tm) issuer t =
      (if t < claims_expires_at claims div second * second then
         Some \<lparr>p_sub = Some (uuid_str u), p_role = Some (role_value r), p_jti = Some (uuid_str jti),
           p_type = Some (token_type_value ty), p_exp = Some (claims_expires_at claims div second)\<rparr>
       else None)"
  shows "decode_token lib tm expected t tok =
    (if expected = ty \<and> t < claims_expires_at claims div second * second
     then Some (claims\<lparr>claims_expires_at := claims_expires_at claims div second * second\<rparr>) else None)"
  using assms by (cases ty; cases expected) (auto simp: create_token_def decode_token_def Let_def)

lemma token_roundtrip_witness:
  "decode_token \<lparr>encode = (\<lambda>c s. c_sub c), decode = (\<lambda>tok s iss t. if t < 3 * second then
        Some \<lparr>p_sub = Some tok, p_role = Some ''admin'', p_jti = Some (uuid_str 9),
          p_type = Some ''access'', p_exp = Some 3\<rparr> else None)\<rparr>
      \<lparr>tm_secret = [], access_ttl = 2 * second, refresh_ttl = 1\<rparr> ACCESS 2 (uuid_str 8)
    = Some \<lparr>claims_subject = 8, claims_role = ADMIN, claims_token_id = 9, claims_type = ACCESS,
        claims_expires_at = 3 * second\<rparr>"
  using token_roundtrip [where lib = "\<lparr>encode = (\<lambda>c s. c_sub c), decode = (\<lambda>tok s iss t. if t < 3 * second then
        Some \<lparr>p_sub = Some tok, p_role = Some ''admin'', p_jti = Some (uuid_str 9),
          p_type = Some ''access'', p_exp = Some 3\<rparr> else None)\<rparr>"
      and tm = "\<lparr>tm_secret = [], access_ttl = 2 * second, refresh_ttl = 1\<rparr>"
      and u = 8 and r = ADMIN and ty = ACCESS and jti = 9 and issued = "1500000" and t = 2
      and expected = ACCESS]
  by (simp add: create_token_def)

end
