(* ===== verification/Calendar.thy ===== *)
theory Calendar
  imports Prelude
begin

text \<open>
  The Gregorian calendar behind \<open>datetime.isoformat()\<close> for UTC instants: the civil date of an
  instant and its ISO 8601 text, which identifies the instant (used by the audit chain and by
  every response that prints a time).
\<close>

section \<open>Civil dates\<close>

definition leap :: "nat \<Rightarrow> bool" where
  "leap y = (y mod 4 = 0 \<and> (y mod 100 \<noteq> 0 \<or> y mod 400 = 0))"

definition year_length :: "nat \<Rightarrow> nat" where
  "year_length y = (if leap y then 366 else 365)"

definition month_lengths :: "nat \<Rightarrow> nat list" where
  "month_lengths y = [31, if leap y then 29 else 28, 31, 30, 31, 30, 31, 31, 30, 31, 30, 31]"

text \<open>The year that holds day \<open>n\<close>, counted from the first day of year \<open>y\<close>, and the day in it.\<close>

function year_of :: "nat \<Rightarrow> nat \<Rightarrow> nat \<times> nat" where
  "year_of y n = (if n < year_length y then (y, n) else year_of (y + 1) (n - year_length y))"
  by pat_completeness auto
termination by (relation "measure snd") (auto simp: year_length_def)

declare year_of.simps [simp del]

fun month_of :: "nat list \<Rightarrow> nat \<Rightarrow> nat \<Rightarrow> nat \<times> nat" where
  "month_of [] m n = (m, n)"
| "month_of (l # ls) m n = (if n < l then (m, n) else month_of ls (m + 1) (n - l))"

text \<open>Days from 0001-01-01 to 1970-01-01.\<close>

definition epoch_day :: int where "epoch_day = 719162"

definition civil :: "nat \<Rightarrow> nat \<times> nat \<times> nat" where
  "civil n = (case year_of 1 n of (y, r) \<Rightarrow>
     case month_of (month_lengths y) 1 r of (m, d) \<Rightarrow> (y, m, d + 1))"

definition day_number :: "instant \<Rightarrow> nat" where
  "day_number t = nat (t div day + epoch_day)"

text \<open>The instants Python's \<open>datetime\<close> can hold: years 1 to 9999.\<close>

definition representable :: "instant \<Rightarrow> bool" where
  "representable t = (0 \<le> t div day + epoch_day \<and> fst (civil (day_number t)) \<le> 9999)"

section \<open>ISO 8601\<close>

fun dec_fixed :: "nat \<Rightarrow> nat \<Rightarrow> string" where
  "dec_fixed 0 n = []"
| "dec_fixed (Suc k) n = dec_fixed k (n div 10) @ [digit_char (n mod 10)]"

definition iso_text :: "nat \<times> nat \<times> nat \<Rightarrow> nat \<Rightarrow> nat \<Rightarrow> nat \<Rightarrow> nat \<Rightarrow> string" where
  "iso_text date h mi s us = (case date of (y, m, d) \<Rightarrow>
     dec_fixed 4 y @ ''-'' @ dec_fixed 2 m @ ''-'' @ dec_fixed 2 d @ ''T'' @
     dec_fixed 2 h @ '':'' @ dec_fixed 2 mi @ '':'' @ dec_fixed 2 s
     @ (if us = 0 then [] else ''.'' @ dec_fixed 6 us) @ ''+00:00'')"

definition isoformat :: "instant \<Rightarrow> string" where
  "isoformat t =
     (let u = nat (t mod day); s = u div 1000000
      in iso_text (civil (day_number t)) (s div 3600) (s div 60 mod 60) (s mod 60) (u mod 1000000))"

lemma length_dec_fixed [simp]: "length (dec_fixed k n) = k"
  by (induction k arbitrary: n) auto

lemma dec_fixed_inj: "n < 10 ^ k \<Longrightarrow> m < 10 ^ k \<Longrightarrow> dec_fixed k n = dec_fixed k m \<Longrightarrow> n = m"
proof (induction k arbitrary: n m)
  case (Suc k)
  then have "dec_fixed k (n div 10) = dec_fixed k (m div 10)" and d: "n mod 10 = m mod 10"
    using digit_char_inj [of "n mod 10" "m mod 10"] by auto
  moreover have "n div 10 < 10 ^ k" "m div 10 < 10 ^ k"
    using Suc.prems(1,2) by (simp_all add: less_mult_imp_div_less mult.commute)
  ultimately have "n div 10 = m div 10" using Suc.IH by blast
  with d show ?case by (metis div_mult_mod_eq)
qed simp

lemma dec_fixed_digits: "c \<in> set (dec_fixed k n) \<Longrightarrow> is_digit c"
proof (induction k arbitrary: n)
  case (Suc k)
  have "is_digit (digit_char (n mod 10))"
    by (simp add: is_digit_def of_char_digit_char)
  with Suc show ?case by auto
qed simp

lemma year_of_sound: "year_of y n = (y', r) \<Longrightarrow> y \<le> y' \<and> r < year_length y'"
  by (induction y n rule: year_of.induct) (subst (asm) (2) year_of.simps; auto split: if_splits)

lemma year_of_inj: "year_of y n = year_of y m \<Longrightarrow> n = m"
proof (induction y n arbitrary: m rule: year_of.induct)
  case (1 y n)
  have later: "y < fst (year_of (y + 1) k)" for k
    using year_of_sound [of "y + 1" k] by (cases "year_of (y + 1) k") fastforce
  show ?case
  proof (cases "n < year_length y")
    case True
    with 1(2) later [of "m - year_length y"] show ?thesis
      by (cases "year_of (Suc y) (m - year_length y)") (auto simp: year_of.simps [of y] split: if_splits)
  next
    case False
    with 1(2) later [of "n - year_length y"] have "\<not> m < year_length y"
      by (cases "year_of (Suc y) (n - year_length y)") (auto simp: year_of.simps [of y] split: if_splits)
    with False 1 show ?thesis
      by (simp add: year_of.simps [of y n] year_of.simps [of y m]) (metis diff_add_inverse2 leI le_add_diff_inverse2)
  qed
qed

lemma month_of_sound: "month_of ls k n = (m, r) \<Longrightarrow> n < sum_list ls \<Longrightarrow> \<forall>l \<in> set ls. l \<le> b \<Longrightarrow>
    k \<le> m \<and> m < k + length ls \<and> r < b"
proof (induction ls k n rule: month_of.induct)
  case (2 l ls m' n)
  then show ?case by (cases "n < l") fastforce+
qed simp

lemma month_of_inj:
  "n < sum_list ls \<Longrightarrow> n' < sum_list ls \<Longrightarrow> month_of ls k n = month_of ls k n' \<Longrightarrow> n = n'"
proof (induction ls k n arbitrary: n' rule: month_of.induct)
  case (2 l ls m n)
  have later: "m < fst (month_of ls (m + 1) i)" if "i < sum_list ls" for i
  proof -
    obtain b where "\<forall>l \<in> set ls. l \<le> b" using finite_nat_set_iff_bounded_le [of "set ls"] by auto
    with month_of_sound [of ls "m + 1" i] that show ?thesis by (cases "month_of ls (m + 1) i") fastforce
  qed
  show ?case
  proof (cases "n < l")
    case True
    have "n' < l"
    proof (rule ccontr)
      assume "\<not> n' < l"
      moreover from this 2(3) have "n' - l < sum_list ls" by simp
      ultimately show False using True later [of "n' - l"] 2(3,4)
        by (cases "month_of ls (m + 1) (n' - l)") auto
    qed
    with True 2(4) show ?thesis by simp
  next
    case False
    have "\<not> n' < l"
    proof
      assume "n' < l"
      moreover from False 2(2) have "n - l < sum_list ls" by simp
      ultimately show False using False later [of "n - l"] 2(2,4)
        by (cases "month_of ls (m + 1) (n - l)") auto
    qed
    moreover from False this 2(2,3) have "n - l < sum_list ls" "n' - l < sum_list ls" by simp_all
    ultimately have "n - l = n' - l" using False 2(1) [of "n' - l"] 2(4) by simp
    with False \<open>\<not> n' < l\<close> show ?thesis by simp
  qed
qed simp

lemma sum_month_lengths: "sum_list (month_lengths y) = year_length y"
  by (simp add: month_lengths_def year_length_def)

lemma civil_sound:
  assumes "civil n = (y, m, d)"
  shows "1 \<le> y \<and> 1 \<le> m \<and> m \<le> 12 \<and> 1 \<le> d \<and> d \<le> 31"
proof -
  obtain r where r: "year_of 1 n = (y, r)" "month_of (month_lengths y) 1 r = (m, d - 1)" "1 \<le> d"
    using assms by (auto simp: civil_def split: prod.splits)
  have len: "length (month_lengths y) = 12" "\<forall>l \<in> set (month_lengths y). l \<le> 31"
    by (auto simp: month_lengths_def)
  from year_of_sound [OF r(1)] month_of_sound [OF r(2), of 31] r(3) len
  show ?thesis by (auto simp: sum_month_lengths)
qed

lemma civil_inj: "civil n = civil n' \<Longrightarrow> n = n'"
proof -
  assume eq: "civil n = civil n'"
  obtain y r where r: "year_of 1 n = (y, r)" by fastforce
  obtain y' r' where r': "year_of 1 n' = (y', r')" by fastforce
  from eq r r' have "y = y'" "month_of (month_lengths y) 1 r = month_of (month_lengths y) 1 r'"
    by (auto simp: civil_def split: prod.splits)
  moreover have "r < year_length y" "r' < year_length y'"
    using year_of_sound r r' by blast+
  ultimately have "r = r'" using month_of_inj [of r "month_lengths y" r' 1]
    by (simp add: sum_month_lengths)
  with \<open>y = y'\<close> r r' show "n = n'" using year_of_inj [of 1 n n'] by simp
qed

lemma append_inj: "length a = length b \<Longrightarrow> a @ x = b @ y \<longleftrightarrow> a = b \<and> x = y"
  by simp

lemma iso_text_inj:
  assumes eq: "iso_text (y, m, d) h mi s us = iso_text (y', m', d') h' mi' s' us'"
    and b: "y < 10 ^ 4" "y' < 10 ^ 4" "m < 10 ^ 2" "m' < 10 ^ 2" "d < 10 ^ 2" "d' < 10 ^ 2"
      "h < 10 ^ 2" "h' < 10 ^ 2" "mi < 10 ^ 2" "mi' < 10 ^ 2" "s < 10 ^ 2" "s' < 10 ^ 2"
      "us < 10 ^ 6" "us' < 10 ^ 6"
  shows "y = y' \<and> m = m' \<and> d = d' \<and> h = h' \<and> mi = mi' \<and> s = s' \<and> us = us'"
proof -
  have tail: "us = us'"
    if "(if us = 0 then [] else ''.'' @ dec_fixed 6 us) @ ''+00:00''
      = (if us' = 0 then [] else ''.'' @ dec_fixed 6 us') @ ''+00:00''"
    using that b(13,14) dec_fixed_inj [of us 6 us'] by (simp split: if_splits)
  from eq have e: "dec_fixed 4 y = dec_fixed 4 y'" "dec_fixed 2 m = dec_fixed 2 m'"
      "dec_fixed 2 d = dec_fixed 2 d'" "dec_fixed 2 h = dec_fixed 2 h'" "dec_fixed 2 mi = dec_fixed 2 mi'"
      "dec_fixed 2 s = dec_fixed 2 s'" "(if us = 0 then [] else ''.'' @ dec_fixed 6 us) @ ''+00:00''
      = (if us' = 0 then [] else ''.'' @ dec_fixed 6 us') @ ''+00:00''"
    unfolding iso_text_def by (simp_all only: prod.case append_inj length_dec_fixed append_same_eq)
  show ?thesis
    using dec_fixed_inj [OF b(1,2) e(1)] dec_fixed_inj [OF b(3,4) e(2)] dec_fixed_inj [OF b(5,6) e(3)]
      dec_fixed_inj [OF b(7,8) e(4)] dec_fixed_inj [OF b(9,10) e(5)] dec_fixed_inj [OF b(11,12) e(6)]
      tail [OF e(7)] by blast
qed

lemma nat_div_mod_inj: "a div n = b div n \<Longrightarrow> a mod n = b mod n \<Longrightarrow> a = (b :: nat)"
  by (metis div_mult_mod_eq)

text \<open>The text identifies the instant.\<close>

lemma isoformat_inj:
  assumes t: "representable t" and t': "representable t'" and eq: "isoformat t = isoformat t'"
  shows "t = t'"
proof -
  let ?u = "nat (t mod day)" and ?u' = "nat (t' mod day)"
  obtain y m d where c: "civil (day_number t) = (y, m, d)" by (cases "civil (day_number t)")
  obtain y' m' d' where c': "civil (day_number t') = (y', m', d')" by (cases "civil (day_number t')")
  define s where "s = ?u div 1000000"
  define s' where "s' = ?u' div 1000000"
  have "?u < 86400000000" "?u' < 86400000000" by simp_all
  then have "s < 86400" "s' < 86400" by (simp_all add: s_def s'_def less_mult_imp_div_less)
  then have h: "s div 3600 < 10 ^ 2" "s' div 3600 < 10 ^ 2" by (simp_all add: less_mult_imp_div_less)
  have y: "y < 10 ^ 4" "y' < 10 ^ 4" using t t' c c' by (simp_all add: representable_def)
  have md: "m < 10 ^ 2" "m' < 10 ^ 2" "d < 10 ^ 2" "d' < 10 ^ 2"
    using civil_sound [OF c] civil_sound [OF c'] by simp_all
  have lt: "x mod 60 < 10 ^ 2" for x :: nat using mod_less_divisor [of 60 x] by simp
  have us: "x mod 1000000 < 10 ^ 6" for x :: nat by simp
  from eq have "iso_text (y, m, d) (s div 3600) (s div 60 mod 60) (s mod 60) (?u mod 1000000)
      = iso_text (y', m', d') (s' div 3600) (s' div 60 mod 60) (s' mod 60) (?u' mod 1000000)"
    unfolding isoformat_def Let_def c c' s_def s'_def .
  from iso_text_inj [OF this y md h lt lt lt lt us us]
  have f: "y = y'" "m = m'" "d = d'" "s div 3600 = s' div 3600" "s div 60 mod 60 = s' div 60 mod 60"
      "s mod 60 = s' mod 60" "?u mod 1000000 = ?u' mod 1000000" by blast+
  have "s div 60 div 60 = s' div 60 div 60" using f(4) by (simp add: div_mult2_eq [symmetric])
  from nat_div_mod_inj [OF this f(5)] f(6) have "s = s'" by (rule nat_div_mod_inj)
  from this [unfolded s_def s'_def] f(7) have "?u = ?u'" by (rule nat_div_mod_inj)
  then have low: "t mod day = t' mod day" by simp
  from f(1-3) c c' have "day_number t = day_number t'" by (intro civil_inj) simp
  moreover have "0 \<le> t div day + epoch_day" "0 \<le> t' div day + epoch_day"
    using t t' by (simp_all add: representable_def)
  ultimately have "t div day = t' div day" unfolding day_number_def by (metis add_right_cancel int_nat_eq)
  with low show ?thesis by (metis div_mult_mod_eq)
qed

lemma isoformat_chars: "CHR ''|'' \<notin> set (isoformat t)"
proof -
  have "CHR ''|'' \<notin> set (dec_fixed k n)" for k n
    using dec_fixed_digits [of "CHR ''|''" k n] by (auto simp: is_digit_def)
  then show ?thesis by (simp add: isoformat_def iso_text_def Let_def split: prod.splits)
qed

end
