(* ===== verification/Admin.thy ===== *)
theory Admin
  imports Identity_Http Calendar
begin

text \<open>
  The administrative surface: the hash-chained audit trail (\<open>app/modules/admin/audit.py\<close>,
  \<open>sql_audit.py\<close>), TOTP codes (\<open>app/modules/identity/mfa.py\<close>) and the MFA-protected handlers
  (\<open>app/presentation/api/routes/admin.py\<close>). SHA-256, HMAC-SHA-1, base 32 and Fernet are
  parameters.
\<close>

section \<open>The audit chain\<close>

record admin_audit_record =
  ar_id :: uuid
  actor_id :: uuid
  action :: string
  subject_id :: "uuid option"
  occurred_at :: instant
  previous_hash :: string
  ar_event_hash :: string

definition genesis_hash :: string where "genesis_hash = replicate 64 (CHR ''0'')"

definition hash_material :: "uuid \<Rightarrow> string \<Rightarrow> uuid option \<Rightarrow> instant \<Rightarrow> string \<Rightarrow> string" where
  "hash_material actor act subject at' previous =
     py_join ''|'' [uuid_str actor, act, (case subject of None \<Rightarrow> [] | Some u \<Rightarrow> uuid_str u),
       isoformat at', previous]"

definition event_hash ::
  "(string \<Rightarrow> string) \<Rightarrow> uuid \<Rightarrow> string \<Rightarrow> uuid option \<Rightarrow> instant \<Rightarrow> string \<Rightarrow> string" where
  "event_hash sha256 actor act subject at' previous = sha256 (hash_material actor act subject at' previous)"

text \<open>The loop of \<open>verify_chain\<close>, with the hash the next record must name.\<close>

fun verify_from :: "(string \<Rightarrow> string) \<Rightarrow> string \<Rightarrow> admin_audit_record list \<Rightarrow> bool" where
  "verify_from sha256 previous [] = True"
| "verify_from sha256 previous (r # rs) =
     (if previous_hash r \<noteq> previous then False
      else if ar_event_hash r \<noteq>
        event_hash sha256 (actor_id r) (action r) (subject_id r) (occurred_at r) previous then False
      else verify_from sha256 (ar_event_hash r) rs)"

definition verify_chain :: "(string \<Rightarrow> string) \<Rightarrow> admin_audit_record list \<Rightarrow> bool" where
  "verify_chain sha256 rs = verify_from sha256 genesis_hash rs"

text \<open>\<open>SqlAdminAuditTrail\<close>: the rows in the order of their identity column. The advisory lock
  serialises \<open>append\<close>.\<close>

definition append_record ::
  "(string \<Rightarrow> string) \<Rightarrow> uuid \<Rightarrow> string \<Rightarrow> uuid option \<Rightarrow> uuid \<Rightarrow> instant \<Rightarrow> admin_audit_record list \<Rightarrow>
     admin_audit_record \<times> admin_audit_record list" where
  "append_record sha256 actor act subject new_id now trail =
     (let previous = (case rev trail of [] \<Rightarrow> genesis_hash | latest # _ \<Rightarrow> ar_event_hash latest);
          digest = event_hash sha256 actor act subject now previous;
          r = \<lparr>ar_id = new_id, actor_id = actor, action = act, subject_id = subject,
               occurred_at = now, previous_hash = previous, ar_event_hash = digest\<rparr>
      in (r, trail @ [r]))"

definition verify_integrity :: "(string \<Rightarrow> string) \<Rightarrow> admin_audit_record list \<Rightarrow> bool \<times> nat" where
  "verify_integrity sha256 trail = (verify_chain sha256 trail, length trail)"

definition chain_head :: "string \<Rightarrow> admin_audit_record list \<Rightarrow> string" where
  "chain_head previous trail = (case rev trail of [] \<Rightarrow> previous | latest # _ \<Rightarrow> ar_event_hash latest)"

lemma chain_head_simps [simp]:
  "chain_head p [] = p" "chain_head p (r # rs) = chain_head (ar_event_hash r) rs"
  "chain_head p (rs @ [r]) = ar_event_hash r"
  by (simp_all add: chain_head_def split: list.splits)

lemma verify_from_append:
  "verify_from sha p (xs @ ys) \<longleftrightarrow> verify_from sha p xs \<and> verify_from sha (chain_head p xs) ys"
  by (induction xs arbitrary: p) auto

section \<open>TOTP\<close>

text \<open>\<open>struct.pack(">Q", n)\<close>; \<open>None\<close> is the \<open>struct.error\<close> of a number that does not fit.\<close>

definition pack_be64 :: "int \<Rightarrow> 8 word list option" where
  "pack_be64 n =
     (if n < 0 \<or> 2 ^ 64 \<le> n then None
      else Some (map (\<lambda>i. word_of_int (n div 2 ^ (8 * (7 - i)) mod 256)) [0..<8]))"

definition unpack_be32 :: "8 word list \<Rightarrow> 32 word" where
  "unpack_be32 bs = foldl (\<lambda>acc b. acc * 256 + ucast b) 0 bs"

record totp_library =
  b32decode :: "string \<Rightarrow> 8 word list option"
  hmac_sha1 :: "8 word list \<Rightarrow> 8 word list \<Rightarrow> 8 word list"

text \<open>\<open>None\<close> is an exception of the base 32 decoder or of \<open>struct.pack\<close>.\<close>

definition totp :: "totp_library \<Rightarrow> string \<Rightarrow> int \<Rightarrow> string option" where
  "totp lib secret moment =
     (case b32decode lib (secret @ replicate ((8 - length secret mod 8) mod 8) (CHR ''='')) of
        None \<Rightarrow> None
      | Some key \<Rightarrow>
          (case pack_be64 (moment div 30) of
             None \<Rightarrow> None
           | Some counter \<Rightarrow>
               let digest = hmac_sha1 lib key counter;
                   offset = unat (and (last digest) 0x0F);
                   value = and (unpack_be32 (take 4 (drop offset digest))) 0x7FFFFFFF
               in Some (dec_fixed 6 (unat value mod 1000000))))"

text \<open>\<open>str.isdigit\<close> also holds of the superscripts, and \<open>hmac.compare_digest\<close> raises a
  \<open>TypeError\<close> on a string that is not ASCII.\<close>

definition py_isdigit :: "char \<Rightarrow> bool" where
  "py_isdigit c = (is_digit c \<or> of_char c \<in> {178, 179, 185 :: nat})"

definition compare_digest :: "string \<Rightarrow> string \<Rightarrow> bool option" where
  "compare_digest a b =
     (if list_ex (\<lambda>c. 128 \<le> (of_char c :: nat)) (a @ b) then None else Some (a = b))"

fun any_drift :: "totp_library \<Rightarrow> string \<Rightarrow> string \<Rightarrow> int \<Rightarrow> int list \<Rightarrow> bool option" where
  "any_drift lib secret code moment [] = Some False"
| "any_drift lib secret code moment (d # ds) =
     (case totp lib secret (moment + d * 30) of
        None \<Rightarrow> None
      | Some expected \<Rightarrow>
          (case compare_digest expected code of
             None \<Rightarrow> None
           | Some True \<Rightarrow> Some True
           | Some False \<Rightarrow> any_drift lib secret code moment ds))"

definition verify_totp :: "totp_library \<Rightarrow> string \<Rightarrow> string \<Rightarrow> int \<Rightarrow> bool option" where
  "verify_totp lib secret code moment =
     (if length code \<noteq> 6 \<or> \<not> list_all py_isdigit code then Some False
      else any_drift lib secret code moment [-1, 0, 1])"

lemma length_totp: "totp lib secret t = Some c \<Longrightarrow> length c = 6 \<and> list_all is_digit c"
  by (auto simp: totp_def Let_def list_all_iff dest: dec_fixed_digits split: option.splits)

lemma ascii_digits: "list_all is_digit c \<Longrightarrow> \<not> list_ex (\<lambda>c. 128 \<le> (of_char c :: nat)) c"
  by (auto simp: list_all_iff list_ex_iff is_digit_def)

lemma compare_digest_totp:
  "totp lib secret t = Some c \<Longrightarrow> list_all is_digit code \<Longrightarrow> compare_digest c code = Some (c = code)"
  using length_totp [of lib secret t c] ascii_digits [of c] ascii_digits [of code]
  by (simp add: compare_digest_def list_ex_append)

lemma any_drift_True:
  "any_drift lib secret code moment ds = Some True \<Longrightarrow>
     \<exists>d \<in> set ds. totp lib secret (moment + d * 30) = Some code"
  by (induction ds)
     (auto simp: compare_digest_def split: option.splits bool.splits if_splits)

text \<open>A code of superscript digits passes \<open>isdigit\<close> and makes the comparison raise.\<close>

lemma superscript_code_raises:
  assumes "totp lib secret (moment - 30) \<noteq> None"
  shows "verify_totp lib secret (replicate 6 (CHR 0xB2)) moment = None"
proof -
  obtain p where p: "totp lib secret (moment - 30) = Some p" using assms by auto
  have "compare_digest p (replicate 6 (CHR 0xB2)) = None"
    by (simp add: compare_digest_def list_ex_iff)
  moreover have "py_isdigit (CHR 0xB2)" by (simp add: py_isdigit_def)
  ultimately show ?thesis using p by (simp add: verify_totp_def list_all_iff)
qed

section \<open>Handlers\<close>

record admin_database =
  ad_users :: "user_row list"
  ad_trail :: "admin_audit_record list"

definition privileged_user ::
  "totp_library \<Rightarrow> http_error + user \<Rightarrow> string option \<Rightarrow> int \<Rightarrow> http_error + user" where
  "privileged_user lib found code moment =
     (case require_roles {MODERATOR, ADMIN} found of
        Inl e \<Rightarrow> Inl e
      | Inr u \<Rightarrow>
          if \<not> mfa_enabled u \<or> str_or (mfa_secret u) [] = []
          then Inl (http_exception 403 ''MFA enrollment required'')
          else
            (case code of
               None \<Rightarrow> Inl (http_exception 401 ''valid MFA code required'')
             | Some c \<Rightarrow>
                 (case verify_totp lib (the (mfa_secret u)) c moment of
                    None \<Rightarrow> Inl (http_exception 500 ''Unexpected server error.'')
                  | Some False \<Rightarrow> Inl (http_exception 401 ''valid MFA code required'')
                  | Some True \<Rightarrow> Inr u)))"

definition setup_mfa ::
  "(string \<Rightarrow> string) \<Rightarrow> (string \<Rightarrow> string) \<Rightarrow> (string \<Rightarrow> string) \<Rightarrow> http_error + user \<Rightarrow> string \<Rightarrow> uuid \<Rightarrow>
     instant \<Rightarrow> admin_database \<Rightarrow> (http_error + string) \<times> admin_database" where
  "setup_mfa enc dec sha256 found secret audit_id now db =
     (case require_roles {MODERATOR, ADMIN} found of
        Inl e \<Rightarrow> (Inl e, db)
      | Inr u \<Rightarrow>
          (Inr secret,
           db\<lparr>ad_users := snd (sql_set_mfa enc dec (user_id u) secret False (ad_users db)),
              ad_trail := snd (append_record sha256 (user_id u) ''admin.mfa_setup_started''
                 (Some (user_id u)) audit_id now (ad_trail db))\<rparr>))"

text \<open>The pattern of \<open>MfaConfirmCommand.code\<close>, checked after the dependency on the role.\<close>

definition confirm_command_ok :: "string \<Rightarrow> bool" where
  "confirm_command_ok code = (length code = 6 \<and> list_all is_digit code)"

definition confirm_mfa ::
  "(string \<Rightarrow> string) \<Rightarrow> (string \<Rightarrow> string) \<Rightarrow> (string \<Rightarrow> string) \<Rightarrow> totp_library \<Rightarrow> http_error + user \<Rightarrow>
     string \<Rightarrow> int \<Rightarrow> uuid \<Rightarrow> instant \<Rightarrow> admin_database \<Rightarrow> (http_error + unit) \<times> admin_database" where
  "confirm_mfa enc dec sha256 lib found code moment audit_id now db =
     (case require_roles {MODERATOR, ADMIN} found of
        Inl e \<Rightarrow> (Inl e, db)
      | Inr u \<Rightarrow>
          if \<not> confirm_command_ok code then (Inl (http_exception 422 ''Invalid request.''), db)
          else if str_or (mfa_secret u) [] = []
          then (Inl (http_exception 422 ''invalid MFA code''), db)
          else
            (case verify_totp lib (the (mfa_secret u)) code moment of
               None \<Rightarrow> (Inl (http_exception 500 ''Unexpected server error.''), db)
             | Some False \<Rightarrow> (Inl (http_exception 422 ''invalid MFA code''), db)
             | Some True \<Rightarrow>
                 (Inr (),
                  db\<lparr>ad_users := snd (sql_set_mfa enc dec (user_id u) (the (mfa_secret u)) True (ad_users db)),
                     ad_trail := snd (append_record sha256 (user_id u) ''admin.mfa_enabled''
                        (Some (user_id u)) audit_id now (ad_trail db))\<rparr>)))"

record admin_overview =
  ov_users :: nat
  ov_active_sessions :: nat
  ov_pending_reports :: nat
  ov_published_reports :: nat
  ov_rejected_reports :: nat

text \<open>\<open>overview\<close> over the user rows, the session rows and the status column of the reports.\<close>

definition overview ::
  "http_error + user \<Rightarrow> instant \<Rightarrow> user_row list \<Rightarrow> session list \<Rightarrow> string list \<Rightarrow>
     http_error + admin_overview" where
  "overview privileged now us ss statuses =
     (case privileged of
        Inl e \<Rightarrow> Inl e
      | Inr _ \<Rightarrow>
          Inr \<lparr>ov_users = length us,
               ov_active_sessions = length (filter (\<lambda>s. session_expires_at s > now) ss),
               ov_pending_reports = length (filter (\<lambda>x. x = ''pending'') statuses),
               ov_published_reports = length (filter (\<lambda>x. x = ''published'') statuses),
               ov_rejected_reports = length (filter (\<lambda>x. x = ''rejected'') statuses)\<rparr>)"

definition audit_integrity ::
  "(string \<Rightarrow> string) \<Rightarrow> http_error + user \<Rightarrow> admin_audit_record list \<Rightarrow> http_error + (bool \<times> nat)" where
  "audit_integrity sha256 privileged trail =
     (case privileged of Inl e \<Rightarrow> Inl e | Inr _ \<Rightarrow> Inr (verify_integrity sha256 trail))"

section \<open>The material identifies its fields\<close>

text \<open>Fields before the last \<open>|\<close> may only be the action: the others hold no bar.\<close>

lemma split_at_last_bar:
  assumes "x @ CHR ''|'' # y = x' @ CHR ''|'' # y'" and "CHR ''|'' \<notin> set y" and "CHR ''|'' \<notin> set y'"
  shows "x = x' \<and> y = y'"
proof -
  from assms(1) have "rev y @ CHR ''|'' # rev x = rev y' @ CHR ''|'' # rev x'"
    by (metis append_assoc rev.simps(2) rev_append append_Cons append_Nil)
  moreover have "takeWhile (\<lambda>c. c \<noteq> CHR ''|'') (rev z @ CHR ''|'' # w) = rev z"
    if "CHR ''|'' \<notin> set z" for z w
    using that by (subst takeWhile_append2) auto
  ultimately have "rev y = rev y'" using assms(2,3) by metis
  with assms(1) show ?thesis by simp
qed

lemma uuid_str_chars: "CHR ''|'' \<notin> set (uuid_str u)"
proof -
  have "CHR ''|'' \<noteq> digit_char d" if "d < 16" for d
  proof
    assume "CHR ''|'' = digit_char d"
    then have "(of_char (CHR ''|'') :: nat) = of_char (digit_char d)" by simp
    with that show False by (simp add: of_char_digit_char split: if_splits)
  qed
  then have "CHR ''|'' \<notin> set (hex_fixed k n)" for k n
    by (induction k arbitrary: n) auto
  then have "CHR ''|'' \<notin> set (uuid_hex u)" by (simp add: uuid_hex_def)
  moreover have "set (uuid_str u) \<subseteq> insert (CHR ''-'') (set (uuid_hex u))"
    by (auto simp: uuid_str_def Let_def dest: in_set_takeD in_set_dropD)
  ultimately show ?thesis by auto
qed

lemma hash_material_inj:
  assumes eq: "hash_material a act s t p = hash_material a' act' s' t' p'"
    and p: "CHR ''|'' \<notin> set p" "CHR ''|'' \<notin> set p'" and t: "representable t" "representable t'"
  shows "a = a' \<and> act = act' \<and> s = s' \<and> t = t' \<and> p = p'"
proof -
  let ?s = "case s of None \<Rightarrow> [] | Some u \<Rightarrow> uuid_str u"
  let ?s' = "case s' of None \<Rightarrow> [] | Some u \<Rightarrow> uuid_str u"
  have bars: "CHR ''|'' \<notin> set ?s" "CHR ''|'' \<notin> set ?s'" by (simp_all add: uuid_str_chars split: option.splits)
  have long: "uuid_str u \<noteq> []" for u using length_uuid_str [of u] by auto
  from eq have "(uuid_str a @ ''|'' @ act @ ''|'' @ ?s @ ''|'' @ isoformat t) @ CHR ''|'' # p
      = (uuid_str a' @ ''|'' @ act' @ ''|'' @ ?s' @ ''|'' @ isoformat t') @ CHR ''|'' # p'"
    by (simp add: hash_material_def)
  from split_at_last_bar [OF this p] have p: "p = p'"
    and "(uuid_str a @ ''|'' @ act @ ''|'' @ ?s) @ CHR ''|'' # isoformat t
      = (uuid_str a' @ ''|'' @ act' @ ''|'' @ ?s') @ CHR ''|'' # isoformat t'" by simp_all
  from split_at_last_bar [OF this(2) isoformat_chars isoformat_chars]
  have iso: "isoformat t = isoformat t'"
    and "(uuid_str a @ ''|'' @ act) @ CHR ''|'' # ?s = (uuid_str a' @ ''|'' @ act') @ CHR ''|'' # ?s'" by simp_all
  from split_at_last_bar [OF this(2) bars] have s: "?s = ?s'"
    and "uuid_str a @ ''|'' @ act = uuid_str a' @ ''|'' @ act'" by simp_all
  then have "uuid_str a = uuid_str a'" "act = act'" by (simp_all add: append_eq_append_conv length_uuid_str)
  moreover have "s = s'" using s long uuid_str_inj
    by (cases s; cases s') (auto dest: sym [of "[]"])
  ultimately show ?thesis using p isoformat_inj [OF t iso] uuid_str_inj by blast
qed

section \<open>Lemmas for the chain\<close>

definition material_of :: "admin_audit_record \<Rightarrow> string" where
  "material_of r = hash_material (actor_id r) (action r) (subject_id r) (occurred_at r) (previous_hash r)"

text \<open>What the hash covers: everything but the row identifier.\<close>

definition content :: "admin_audit_record \<Rightarrow> uuid \<times> string \<times> uuid option \<times> instant \<times> string \<times> string" where
  "content r = (actor_id r, action r, subject_id r, occurred_at r, previous_hash r, ar_event_hash r)"

lemma verify_chain_snoc:
  "verify_chain sha (rs @ [r]) \<longleftrightarrow> verify_chain sha rs \<and> previous_hash r = chain_head genesis_hash rs
     \<and> ar_event_hash r = sha (material_of r)"
  by (auto simp: verify_chain_def verify_from_append event_hash_def material_of_def)

lemma append_record_verifies:
  "verify_chain sha trail \<Longrightarrow> verify_chain sha (snd (append_record sha a act s i now trail))"
  by (simp add: append_record_def Let_def verify_chain_snoc chain_head_def material_of_def event_hash_def)

lemma chain_head_chars:
  assumes "\<And>m. CHR ''|'' \<notin> set (sha m)" and "verify_chain sha rs"
  shows "CHR ''|'' \<notin> set (chain_head genesis_hash rs)"
  using assms(2)
proof (cases rs rule: rev_cases)
  case (snoc ys y)
  with assms show ?thesis by (simp add: verify_chain_snoc)
qed (simp add: genesis_hash_def)

lemma same_head_same_content:
  assumes bars: "\<And>m. CHR ''|'' \<notin> set (sha m)" and "length rs = length rs'"
    and "verify_chain sha rs" and "verify_chain sha rs'"
    and "chain_head genesis_hash rs = chain_head genesis_hash rs'"
    and "\<forall>r \<in> set rs. \<forall>r' \<in> set rs'. sha (material_of r) = sha (material_of r') \<longrightarrow> material_of r = material_of r'"
    and "\<forall>r \<in> set rs \<union> set rs'. representable (occurred_at r)"
  shows "map content rs = map content rs'"
  using assms(2-)
proof (induction rs arbitrary: rs' rule: rev_induct)
  case (snoc x xs)
  then obtain ys y where rs': "rs' = ys @ [y]" by (cases rs' rule: rev_cases) auto
  from snoc.prems rs' have v: "verify_chain sha xs" "previous_hash x = chain_head genesis_hash xs"
      "ar_event_hash x = sha (material_of x)" "verify_chain sha ys" "previous_hash y = chain_head genesis_hash ys"
      "ar_event_hash y = sha (material_of y)" "ar_event_hash x = ar_event_hash y"
    by (simp_all add: verify_chain_snoc)
  from snoc.prems(5) v rs' have m: "material_of x = material_of y" by simp
  have p: "CHR ''|'' \<notin> set (previous_hash x)" "CHR ''|'' \<notin> set (previous_hash y)"
    unfolding v(2,5) using chain_head_chars [of sha xs] chain_head_chars [of sha ys] bars v(1,4)
    by blast+
  have t: "representable (occurred_at x)" "representable (occurred_at y)"
    using snoc.prems(6) rs' by simp_all
  from hash_material_inj [OF m [unfolded material_of_def] p t] v(7)
  have c: "content x = content y" and h: "previous_hash x = previous_hash y" by (simp_all add: content_def)
  have "map content xs = map content ys"
    using snoc.prems rs' v h by (intro snoc.IH) simp_all
  with c rs' show ?case by simp
qed simp

lemma current_code_opens:
  assumes "is_active u" "user_role u \<in> {MODERATOR, ADMIN}" "mfa_enabled u" "mfa_secret u = Some secret"
    "secret \<noteq> []" "totp lib secret moment = Some c" "totp lib secret (moment - 30) \<noteq> None"
  shows "privileged_user lib (Inr u) (Some c) moment = Inr u"
proof -
  obtain p where p: "totp lib secret (moment - 30) = Some p" using assms(7) by auto
  have c: "length c = 6" "list_all is_digit c" "list_all py_isdigit c"
    using length_totp [OF assms(6)] by (auto simp: list_all_iff py_isdigit_def)
  have "verify_totp lib secret c moment = Some True"
    using assms(6) p c compare_digest_totp [OF p c(2)] compare_digest_totp [OF assms(6) c(2)]
    by (simp add: verify_totp_def split: bool.splits)
  moreover have "str_or (Some secret) [] = secret" using assms(5) by (cases secret) simp_all
  ultimately show ?thesis using assms(1-5) by (simp add: privileged_user_def require_roles_def authorize_def)
qed

section \<open>Properties\<close>

text \<open>
  C11: The audit chain stays intact: appending a record, and the two handlers that change the
  second factor, keep a valid chain valid, only ever extend it, and \<open>verify_integrity\<close> reports
  the extended trail as valid.
\<close>
theorem audit_trail_stays_intact:
  assumes "verify_chain sha (ad_trail db)"
  shows "verify_integrity sha (snd (append_record sha a act s i now (ad_trail db)))
      = (True, Suc (length (ad_trail db)))
    \<and> (\<exists>new. ad_trail (snd (setup_mfa enc dec sha found secret i now db)) = ad_trail db @ new
          \<and> verify_chain sha (ad_trail db @ new))
    \<and> (\<exists>new. ad_trail (snd (confirm_mfa enc dec sha lib found code m i now db)) = ad_trail db @ new
          \<and> verify_chain sha (ad_trail db @ new))"
proof (intro conjI)
  have ext: "snd (append_record sha a act s i now t) = t @ [fst (append_record sha a act s i now t)]"
    for a act s i now t by (simp add: append_record_def Let_def)
  show "verify_integrity sha (snd (append_record sha a act s i now (ad_trail db)))
      = (True, Suc (length (ad_trail db)))"
    using append_record_verifies [OF assms] by (simp add: verify_integrity_def) (simp add: ext)
  have one: "\<exists>new. snd (append_record sha a act s i now (ad_trail db)) = ad_trail db @ new
      \<and> verify_chain sha (ad_trail db @ new)" for a act s i now
    using append_record_verifies [OF assms, of a act s i now] by (metis ext)
  have none: "\<exists>new. ad_trail db = ad_trail db @ new \<and> verify_chain sha (ad_trail db @ new)"
    using assms by (intro exI [of _ "[]"]) simp
  show "\<exists>new. ad_trail (snd (setup_mfa enc dec sha found secret i now db)) = ad_trail db @ new
      \<and> verify_chain sha (ad_trail db @ new)"
    using one none by (simp add: setup_mfa_def split: sum.splits)
  show "\<exists>new. ad_trail (snd (confirm_mfa enc dec sha lib found code m i now db)) = ad_trail db @ new
      \<and> verify_chain sha (ad_trail db @ new)"
    using one none by (simp add: confirm_mfa_def split: sum.splits option.splits bool.splits)
qed

theorem audit_trail_stays_intact_witness:
  "verify_integrity (\<lambda>_. ''h'') (snd (append_record (\<lambda>_. ''h'') 1 ''a'' None 2 3 [])) = (True, 1)"
  using audit_trail_stays_intact [where db = "\<lparr>ad_users = [], ad_trail = []\<rparr>" and sha = "\<lambda>_. ''h''"]
  by (simp add: verify_chain_def)

text \<open>
  C12: The chain is tamper evident. Two valid trails of the same length with the same last hash
  hold the same records, field by field, row identifiers excepted, as long as SHA-256 does not
  collide on their materials: changing, removing or reordering an earlier record shows in the head.
\<close>
theorem audit_chain_is_tamper_evident:
  assumes "\<And>m. CHR ''|'' \<notin> set (sha m)" and "length rs = length rs'"
    and "verify_chain sha rs" and "verify_chain sha rs'"
    and "chain_head genesis_hash rs = chain_head genesis_hash rs'"
    and "\<forall>r \<in> set rs. \<forall>r' \<in> set rs'. sha (material_of r) = sha (material_of r') \<longrightarrow> material_of r = material_of r'"
    and "\<forall>r \<in> set rs \<union> set rs'. representable (occurred_at r)"
  shows "map content rs = map content rs'"
  using assms by (rule same_head_same_content)

definition first_record :: "uuid \<Rightarrow> admin_audit_record" where
  "first_record i = \<lparr>ar_id = i, actor_id = 1, action = ''a'', subject_id = None,
     occurred_at = - epoch_day * day, previous_hash = genesis_hash, ar_event_hash = ''h''\<rparr>"

theorem audit_chain_is_tamper_evident_witness:
  "map content [first_record 5] = map content [first_record 6] \<and> first_record 5 \<noteq> first_record 6"
proof
  show "map content [first_record 5] = map content [first_record 6]"
  proof (rule audit_chain_is_tamper_evident [where sha = "\<lambda>_. ''h''"])
    show "\<forall>r \<in> set [first_record 5] \<union> set [first_record 6]. representable (occurred_at r)"
      by (simp add: first_record_def representable_def day_number_def epoch_day_def civil_def
          year_of.simps [of "Suc 0" 0] year_length_def month_lengths_def)
  qed (simp_all add: verify_chain_def event_hash_def first_record_def material_of_def)
qed (simp add: first_record_def)

text \<open>
  C13: A privileged handler runs only for an active moderator or administrator who is enrolled and
  presents a six-digit code that the stored secret produces in the current time step or one of its
  two neighbours; a code made in the current step is accepted.
\<close>
theorem privileged_access_needs_the_second_factor:
  "(privileged_user lib found code moment = Inr u \<longrightarrow>
     found = Inr u \<and> is_active u \<and> user_role u \<in> {MODERATOR, ADMIN} \<and> mfa_enabled u
     \<and> (\<exists>secret c. mfa_secret u = Some secret \<and> code = Some c \<and> length c = 6 \<and> list_all is_digit c
          \<and> (\<exists>d \<in> {-1, 0, 1}. totp lib secret (moment + d * 30) = Some c)))
   \<and> (is_active u \<and> user_role u \<in> {MODERATOR, ADMIN} \<and> mfa_enabled u \<and> mfa_secret u = Some secret
      \<and> secret \<noteq> [] \<and> totp lib secret moment = Some c \<and> totp lib secret (moment - 30) \<noteq> None \<longrightarrow>
      privileged_user lib (Inr u) (Some c) moment = Inr u)"
  (is "?only \<and> ?if")
proof
  show ?only
  proof
    assume "privileged_user lib found code moment = Inr u"
    then obtain c where u: "found = Inr u" "is_active u" "user_role u \<in> {MODERATOR, ADMIN}" "mfa_enabled u"
        "str_or (mfa_secret u) [] \<noteq> []" "code = Some c"
        "verify_totp lib (the (mfa_secret u)) c moment = Some True"
      by (auto simp: privileged_user_def require_roles_def authorize_def simp del: str_or.simps
          split: sum.splits option.splits bool.splits if_splits)
    from u(7) have "any_drift lib (the (mfa_secret u)) c moment [-1, 0, 1] = Some True"
      by (simp add: verify_totp_def del: any_drift.simps split: if_splits)
    from any_drift_True [OF this] obtain d
      where d: "d \<in> {-1, 0, 1}" "totp lib (the (mfa_secret u)) (moment + d * 30) = Some c"
      by (metis list.set(1) list.simps(15))
    from u(5) have "mfa_secret u = Some (the (mfa_secret u))" by (cases "mfa_secret u") simp_all
    with u(1-4,6) d length_totp [OF d(2)]
    show "found = Inr u \<and> is_active u \<and> user_role u \<in> {MODERATOR, ADMIN} \<and> mfa_enabled u
     \<and> (\<exists>secret c. mfa_secret u = Some secret \<and> code = Some c \<and> length c = 6 \<and> list_all is_digit c
          \<and> (\<exists>d \<in> {-1, 0, 1}. totp lib secret (moment + d * 30) = Some c))" by blast
  qed
  show ?if using current_code_opens by blast
qed

definition sample_totp :: totp_library where
  "sample_totp = \<lparr>b32decode = (\<lambda>s. Some []), hmac_sha1 = (\<lambda>k m. replicate 20 0)\<rparr>"

definition sample_admin :: user where
  "sample_admin = \<lparr>user_id = 7, email = ''a@b'', password_hash = [], user_role = ADMIN, is_active = True,
     is_verified = True, user_created_at = 0, mfa_secret = Some ''S'', mfa_enabled = True\<rparr>"

lemma zeros: "dec_fixed 6 0 = ''000000''"
  by code_simp

lemma sample_code:
  assumes "0 \<le> t" and "t < 1000"
  shows "totp sample_totp secret t = Some ''000000''"
proof -
  have "0 \<le> t div 30" using assms(1) by simp
  moreover have "t div 30 \<le> 1000 div 30" using assms(2) by (intro zdiv_mono1) simp_all
  ultimately have "pack_be64 (t div 30) \<noteq> None" by (simp add: pack_be64_def)
  then obtain k where "pack_be64 (t div 30) = Some k" by blast
  moreover have "unpack_be32 (take 4 (drop 0 (replicate 20 0))) = 0"
    by (simp add: unpack_be32_def numeral_eq_Suc)
  moreover have "last (replicate 20 (0 :: 8 word)) = 0" by simp
  ultimately show ?thesis by (simp add: totp_def sample_totp_def Let_def zeros)
qed

theorem privileged_access_needs_the_second_factor_witness:
  "privileged_user sample_totp (Inr sample_admin) (Some ''000000'') 60 = Inr sample_admin
    \<and> (\<exists>d \<in> {-1, 0, 1}. totp sample_totp ''S'' (60 + d * 30) = Some ''000000'')"
proof -
  note T = privileged_access_needs_the_second_factor [of sample_totp "Inr sample_admin" "Some ''000000''" 60
      sample_admin "''S''" "''000000''"]
  have "totp sample_totp ''S'' 60 = Some ''000000''" "totp sample_totp ''S'' (60 - 30) \<noteq> None"
    using sample_code [of 60] sample_code [of 30] by simp_all
  with T [THEN conjunct2] have "privileged_user sample_totp (Inr sample_admin) (Some ''000000'') 60 = Inr sample_admin"
    by (simp add: sample_admin_def)
  moreover from this T [THEN conjunct1] have "\<exists>d \<in> {-1, 0, 1}. totp sample_totp ''S'' (60 + d * 30) = Some ''000000''"
    unfolding sample_admin_def by auto
  ultimately show ?thesis by blast
qed

text \<open>
  The second factor of an enrolled administrator can be replaced with the first factor alone.
  Setting MFA up again asks for no code and overwrites the stored secret, confirming asks for a
  code of the new secret only, and the new code then opens the privileged handlers.
\<close>
lemma enrolled_factor_is_replaced_without_a_code:
  assumes "user_rows_ok (ad_users db)"
    and "sql_get_by_id dec (user_id u) (ad_users db) = Some u"
    and "is_active u" and "user_role u \<in> {MODERATOR, ADMIN}"
    and "sealed enc dec secret = Some secret" and "secret \<noteq> []"
    and "totp lib secret moment = Some c" and "totp lib secret (moment - 30) \<noteq> None"
    and "setup_mfa enc dec sha (Inr u) secret i t db = (r1, db1)"
    and "confirm_mfa enc dec sha lib (Inr (the (sql_get_by_id dec (user_id u) (ad_users db1)))) c moment j t' db1
      = (r2, db2)"
    and "sql_get_by_id dec (user_id u) (ad_users db2) = Some u2"
  shows "r1 = Inr secret \<and> r2 = Inr () \<and> privileged_user lib (Inr u2) (Some c) moment = Inr u2
    \<and> u2 = u\<lparr>mfa_secret := Some secret, mfa_enabled := True\<rparr>"
proof -
  let ?u1 = "u\<lparr>mfa_secret := Some secret, mfa_enabled := False\<rparr>"
  let ?u2 = "u\<lparr>mfa_secret := Some secret, mfa_enabled := True\<rparr>"
  have set: "user_rows_ok (snd (sql_set_mfa enc dec (user_id u) secret b rows)) \<and>
      sql_get_by_id dec (user_id u) (snd (sql_set_mfa enc dec (user_id u) secret b rows))
        = Some (v\<lparr>mfa_secret := Some secret, mfa_enabled := b\<rparr>)"
    if "user_rows_ok rows" "sql_get_by_id dec (user_id u) rows = Some v" for rows v b
    using sql_user_store.mfa_law [OF that(1), of enc dec "user_id u" secret b] that(2) assms(5)
    by (auto simp: sql_user_repository_def fun_eq_iff)
  from assms(3,4,9) have r1: "r1 = Inr secret"
      "ad_users db1 = snd (sql_set_mfa enc dec (user_id u) secret False (ad_users db))"
    by (auto simp: setup_mfa_def require_roles_def authorize_def)
  from set [OF assms(1,2)] have u1: "user_rows_ok (ad_users db1)"
      "sql_get_by_id dec (user_id u) (ad_users db1) = Some ?u1" unfolding r1(2) by auto
  have gate: "privileged_user lib (Inr ?u2) (Some c) moment = Inr ?u2"
    using current_code_opens [of ?u2 secret lib moment c] assms(3,4,6,7,8) by simp
  then have ok: "verify_totp lib secret c moment = Some True"
    using assms(6) by (auto simp: privileged_user_def require_roles_def authorize_def
        split: option.splits bool.splits if_splits)
  have nonempty: "str_or (Some secret) [] = secret" using assms(6) by (cases secret) simp_all
  have six: "confirm_command_ok c" using length_totp [OF assms(7)] by (simp add: confirm_command_ok_def)
  from assms(3,4,10) u1 ok nonempty assms(6) six
  have r2: "r2 = Inr ()" "ad_users db2 = snd (sql_set_mfa enc dec (user_id u) secret True (ad_users db1))"
    by (auto simp: confirm_mfa_def require_roles_def authorize_def)
  from set [OF u1] have "u2 = ?u2" using assms(11) unfolding r2(2) by auto
  with r1 r2 gate show ?thesis by simp
qed

definition admin_row :: "string \<Rightarrow> bool \<Rightarrow> user_row" where
  "admin_row m b = \<lparr>row_id = 7, row_email = ''a@b'', row_password_hash = [], row_role = ''admin'',
     row_is_active = True, row_is_verified = True, row_created_at = 0, row_mfa_secret = Some m,
     row_mfa_enabled = b\<rparr>"

lemma enrolled_factor_is_replaced_without_a_code_witness:
  "privileged_user sample_totp (Inr (sample_admin\<lparr>mfa_secret := Some ''T''\<rparr>)) (Some ''000000'') 60
     = Inr (sample_admin\<lparr>mfa_secret := Some ''T''\<rparr>)"
proof -
  let ?db = "\<lparr>ad_users = [admin_row ''S'' True], ad_trail = []\<rparr>"
  let ?began = "setup_mfa id id id (Inr sample_admin) ''T'' 1 0 ?db"
  have user: "of_user_row id (admin_row m b) = sample_admin\<lparr>mfa_secret := Some m, mfa_enabled := b\<rparr>"
    if "m \<noteq> []" for m b
    using that by (simp add: of_user_row_def admin_row_def sample_admin_def role_of_def)
  have S: "of_user_row id (admin_row ''S'' True) = sample_admin"
    by (subst user) (simp_all add: sample_admin_def)
  have get: "sql_get_by_id id 7 [admin_row m b] = Some (of_user_row id (admin_row m b))" for m b
    by (simp add: sql_get_by_id_def admin_row_def)
  have set: "snd (sql_set_mfa id id 7 m b [admin_row m' b']) = [admin_row m b]" for m b m' b'
    by (simp add: sql_set_mfa_def update_returning_def admin_row_def Let_def)
  have adm: "user_id sample_admin = 7" "is_active sample_admin" "user_role sample_admin = ADMIN"
    by (simp_all add: sample_admin_def)
  have db1: "ad_users (snd ?began) = [admin_row ''T'' False]"
    by (simp add: setup_mfa_def require_roles_def authorize_def adm set)
  have code: "totp sample_totp ''T'' 60 = Some ''000000''" "totp sample_totp ''T'' (60 - 30) = Some ''000000''"
    using sample_code [of 60] sample_code [of 30] by simp_all
  let ?u1 = "sample_admin\<lparr>mfa_secret := Some ''T'', mfa_enabled := False\<rparr>"
  let ?confirm = "confirm_mfa id id id sample_totp (Inr ?u1) ''000000'' 60 2 0 (snd ?began)"
  have "verify_totp sample_totp ''T'' ''000000'' 60 = Some True"
    using code by (simp add: verify_totp_def compare_digest_def py_isdigit_def is_digit_def)
  then have db2: "ad_users (snd ?confirm) = [admin_row ''T'' True]"
    by (simp add: confirm_mfa_def confirm_command_ok_def is_digit_def require_roles_def authorize_def adm db1 set)
  have call: "confirm_mfa id id id sample_totp
      (Inr (the (sql_get_by_id id (user_id sample_admin) (ad_users (snd ?began))))) ''000000'' 60 2 0 (snd ?began)
    = (fst ?confirm, snd ?confirm)"
    by (simp add: db1 get user adm)
  have after: "sql_get_by_id id (user_id sample_admin) (ad_users (snd ?confirm))
      = Some (sample_admin\<lparr>mfa_secret := Some ''T''\<rparr>)"
    unfolding db2 adm get by (subst user) (simp_all add: sample_admin_def)
  have p: "user_rows_ok (ad_users ?db)" "sql_get_by_id id (user_id sample_admin) (ad_users ?db) = Some sample_admin"
      "is_active sample_admin" "user_role sample_admin \<in> {MODERATOR, ADMIN}" "sealed id id ''T'' = Some ''T''"
      "''T'' \<noteq> []" "totp sample_totp ''T'' (60 - 30) \<noteq> None"
    using code(2) by (simp_all add: user_rows_ok_def get S adm sealed_def)
  from enrolled_factor_is_replaced_without_a_code
    [OF p(1-6) code(1) p(7) surjective_pairing [of ?began] call after]
  show ?thesis by blast
qed

end
