(* ===== verification/Community.thy ===== *)
theory Community
  imports Prelude
begin

text \<open>
  Community reports (\<open>app/modules/community\<close>): the domain and its repository port, the service
  (\<open>service.py\<close>), the lifecycle of photo evidence (\<open>media.py\<close>) and the guards of its private
  object store (\<open>s3_media.py\<close>). SHA-256 is a parameter, and so is whether a call to the object
  store succeeds and whether one that fails took effect all the same; the objects it holds are part
  of the state.
\<close>

section \<open>Domain\<close>

datatype report_category = TOWING | RESTRICTION | PRICE | SIGN
datatype report_status = PENDING | PUBLISHED | REJECTED
datatype appeal_status = APPEAL_OPEN | UPHELD | OVERTURNED

fun category_value :: "report_category \<Rightarrow> string" where
  "category_value TOWING = ''towing''"
| "category_value RESTRICTION = ''restriction''"
| "category_value PRICE = ''price''"
| "category_value SIGN = ''sign''"

record community_report =
  cr_id :: uuid
  reporter_id :: uuid
  category :: report_category
  cr_latitude :: pyfloat
  cr_longitude :: pyfloat
  description :: string
  report_status :: report_status
  validation_score :: rat
  fingerprint :: string
  photo_sha256 :: "string option"
  cr_created_at :: instant
  cr_expires_at :: instant
  moderation_reason :: "string option"
  photo_object_key :: "string option"
  photo_content_type :: "string option"
  photo_size_bytes :: "nat option"
  photo_retained_until :: "instant option"
  photo_deleted_at :: "instant option"

definition photo_available :: "community_report \<Rightarrow> bool" where
  "photo_available r = (photo_object_key r \<noteq> None \<and> photo_deleted_at r = None)"

record report_appeal =
  ap_id :: uuid
  ap_report_id :: uuid
  appellant_id :: uuid
  ap_reason :: string
  ap_status :: appeal_status
  ap_created_at :: instant
  resolved_at :: "instant option"
  resolution_reason :: "string option"

record reporter_reputation =
  rr_user_id :: uuid
  rr_score :: rat
  approved_reports :: int
  rejected_reports :: int

text \<open>The port. An operation that writes answers \<open>None\<close> when it raises; one that reads raises before
  its caller has changed anything, which is a case of the requests.\<close>

record 'r report_repository =
  add_report :: "community_report \<Rightarrow> 'r \<Rightarrow> 'r option"
  find_recent_duplicate :: "string \<Rightarrow> instant \<Rightarrow> 'r \<Rightarrow> community_report option"
  pending :: "nat \<Rightarrow> 'r \<Rightarrow> community_report list"
  get_report :: "uuid \<Rightarrow> 'r \<Rightarrow> community_report option"
  set_status :: "uuid \<Rightarrow> report_status \<Rightarrow> string \<Rightarrow> 'r \<Rightarrow> (community_report option \<times> 'r) option"
  adjust_reputation :: "uuid \<Rightarrow> bool \<Rightarrow> 'r \<Rightarrow> 'r option"
  reputation :: "uuid \<Rightarrow> 'r \<Rightarrow> reporter_reputation"
  add_appeal :: "report_appeal \<Rightarrow> 'r \<Rightarrow> 'r option"
  open_appeal :: "uuid \<Rightarrow> 'r \<Rightarrow> report_appeal option"
  resolve_stored_appeal ::
    "uuid \<Rightarrow> appeal_status \<Rightarrow> string \<Rightarrow> instant \<Rightarrow> 'r \<Rightarrow> (report_appeal option \<times> 'r) option"
  expired_media :: "instant \<Rightarrow> nat \<Rightarrow> 'r \<Rightarrow> community_report list"
  mark_photo_deleted :: "uuid \<Rightarrow> instant \<Rightarrow> 'r \<Rightarrow> (community_report option \<times> 'r) option"

section \<open>The private object store\<close>

record media_object =
  mo_payload :: "8 word list"
  mo_content_type :: string
  mo_checksum :: string
  mo_retained_until :: instant

text \<open>The object-store client: whether it confirms that it stored or deleted a key, whether a call
  that it does not confirm (a timeout, say) took effect all the same, and the URL it signs (\<open>None\<close> is an
  exception).\<close>

record s3_client =
  accepts_put :: "string \<Rightarrow> bool"
  put_lands :: "string \<Rightarrow> bool"
  accepts_delete :: "string \<Rightarrow> bool"
  delete_lands :: "string \<Rightarrow> bool"
  presign :: "string \<Rightarrow> int \<Rightarrow> string option"

datatype community_error = InvalidReportError string | DuplicateReportError string
  | MediaStorageError string | MediaUnavailableError string | MediaValueError string
  | RepositoryFailure

definition key_ok :: "string \<Rightarrow> bool" where
  "key_ok key = (\<not> (\<not> starts_with ''community-reports/'' key \<or> str_in ''..'' key))"

type_synonym objects = "string \<Rightarrow> media_object option"

definition s3_put :: "s3_client \<Rightarrow> string \<Rightarrow> media_object \<Rightarrow> objects \<Rightarrow> (community_error + unit) \<times> objects" where
  "s3_put client key obj objs =
     (if \<not> key_ok key then (Inl (MediaValueError ''invalid community media object key''), objs)
      else if accepts_put client key then (Inr (), objs(key \<mapsto> obj))
      else (Inl (MediaStorageError ''community media storage failed''),
            if put_lands client key then objs(key \<mapsto> obj) else objs))"

definition s3_delete :: "s3_client \<Rightarrow> string \<Rightarrow> objects \<Rightarrow> (community_error + unit) \<times> objects" where
  "s3_delete client key objs =
     (if \<not> key_ok key then (Inl (MediaValueError ''invalid community media object key''), objs)
      else if accepts_delete client key then (Inr (), objs(key := None))
      else (Inl (MediaStorageError ''community media deletion failed''),
            if delete_lands client key then objs(key := None) else objs))"

text \<open>\<open>urlparse(url).scheme\<close> is the lower-cased text before the first colon.\<close>

definition s3_create_read_url :: "s3_client \<Rightarrow> string \<Rightarrow> int \<Rightarrow> community_error + string" where
  "s3_create_read_url client key seconds =
     (if \<not> key_ok key then Inl (MediaValueError ''invalid community media object key'')
      else case presign client key seconds of
        None \<Rightarrow> Inl (MediaStorageError ''community media access failed'')
      | Some url \<Rightarrow>
          if casefold (takeWhile (\<lambda>c. c \<noteq> CHR '':'') url) \<noteq> ''https'' \<or> CHR '':'' \<notin> set url
          then Inl (MediaStorageError ''community media access URL is not HTTPS'')
          else Inr url)"

section \<open>CommunityMediaLifecycle\<close>

record ('r) community_state =
  cs_repo :: 'r
  cs_objects :: objects

record ('r) media_lifecycle =
  ml_repository :: "'r report_repository"
  ml_store :: s3_client
  retention :: int

record stored_media =
  sm_object_key :: string
  sm_content_type :: string
  sm_size_bytes :: nat
  sm_retained_until :: instant

record purge_result =
  scanned :: nat
  deleted :: nat
  failed :: nat

record access_grant =
  grant_url :: string
  grant_expires_at :: instant

definition allowed_media_types :: "string set" where
  "allowed_media_types = {''image/jpeg'', ''image/png'', ''image/webp''}"

definition max_media_bytes :: nat where "max_media_bytes = 10 * 1024 * 1024"

definition media_lifecycle_init ::
  "'r report_repository \<Rightarrow> s3_client \<Rightarrow> int \<Rightarrow> string + 'r media_lifecycle" where
  "media_lifecycle_init repo store days =
     (if \<not> (1 \<le> days \<and> days \<le> 30) then Inl ''media retention must be between 1 and 30 days''
      else Inr \<lparr>ml_repository = repo, ml_store = store, retention = days * day\<rparr>)"

definition object_key :: "uuid \<Rightarrow> string \<Rightarrow> string" where
  "object_key report_id checksum = ''community-reports/'' @ uuid_str report_id @ ''/'' @ checksum"

definition store_media ::
  "(8 word list \<Rightarrow> string) \<Rightarrow> 'r media_lifecycle \<Rightarrow> uuid \<Rightarrow> 8 word list \<Rightarrow> string \<Rightarrow> string \<Rightarrow> instant \<Rightarrow>
     objects \<Rightarrow> (community_error + stored_media) \<times> objects" where
  "store_media sha256 ml report_id payload ctype checksum now objs =
     (if ctype \<notin> allowed_media_types then (Inl (MediaValueError ''unsupported community media type''), objs)
      else if payload = [] \<or> length payload > max_media_bytes
      then (Inl (MediaValueError ''community media must contain at most 10 MB''), objs)
      else if sha256 payload \<noteq> checksum
      then (Inl (MediaValueError ''community media checksum mismatch''), objs)
      else
        let until = now + retention ml; key = object_key report_id checksum
        in case s3_put (ml_store ml) key \<lparr>mo_payload = payload, mo_content_type = ctype,
                  mo_checksum = checksum, mo_retained_until = until\<rparr> objs of
             (Inl e, objs') \<Rightarrow> (Inl e, objs')
           | (Inr _, objs') \<Rightarrow>
               (Inr \<lparr>sm_object_key = key, sm_content_type = ctype, sm_size_bytes = length payload,
                     sm_retained_until = until\<rparr>, objs'))"

definition delete_report_photo ::
  "'r media_lifecycle \<Rightarrow> community_report \<Rightarrow> instant \<Rightarrow> 'r community_state \<Rightarrow>
     (community_error + community_report) \<times> 'r community_state" where
  "delete_report_photo ml r deleted_at s =
     (if \<not> photo_available r then (Inr r, s)
      else case s3_delete (ml_store ml) (the (photo_object_key r)) (cs_objects s) of
        (Inl e, objs) \<Rightarrow> (Inl e, s\<lparr>cs_objects := objs\<rparr>)
      | (Inr _, objs) \<Rightarrow>
          (case mark_photo_deleted (ml_repository ml) (cr_id r) deleted_at (cs_repo s) of
             None \<Rightarrow> (Inl RepositoryFailure, s\<lparr>cs_objects := objs\<rparr>)
           | Some (None, rs) \<Rightarrow>
               (Inl (MediaStorageError ''report disappeared while deleting photo evidence''),
                s\<lparr>cs_repo := rs, cs_objects := objs\<rparr>)
           | Some (Some u, rs) \<Rightarrow> (Inr u, s\<lparr>cs_repo := rs, cs_objects := objs\<rparr>)))"

definition create_access_grant ::
  "'r media_lifecycle \<Rightarrow> uuid \<Rightarrow> instant \<Rightarrow> int \<Rightarrow> 'r community_state \<Rightarrow> community_error + access_grant" where
  "create_access_grant ml report_id now seconds s =
     (if \<not> (30 \<le> seconds \<and> seconds \<le> 300)
      then Inl (MediaValueError ''media access lifetime must be between 30 and 300 seconds'')
      else
        let unavailable = Inl (MediaUnavailableError ''community photo evidence is unavailable'')
        in case get_report (ml_repository ml) report_id (cs_repo s) of
             None \<Rightarrow> unavailable
           | Some r \<Rightarrow>
               (case (photo_available r, photo_object_key r, photo_retained_until r) of
                  (True, Some key, Some until) \<Rightarrow>
                    if until \<le> now then unavailable
                    else (case s3_create_read_url (ml_store ml) key seconds of
                            Inl e \<Rightarrow> Inl e
                          | Inr url \<Rightarrow> Inr \<lparr>grant_url = url, grant_expires_at = now + seconds * second\<rparr>)
                | _ \<Rightarrow> unavailable))"

text \<open>The loop of \<open>purge_expired\<close>. A key that is refused is a \<open>ValueError\<close>, which it does not
  catch, and neither does it catch a failure of the database.\<close>

fun purge_reports ::
  "'r media_lifecycle \<Rightarrow> instant \<Rightarrow> community_report list \<Rightarrow> nat \<times> nat \<Rightarrow> 'r community_state \<Rightarrow>
     (community_error + nat \<times> nat) \<times> 'r community_state" where
  "purge_reports ml cutoff [] counts s = (Inr counts, s)"
| "purge_reports ml cutoff (r # rs) (d, f) s =
     (case delete_report_photo ml r cutoff s of
        (Inr _, s') \<Rightarrow> purge_reports ml cutoff rs (d + 1, f) s'
      | (Inl (MediaStorageError _), s') \<Rightarrow> purge_reports ml cutoff rs (d, f + 1) s'
      | (Inl e, s') \<Rightarrow> (Inl e, s'))"

definition purge_expired ::
  "'r media_lifecycle \<Rightarrow> instant \<Rightarrow> int \<Rightarrow> 'r community_state \<Rightarrow>
     (community_error + purge_result) \<times> 'r community_state" where
  "purge_expired ml now limit s =
     (if \<not> (1 \<le> limit \<and> limit \<le> 500)
      then (Inl (MediaValueError ''media purge limit must be between 1 and 500''), s)
      else
        let reports = expired_media (ml_repository ml) now (nat limit) (cs_repo s)
        in case purge_reports ml now reports (0, 0) s of
             (Inl e, s') \<Rightarrow> (Inl e, s')
           | (Inr (d, f), s') \<Rightarrow> (Inr \<lparr>scanned = length reports, deleted = d, failed = f\<rparr>, s'))"

section \<open>CommunityReportService\<close>

definition has_photo :: "8 word list option \<Rightarrow> bool" where
  "has_photo photo = (case photo of None \<Rightarrow> False | Some p \<Rightarrow> p \<noteq> [])"

text \<open>The literals are the binary fractions nearest to them in Python; their sums compare with
  0.85 and 0.95 as the rationals written here do.\<close>

definition validation_score_of :: "string \<Rightarrow> 8 word list option \<Rightarrow> rat" where
  "validation_score_of desc photo =
     (let score = 45 / 100 + (if length desc \<ge> 40 then 20 / 100 else 0)
            + (if has_photo photo then 25 / 100 else 0)
      in min score (95 / 100))"

text \<open>\<open>re.sub("[^a-z0-9 ]", "", ...)\<close>.\<close>

definition fingerprint_char :: "char \<Rightarrow> bool" where
  "fingerprint_char c = (is_digit c \<or> of_char c \<in> {97 .. 122 :: nat} \<or> c = CHR '' '')"

definition fingerprint_material :: "report_category \<Rightarrow> pyfloat \<Rightarrow> pyfloat \<Rightarrow> string \<Rightarrow> string" where
  "fingerprint_material cat lat lon cleaned =
     category_value cat @ '':'' @ fmt_fixed 4 (finite_value lat) @ '':'' @ fmt_fixed 4 (finite_value lon)
       @ '':'' @ filter fingerprint_char (casefold cleaned)"

definition cleaned_description :: "string \<Rightarrow> string" where
  "cleaned_description desc = py_join '' '' (split_ws desc)"

text \<open>\<open>submit\<close>: the photo is stored when there is one and a lifecycle is configured (a
  \<open>ValueError\<close> of the lifecycle becomes an invalid report), the report is built and added, and
  a photo whose report could not be added is discarded.\<close>

definition attach_photo ::
  "(8 word list \<Rightarrow> string) \<Rightarrow> 'r media_lifecycle option \<Rightarrow> uuid \<Rightarrow> 8 word list option \<Rightarrow> string option \<Rightarrow>
     instant \<Rightarrow> objects \<Rightarrow> (community_error + stored_media option) \<times> objects" where
  "attach_photo sha_bytes ml report_id photo ctype now objs =
     (case (ml, photo) of
        (Some l, Some payload) \<Rightarrow>
          if payload = [] then (Inr None, objs)
          else (case ctype of
             None \<Rightarrow> (Inl (InvalidReportError ''photo content type is required''), objs)
           | Some ct \<Rightarrow>
               (case store_media sha_bytes l report_id payload ct (sha_bytes payload) now objs of
                  (Inl (MediaValueError m), objs') \<Rightarrow> (Inl (InvalidReportError m), objs')
                | (Inl e, objs') \<Rightarrow> (Inl e, objs')
                | (Inr m, objs') \<Rightarrow> (Inr (Some m), objs')))
      | _ \<Rightarrow> (Inr None, objs))"

definition new_report ::
  "(8 word list \<Rightarrow> string) \<Rightarrow> uuid \<Rightarrow> uuid \<Rightarrow> report_category \<Rightarrow> pyfloat \<Rightarrow> pyfloat \<Rightarrow> string \<Rightarrow>
     8 word list option \<Rightarrow> string \<Rightarrow> instant \<Rightarrow> stored_media option \<Rightarrow> community_report" where
  "new_report sha_bytes report_id reporter cat lat lon cleaned photo fp now stored =
     \<lparr>cr_id = report_id, reporter_id = reporter, category = cat, cr_latitude = lat,
      cr_longitude = lon, description = cleaned,
      report_status = (if validation_score_of cleaned photo \<ge> 85 / 100 then PUBLISHED else PENDING),
      validation_score = validation_score_of cleaned photo, fingerprint = fp,
      photo_sha256 = (if has_photo photo then Some (sha_bytes (the photo)) else None),
      cr_created_at = now, cr_expires_at = now + 30 * day, moderation_reason = None,
      photo_object_key = map_option sm_object_key stored,
      photo_content_type = map_option sm_content_type stored,
      photo_size_bytes = map_option sm_size_bytes stored,
      photo_retained_until = map_option sm_retained_until stored,
      photo_deleted_at = None\<rparr>"

definition add_or_discard ::
  "'r report_repository \<Rightarrow> 'r media_lifecycle option \<Rightarrow> stored_media option \<Rightarrow> community_report \<Rightarrow>
     'r community_state \<Rightarrow> (community_error + community_report) \<times> 'r community_state" where
  "add_or_discard repo ml stored r s =
     (case add_report repo r (cs_repo s) of
        Some rs \<Rightarrow> (Inr r, s\<lparr>cs_repo := rs\<rparr>)
      | None \<Rightarrow>
          (case (stored, ml) of
             (Some m, Some l) \<Rightarrow>
               (case s3_delete (ml_store l) (sm_object_key m) (cs_objects s) of
                  (Inl (MediaStorageError _), objs) \<Rightarrow>
                    (Inl (MediaStorageError ''media cleanup failed after report persistence failure''),
                     s\<lparr>cs_objects := objs\<rparr>)
                | (Inl e, objs) \<Rightarrow> (Inl e, s\<lparr>cs_objects := objs\<rparr>)
                | (Inr _, objs) \<Rightarrow> (Inl RepositoryFailure, s\<lparr>cs_objects := objs\<rparr>))
           | _ \<Rightarrow> (Inl RepositoryFailure, s)))"

text \<open>\<open>sha_text\<close> hashes the fingerprint material, \<open>sha_bytes\<close> the photo.\<close>

definition submit ::
  "(string \<Rightarrow> string) \<Rightarrow> (8 word list \<Rightarrow> string) \<Rightarrow> 'r report_repository \<Rightarrow> 'r media_lifecycle option \<Rightarrow>
     uuid \<Rightarrow> report_category \<Rightarrow> pyfloat \<Rightarrow> pyfloat \<Rightarrow> string \<Rightarrow> 8 word list option \<Rightarrow> string option \<Rightarrow>
     uuid \<Rightarrow> instant \<Rightarrow> 'r community_state \<Rightarrow> (community_error + community_report) \<times> 'r community_state" where
  "submit sha_text sha_bytes repo ml reporter cat lat lon desc photo ctype new_id now s =
     (let cleaned = cleaned_description desc in
      if length cleaned < 12
      then (Inl (InvalidReportError ''description must contain at least 12 characters''), s)
      else if length cleaned > 1000 \<or> \<not> (fbetween (-90) lat 90 \<and> fbetween (-180) lon 180)
      then (Inl (InvalidReportError ''report fields are outside allowed limits''), s)
      else
        let fp = sha_text (fingerprint_material cat lat lon cleaned) in
        if find_recent_duplicate repo fp (now - 24 * hour) (cs_repo s) \<noteq> None
        then (Inl (DuplicateReportError ''a matching recent report already exists''), s)
        else
          case attach_photo sha_bytes ml new_id photo ctype now (cs_objects s) of
            (Inl e, objs) \<Rightarrow> (Inl e, s\<lparr>cs_objects := objs\<rparr>)
          | (Inr stored, objs) \<Rightarrow>
              add_or_discard repo ml stored
                (new_report sha_bytes new_id reporter cat lat lon cleaned photo fp now stored)
                (s\<lparr>cs_objects := objs\<rparr>))"

definition moderate ::
  "'r report_repository \<Rightarrow> 'r media_lifecycle option \<Rightarrow> uuid \<Rightarrow> bool \<Rightarrow> string \<Rightarrow> instant \<Rightarrow>
     'r community_state \<Rightarrow> (community_error + community_report) \<times> 'r community_state" where
  "moderate repo ml report_id approved reason now s =
     (if length (py_strip reason) < 5 then (Inl (InvalidReportError ''a moderation reason is required''), s)
      else case set_status repo report_id (if approved then PUBLISHED else REJECTED) (py_strip reason)
                  (cs_repo s) of
        None \<Rightarrow> (Inl RepositoryFailure, s)
      | Some (None, rs) \<Rightarrow> (Inl (InvalidReportError ''report not found''), s\<lparr>cs_repo := rs\<rparr>)
      | Some (Some r, rs) \<Rightarrow>
          let s1 = s\<lparr>cs_repo := rs\<rparr>
          in case (if \<not> approved \<and> ml \<noteq> None then delete_report_photo (the ml) r now s1 else (Inr r, s1)) of
               (Inl e, s2) \<Rightarrow> (Inl e, s2)
             | (Inr r', s2) \<Rightarrow>
                 (case adjust_reputation repo (reporter_id r') approved (cs_repo s2) of
                    None \<Rightarrow> (Inl RepositoryFailure, s2)
                  | Some rs' \<Rightarrow> (Inr r', s2\<lparr>cs_repo := rs'\<rparr>)))"

definition appeal ::
  "'r report_repository \<Rightarrow> uuid \<Rightarrow> uuid \<Rightarrow> string \<Rightarrow> uuid \<Rightarrow> instant \<Rightarrow> 'r community_state \<Rightarrow>
     (community_error + report_appeal) \<times> 'r community_state" where
  "appeal repo report_id appellant reason new_id now s =
     (case get_report repo report_id (cs_repo s) of
        None \<Rightarrow> (Inl (InvalidReportError ''report not found''), s)
      | Some r \<Rightarrow>
          if reporter_id r \<noteq> appellant then (Inl (InvalidReportError ''report not found''), s)
          else if report_status r \<noteq> REJECTED
          then (Inl (InvalidReportError ''only rejected reports can be appealed''), s)
          else if length (py_strip reason) < 12
          then (Inl (InvalidReportError ''appeal reason must contain at least 12 characters''), s)
          else if open_appeal repo report_id (cs_repo s) \<noteq> None
          then (Inl (DuplicateReportError ''an open appeal already exists''), s)
          else
            let a = \<lparr>ap_id = new_id, ap_report_id = report_id, appellant_id = appellant,
                     ap_reason = py_strip reason, ap_status = APPEAL_OPEN, ap_created_at = now,
                     resolved_at = None, resolution_reason = None\<rparr>
            in case add_appeal repo a (cs_repo s) of
                 None \<Rightarrow> (Inl RepositoryFailure, s)
               | Some rs \<Rightarrow> (Inr a, s\<lparr>cs_repo := rs\<rparr>))"

definition resolve_appeal ::
  "'r report_repository \<Rightarrow> uuid \<Rightarrow> bool \<Rightarrow> string \<Rightarrow> instant \<Rightarrow> 'r community_state \<Rightarrow>
     (community_error + report_appeal) \<times> 'r community_state" where
  "resolve_appeal repo appeal_id overturned reason now s =
     (if length (py_strip reason) < 5 then (Inl (InvalidReportError ''a resolution reason is required''), s)
      else case resolve_stored_appeal repo appeal_id (if overturned then OVERTURNED else UPHELD)
                  (py_strip reason) now (cs_repo s) of
        None \<Rightarrow> (Inl RepositoryFailure, s)
      | Some (None, rs) \<Rightarrow> (Inl (InvalidReportError ''appeal not found''), s\<lparr>cs_repo := rs\<rparr>)
      | Some (Some a, rs) \<Rightarrow>
          if \<not> overturned then (Inr a, s\<lparr>cs_repo := rs\<rparr>)
          else
            (case set_status repo (ap_report_id a) PUBLISHED (''Appeal overturned: '' @ py_strip reason) rs of
               None \<Rightarrow> (Inl RepositoryFailure, s\<lparr>cs_repo := rs\<rparr>)
             | Some (None, rs') \<Rightarrow> (Inr a, s\<lparr>cs_repo := rs'\<rparr>)
             | Some (Some r, rs') \<Rightarrow>
                 (case adjust_reputation repo (reporter_id r) True rs' of
                    None \<Rightarrow> (Inl RepositoryFailure, s\<lparr>cs_repo := rs'\<rparr>)
                  | Some rs'' \<Rightarrow> (Inr a, s\<lparr>cs_repo := rs''\<rparr>))))"

end
