(* ===== verification/Community_Adapters.thy ===== *)
theory Community_Adapters
  imports Community
begin

text \<open>
  The repositories of community reports: what the service relies on, as the locale
  \<open>report_store\<close>, and its in-memory (\<open>app/modules/community/repositories.py\<close>) and PostgreSQL
  (\<open>sql_repository.py\<close>) providers. Rows hold the enumerations by value, so a row and the domain
  object it decodes to are the same record here; the table's media check constraints are those
  of \<open>migrations/versions/0011_community_media_lifecycle.py\<close>.
\<close>

section \<open>The interface\<close>

definition expired_evidence :: "instant \<Rightarrow> community_report \<Rightarrow> bool" where
  "expired_evidence t r = (photo_available r
     \<and> (case photo_retained_until r of None \<Rightarrow> False | Some u \<Rightarrow> u \<le> t))"

text \<open>\<open>ck_community_media_complete\<close>, \<open>_size\<close>, \<open>_type\<close>, \<open>_deletion\<close> and \<open>_retention\<close>.\<close>

definition media_constraints :: "community_report \<Rightarrow> bool" where
  "media_constraints r =
     (((photo_object_key r = None \<and> photo_content_type r = None \<and> photo_size_bytes r = None
          \<and> photo_retained_until r = None)
        \<or> (photo_object_key r \<noteq> None \<and> photo_content_type r \<noteq> None \<and> photo_size_bytes r \<noteq> None
          \<and> photo_retained_until r \<noteq> None))
      \<and> (case photo_size_bytes r of None \<Rightarrow> True | Some n \<Rightarrow> 1 \<le> n \<and> n \<le> 10485760)
      \<and> (case photo_content_type r of None \<Rightarrow> True
         | Some c \<Rightarrow> c \<in> {''image/jpeg'', ''image/png'', ''image/webp''})
      \<and> (photo_deleted_at r = None \<or> photo_object_key r \<noteq> None)
      \<and> (case photo_retained_until r of None \<Rightarrow> True
         | Some u \<Rightarrow> cr_created_at r < u \<and> u \<le> cr_created_at r + 30 * day))"

locale report_store =
  fixes repo :: "'r report_repository"
    and reports :: "'r \<Rightarrow> uuid \<Rightarrow> community_report option"
    and inv :: "'r \<Rightarrow> bool"
  assumes get_law: "inv s \<Longrightarrow> get_report repo i s = reports s i"
    and key_law: "inv s \<Longrightarrow> reports s i = Some r \<Longrightarrow> cr_id r = i"
    and add_law: "inv s \<Longrightarrow> reports s (cr_id r) = None \<Longrightarrow> media_constraints r \<Longrightarrow>
      \<exists>s'. add_report repo r s = Some s' \<and> inv s' \<and> reports s' = (reports s)(cr_id r \<mapsto> r)"
    and duplicate_law: "inv s \<Longrightarrow> find_recent_duplicate repo f since s = None \<longleftrightarrow>
      (\<forall>i r. reports s i = Some r \<longrightarrow> fingerprint r = f \<longrightarrow> cr_created_at r < since)"
    and status_law: "inv s \<Longrightarrow> \<exists>s'. inv s' \<and>
      set_status repo i st m s =
        Some (map_option (\<lambda>r. r\<lparr>report_status := st, moderation_reason := Some m\<rparr>) (reports s i), s') \<and>
      reports s' = (reports s)(i :=
        map_option (\<lambda>r. r\<lparr>report_status := st, moderation_reason := Some m\<rparr>) (reports s i))"
    and mark_law: "inv s \<Longrightarrow> reports s i = Some r \<Longrightarrow> photo_available r \<Longrightarrow> \<exists>s'. inv s' \<and>
      mark_photo_deleted repo i t s = Some (Some (r\<lparr>photo_deleted_at := Some t\<rparr>), s') \<and>
      reports s' = (reports s)(i \<mapsto> r\<lparr>photo_deleted_at := Some t\<rparr>)"
    and expired_sound: "inv s \<Longrightarrow> r \<in> set (expired_media repo t n s) \<Longrightarrow>
      reports s (cr_id r) = Some r \<and> expired_evidence t r"
    and expired_distinct: "inv s \<Longrightarrow> distinct (map cr_id (expired_media repo t n s))"
    and expired_complete: "inv s \<Longrightarrow> length (expired_media repo t n s) < n \<Longrightarrow> reports s i = Some r \<Longrightarrow>
      expired_evidence t r \<Longrightarrow> r \<in> set (expired_media repo t n s)"
    and reputation_frame: "inv s \<Longrightarrow> \<exists>s'. adjust_reputation repo u b s = Some s' \<and> inv s' \<and>
      reports s' = reports s"
    and appeal_frame: "inv s \<Longrightarrow> add_appeal repo a s = Some s' \<Longrightarrow> inv s' \<and> reports s' = reports s"
    and resolve_frame: "inv s \<Longrightarrow> \<exists>x s'. resolve_stored_appeal repo j ast m t s = Some (x, s') \<and>
      inv s' \<and> reports s' = reports s"

section \<open>InMemoryCommunityReportRepository\<close>

record inmem_community =
  im_reports :: "(uuid, community_report) pydict"
  im_reputations :: "(uuid, reporter_reputation) pydict"
  im_appeals :: "(uuid, report_appeal) pydict"

definition inmem_add_report :: "community_report \<Rightarrow> inmem_community \<Rightarrow> inmem_community option" where
  "inmem_add_report r s = Some (s\<lparr>im_reports := dict_set (cr_id r) r (im_reports s)\<rparr>)"

definition inmem_find_recent_duplicate ::
  "string \<Rightarrow> instant \<Rightarrow> inmem_community \<Rightarrow> community_report option" where
  "inmem_find_recent_duplicate f since s =
     find (\<lambda>r. fingerprint r = f \<and> cr_created_at r \<ge> since) (dict_values (im_reports s))"

definition inmem_pending :: "nat \<Rightarrow> inmem_community \<Rightarrow> community_report list" where
  "inmem_pending n s =
     take n (sort_key cr_created_at (filter (\<lambda>r. report_status r = PENDING) (dict_values (im_reports s))))"

definition inmem_update_report ::
  "(community_report \<Rightarrow> community_report) \<Rightarrow> uuid \<Rightarrow> inmem_community \<Rightarrow>
     community_report option \<times> inmem_community" where
  "inmem_update_report f i s =
     (case dict_get (im_reports s) i of
        None \<Rightarrow> (None, s)
      | Some r \<Rightarrow> (Some (f r), s\<lparr>im_reports := dict_set i (f r) (im_reports s)\<rparr>))"

definition inmem_set_status ::
  "uuid \<Rightarrow> report_status \<Rightarrow> string \<Rightarrow> inmem_community \<Rightarrow> community_report option \<times> inmem_community" where
  "inmem_set_status i st m =
     inmem_update_report (\<lambda>r. r\<lparr>report_status := st, moderation_reason := Some m\<rparr>) i"

definition inmem_mark_photo_deleted ::
  "uuid \<Rightarrow> instant \<Rightarrow> inmem_community \<Rightarrow> community_report option \<times> inmem_community" where
  "inmem_mark_photo_deleted i t = inmem_update_report (\<lambda>r. r\<lparr>photo_deleted_at := Some t\<rparr>) i"

definition inmem_reputation :: "uuid \<Rightarrow> inmem_community \<Rightarrow> reporter_reputation" where
  "inmem_reputation u s =
     (case dict_get (im_reputations s) u of
        Some r \<Rightarrow> r
      | None \<Rightarrow> \<lparr>rr_user_id = u, rr_score = 1 / 2, approved_reports = 0, rejected_reports = 0\<rparr>)"

definition inmem_adjust_reputation :: "uuid \<Rightarrow> bool \<Rightarrow> inmem_community \<Rightarrow> inmem_community" where
  "inmem_adjust_reputation u approved s =
     (let cur = inmem_reputation u s
      in s\<lparr>im_reputations := dict_set u
          \<lparr>rr_user_id = u,
           rr_score = (if approved then min 1 (rr_score cur + 5 / 100) else max 0 (rr_score cur - 10 / 100)),
           approved_reports = approved_reports cur + of_bool approved,
           rejected_reports = rejected_reports cur + of_bool (\<not> approved)\<rparr> (im_reputations s)\<rparr>)"

definition inmem_add_appeal :: "report_appeal \<Rightarrow> inmem_community \<Rightarrow> inmem_community option" where
  "inmem_add_appeal a s = Some (s\<lparr>im_appeals := dict_set (ap_id a) a (im_appeals s)\<rparr>)"

definition inmem_open_appeal :: "uuid \<Rightarrow> inmem_community \<Rightarrow> report_appeal option" where
  "inmem_open_appeal i s =
     find (\<lambda>a. ap_report_id a = i \<and> ap_status a = APPEAL_OPEN) (dict_values (im_appeals s))"

definition inmem_resolve_appeal ::
  "uuid \<Rightarrow> appeal_status \<Rightarrow> string \<Rightarrow> instant \<Rightarrow> inmem_community \<Rightarrow> report_appeal option \<times> inmem_community" where
  "inmem_resolve_appeal i st m t s =
     (case dict_get (im_appeals s) i of
        None \<Rightarrow> (None, s)
      | Some a \<Rightarrow>
          let a' = a\<lparr>ap_status := st, resolution_reason := Some m, resolved_at := Some t\<rparr>
          in (Some a', s\<lparr>im_appeals := dict_set i a' (im_appeals s)\<rparr>))"

definition retained_or :: "instant \<Rightarrow> community_report \<Rightarrow> instant" where
  "retained_or t r = (case photo_retained_until r of None \<Rightarrow> t | Some u \<Rightarrow> u)"

definition inmem_expired_media :: "instant \<Rightarrow> nat \<Rightarrow> inmem_community \<Rightarrow> community_report list" where
  "inmem_expired_media t n s =
     take n (sort_key (retained_or t) (filter (expired_evidence t) (dict_values (im_reports s))))"

definition inmem_report_repository :: "inmem_community report_repository" where
  "inmem_report_repository = \<lparr>add_report = inmem_add_report,
     find_recent_duplicate = inmem_find_recent_duplicate, pending = inmem_pending,
     get_report = (\<lambda>i s. dict_get (im_reports s) i),
     set_status = (\<lambda>i st m s. Some (inmem_set_status i st m s)),
     adjust_reputation = (\<lambda>u approved s. Some (inmem_adjust_reputation u approved s)),
     reputation = inmem_reputation, add_appeal = inmem_add_appeal, open_appeal = inmem_open_appeal,
     resolve_stored_appeal = (\<lambda>i st m t s. Some (inmem_resolve_appeal i st m t s)),
     expired_media = inmem_expired_media,
     mark_photo_deleted = (\<lambda>i t s. Some (inmem_mark_photo_deleted i t s))\<rparr>"

definition inmem_reports_ok :: "inmem_community \<Rightarrow> bool" where
  "inmem_reports_ok s \<longleftrightarrow> dict_ok (im_reports s) \<and> list_all (\<lambda>(i, r). cr_id r = i) (im_reports s)"

section \<open>SqlCommunityReportRepository\<close>

record sql_community =
  report_rows :: "community_report list"
  reputation_rows :: "uuid \<Rightarrow> reporter_reputation option"
  appeal_rows :: "report_appeal list"

definition sql_add_report :: "community_report \<Rightarrow> sql_community \<Rightarrow> sql_community option" where
  "sql_add_report r s =
     (if list_ex (\<lambda>x. cr_id x = cr_id r) (report_rows s) \<or> \<not> media_constraints r then None
      else Some (s\<lparr>report_rows := report_rows s @ [r]\<rparr>))"

definition sql_find_recent_duplicate ::
  "string \<Rightarrow> instant \<Rightarrow> sql_community \<Rightarrow> community_report option" where
  "sql_find_recent_duplicate f since s =
     find (\<lambda>r. fingerprint r = f \<and> cr_created_at r \<ge> since) (report_rows s)"

definition sql_pending :: "nat \<Rightarrow> sql_community \<Rightarrow> community_report list" where
  "sql_pending n s =
     take n (sort_key cr_created_at (filter (\<lambda>r. report_status r = PENDING) (report_rows s)))"

definition sql_get_report :: "uuid \<Rightarrow> sql_community \<Rightarrow> community_report option" where
  "sql_get_report i s = find (\<lambda>r. cr_id r = i) (report_rows s)"

definition sql_update_where ::
  "(community_report \<Rightarrow> bool) \<Rightarrow> (community_report \<Rightarrow> community_report) \<Rightarrow> sql_community \<Rightarrow> sql_community" where
  "sql_update_where p f s = s\<lparr>report_rows := map (\<lambda>r. if p r then f r else r) (report_rows s)\<rparr>"

definition sql_set_status ::
  "uuid \<Rightarrow> report_status \<Rightarrow> string \<Rightarrow> sql_community \<Rightarrow> community_report option \<times> sql_community" where
  "sql_set_status i st m s =
     (let s' = sql_update_where (\<lambda>r. cr_id r = i)
                 (\<lambda>r. r\<lparr>report_status := st, moderation_reason := Some m\<rparr>) s
      in (sql_get_report i s', s'))"

definition sql_mark_photo_deleted ::
  "uuid \<Rightarrow> instant \<Rightarrow> sql_community \<Rightarrow> community_report option \<times> sql_community" where
  "sql_mark_photo_deleted i t s =
     (let s' = sql_update_where (\<lambda>r. cr_id r = i \<and> photo_deleted_at r = None)
                 (\<lambda>r. r\<lparr>photo_deleted_at := Some t\<rparr>) s
      in (sql_get_report i s', s'))"

definition sql_reputation :: "uuid \<Rightarrow> sql_community \<Rightarrow> reporter_reputation" where
  "sql_reputation u s =
     (case reputation_rows s u of
        Some r \<Rightarrow> r
      | None \<Rightarrow> \<lparr>rr_user_id = u, rr_score = 1 / 2, approved_reports = 0, rejected_reports = 0\<rparr>)"

definition sql_adjust_reputation :: "uuid \<Rightarrow> bool \<Rightarrow> sql_community \<Rightarrow> sql_community" where
  "sql_adjust_reputation u approved s =
     s\<lparr>reputation_rows := (reputation_rows s)(u \<mapsto>
       (case reputation_rows s u of
          None \<Rightarrow> \<lparr>rr_user_id = u, rr_score = (if approved then 55 / 100 else 40 / 100),
                   approved_reports = of_bool approved, rejected_reports = of_bool (\<not> approved)\<rparr>
        | Some r \<Rightarrow> r\<lparr>rr_score := rr_score r + (if approved then 5 / 100 else - (10 / 100)),
                      approved_reports := approved_reports r + of_bool approved,
                      rejected_reports := rejected_reports r + of_bool (\<not> approved)\<rparr>))\<rparr>"

definition sql_add_appeal :: "report_appeal \<Rightarrow> sql_community \<Rightarrow> sql_community option" where
  "sql_add_appeal a s =
     (if list_ex (\<lambda>x. ap_id x = ap_id a) (appeal_rows s) then None
      else Some (s\<lparr>appeal_rows := appeal_rows s @ [a]\<rparr>))"

definition sql_open_appeal :: "uuid \<Rightarrow> sql_community \<Rightarrow> report_appeal option" where
  "sql_open_appeal i s = find (\<lambda>a. ap_report_id a = i \<and> ap_status a = APPEAL_OPEN) (appeal_rows s)"

definition sql_resolve_appeal ::
  "uuid \<Rightarrow> appeal_status \<Rightarrow> string \<Rightarrow> instant \<Rightarrow> sql_community \<Rightarrow> report_appeal option \<times> sql_community" where
  "sql_resolve_appeal i st m t s =
     (let rows = map (\<lambda>a. if ap_id a = i
            then a\<lparr>ap_status := st, resolution_reason := Some m, resolved_at := Some t\<rparr> else a) (appeal_rows s)
      in (find (\<lambda>a. ap_id a = i) rows, s\<lparr>appeal_rows := rows\<rparr>))"

definition sql_expired_media :: "instant \<Rightarrow> nat \<Rightarrow> sql_community \<Rightarrow> community_report list" where
  "sql_expired_media t n s =
     take n (sort_key (retained_or t) (filter (expired_evidence t) (report_rows s)))"

text \<open>The repository over a database that executes every statement.\<close>

definition sql_report_repository :: "sql_community report_repository" where
  "sql_report_repository = \<lparr>add_report = sql_add_report,
     find_recent_duplicate = sql_find_recent_duplicate, pending = sql_pending,
     get_report = sql_get_report, set_status = (\<lambda>i st m s. Some (sql_set_status i st m s)),
     adjust_reputation = (\<lambda>u approved s. Some (sql_adjust_reputation u approved s)),
     reputation = sql_reputation, add_appeal = sql_add_appeal, open_appeal = sql_open_appeal,
     resolve_stored_appeal = (\<lambda>i st m t s. Some (sql_resolve_appeal i st m t s)),
     expired_media = sql_expired_media,
     mark_photo_deleted = (\<lambda>i t s. Some (sql_mark_photo_deleted i t s))\<rparr>"

subsection \<open>Failing statements\<close>

text \<open>A statement that writes may raise for reasons outside the rows (a lost connection, a deadlock, a
  foreign key): \<open>fails\<close> tells which calls of a request do.\<close>

datatype db_call = ADD_REPORT | SET_STATUS uuid | ADJUST_REPUTATION uuid | ADD_APPEAL
  | RESOLVE_APPEAL uuid | MARK_DELETED uuid

definition unless_fails :: "bool \<Rightarrow> 'a option \<Rightarrow> 'a option" where
  "unless_fails b x = (if b then None else x)"

definition faulty :: "(db_call \<Rightarrow> bool) \<Rightarrow> 'r report_repository \<Rightarrow> 'r report_repository" where
  "faulty fails repo = repo\<lparr>
     add_report := (\<lambda>r s. unless_fails (fails ADD_REPORT) (add_report repo r s)),
     set_status := (\<lambda>i st m s. unless_fails (fails (SET_STATUS i)) (set_status repo i st m s)),
     adjust_reputation := (\<lambda>u b s. unless_fails (fails (ADJUST_REPUTATION u)) (adjust_reputation repo u b s)),
     add_appeal := (\<lambda>a s. unless_fails (fails ADD_APPEAL) (add_appeal repo a s)),
     resolve_stored_appeal := (\<lambda>i st m t s. unless_fails (fails (RESOLVE_APPEAL i)) (resolve_stored_appeal repo i st m t s)),
     mark_photo_deleted := (\<lambda>i t s. unless_fails (fails (MARK_DELETED i)) (mark_photo_deleted repo i t s))\<rparr>"

lemma unless_fails_simps [simp]: "unless_fails True x = None" "unless_fails False x = x"
  by (simp_all add: unless_fails_def)

lemma faulty_sel [simp]:
  "find_recent_duplicate (faulty fails repo) = find_recent_duplicate repo"
  "pending (faulty fails repo) = pending repo" "get_report (faulty fails repo) = get_report repo"
  "reputation (faulty fails repo) = reputation repo" "open_appeal (faulty fails repo) = open_appeal repo"
  "expired_media (faulty fails repo) = expired_media repo"
  "add_report (faulty fails repo) r s = unless_fails (fails ADD_REPORT) (add_report repo r s)"
  "set_status (faulty fails repo) i st m s = unless_fails (fails (SET_STATUS i)) (set_status repo i st m s)"
  "adjust_reputation (faulty fails repo) u b s = unless_fails (fails (ADJUST_REPUTATION u)) (adjust_reputation repo u b s)"
  "add_appeal (faulty fails repo) a s = unless_fails (fails ADD_APPEAL) (add_appeal repo a s)"
  "resolve_stored_appeal (faulty fails repo) i ast m t s =
     unless_fails (fails (RESOLVE_APPEAL i)) (resolve_stored_appeal repo i ast m t s)"
  "mark_photo_deleted (faulty fails repo) i t s = unless_fails (fails (MARK_DELETED i)) (mark_photo_deleted repo i t s)"
  by (simp_all add: faulty_def)

definition report_rows_ok :: "sql_community \<Rightarrow> bool" where
  "report_rows_ok s \<longleftrightarrow> distinct (map cr_id (report_rows s))"

section \<open>Both keep the contract\<close>

text \<open>The first \<open>n\<close> of the expired reports, oldest deadline first, from any list of reports with
  distinct identifiers that a lookup agrees with.\<close>

lemma expired_list:
  fixes t :: instant and n :: nat and rs :: "community_report list"
  assumes "distinct (map cr_id rs)" and "\<And>i r. get i = Some r \<longleftrightarrow> r \<in> set rs \<and> cr_id r = i"
  defines "xs \<equiv> take n (sort_key (retained_or t) (filter (expired_evidence t) rs))"
  shows "r \<in> set xs \<Longrightarrow> get (cr_id r) = Some r \<and> expired_evidence t r"
    and "distinct (map cr_id xs)"
    and "length xs < n \<Longrightarrow> get i = Some r \<Longrightarrow> expired_evidence t r \<Longrightarrow> r \<in> set xs"
proof -
  let ?ys = "sort_key (retained_or t) (filter (expired_evidence t) rs)"
  show "r \<in> set xs \<Longrightarrow> get (cr_id r) = Some r \<and> expired_evidence t r"
    using assms(2) unfolding xs_def by (auto dest: in_set_takeD)
  have "distinct rs" and inj: "inj_on cr_id (set rs)" using assms(1) by (simp_all add: distinct_map)
  then have "distinct (map cr_id ?ys)" by (auto simp: distinct_map intro: inj_on_subset)
  then show "distinct (map cr_id xs)" unfolding xs_def by (simp add: take_map [symmetric])
  show "length xs < n \<Longrightarrow> get i = Some r \<Longrightarrow> expired_evidence t r \<Longrightarrow> r \<in> set xs"
    using assms(2) unfolding xs_def by simp
qed

lemma find_duplicate_None:
  assumes "\<And>i r. get i = Some r \<longleftrightarrow> r \<in> set rs \<and> cr_id r = i"
  shows "find (\<lambda>r. fingerprint r = f \<and> since \<le> cr_created_at r) rs = None \<longleftrightarrow>
    (\<forall>i r. get i = Some r \<longrightarrow> fingerprint r = f \<longrightarrow> cr_created_at r < since)"
proof -
  have "(\<forall>i r. get i = Some r \<longrightarrow> Q r) \<longleftrightarrow> (\<forall>r \<in> set rs. Q r)" for Q
    using assms by blast
  then show ?thesis by (simp add: find_None_iff' not_le)
qed

lemma inmem_get_iff:
  assumes "inmem_reports_ok s"
  shows "dict_get (im_reports s) i = Some r \<longleftrightarrow> r \<in> set (dict_values (im_reports s)) \<and> cr_id r = i"
    (is "?l \<longleftrightarrow> ?r")
proof -
  have ok: "dict_ok (im_reports s)" and ids: "\<And>i r. (i, r) \<in> set (im_reports s) \<Longrightarrow> cr_id r = i"
    using assms by (auto simp: inmem_reports_ok_def list_all_iff)
  show ?thesis
  proof
    assume ?l
    then have "(i, r) \<in> set (im_reports s)" by (rule map_of_SomeD)
    with ids show ?r by force
  next
    assume ?r
    then obtain j where "(j, r) \<in> set (im_reports s)" and "cr_id r = i" by auto
    with ids have "(i, r) \<in> set (im_reports s)" by force
    with ok show ?l by (simp add: map_of_is_SomeI)
  qed
qed

lemma inmem_distinct_ids:
  assumes "inmem_reports_ok s"
  shows "distinct (map cr_id (dict_values (im_reports s)))"
proof -
  have "map cr_id (dict_values (im_reports s)) = map fst (im_reports s)"
    using assms by (auto simp: inmem_reports_ok_def list_all_iff)
  then show ?thesis using assms by (simp only: inmem_reports_ok_def)
qed

lemma inmem_put_report:
  "inmem_reports_ok s \<Longrightarrow> cr_id r = i \<Longrightarrow>
     inmem_reports_ok (s\<lparr>im_reports := dict_set i r (im_reports s)\<rparr>)"
  unfolding inmem_reports_ok_def list_all_iff using set_dict_set [of "im_reports s" i r] by auto

lemma inmem_update_law:
  assumes "inmem_reports_ok s" and "\<And>r. cr_id (f r) = cr_id r"
  shows "\<exists>s'. inmem_reports_ok s' \<and>
    inmem_update_report f i s = (map_option f (dict_get (im_reports s) i), s') \<and>
    dict_get (im_reports s') = (dict_get (im_reports s))(i := map_option f (dict_get (im_reports s) i))"
proof (cases "dict_get (im_reports s) i")
  case None
  with assms(1) show ?thesis by (auto simp: inmem_update_report_def fun_upd_idem)
next
  case (Some r)
  then have "cr_id (f r) = i" using assms inmem_get_iff [OF assms(1)] by simp
  from inmem_put_report [OF assms(1) this] Some show ?thesis by (auto simp: inmem_update_report_def)
qed

interpretation inmem_reports: report_store inmem_report_repository "\<lambda>s. dict_get (im_reports s)" inmem_reports_ok
proof
  fix s :: inmem_community
  assume ok: "inmem_reports_ok s"
  note get = inmem_get_iff [OF ok] and ids = inmem_distinct_ids [OF ok]
  have ex: "expired_media inmem_report_repository t n s =
      take n (sort_key (retained_or t) (filter (expired_evidence t) (dict_values (im_reports s))))" for t n
    by (simp add: inmem_report_repository_def inmem_expired_media_def)
  show "get_report inmem_report_repository i s = dict_get (im_reports s) i" for i
    by (simp add: inmem_report_repository_def)
  show "cr_id r = i" if "dict_get (im_reports s) i = Some r" for i r
    using that by (simp add: get)
  show "\<exists>s'. add_report inmem_report_repository r s = Some s' \<and> inmem_reports_ok s'
      \<and> dict_get (im_reports s') = (dict_get (im_reports s))(cr_id r \<mapsto> r)" for r
    using inmem_put_report [OF ok refl, of r]
    by (simp add: inmem_report_repository_def inmem_add_report_def)
  show "find_recent_duplicate inmem_report_repository f since s = None \<longleftrightarrow>
      (\<forall>i r. dict_get (im_reports s) i = Some r \<longrightarrow> fingerprint r = f \<longrightarrow> cr_created_at r < since)" for f since
    unfolding inmem_report_repository_def report_repository.simps inmem_find_recent_duplicate_def
    by (rule find_duplicate_None [OF get])
  show "\<exists>s'. inmem_reports_ok s' \<and> set_status inmem_report_repository i st m s =
        Some (map_option (\<lambda>r. r\<lparr>report_status := st, moderation_reason := Some m\<rparr>) (dict_get (im_reports s) i), s') \<and>
      dict_get (im_reports s') = (dict_get (im_reports s))(i :=
        map_option (\<lambda>r. r\<lparr>report_status := st, moderation_reason := Some m\<rparr>) (dict_get (im_reports s) i))" for i st m
    using inmem_update_law [OF ok, of "\<lambda>r. r\<lparr>report_status := st, moderation_reason := Some m\<rparr>" i]
    by (simp add: inmem_report_repository_def inmem_set_status_def)
  show "\<exists>s'. inmem_reports_ok s' \<and>
      mark_photo_deleted inmem_report_repository i t s = Some (Some (r\<lparr>photo_deleted_at := Some t\<rparr>), s') \<and>
      dict_get (im_reports s') = (dict_get (im_reports s))(i \<mapsto> r\<lparr>photo_deleted_at := Some t\<rparr>)"
    if "dict_get (im_reports s) i = Some r" for i r t
    using inmem_update_law [OF ok, of "\<lambda>r. r\<lparr>photo_deleted_at := Some t\<rparr>" i] that
    by (simp add: inmem_report_repository_def inmem_mark_photo_deleted_def)
  show "dict_get (im_reports s) (cr_id r) = Some r \<and> expired_evidence t r"
    if "r \<in> set (expired_media inmem_report_repository t n s)" for r t n
    using that unfolding ex by (rule expired_list(1) [OF ids get])
  show "distinct (map cr_id (expired_media inmem_report_repository t n s))" for t n
    unfolding ex by (rule expired_list(2) [OF ids get])
  show "r \<in> set (expired_media inmem_report_repository t n s)"
    if "length (expired_media inmem_report_repository t n s) < n" "dict_get (im_reports s) i = Some r"
      "expired_evidence t r" for n t i r
    using that unfolding ex by (rule expired_list(3) [OF ids get])
  show "\<exists>s'. adjust_reputation inmem_report_repository u b s = Some s' \<and> inmem_reports_ok s' \<and>
      dict_get (im_reports s') = dict_get (im_reports s)" for u b
    using ok by (simp add: inmem_report_repository_def inmem_adjust_reputation_def inmem_reports_ok_def Let_def)
  show "inmem_reports_ok s' \<and> dict_get (im_reports s') = dict_get (im_reports s)"
    if "add_appeal inmem_report_repository a s = Some s'" for a s'
    using that ok by (auto simp: inmem_report_repository_def inmem_add_appeal_def inmem_reports_ok_def)
  show "\<exists>x s'. resolve_stored_appeal inmem_report_repository j st m t s = Some (x, s') \<and>
      inmem_reports_ok s' \<and> dict_get (im_reports s') = dict_get (im_reports s)" for j st m t
    using ok by (simp add: inmem_report_repository_def inmem_resolve_appeal_def inmem_reports_ok_def
        Let_def split: option.splits)
qed

lemma find_distinct_id:
  "distinct (map f xs) \<Longrightarrow> find (\<lambda>x. f x = k) xs = Some x \<longleftrightarrow> x \<in> set xs \<and> f x = k"
  by (induction xs) auto

lemma sql_get_iff: "report_rows_ok s \<Longrightarrow> sql_get_report i s = Some r \<longleftrightarrow> r \<in> set (report_rows s) \<and> cr_id r = i"
  unfolding report_rows_ok_def sql_get_report_def by (rule find_distinct_id)

lemma find_map_where:
  "(\<And>r. f (g r) = f r) \<Longrightarrow> find (\<lambda>r. f r = k) (map (\<lambda>r. if p r then g r else r) xs)
     = map_option (\<lambda>r. if p r then g r else r) (find (\<lambda>r. f r = k) xs)"
  by (induction xs) auto

lemma sql_rows_update_law:
  assumes ok: "report_rows_ok s" and f: "\<And>r. cr_id (f r) = cr_id r"
  shows "report_rows_ok (sql_update_where p f s)"
    and "sql_get_report i (sql_update_where p f s) =
      map_option (\<lambda>r. if p r then f r else r) (sql_get_report i s)"
proof -
  have "map cr_id (map (\<lambda>r. if p r then f r else r) (report_rows s)) = map cr_id (report_rows s)"
    by (simp add: f)
  then show "report_rows_ok (sql_update_where p f s)"
    using ok by (simp add: report_rows_ok_def sql_update_where_def del: map_map)
  show "sql_get_report i (sql_update_where p f s) =
      map_option (\<lambda>r. if p r then f r else r) (sql_get_report i s)"
    unfolding sql_get_report_def sql_update_where_def by (simp add: find_map_where f)
qed

lemma sql_update_one:
  assumes "report_rows_ok s" and "\<And>r. cr_id (f r) = cr_id r"
    and "\<And>r. sql_get_report i s = Some r \<Longrightarrow> p r" and "\<And>r. p r \<Longrightarrow> cr_id r = i"
  shows "(\<lambda>j. sql_get_report j (sql_update_where p f s)) =
    (\<lambda>j. sql_get_report j s)(i := map_option f (sql_get_report i s))"
proof
  fix j
  have "\<not> p r" if "sql_get_report j s = Some r" "j \<noteq> i" for r
    using that assms(4) sql_get_iff [OF assms(1)] by auto
  then show "sql_get_report j (sql_update_where p f s) =
      ((\<lambda>j. sql_get_report j s)(i := map_option f (sql_get_report i s))) j"
    using assms(3) unfolding sql_rows_update_law(2) [OF assms(1,2)] by (cases "sql_get_report j s") auto
qed

interpretation sql_reports: report_store sql_report_repository "\<lambda>s i. sql_get_report i s" report_rows_ok
proof
  fix s :: sql_community
  assume ok: "report_rows_ok s"
  note get = sql_get_iff [OF ok] and ids = ok [unfolded report_rows_ok_def]
  have ex: "expired_media sql_report_repository t n s =
      take n (sort_key (retained_or t) (filter (expired_evidence t) (report_rows s)))" for t n
    by (simp add: sql_report_repository_def sql_expired_media_def)
  show "get_report sql_report_repository i s = sql_get_report i s" for i
    by (simp add: sql_report_repository_def)
  show "cr_id r = i" if "sql_get_report i s = Some r" for i r
    using that by (simp add: get)
  show "\<exists>s'. add_report sql_report_repository r s = Some s' \<and> report_rows_ok s'
      \<and> (\<lambda>i. sql_get_report i s') = (\<lambda>i. sql_get_report i s)(cr_id r \<mapsto> r)"
    if "sql_get_report (cr_id r) s = None" "media_constraints r" for r
  proof -
    have new: "\<not> list_ex (\<lambda>x. cr_id x = cr_id r) (report_rows s)"
      using that(1) by (auto simp: sql_get_report_def find_None_iff' list_ex_iff)
    have "find P (xs @ [r]) = (case find P xs of Some x \<Rightarrow> Some x | None \<Rightarrow> if P r then Some r else None)"
      for P and xs :: "community_report list"
      by (induction xs) auto
    then have "(\<lambda>i. sql_get_report i (s\<lparr>report_rows := report_rows s @ [r]\<rparr>))
        = (\<lambda>i. sql_get_report i s)(cr_id r \<mapsto> r)"
      using that(1) by (auto simp: sql_get_report_def fun_eq_iff split: option.splits)
    moreover have "report_rows_ok (s\<lparr>report_rows := report_rows s @ [r]\<rparr>)"
      using ok new by (auto simp: report_rows_ok_def list_ex_iff)
    ultimately show ?thesis using new that(2)
      by (simp add: sql_report_repository_def sql_add_report_def)
  qed
  show "find_recent_duplicate sql_report_repository f since s = None \<longleftrightarrow>
      (\<forall>i r. sql_get_report i s = Some r \<longrightarrow> fingerprint r = f \<longrightarrow> cr_created_at r < since)" for f since
    unfolding sql_report_repository_def report_repository.simps sql_find_recent_duplicate_def
    by (rule find_duplicate_None [OF get])
  show "\<exists>s'. report_rows_ok s' \<and> set_status sql_report_repository i st m s =
        Some (map_option (\<lambda>r. r\<lparr>report_status := st, moderation_reason := Some m\<rparr>) (sql_get_report i s), s') \<and>
      (\<lambda>j. sql_get_report j s') = (\<lambda>j. sql_get_report j s)(i :=
        map_option (\<lambda>r. r\<lparr>report_status := st, moderation_reason := Some m\<rparr>) (sql_get_report i s))" for i st m
  proof -
    let ?f = "\<lambda>r. r\<lparr>report_status := st, moderation_reason := Some m\<rparr>"
    have "(\<lambda>j. sql_get_report j (sql_update_where (\<lambda>r. cr_id r = i) ?f s)) =
        (\<lambda>j. sql_get_report j s)(i := map_option ?f (sql_get_report i s))"
      by (rule sql_update_one [OF ok]) (simp_all add: get)
    with sql_rows_update_law(1) [OF ok, of ?f "\<lambda>r. cr_id r = i"] show ?thesis
      by (intro exI [of _ "sql_update_where (\<lambda>r. cr_id r = i) ?f s"])
         (simp add: sql_report_repository_def sql_set_status_def Let_def fun_eq_iff)
  qed
  show "\<exists>s'. report_rows_ok s' \<and>
      mark_photo_deleted sql_report_repository i t s = Some (Some (r\<lparr>photo_deleted_at := Some t\<rparr>), s') \<and>
      (\<lambda>j. sql_get_report j s') = (\<lambda>j. sql_get_report j s)(i \<mapsto> r\<lparr>photo_deleted_at := Some t\<rparr>)"
    if "sql_get_report i s = Some r" "photo_available r" for i r t
  proof -
    let ?f = "\<lambda>r. r\<lparr>photo_deleted_at := Some t\<rparr>"
    let ?p = "\<lambda>r. cr_id r = i \<and> photo_deleted_at r = None"
    have "(\<lambda>j. sql_get_report j (sql_update_where ?p ?f s)) =
        (\<lambda>j. sql_get_report j s)(i := map_option ?f (sql_get_report i s))"
      using that by (intro sql_update_one [OF ok]) (auto simp: get photo_available_def)
    with sql_rows_update_law(1) [OF ok, of ?f ?p] that show ?thesis
      by (intro exI [of _ "sql_update_where ?p ?f s"])
         (simp add: sql_report_repository_def sql_mark_photo_deleted_def Let_def fun_eq_iff)
  qed
  show "sql_get_report (cr_id r) s = Some r \<and> expired_evidence t r"
    if "r \<in> set (expired_media sql_report_repository t n s)" for r t n
    using that unfolding ex by (rule expired_list(1) [OF ids get])
  show "distinct (map cr_id (expired_media sql_report_repository t n s))" for t n
    unfolding ex by (rule expired_list(2) [OF ids get])
  show "r \<in> set (expired_media sql_report_repository t n s)"
    if "length (expired_media sql_report_repository t n s) < n" "sql_get_report i s = Some r"
      "expired_evidence t r" for n t i r
    using that unfolding ex by (rule expired_list(3) [OF ids get])
  show "\<exists>s'. adjust_reputation sql_report_repository u b s = Some s' \<and> report_rows_ok s' \<and>
      (\<lambda>i. sql_get_report i s') = (\<lambda>i. sql_get_report i s)" for u b
    using ok by (simp add: sql_report_repository_def sql_adjust_reputation_def report_rows_ok_def
        sql_get_report_def)
  show "report_rows_ok s' \<and> (\<lambda>i. sql_get_report i s') = (\<lambda>i. sql_get_report i s)"
    if "add_appeal sql_report_repository a s = Some s'" for a s'
    using that ok by (auto simp: sql_report_repository_def sql_add_appeal_def report_rows_ok_def
        sql_get_report_def split: if_splits)
  show "\<exists>x s'. resolve_stored_appeal sql_report_repository j st m t s = Some (x, s') \<and>
      report_rows_ok s' \<and> (\<lambda>i. sql_get_report i s') = (\<lambda>i. sql_get_report i s)" for j st m t
    using ok by (simp add: sql_report_repository_def sql_resolve_appeal_def report_rows_ok_def
        sql_get_report_def Let_def)
qed

end
