(* ===== verification/Community_Evidence.thy ===== *)
theory Community_Evidence
  imports Community_Adapters
begin

text \<open>
  Photo evidence and the reports it belongs to, over any \<open>report_store\<close>: the objects in the
  bucket are exactly those of the reports whose photo is available, and every operation of the
  service and of the media lifecycle keeps that.
\<close>

section \<open>The invariant\<close>

type_synonym report_table = "uuid \<Rightarrow> community_report option"

definition evidence_key :: "community_report option \<Rightarrow> string option" where
  "evidence_key x =
     (case x of None \<Rightarrow> None | Some r \<Rightarrow> if photo_available r then photo_object_key r else None)"

definition held :: "report_table \<Rightarrow> string set" where
  "held f = {k. \<exists>i. evidence_key (f i) = Some k}"

definition keyed :: "report_table \<Rightarrow> bool" where
  "keyed f \<longleftrightarrow> (\<forall>i r. f i = Some r \<longrightarrow> cr_id r = i \<and>
     (\<forall>k. photo_object_key r = Some k \<longrightarrow> key_ok k \<and> (\<exists>c. k = object_key i c)))"

definition evidence_ok :: "'r report_repository \<Rightarrow> 'r community_state \<Rightarrow> bool" where
  "evidence_ok repo s \<longleftrightarrow> keyed (\<lambda>i. get_report repo i (cs_repo s)) \<and>
     dom (cs_objects s) = held (\<lambda>i. get_report repo i (cs_repo s))"

definition lifecycle_ok :: "'r report_repository \<Rightarrow> 'r media_lifecycle \<Rightarrow> bool" where
  "lifecycle_ok repo ml \<longleftrightarrow> ml_repository ml = repo \<and> day \<le> retention ml \<and> retention ml \<le> 30 * day"

text \<open>A client whose failed calls have no effect.\<close>

definition definite_puts :: "s3_client \<Rightarrow> bool" where
  "definite_puts c \<longleftrightarrow> (\<forall>k. put_lands c k \<longrightarrow> accepts_put c k)"

definition definite_deletes :: "s3_client \<Rightarrow> bool" where
  "definite_deletes c \<longleftrightarrow> (\<forall>k. delete_lands c k \<longrightarrow> accepts_delete c k)"

lemma lifecycle_ok_init: "media_lifecycle_init repo client days = Inr ml \<Longrightarrow> lifecycle_ok repo ml \<and> ml_store ml = client"
  by (auto simp: media_lifecycle_init_def lifecycle_ok_def split: if_splits)

lemma object_key_inj: "object_key i c = object_key j d \<Longrightarrow> i = j"
  by (auto simp: object_key_def append_eq_append_conv length_uuid_str dest: uuid_str_inj)

lemma keyed_upd_same:
  "keyed f \<Longrightarrow> f i = Some r \<Longrightarrow> cr_id q = cr_id r \<Longrightarrow> photo_object_key q = photo_object_key r \<Longrightarrow>
     keyed (f(i \<mapsto> q))"
  by (simp add: keyed_def)

lemma evidence_key_Some:
  "evidence_key x = Some k \<longleftrightarrow>
     (\<exists>r. x = Some r \<and> photo_object_key r = Some k \<and> photo_deleted_at r = None)"
  by (auto simp: evidence_key_def photo_available_def split: option.splits)

lemma evidence_key_None [simp]: "evidence_key None = None"
  by (simp add: evidence_key_def)

lemma heldI: "f i = Some r \<Longrightarrow> photo_object_key r = Some k \<Longrightarrow> photo_deleted_at r = None \<Longrightarrow> k \<in> held f"
  unfolding held_def evidence_key_Some by blast

lemma heldE:
  assumes "k \<in> held f"
  obtains i r where "f i = Some r" "photo_object_key r = Some k" "photo_deleted_at r = None"
  using assms unfolding held_def evidence_key_Some by blast

lemma held_upd_same: "evidence_key x = evidence_key (f i) \<Longrightarrow> held (f(i := x)) = held f"
  unfolding held_def by (metis fun_upd_apply)

lemma keyedD:
  "keyed f \<Longrightarrow> f i = Some r \<Longrightarrow> cr_id r = i"
  "keyed f \<Longrightarrow> f i = Some r \<Longrightarrow> photo_object_key r = Some k \<Longrightarrow> key_ok k"
  "keyed f \<Longrightarrow> f i = Some r \<Longrightarrow> photo_object_key r = Some k \<Longrightarrow> \<exists>c. k = object_key i c"
  by (auto simp: keyed_def)

lemma keyed_same_key:
  "keyed f \<Longrightarrow> f i = Some r \<Longrightarrow> f j = Some q \<Longrightarrow> photo_object_key r = Some k \<Longrightarrow>
     photo_object_key q = Some k \<Longrightarrow> i = j"
  by (metis keyedD(3) object_key_inj)

lemma keyed_upd:
  "keyed f \<Longrightarrow> cr_id r = i \<Longrightarrow>
     (\<And>k. photo_object_key r = Some k \<Longrightarrow> key_ok k \<and> (\<exists>c. k = object_key i c)) \<Longrightarrow> keyed (f(i \<mapsto> r))"
  by (auto simp: keyed_def)

lemma held_upd_new:
  assumes "f i = None" "photo_deleted_at r = None"
  shows "held (f(i \<mapsto> r)) = held f \<union> set_option (photo_object_key r)"
proof -
  have "evidence_key (Some r) = photo_object_key r"
    using assms(2) by (simp add: evidence_key_def photo_available_def)
  then have "evidence_key ((f(i \<mapsto> r)) j) = Some k \<longleftrightarrow> evidence_key (f j) = Some k \<or>
      j = i \<and> photo_object_key r = Some k" for j k
    using assms(1) by simp
  then show ?thesis unfolding held_def by auto
qed

lemma held_upd_deleted:
  assumes "keyed f" "f i = Some r" "photo_object_key r = Some k" "photo_deleted_at q \<noteq> None"
  shows "held (f(i \<mapsto> q)) = held f - {k}"
proof (intro subset_antisym subsetI)
  fix k' assume "k' \<in> held (f(i \<mapsto> q))"
  then obtain j p where *: "(f(i \<mapsto> q)) j = Some p" "photo_object_key p = Some k'" "photo_deleted_at p = None"
    by (rule heldE)
  with assms(4) have "j \<noteq> i" by auto
  with * have "f j = Some p" by simp
  with * assms \<open>j \<noteq> i\<close> show "k' \<in> held f - {k}" by (auto intro: heldI dest: keyed_same_key)
next
  fix k' assume "k' \<in> held f - {k}"
  then obtain j p where "f j = Some p" "photo_object_key p = Some k'" "photo_deleted_at p = None" "k' \<noteq> k"
    by (auto elim: heldE)
  with assms show "k' \<in> held (f(i \<mapsto> q))" by (intro heldI [of _ j p]) auto
qed

section \<open>Storing and attaching a photo\<close>

lemma store_media_cases:
  assumes "store_media sha l i payload ct chk now objs = (x, objs')" and "definite_puts (ml_store l)"
  shows "(\<exists>e. x = Inl e \<and> objs' = objs) \<or>
    (\<exists>m obj. x = Inr m \<and> objs' = objs(sm_object_key m \<mapsto> obj) \<and> key_ok (sm_object_key m) \<and>
       sm_object_key m = object_key i chk \<and> sm_content_type m = ct \<and> ct \<in> allowed_media_types \<and>
       sm_size_bytes m = length payload \<and> payload \<noteq> [] \<and> length payload \<le> max_media_bytes \<and>
       sm_retained_until m = now + retention l \<and>
       obj = \<lparr>mo_payload = payload, mo_content_type = ct, mo_checksum = chk,
              mo_retained_until = now + retention l\<rparr> \<and> sha payload = chk)"
  using assms by (auto simp: store_media_def s3_put_def definite_puts_def Let_def split: if_splits)

lemma attach_photo_cases:
  assumes "attach_photo sha ml i photo ct now objs = (x, objs')"
    and definite: "\<forall>l. ml = Some l \<longrightarrow> definite_puts (ml_store l)"
  shows "(\<exists>e. x = Inl e \<and> objs' = objs) \<or> (x = Inr None \<and> objs' = objs) \<or>
    (\<exists>l m obj payload. x = Inr (Some m) \<and> ml = Some l \<and> photo = Some payload \<and>
       objs' = objs(sm_object_key m \<mapsto> obj) \<and> key_ok (sm_object_key m) \<and>
       sm_object_key m = object_key i (sha payload) \<and> sm_content_type m \<in> allowed_media_types \<and>
       1 \<le> sm_size_bytes m \<and> sm_size_bytes m \<le> max_media_bytes \<and>
       sm_retained_until m = now + retention l)"
proof -
  consider "\<exists>e. x = Inl e \<and> objs' = objs" | "x = Inr None \<and> objs' = objs"
    | l payload c where "ml = Some l" "photo = Some payload" "payload \<noteq> []" "ct = Some c"
        "(case store_media sha l i payload c (sha payload) now objs of
            (Inl (MediaValueError m), objs') \<Rightarrow> (Inl (InvalidReportError m), objs')
          | (Inl e, objs') \<Rightarrow> (Inl e, objs')
          | (Inr m, objs') \<Rightarrow> (Inr (Some m), objs')) = (x, objs')"
    using assms(1) by (auto simp: attach_photo_def split: option.splits if_splits)
  then show ?thesis
  proof cases
    case 3
    obtain y o' where st: "store_media sha l i payload c (sha payload) now objs = (y, o')" by fastforce
    with 3(5) have "objs' = o'" and "(\<exists>e. y = Inl e \<and> (\<exists>e'. x = Inl e')) \<or> (\<exists>m. y = Inr m \<and> x = Inr (Some m))"
      by (auto split: sum.splits community_error.splits)
    with store_media_cases [OF st definite [rule_format, OF 3(1)]] 3(1-3) show ?thesis
      by (auto simp: Suc_le_eq)
  qed auto
qed

text \<open>What the report of an attached photo satisfies of the table's constraints.\<close>

lemma new_report_constraints:
  "lifecycle_ok repo l \<Longrightarrow> sm_content_type m \<in> allowed_media_types \<Longrightarrow> 1 \<le> sm_size_bytes m \<Longrightarrow>
     sm_size_bytes m \<le> max_media_bytes \<Longrightarrow> sm_retained_until m = now + retention l \<Longrightarrow>
     media_constraints (new_report sha i u cat lat lon d photo fp now (Some m))"
  "media_constraints (new_report sha i u cat lat lon d photo fp now None)"
  by (simp_all add: media_constraints_def new_report_def lifecycle_ok_def allowed_media_types_def
      max_media_bytes_def)

lemma new_report_sel [simp]:
  "cr_id (new_report sha i u cat lat lon d photo fp now st) = i"
  "photo_object_key (new_report sha i u cat lat lon d photo fp now st) = map_option sm_object_key st"
  "photo_deleted_at (new_report sha i u cat lat lon d photo fp now st) = None"
  by (simp_all add: new_report_def)

section \<open>The operations over any store\<close>

context report_store
begin

lemma evidence_iff:
  assumes "inv (cs_repo s)"
  shows "evidence_ok repo s \<longleftrightarrow> keyed (reports (cs_repo s)) \<and> dom (cs_objects s) = held (reports (cs_repo s))"
proof -
  have "(\<lambda>i. get_report repo i (cs_repo s)) = reports (cs_repo s)" by (rule ext) (rule get_law [OF assms])
  then show ?thesis by (simp only: evidence_ok_def)
qed

definition sound :: "'r community_state \<Rightarrow> bool" where
  "sound s \<longleftrightarrow> inv (cs_repo s) \<and> evidence_ok repo s"

lemma soundD:
  assumes "sound s"
  shows "inv (cs_repo s)" "keyed (reports (cs_repo s))" "dom (cs_objects s) = held (reports (cs_repo s))"
  using assms evidence_iff by (auto simp: sound_def)

lemma soundI:
  "inv (cs_repo s) \<Longrightarrow> keyed (reports (cs_repo s)) \<Longrightarrow> dom (cs_objects s) = held (reports (cs_repo s)) \<Longrightarrow> sound s"
  by (simp add: sound_def evidence_iff)

lemma sound_frame:
  "sound s \<Longrightarrow> inv (cs_repo s') \<Longrightarrow> reports (cs_repo s') = reports (cs_repo s) \<Longrightarrow>
     cs_objects s' = cs_objects s \<Longrightarrow> sound s'"
  by (rule soundI) (auto dest: soundD)

lemma submit_cases:
  assumes ok: "sound s" and fresh: "reports (cs_repo s) new_id = None"
    and ml: "\<And>l. ml = Some l \<Longrightarrow> lifecycle_ok repo' l \<and> definite_puts (ml_store l)"
    and run: "submit sha_text sha_bytes repo ml reporter cat lat lon desc photo ct new_id now s = (res, s')"
  shows "(\<exists>e. res = Inl e) \<and> s' = s \<or>
    (\<exists>stored r. res = Inr r \<and> sound s' \<and> reports (cs_repo s') = (reports (cs_repo s))(new_id \<mapsto> r) \<and>
       r = new_report sha_bytes new_id reporter cat lat lon (cleaned_description desc) photo
             (sha_text (fingerprint_material cat lat lon (cleaned_description desc))) now stored \<and>
       media_constraints r \<and> 12 \<le> length (description r) \<and> length (description r) \<le> 1000 \<and>
       (\<forall>i q. reports (cs_repo s) i = Some q \<longrightarrow> fingerprint q = fingerprint r \<longrightarrow>
          cr_created_at q < now - 24 * hour))"
proof -
  let ?c = "cleaned_description desc"
  let ?fp = "sha_text (fingerprint_material cat lat lon ?c)"
  note d = soundD [OF ok]
  obtain y objs where at: "attach_photo sha_bytes ml new_id photo ct now (cs_objects s) = (y, objs)" by fastforce
  consider (fail) "\<exists>e. res = Inl e" "s' = s"
    | (attach) "\<not> (length ?c < 12)" "\<not> (length ?c > 1000)"
        "find_recent_duplicate repo ?fp (now - 24 * hour) (cs_repo s) = None"
        "(case y of Inl e \<Rightarrow> (Inl e, s\<lparr>cs_objects := objs\<rparr>)
          | Inr stored \<Rightarrow> add_or_discard repo ml stored
              (new_report sha_bytes new_id reporter cat lat lon ?c photo ?fp now stored)
              (s\<lparr>cs_objects := objs\<rparr>)) = (res, s')"
    using run by (auto simp: submit_def Let_def at split: if_splits)
  then show ?thesis
  proof cases
    case attach
    have "\<forall>l. ml = Some l \<longrightarrow> definite_puts (ml_store l)" using ml by blast
    from attach_photo_cases [OF at this] show ?thesis
    proof (elim disjE)
      assume "\<exists>e. y = Inl e \<and> objs = cs_objects s"
      with attach(4) show ?thesis by auto
    next
      assume none: "y = Inr None \<and> objs = cs_objects s"
      let ?r = "new_report sha_bytes new_id reporter cat lat lon ?c photo ?fp now None"
      from add_law [OF d(1), of ?r] fresh new_report_constraints(2)
      obtain rs where rs: "add_report repo ?r (cs_repo s) = Some rs" "inv rs"
        "reports rs = (reports (cs_repo s))(new_id \<mapsto> ?r)" by auto
      with attach(4) none have res: "res = Inr ?r" "s' = s\<lparr>cs_repo := rs\<rparr>"
        by (auto simp: add_or_discard_def)
      have "sound s'"
      proof (rule soundI)
        show "inv (cs_repo s')" by (simp add: res rs(2))
        show "keyed (reports (cs_repo s'))"
          using d(2) by (auto simp: res rs(3) intro!: keyed_upd)
        show "dom (cs_objects s') = held (reports (cs_repo s'))"
          using d(3) fresh by (simp add: res rs(3) held_upd_new)
      qed
      then show ?thesis using res rs(3) attach(1-3) duplicate_law [OF d(1)] new_report_constraints(2)
        by (intro disjI2 exI [of _ None] exI [of _ ?r]) (simp add: new_report_def)
    next
      assume "\<exists>l m obj payload. y = Inr (Some m) \<and> ml = Some l \<and> photo = Some payload \<and>
       objs = (cs_objects s)(sm_object_key m \<mapsto> obj) \<and> key_ok (sm_object_key m) \<and>
       sm_object_key m = object_key new_id (sha_bytes payload) \<and> sm_content_type m \<in> allowed_media_types \<and>
       1 \<le> sm_size_bytes m \<and> sm_size_bytes m \<le> max_media_bytes \<and>
       sm_retained_until m = now + retention l"
      then obtain l m obj payload where m: "y = Inr (Some m)" "ml = Some l"
        "objs = (cs_objects s)(sm_object_key m \<mapsto> obj)" "key_ok (sm_object_key m)"
        "sm_object_key m = object_key new_id (sha_bytes payload)" "sm_content_type m \<in> allowed_media_types"
        "1 \<le> sm_size_bytes m" "sm_size_bytes m \<le> max_media_bytes" "sm_retained_until m = now + retention l"
        by blast
      let ?r = "new_report sha_bytes new_id reporter cat lat lon ?c photo ?fp now (Some m)"
      have mc: "media_constraints ?r"
        using new_report_constraints(1) [OF ml [OF m(2), THEN conjunct1] m(6-9)] .
      from add_law [OF d(1), of ?r] fresh mc
      obtain rs where rs: "add_report repo ?r (cs_repo s) = Some rs" "inv rs"
        "reports rs = (reports (cs_repo s))(new_id \<mapsto> ?r)" by auto
      with attach(4) m(1) have res: "res = Inr ?r" "s' = s\<lparr>cs_objects := objs, cs_repo := rs\<rparr>"
        by (auto simp: add_or_discard_def)
      have "sound s'"
      proof (rule soundI)
        show "inv (cs_repo s')" by (simp add: res rs(2))
        show "keyed (reports (cs_repo s'))"
        proof -
          have "keyed ((reports (cs_repo s))(new_id \<mapsto> ?r))"
          proof (rule keyed_upd [OF d(2)])
            fix k assume "photo_object_key ?r = Some k"
            then have "k = sm_object_key m" by simp
            with m(4,5) show "key_ok k \<and> (\<exists>c. k = object_key new_id c)" by metis
          qed simp
          then show ?thesis by (simp add: res rs(3))
        qed
        show "dom (cs_objects s') = held (reports (cs_repo s'))"
          using d(3) fresh by (simp add: res rs(3) m(3) held_upd_new)
      qed
      then show ?thesis using res rs(3) attach(1-3) duplicate_law [OF d(1)] mc
        by (intro disjI2 exI [of _ "Some m"] exI [of _ ?r]) (simp add: new_report_def)
    qed
  qed simp
qed

text \<open>Deleting the photo of a stored report: the object store decides.\<close>

lemma delete_report_photo_cases:
  assumes ok: "sound s" and r: "reports (cs_repo s) i = Some r" and ml: "lifecycle_ok repo ml"
    and run: "delete_report_photo ml r t s = (res, s')"
  shows "\<not> photo_available r \<and> res = Inr r \<and> s' = s \<or>
    photo_available r \<and> \<not> accepts_delete (ml_store ml) (the (photo_object_key r)) \<and>
      res = Inl (MediaStorageError ''community media deletion failed'') \<and> (definite_deletes (ml_store ml) \<longrightarrow> s' = s) \<or>
    photo_available r \<and> accepts_delete (ml_store ml) (the (photo_object_key r)) \<and>
      res = Inr (r\<lparr>photo_deleted_at := Some t\<rparr>) \<and> sound s' \<and>
      reports (cs_repo s') = (reports (cs_repo s))(i \<mapsto> r\<lparr>photo_deleted_at := Some t\<rparr>)"
proof (cases "photo_available r \<and> accepts_delete (ml_store ml) (the (photo_object_key r))")
  case False
  note d = soundD [OF ok]
  show ?thesis
  proof (cases "photo_available r")
    case True
    then obtain k where k: "photo_object_key r = Some k" by (auto simp: photo_available_def)
    with True False run keyedD(2) [OF d(2) r k] show ?thesis
      by (auto simp: delete_report_photo_def s3_delete_def definite_deletes_def)
  qed (use run in \<open>simp add: delete_report_photo_def\<close>)
next
  case True
  note d = soundD [OF ok]
  then obtain k where k: "photo_object_key r = Some k" "photo_deleted_at r = None"
    using True by (auto simp: photo_available_def)
  have id: "cr_id r = i" using key_law [OF d(1) r] .
  obtain rs where rs: "inv rs"
      "mark_photo_deleted repo i t (cs_repo s) = Some (Some (r\<lparr>photo_deleted_at := Some t\<rparr>), rs)"
      "reports rs = (reports (cs_repo s))(i \<mapsto> r\<lparr>photo_deleted_at := Some t\<rparr>)"
    using mark_law [OF d(1) r] True by blast
  have "ml_repository ml = repo" using ml by (simp add: lifecycle_ok_def)
  with run True k id rs(2) keyedD(2) [OF d(2) r k(1)]
  have res: "res = Inr (r\<lparr>photo_deleted_at := Some t\<rparr>)"
    "s' = s\<lparr>cs_repo := rs, cs_objects := (cs_objects s)(k := None)\<rparr>"
    by (auto simp: delete_report_photo_def s3_delete_def)
  have "sound s'"
  proof (rule soundI)
    show "inv (cs_repo s')" by (simp add: res rs(1))
    show "keyed (reports (cs_repo s'))"
      using keyed_upd_same [OF d(2) r, of "r\<lparr>photo_deleted_at := Some t\<rparr>"] by (simp add: res rs(3))
    show "dom (cs_objects s') = held (reports (cs_repo s'))"
      using d(3) held_upd_deleted [OF d(2) r k(1), of "r\<lparr>photo_deleted_at := Some t\<rparr>"]
      by (simp add: res rs(3))
  qed
  with True res(1) rs(3) show ?thesis by (simp add: res(2))
qed

lemma set_status_cases:
  assumes ok: "sound s" and run: "set_status repo i st m (cs_repo s) = Some (x, rs)"
  shows "x = map_option (\<lambda>r. r\<lparr>report_status := st, moderation_reason := Some m\<rparr>) (reports (cs_repo s) i)"
    and "reports rs = (reports (cs_repo s))(i := x)" and "sound (s\<lparr>cs_repo := rs\<rparr>)"
proof -
  note d = soundD [OF ok]
  let ?g = "\<lambda>r. r\<lparr>report_status := st, moderation_reason := Some m\<rparr>"
  show x: "x = map_option ?g (reports (cs_repo s) i)" and rs: "reports rs = (reports (cs_repo s))(i := x)"
    using status_law [OF d(1), of i st m] run by auto
  have inv: "inv rs" using status_law [OF d(1), of i st m] run by auto
  have same: "evidence_key x = evidence_key (reports (cs_repo s) i)"
    by (cases "reports (cs_repo s) i") (simp_all add: x evidence_key_def photo_available_def)
  show "sound (s\<lparr>cs_repo := rs\<rparr>)"
  proof (rule soundI)
    show "keyed (reports (cs_repo (s\<lparr>cs_repo := rs\<rparr>)))"
    proof (cases "reports (cs_repo s) i")
      case None
      with d(2) x show ?thesis by (simp add: rs fun_upd_idem)
    next
      case (Some r)
      with x have "x = Some (?g r)" by simp
      moreover have "keyed ((reports (cs_repo s))(i \<mapsto> ?g r))"
        by (rule keyed_upd_same [OF d(2) Some]) simp_all
      ultimately show ?thesis by (simp add: rs)
    qed
    show "dom (cs_objects (s\<lparr>cs_repo := rs\<rparr>)) = held (reports (cs_repo (s\<lparr>cs_repo := rs\<rparr>)))"
      using d(3) held_upd_same [of x "reports (cs_repo s)" i, OF same] by (simp add: rs)
  qed (simp add: inv)
qed

lemma moderate_cases:
  assumes ok: "sound s" and ml: "\<And>l. ml = Some l \<Longrightarrow> lifecycle_ok repo l"
    and run: "moderate repo ml i approved reason now s = (res, s')"
  shows "(\<exists>e. res = Inl e) \<and> ((\<forall>l. ml = Some l \<longrightarrow> definite_deletes (ml_store l)) \<longrightarrow> cs_objects s' = cs_objects s) \<or>
    (\<exists>r r'. reports (cs_repo s) i = Some r \<and> res = Inr r' \<and> sound s' \<and>
       reports (cs_repo s') = (reports (cs_repo s))(i \<mapsto> r') \<and>
       report_status r' = (if approved then PUBLISHED else REJECTED) \<and>
       reporter_id r' = reporter_id r \<and> photo_object_key r' = photo_object_key r \<and> cr_id r' = i \<and>
       (\<not> approved \<and> ml \<noteq> None \<longrightarrow> \<not> photo_available r') \<and>
       (approved \<or> ml = None \<longrightarrow> photo_deleted_at r' = photo_deleted_at r))"
proof (cases "length (py_strip reason) < 5")
  case True
  with run ok show ?thesis by (auto simp: moderate_def)
next
  case long: False
  let ?st = "if approved then PUBLISHED else REJECTED"
  obtain x rs where st: "set_status repo i ?st (py_strip reason) (cs_repo s) = Some (x, rs)"
    using status_law [OF soundD(1) [OF ok], of i ?st "py_strip reason"] by blast
  note x = set_status_cases(1) [OF ok st] and rs = set_status_cases(2) [OF ok st]
    and s1 = set_status_cases(3) [OF ok st]
  show ?thesis
  proof (cases "reports (cs_repo s) i")
    case None
    with run long st s1 x show ?thesis by (auto simp: moderate_def)
  next
    case (Some r)
    let ?r = "r\<lparr>report_status := ?st, moderation_reason := Some (py_strip reason)\<rparr>"
    let ?s1 = "s\<lparr>cs_repo := rs\<rparr>"
    have x': "x = Some ?r" using x Some by simp
    have r1: "reports (cs_repo ?s1) i = Some ?r" by (simp add: rs x')
    have id: "cr_id r = i" using key_law [OF soundD(1) [OF ok] Some] .
    obtain y s2 where del:
      "(if \<not> approved \<and> ml \<noteq> None then delete_report_photo (the ml) ?r now ?s1 else (Inr ?r, ?s1)) = (y, s2)"
      by fastforce
    have run': "(case y of Inl e \<Rightarrow> (Inl e, s2)
        | Inr r' \<Rightarrow> (case adjust_reputation repo (reporter_id r') approved (cs_repo s2) of
            None \<Rightarrow> (Inl RepositoryFailure, s2)
          | Some rs' \<Rightarrow> (Inr r', s2\<lparr>cs_repo := rs'\<rparr>))) = (res, s')"
      using run long st x' del by (simp add: moderate_def Let_def split: sum.splits)
    have rep: "\<exists>rs'. adjust_reputation repo u b (cs_repo s2) = Some rs' \<and> sound (s2\<lparr>cs_repo := rs'\<rparr>) \<and>
        reports rs' = reports (cs_repo s2)" if s2: "sound s2" for u b
    proof -
      obtain rs' where "adjust_reputation repo u b (cs_repo s2) = Some rs'" "inv rs'" "reports rs' = reports (cs_repo s2)"
        using reputation_frame [OF soundD(1) [OF s2]] by blast
      with sound_frame [OF s2, of "s2\<lparr>cs_repo := rs'\<rparr>"] show ?thesis by simp
    qed
    show ?thesis
    proof (cases "\<not> approved \<and> ml \<noteq> None")
      case False
      with del have "y = Inr ?r" "s2 = ?s1" by auto
      with run' rep [of "reporter_id ?r" approved] s1 Some id False rs x' show ?thesis by auto
    next
      case True
      then obtain l where l: "ml = Some l" by auto
      with True del have "delete_report_photo l ?r now ?s1 = (y, s2)" by simp
      from delete_report_photo_cases [OF s1 r1 ml [OF l] this] show ?thesis
      proof (elim disjE conjE)
        assume "\<not> photo_available ?r" "y = Inr ?r" "s2 = ?s1"
        with run' rep [of "reporter_id ?r" approved] s1 Some id True rs x' show ?thesis
          by (auto simp: photo_available_def)
      next
        assume "y = Inl (MediaStorageError ''community media deletion failed'')"
          "definite_deletes (ml_store l) \<longrightarrow> s2 = ?s1"
        with run' l show ?thesis by auto
      next
        assume "y = Inr (?r\<lparr>photo_deleted_at := Some now\<rparr>)" "sound s2"
          "reports (cs_repo s2) = (reports (cs_repo ?s1))(i \<mapsto> ?r\<lparr>photo_deleted_at := Some now\<rparr>)"
        with run' rep [of "reporter_id ?r" approved] Some id True rs x' show ?thesis
          by (auto simp: photo_available_def)
      qed
    qed
  qed
qed

lemma appeal_sound:
  assumes "sound s" and "appeal repo i u reason new_id now s = (res, s')"
  shows "sound s' \<and> reports (cs_repo s') = reports (cs_repo s) \<and> cs_objects s' = cs_objects s"
  using assms appeal_frame [OF soundD(1) [OF assms(1)]]
  by (auto simp: appeal_def Let_def split: option.splits if_splits intro: sound_frame [OF assms(1)])

lemma resolve_appeal_sound:
  assumes ok: "sound s" and run: "resolve_appeal repo j overturned reason now s = (res, s')"
  shows "sound s' \<and> cs_objects s' = cs_objects s"
proof (cases "length (py_strip reason) < 5")
  case True
  with run ok show ?thesis by (auto simp: resolve_appeal_def)
next
  case False
  obtain x rs where st: "resolve_stored_appeal repo j (if overturned then OVERTURNED else UPHELD)
      (py_strip reason) now (cs_repo s) = Some (x, rs)" and rs: "inv rs" "reports rs = reports (cs_repo s)"
    using resolve_frame [OF soundD(1) [OF ok]] by blast
  have s1: "sound (s\<lparr>cs_repo := rs\<rparr>)" using rs by (intro sound_frame [OF ok]) auto
  obtain y rs' where y: "set_status repo (ap_report_id (the x)) PUBLISHED
      (''Appeal overturned: '' @ py_strip reason) (cs_repo (s\<lparr>cs_repo := rs\<rparr>)) = Some (y, rs')"
    using status_law [OF soundD(1) [OF s1]] by blast
  from set_status_cases(3) [OF s1 y] have s2: "sound (s\<lparr>cs_repo := rs'\<rparr>)" by simp
  have inv: "inv rs'" using soundD(1) [OF s2] by simp
  have returns: "adjust_reputation repo u b rs' \<noteq> None" for u b using reputation_frame [OF inv, of u b] by auto
  have adjusted: "sound (s\<lparr>cs_repo := q\<rparr>)" if "adjust_reputation repo u b rs' = Some q" for u b q
    using reputation_frame [OF inv, of u b] that sound_frame [OF s2, of "s\<lparr>cs_repo := q\<rparr>"] by auto
  from run False st y s1 s2 returns show ?thesis
    by (auto simp: resolve_appeal_def dest: adjusted split: option.splits if_splits)
qed

text \<open>What one pass of the purge does to the table: a report of the batch whose object the store
  agrees to delete is marked, every other report keeps its state.\<close>

definition purged :: "'r media_lifecycle \<Rightarrow> instant \<Rightarrow> community_report list \<Rightarrow> report_table \<Rightarrow> report_table" where
  "purged ml t rs f i =
     (if \<exists>r \<in> set rs. cr_id r = i \<and> accepts_delete (ml_store ml) (the (photo_object_key r))
      then map_option (\<lambda>r. r\<lparr>photo_deleted_at := Some t\<rparr>) (f i) else f i)"

lemma purge_reports_cases:
  assumes "sound s" and "lifecycle_ok repo ml \<and> definite_deletes (ml_store ml)" and "distinct (map cr_id rs)"
    and "\<And>r. r \<in> set rs \<Longrightarrow> reports (cs_repo s) (cr_id r) = Some r \<and> photo_available r"
  shows "\<exists>d' f' s'. purge_reports ml t rs (d, f) s = (Inr (d', f'), s') \<and> sound s' \<and>
    d' + f' = d + f + length rs \<and> f' = f + length (filter (\<lambda>r. \<not> accepts_delete (ml_store ml) (the (photo_object_key r))) rs)
    \<and> reports (cs_repo s') = purged ml t rs (reports (cs_repo s))"
  using assms
proof (induction rs arbitrary: d f s)
  case Nil
  then show ?case by (simp add: purged_def fun_eq_iff)
next
  case (Cons r rs)
  let ?acc = "accepts_delete (ml_store ml) (the (photo_object_key r))"
  obtain y s1 where del: "delete_report_photo ml r t s = (y, s1)" by fastforce
  have r: "reports (cs_repo s) (cr_id r) = Some r" "photo_available r" using Cons.prems(4) [of r] by auto
  have notin: "cr_id q \<noteq> cr_id r" if "q \<in> set rs" for q using that Cons.prems(3) by (metis distinct.simps(2) image_eqI list.map(2) list.set_map)
  from delete_report_photo_cases [OF Cons.prems(1) r(1) Cons.prems(2) [THEN conjunct1] del] r(2) Cons.prems(2)
  consider (refused) "\<not> ?acc" "y = Inl (MediaStorageError ''community media deletion failed'')" "s1 = s"
    | (deleted) "?acc" "y = Inr (r\<lparr>photo_deleted_at := Some t\<rparr>)" "sound s1"
        "reports (cs_repo s1) = (reports (cs_repo s))(cr_id r \<mapsto> r\<lparr>photo_deleted_at := Some t\<rparr>)"
    by blast
  then show ?case
  proof cases
    case refused
    have pre: "\<And>q. q \<in> set rs \<Longrightarrow> reports (cs_repo s) (cr_id q) = Some q \<and> photo_available q"
      using Cons.prems(4) by simp
    from Cons.IH [OF Cons.prems(1,2) _ pre, of d "f + 1"] Cons.prems(3)
    obtain d' f' s' where *: "purge_reports ml t rs (d, f + 1) s = (Inr (d', f'), s')" "sound s'"
      "d' + f' = d + (f + 1) + length rs"
      "f' = f + 1 + length (filter (\<lambda>r. \<not> accepts_delete (ml_store ml) (the (photo_object_key r))) rs)"
      "reports (cs_repo s') = purged ml t rs (reports (cs_repo s))" by auto
    moreover have "purged ml t (r # rs) (reports (cs_repo s)) = purged ml t rs (reports (cs_repo s))"
      using refused(1) by (auto simp: purged_def fun_eq_iff)
    ultimately show ?thesis using refused del by (intro exI [of _ d'] exI [of _ f'] exI [of _ s']) simp
  next
    case deleted
    have pre: "\<And>q. q \<in> set rs \<Longrightarrow> reports (cs_repo s1) (cr_id q) = Some q \<and> photo_available q"
      using Cons.prems(4) notin by (simp add: deleted(4))
    from Cons.IH [OF deleted(3) Cons.prems(2) _ pre, of "d + 1" f] Cons.prems(3)
    obtain d' f' s' where *: "purge_reports ml t rs (d + 1, f) s1 = (Inr (d', f'), s')" "sound s'"
      "d' + f' = d + 1 + f + length rs"
      "f' = f + length (filter (\<lambda>r. \<not> accepts_delete (ml_store ml) (the (photo_object_key r))) rs)"
      "reports (cs_repo s') = purged ml t rs (reports (cs_repo s1))" by auto
    moreover have "purged ml t (r # rs) (reports (cs_repo s)) = purged ml t rs (reports (cs_repo s1))"
    proof (rule ext)
      fix i
      show "purged ml t (r # rs) (reports (cs_repo s)) i = purged ml t rs (reports (cs_repo s1)) i"
        using notin deleted(1) r(1) by (cases "i = cr_id r") (auto simp: purged_def deleted(4))
    qed
    ultimately show ?thesis using deleted(1,2) del
      by (intro exI [of _ d'] exI [of _ f'] exI [of _ s']) simp
  qed
qed

lemma purge_expired_cases:
  fixes now :: instant and limit :: int
  assumes ok: "sound s" and ml: "lifecycle_ok repo ml \<and> definite_deletes (ml_store ml)"
    and lim: "1 \<le> limit" "limit \<le> 500"
  defines "batch \<equiv> expired_media repo now (nat limit) (cs_repo s)"
  shows "\<exists>d f s'. purge_expired ml now limit s = (Inr \<lparr>scanned = length batch, deleted = d, failed = f\<rparr>, s') \<and>
    sound s' \<and> d + f = length batch \<and>
    f = length (filter (\<lambda>r. \<not> accepts_delete (ml_store ml) (the (photo_object_key r))) batch) \<and>
    reports (cs_repo s') = purged ml now batch (reports (cs_repo s))"
proof -
  have repo: "ml_repository ml = repo" using ml by (simp add: lifecycle_ok_def)
  have pre: "\<And>r. r \<in> set batch \<Longrightarrow> reports (cs_repo s) (cr_id r) = Some r \<and> photo_available r"
    using expired_sound [OF soundD(1) [OF ok]] unfolding batch_def by (auto simp: expired_evidence_def)
  have dist: "distinct (map cr_id batch)" unfolding batch_def by (rule expired_distinct [OF soundD(1) [OF ok]])
  from purge_reports_cases [OF ok ml dist pre, of now 0 0] lim show ?thesis
    by (auto simp: purge_expired_def repo batch_def [symmetric] Let_def)
qed

end

end
