(* ===== verification/Community_Faults.thy ===== *)
theory Community_Faults
  imports Community_Evidence
begin

text \<open>
  Database failures around the object store: what the operations of the service do over a repository
  whose writing calls may raise, in terms of what they do over one that executes them. A submission
  whose report cannot be added discards the photo it had stored; the other failures are contained as
  long as no photo has been deleted before them.
\<close>

lemma faulty_none: "faulty (\<lambda>_. False) repo = repo"
  by (cases repo) (simp add: faulty_def unless_fails_def)

definition over_repo :: "'r report_repository \<Rightarrow> 'r media_lifecycle \<Rightarrow> 'r media_lifecycle" where
  "over_repo repo l = l\<lparr>ml_repository := repo\<rparr>"

lemma over_repo_sel [simp]:
  "ml_repository (over_repo repo l) = repo" "ml_store (over_repo repo l) = ml_store l"
  "retention (over_repo repo l) = retention l"
  by (simp_all add: over_repo_def)

lemma over_repo_ok: "lifecycle_ok repo' l \<Longrightarrow> lifecycle_ok repo (over_repo repo l)"
  by (simp add: lifecycle_ok_def)

section \<open>Operations that succeed\<close>

lemma submit_faulty_Inr:
  "submit st sb (faulty fails repo) ml u cat lat lon d photo ct i now s = (Inr r, s') \<Longrightarrow>
     submit st sb repo ml u cat lat lon d photo ct i now s = (Inr r, s')"
  by (auto simp: submit_def add_or_discard_def Let_def unless_fails_def
      split: if_splits sum.splits option.splits prod.splits community_error.splits)

lemma appeal_faulty_Inr:
  "appeal (faulty fails repo) i u reason new_id now s = (Inr a, s') \<Longrightarrow>
     appeal repo i u reason new_id now s = (Inr a, s')"
  by (auto simp: appeal_def Let_def unless_fails_def split: if_splits option.splits)

lemma resolve_appeal_faulty_Inr:
  "resolve_appeal (faulty fails repo) j overturned reason now s = (Inr a, s') \<Longrightarrow>
     resolve_appeal repo j overturned reason now s = (Inr a, s')"
  by (auto simp: resolve_appeal_def unless_fails_def split: if_splits option.splits)

section \<open>Operations that leave the bucket alone\<close>

lemma appeal_objects: "appeal repo i u reason new_id now s = (res, s') \<Longrightarrow> cs_objects s' = cs_objects s"
  by (auto simp: appeal_def Let_def split: option.splits if_splits)

lemma resolve_appeal_objects: "resolve_appeal repo j overturned reason now s = (res, s') \<Longrightarrow> cs_objects s' = cs_objects s"
  by (auto simp: resolve_appeal_def split: option.splits if_splits)

lemma approve_objects: "moderate repo ml i True reason now s = (res, s') \<Longrightarrow> cs_objects s' = cs_objects s"
  by (auto simp: moderate_def Let_def split: option.splits if_splits)

lemma submit_plain_objects:
  "submit st sb repo None u cat lat lon d photo ct i now s = (res, s') \<Longrightarrow> cs_objects s' = cs_objects s"
  by (auto simp: submit_def add_or_discard_def attach_photo_def Let_def split: if_splits option.splits)

section \<open>Deletions over a database that marks them\<close>

lemma delete_report_photo_faulty:
  assumes "\<And>i. \<not> fails (MARK_DELETED i)" and "ml_repository l = faulty fails repo"
  shows "delete_report_photo l r t s = delete_report_photo (over_repo repo l) r t s"
proof -
  have mark: "mark_photo_deleted (faulty fails repo) = mark_photo_deleted repo"
    using assms(1) by (intro ext) (simp add: unless_fails_def)
  show ?thesis unfolding delete_report_photo_def over_repo_sel assms(2) mark by (rule refl)
qed

lemma purge_reports_faulty:
  assumes "\<And>i. \<not> fails (MARK_DELETED i)" and "ml_repository l = faulty fails repo"
  shows "purge_reports l t rs (d, f) s = purge_reports (over_repo repo l) t rs (d, f) s"
proof (induction rs arbitrary: d f s)
  case (Cons r rs)
  then show ?case
    using delete_report_photo_faulty [OF assms]
    by (simp split: prod.splits sum.splits community_error.splits)
qed simp

lemma purge_expired_faulty:
  assumes "\<And>i. \<not> fails (MARK_DELETED i)" and "ml_repository l = faulty fails repo"
  shows "purge_expired l now limit s = purge_expired (over_repo repo l) now limit s"
  using purge_reports_faulty [OF assms] by (simp add: purge_expired_def assms(2))

lemma moderate_faulty:
  assumes "\<And>l. ml = Some l \<Longrightarrow> ml_repository l = faulty fails repo"
    and "\<not> approved \<Longrightarrow> (\<forall>i. \<not> fails (MARK_DELETED i)) \<and> (\<forall>u. \<not> fails (ADJUST_REPUTATION u))"
    and run: "moderate (faulty fails repo) ml i approved reason now s = (res, s')"
  shows "moderate repo (map_option (over_repo repo) ml) i approved reason now s = (res, s')
    \<or> (\<exists>e. res = Inl e) \<and> cs_objects s' = cs_objects s"
proof (cases approved)
  case True
  with run show ?thesis
    by (auto simp: moderate_def Let_def unless_fails_def split: if_splits option.splits)
next
  case False
  with assms(2) have ok: "\<And>i. \<not> fails (MARK_DELETED i)" "\<And>u. \<not> fails (ADJUST_REPUTATION u)" by auto
  have photo: "(if \<not> approved \<and> ml \<noteq> None then delete_report_photo (the ml) r now s1 else (Inr r, s1))
      = (if \<not> approved \<and> map_option (over_repo repo) ml \<noteq> None
         then delete_report_photo (the (map_option (over_repo repo) ml)) r now s1 else (Inr r, s1))" for r s1
    using delete_report_photo_faulty [where fails = fails, OF ok(1)] assms(1) by (cases ml) auto
  show ?thesis
  proof (cases "fails (SET_STATUS i)")
    case True
    with run False show ?thesis by (auto simp: moderate_def split: if_splits)
  next
    case status: False
    have st: "set_status (faulty fails repo) i = set_status repo i" by (intro ext) (simp add: status)
    have adj: "adjust_reputation (faulty fails repo) = adjust_reputation repo" by (intro ext) (simp add: ok(2))
    have "moderate (faulty fails repo) ml i approved reason now s
        = moderate repo (map_option (over_repo repo) ml) i approved reason now s"
      unfolding moderate_def st adj photo by (rule refl)
    with run show ?thesis by simp
  qed
qed

lemma add_or_discard_faulty: "\<not> fails ADD_REPORT \<Longrightarrow> add_or_discard (faulty fails repo) = add_or_discard repo"
  by (intro ext) (simp add: add_or_discard_def unless_fails_def)

lemma submit_faulty:
  assumes "\<not> fails ADD_REPORT"
  shows "submit st sb (faulty fails repo) = submit st sb repo"
proof -
  have find: "find_recent_duplicate (faulty fails repo) = find_recent_duplicate repo" by simp
  show ?thesis by (intro ext) (unfold submit_def add_or_discard_faulty [where fails = fails, OF assms] find, rule refl)
qed

section \<open>The compensation of a failed submission\<close>

context report_store
begin

lemma submit_faulty_Inl:
  assumes ok: "sound s" and fresh: "reports (cs_repo s) i = None"
    and ml: "\<And>l. ml = Some l \<Longrightarrow> lifecycle_ok repo' l \<and> definite_puts (ml_store l)"
    and discards: "\<And>l k. ml = Some l \<Longrightarrow> fails ADD_REPORT \<Longrightarrow> accepts_delete (ml_store l) k"
    and run: "submit st sb (faulty fails repo) ml u cat lat lon desc photo ct i now s = (Inl e, s')"
  shows "cs_objects s' = cs_objects s"
proof (cases "fails ADD_REPORT")
  case False
  with run have "submit st sb repo ml u cat lat lon desc photo ct i now s = (Inl e, s')"
    by (simp add: submit_faulty)
  from submit_cases [OF ok fresh ml this] show ?thesis by auto
next
  case True
  have definite: "\<forall>l. ml = Some l \<longrightarrow> definite_puts (ml_store l)" using ml by blast
  let ?c = "cleaned_description desc"
  let ?fp = "st (fingerprint_material cat lat lon ?c)"
  obtain y objs where at: "attach_photo sb ml i photo ct now (cs_objects s) = (y, objs)" by fastforce
  consider "s' = s"
    | e' where "y = Inl e'" "s' = s\<lparr>cs_objects := objs\<rparr>"
    | stored where "y = Inr stored" "add_or_discard (faulty fails repo) ml stored
        (new_report sb i u cat lat lon ?c photo ?fp now stored) (s\<lparr>cs_objects := objs\<rparr>) = (Inl e, s')"
    using run by (auto simp: submit_def Let_def at split: if_splits sum.splits)
  then show ?thesis
  proof cases
    case 2
    with attach_photo_cases [OF at definite] show ?thesis by auto
  next
    case (3 stored)
    show ?thesis
    proof (cases stored)
      case None
      with 3 True attach_photo_cases [OF at definite] show ?thesis
        by (auto simp: add_or_discard_def)
    next
      case (Some m)
      from attach_photo_cases [OF at definite] 3(1) Some obtain l obj c where
        m: "ml = Some l" "objs = (cs_objects s)(sm_object_key m \<mapsto> obj)" "key_ok (sm_object_key m)"
          "sm_object_key m = object_key i c" by auto
      have new: "cs_objects s (sm_object_key m) = None"
      proof (rule ccontr)
        assume "cs_objects s (sm_object_key m) \<noteq> None"
        then have "sm_object_key m \<in> held (reports (cs_repo s))" using soundD(3) [OF ok] by blast
        then obtain j r where r: "reports (cs_repo s) j = Some r" "photo_object_key r = Some (sm_object_key m)"
          by (rule heldE)
        from keyedD(3) [OF soundD(2) [OF ok] r] m(4) have "j = i" by (auto dest: object_key_inj)
        with r(1) fresh show False by simp
      qed
      have "cs_objects s' = objs(sm_object_key m := None)"
        using 3(2) True discards [OF m(1) True] m(1,3) Some
        by (auto simp: add_or_discard_def s3_delete_def)
      with m(2) new show ?thesis by (simp add: fun_upd_idem)
    qed
  qed simp
qed

end

end
