(* ===== verification/Community_Http.thy ===== *)
theory Community_Http
  imports Community_Faults Admin
begin

text \<open>
  The endpoints of community reports (\<open>app/presentation/api/routes/community.py\<close>) over any
  report repository, each in the transaction of its request, and the properties of the
  component. A rolled-back request restores the database; the bucket is not part of the
  transaction. A request may meet failing database calls and an object store that refuses, or fails
  after the fact; which of these faults the code contains is part of what is proved.
\<close>

section \<open>Wiring\<close>

datatype image_check = InvalidImage | ImageSize nat nat | ImageFailure

text \<open>\<open>ce_bucket\<close> is the object store when a bucket is configured, \<open>ce_image\<close> what opening and
  verifying a picture gives.\<close>

record community_env =
  ce_sha_text :: "string \<Rightarrow> string"
  ce_sha_bytes :: "8 word list \<Rightarrow> string"
  ce_bucket :: "s3_client option"
  ce_days :: int
  ce_image :: "8 word list \<Rightarrow> image_check"

record 'r community_db =
  cd_community :: "'r community_state"
  cd_trail :: "admin_audit_record list"

definition server_error :: http_error where
  "server_error = http_exception 500 ''Unexpected server error.''"

definition invalid_request :: http_error where
  "invalid_request = http_exception 422 ''Invalid request.''"

definition media_lifecycle_for ::
  "community_env \<Rightarrow> 'r report_repository \<Rightarrow> http_error + 'r media_lifecycle option" where
  "media_lifecycle_for env repo =
     (case ce_bucket env of
        None \<Rightarrow> Inr None
      | Some client \<Rightarrow>
          (case media_lifecycle_init repo client (ce_days env) of
             Inl _ \<Rightarrow> Inl server_error
           | Inr ml \<Rightarrow> Inr (Some ml)))"

definition community_transaction ::
  "'r community_db \<Rightarrow> (http_error + 'a) \<times> 'r community_db \<Rightarrow> (http_error + 'a) \<times> 'r community_db" where
  "community_transaction db res =
     (case res of
        (Inl e, db') \<Rightarrow>
          (Inl e, db\<lparr>cd_community := (cd_community db)\<lparr>cs_objects := cs_objects (cd_community db')\<rparr>\<rparr>)
      | (Inr x, db') \<Rightarrow> (Inr x, db'))"

text \<open>A service call and, when it succeeds, the audit record of the handler.\<close>

definition run_community ::
  "(community_error \<Rightarrow> http_error) \<Rightarrow> ('a \<Rightarrow> admin_audit_record list \<Rightarrow> admin_audit_record list) \<Rightarrow>
     ('r community_state \<Rightarrow> (community_error + 'a) \<times> 'r community_state) \<Rightarrow> 'r community_db \<Rightarrow>
     (http_error + 'a) \<times> 'r community_db" where
  "run_community f trail op db =
     community_transaction db
       (case op (cd_community db) of
          (Inl e, c) \<Rightarrow> (Inl (f e), db\<lparr>cd_community := c\<rparr>)
        | (Inr x, c) \<Rightarrow> (Inr x, db\<lparr>cd_community := c, cd_trail := trail x (cd_trail db)\<rparr>))"

definition unaudited :: "'a \<Rightarrow> admin_audit_record list \<Rightarrow> admin_audit_record list" where
  "unaudited _ trail = trail"

fun submit_error :: "community_error \<Rightarrow> http_error" where
  "submit_error (DuplicateReportError m) = http_exception 409 m"
| "submit_error (InvalidReportError m) = http_exception 422 m"
| "submit_error _ = server_error"

fun photo_error :: "community_error \<Rightarrow> http_error" where
  "photo_error (MediaStorageError _) = http_exception 503 ''community media storage unavailable''"
| "photo_error e = submit_error e"

fun moderate_error :: "community_error \<Rightarrow> http_error" where
  "moderate_error (InvalidReportError m) = http_exception 404 m"
| "moderate_error (MediaStorageError _) = http_exception 503 ''community media deletion unavailable''"
| "moderate_error _ = server_error"

fun access_error :: "community_error \<Rightarrow> http_error" where
  "access_error (MediaUnavailableError m) = http_exception 404 m"
| "access_error (MediaStorageError _) = http_exception 503 ''community media access unavailable''"
| "access_error _ = server_error"

fun resolve_error :: "community_error \<Rightarrow> http_error" where
  "resolve_error (InvalidReportError m) = http_exception 404 m"
| "resolve_error _ = server_error"

section \<open>Endpoints\<close>

text \<open>\<open>found\<close> is what the dependency \<open>current_user\<close> or \<open>privileged_user\<close> answered; the bounds
  checked first are those of the request model.\<close>

definition report_create_ok :: "pyfloat \<Rightarrow> pyfloat \<Rightarrow> string \<Rightarrow> bool" where
  "report_create_ok lat lon desc =
     (fbetween (-90) lat 90 \<and> fbetween (-180) lon 180 \<and> 12 \<le> length desc \<and> length desc \<le> 1000)"

definition submit_report ::
  "community_env \<Rightarrow> 'r report_repository \<Rightarrow> http_error + user \<Rightarrow> report_category \<Rightarrow> pyfloat \<Rightarrow> pyfloat \<Rightarrow>
     string \<Rightarrow> uuid \<Rightarrow> instant \<Rightarrow> 'r community_db \<Rightarrow> (http_error + community_report) \<times> 'r community_db" where
  "submit_report env repo found cat lat lon desc new_id now db =
     (case found of
        Inl e \<Rightarrow> (Inl e, db)
      | Inr u \<Rightarrow>
          if \<not> report_create_ok lat lon desc then (Inl invalid_request, db)
          else run_community submit_error unaudited
            (submit (ce_sha_text env) (ce_sha_bytes env) repo None (user_id u) cat lat lon desc
               None None new_id now) db)"

definition submit_report_with_photo ::
  "community_env \<Rightarrow> 'r report_repository \<Rightarrow> http_error + user \<Rightarrow> report_category \<Rightarrow> pyfloat \<Rightarrow> pyfloat \<Rightarrow>
     string \<Rightarrow> 8 word list \<Rightarrow> string \<Rightarrow> uuid \<Rightarrow> instant \<Rightarrow> 'r community_db \<Rightarrow>
     (http_error + community_report) \<times> 'r community_db" where
  "submit_report_with_photo env repo found cat lat lon desc upload ctype new_id now db =
     (case found of
        Inl e \<Rightarrow> (Inl e, db)
      | Inr u \<Rightarrow>
          if \<not> report_create_ok lat lon desc then (Inl invalid_request, db)
          else if ctype \<notin> {''image/jpeg'', ''image/png'', ''image/webp''}
          then (Inl (http_exception 415 ''unsupported image type''), db)
          else
            let payload = take (10 * 1024 * 1024 + 1) upload in
            if payload = [] \<or> length payload > 10 * 1024 * 1024
            then (Inl (http_exception 413 ''image exceeds 10 MB''), db)
            else case ce_image env payload of
              InvalidImage \<Rightarrow> (Inl (http_exception 422 ''invalid image''), db)
            | ImageFailure \<Rightarrow> (Inl server_error, db)
            | ImageSize w h \<Rightarrow>
                if w * h > 24000000 then (Inl (http_exception 413 ''image exceeds 24 MP''), db)
                else case media_lifecycle_for env repo of
                  Inl e \<Rightarrow> (Inl e, db)
                | Inr ml \<Rightarrow>
                    run_community photo_error unaudited
                      (submit (ce_sha_text env) (ce_sha_bytes env) repo ml (user_id u) cat lat lon desc
                         (Some payload) (Some ctype) new_id now) db)"

text \<open>The lifecycle an endpoint of media builds itself: 503 without a bucket.\<close>

definition required_lifecycle ::
  "community_env \<Rightarrow> 'r report_repository \<Rightarrow> http_error + 'r media_lifecycle" where
  "required_lifecycle env repo =
     (case media_lifecycle_for env repo of
        Inl e \<Rightarrow> Inl e
      | Inr None \<Rightarrow> Inl (http_exception 503 ''community media storage is disabled'')
      | Inr (Some ml) \<Rightarrow> Inr ml)"

definition purge_report_media ::
  "community_env \<Rightarrow> 'r report_repository \<Rightarrow> http_error + user \<Rightarrow> int \<Rightarrow> uuid \<Rightarrow> instant \<Rightarrow>
     'r community_db \<Rightarrow> (http_error + purge_result) \<times> 'r community_db" where
  "purge_report_media env repo found limit audit_id now db =
     (case found of
        Inl e \<Rightarrow> (Inl e, db)
      | Inr actor \<Rightarrow>
          if \<not> (1 \<le> limit \<and> limit \<le> 500) then (Inl invalid_request, db)
          else case required_lifecycle env repo of
            Inl e \<Rightarrow> (Inl e, db)
          | Inr ml \<Rightarrow>
              run_community (\<lambda>_. server_error)
                (\<lambda>_ trail. snd (append_record (ce_sha_text env) (user_id actor) ''community.media_purged''
                   None audit_id now trail))
                (purge_expired ml now limit) db)"

definition moderation_queue ::
  "'r report_repository \<Rightarrow> http_error + user \<Rightarrow> int \<Rightarrow> 'r community_db \<Rightarrow>
     http_error + community_report list" where
  "moderation_queue repo found limit db =
     (case found of
        Inl e \<Rightarrow> Inl e
      | Inr _ \<Rightarrow>
          if \<not> (1 \<le> limit \<and> limit \<le> 100) then Inl invalid_request
          else Inr (pending repo (nat limit) (cs_repo (cd_community db))))"

definition access_report_media ::
  "community_env \<Rightarrow> 'r report_repository \<Rightarrow> http_error + user \<Rightarrow> uuid \<Rightarrow> int \<Rightarrow> uuid \<Rightarrow> instant \<Rightarrow>
     'r community_db \<Rightarrow> (http_error + access_grant) \<times> 'r community_db" where
  "access_report_media env repo found report_id seconds audit_id now db =
     (case found of
        Inl e \<Rightarrow> (Inl e, db)
      | Inr actor \<Rightarrow>
          if \<not> (30 \<le> seconds \<and> seconds \<le> 300) then (Inl invalid_request, db)
          else case required_lifecycle env repo of
            Inl e \<Rightarrow> (Inl e, db)
          | Inr ml \<Rightarrow>
              run_community access_error
                (\<lambda>_ trail. snd (append_record (ce_sha_text env) (user_id actor) ''community.media_accessed''
                   (Some report_id) audit_id now trail))
                (\<lambda>s. (create_access_grant ml report_id now seconds s, s)) db)"

definition moderate_report ::
  "community_env \<Rightarrow> 'r report_repository \<Rightarrow> http_error + user \<Rightarrow> uuid \<Rightarrow> bool \<Rightarrow> string \<Rightarrow> uuid \<Rightarrow>
     instant \<Rightarrow> 'r community_db \<Rightarrow> (http_error + community_report) \<times> 'r community_db" where
  "moderate_report env repo found report_id approved reason audit_id now db =
     (case found of
        Inl e \<Rightarrow> (Inl e, db)
      | Inr actor \<Rightarrow>
          if \<not> (5 \<le> length reason \<and> length reason \<le> 500) then (Inl invalid_request, db)
          else case media_lifecycle_for env repo of
            Inl e \<Rightarrow> (Inl e, db)
          | Inr ml \<Rightarrow>
              run_community moderate_error
                (\<lambda>r trail. snd (append_record (ce_sha_text env) (user_id actor)
                   (if approved then ''community.report_approved'' else ''community.report_rejected'')
                   (Some (cr_id r)) audit_id now trail))
                (moderate repo ml report_id approved reason now) db)"

definition appeal_report ::
  "'r report_repository \<Rightarrow> http_error + user \<Rightarrow> uuid \<Rightarrow> string \<Rightarrow> uuid \<Rightarrow> instant \<Rightarrow> 'r community_db \<Rightarrow>
     (http_error + report_appeal) \<times> 'r community_db" where
  "appeal_report repo found report_id reason new_id now db =
     (case found of
        Inl e \<Rightarrow> (Inl e, db)
      | Inr u \<Rightarrow>
          if \<not> (12 \<le> length reason \<and> length reason \<le> 1000) then (Inl invalid_request, db)
          else run_community submit_error unaudited
            (appeal repo report_id (user_id u) reason new_id now) db)"

definition resolve_appeal_endpoint ::
  "community_env \<Rightarrow> 'r report_repository \<Rightarrow> http_error + user \<Rightarrow> uuid \<Rightarrow> bool \<Rightarrow> string \<Rightarrow> uuid \<Rightarrow>
     instant \<Rightarrow> 'r community_db \<Rightarrow> (http_error + report_appeal) \<times> 'r community_db" where
  "resolve_appeal_endpoint env repo found appeal_id overturned reason audit_id now db =
     (case found of
        Inl e \<Rightarrow> (Inl e, db)
      | Inr actor \<Rightarrow>
          if \<not> (5 \<le> length reason \<and> length reason \<le> 500) then (Inl invalid_request, db)
          else run_community resolve_error
            (\<lambda>a trail. snd (append_record (ce_sha_text env) (user_id actor)
               (if overturned then ''community.appeal_overturned'' else ''community.appeal_upheld'')
               (Some (ap_report_id a)) audit_id now trail))
            (resolve_appeal repo appeal_id overturned reason now) db)"

section \<open>Requests\<close>

definition error_of :: "'e + 'a \<Rightarrow> 'e option" where
  "error_of r = (case r of Inl e \<Rightarrow> Some e | Inr _ \<Rightarrow> None)"

lemma error_of_simps [simp]: "error_of (Inl e) = Some e" "error_of (Inr x) = None"
  by (simp_all add: error_of_def)

datatype community_call =
    Submit "http_error + user" report_category pyfloat pyfloat string uuid instant
  | SubmitPhoto "http_error + user" report_category pyfloat pyfloat string "8 word list" string uuid instant
  | Purge "http_error + user" int uuid instant
  | Access "http_error + user" uuid int uuid instant
  | Moderate "http_error + user" uuid bool string uuid instant
  | Appeal "http_error + user" uuid string uuid instant
  | Resolve "http_error + user" uuid bool string uuid instant

definition answered :: "('e + 'a) \<times> 's \<Rightarrow> 'e option \<times> 's" where
  "answered out = (error_of (fst out), snd out)"

fun serve ::
  "community_env \<Rightarrow> 'r report_repository \<Rightarrow> community_call \<Rightarrow> 'r community_db \<Rightarrow> http_error option \<times> 'r community_db" where
  "serve env repo (Submit found cat lat lon desc i now) db =
     answered (submit_report env repo found cat lat lon desc i now db)"
| "serve env repo (SubmitPhoto found cat lat lon desc upload ctype i now) db =
     answered (submit_report_with_photo env repo found cat lat lon desc upload ctype i now db)"
| "serve env repo (Purge found limit audit_id now) db = answered (purge_report_media env repo found limit audit_id now db)"
| "serve env repo (Access found i seconds audit_id now) db =
     answered (access_report_media env repo found i seconds audit_id now db)"
| "serve env repo (Moderate found i approved reason audit_id now) db =
     answered (moderate_report env repo found i approved reason audit_id now db)"
| "serve env repo (Appeal found i reason new_id now) db = answered (appeal_report repo found i reason new_id now db)"
| "serve env repo (Resolve found j overturned reason audit_id now) db =
     answered (resolve_appeal_endpoint env repo found j overturned reason audit_id now db)"

text \<open>The identifier that a submission draws is new.\<close>

fun draws_new :: "'r report_repository \<Rightarrow> community_call \<Rightarrow> 'r community_db \<Rightarrow> bool" where
  "draws_new repo (Submit found cat lat lon desc i now) db = (get_report repo i (cs_repo (cd_community db)) = None)"
| "draws_new repo (SubmitPhoto found cat lat lon desc upload ctype i now) db =
     (get_report repo i (cs_repo (cd_community db)) = None)"
| "draws_new repo call db = True"

text \<open>The calls of the object store that fail have no effect.\<close>

definition definite :: "community_env \<Rightarrow> bool" where
  "definite env \<longleftrightarrow> (\<forall>c. ce_bucket env = Some c \<longrightarrow> definite_puts c \<and> definite_deletes c)"

text \<open>One request of any client over a database that executes every statement, with the error it
  answers; the object store may accept or refuse anything.\<close>

inductive community_request ::
  "'r report_repository \<Rightarrow> 'r community_db \<Rightarrow> http_error option \<Rightarrow> 'r community_db \<Rightarrow> bool"
  for repo where
  served: "draws_new repo call db \<Longrightarrow> definite env \<Longrightarrow> serve env repo call db = (e, db') \<Longrightarrow>
    community_request repo db e db'"

inductive community_history :: "'r report_repository \<Rightarrow> 'r \<Rightarrow> 'r community_db \<Rightarrow> bool"
  for repo start0 where
  start: "community_history repo start0
    \<lparr>cd_community = \<lparr>cs_repo = start0, cs_objects = Map.empty\<rparr>, cd_trail = trail\<rparr>"
| step: "community_history repo start0 db \<Longrightarrow> community_request repo db e db' \<Longrightarrow>
    community_history repo start0 db'"

subsection \<open>Requests that meet faults\<close>

text \<open>The calls that write to the bucket, or may.\<close>

fun touches_bucket :: "community_call \<Rightarrow> bool" where
  "touches_bucket (SubmitPhoto found cat lat lon desc upload ctype i now) = True"
| "touches_bucket (Purge found limit audit_id now) = True"
| "touches_bucket (Moderate found i approved reason audit_id now) = (\<not> approved)"
| "touches_bucket call = False"

text \<open>
  The faults that a request contains: any failing database call but one that comes after the deletion
  of a photo (marking it deleted, or the reputation in a rejection), and any refusal of the object store
  but that of the deletion which compensates for a report that could not be added. A call of the object
  store that fails has no effect.
\<close>

definition contained :: "community_env \<Rightarrow> (db_call \<Rightarrow> bool) \<Rightarrow> community_call \<Rightarrow> bool" where
  "contained env fails call \<longleftrightarrow> definite env
     \<and> (\<forall>c k. ce_bucket env = Some c \<longrightarrow> fails ADD_REPORT \<longrightarrow> accepts_delete c k)
     \<and> (touches_bucket call \<longrightarrow> (\<forall>i. \<not> fails (MARK_DELETED i)) \<and> (\<forall>u. \<not> fails (ADJUST_REPUTATION u)))"

definition rolled_back :: "'r community_db \<Rightarrow> 'r community_db \<Rightarrow> 'r community_db" where
  "rolled_back db db1 = db\<lparr>cd_community := (cd_community db)\<lparr>cs_objects := cs_objects (cd_community db1)\<rparr>\<rparr>"

text \<open>
  A request with its faults and whether they are contained: one that is served over a failing
  database; one in which a read fails, before anything is written; and one whose audit record or commit
  fails after the service has answered, which is contained where the bucket was not touched.
\<close>

inductive faulty_request ::
  "'r report_repository \<Rightarrow> bool \<Rightarrow> 'r community_db \<Rightarrow> http_error option \<Rightarrow> 'r community_db \<Rightarrow> bool"
  for repo where
  served: "draws_new repo call db \<Longrightarrow> serve env (faulty fails repo) call db = (e, db') \<Longrightarrow>
    faulty_request repo (contained env fails call) db e db'"
| unread: "faulty_request repo True db (Some server_error) db"
| uncommitted: "draws_new repo call db \<Longrightarrow> serve env (faulty fails repo) call db = (None, db1) \<Longrightarrow>
    faulty_request repo (\<not> touches_bucket call) db (Some server_error) (rolled_back db db1)"

inductive contained_history :: "'r report_repository \<Rightarrow> 'r \<Rightarrow> 'r community_db \<Rightarrow> bool"
  for repo start0 where
  start: "contained_history repo start0
    \<lparr>cd_community = \<lparr>cs_repo = start0, cs_objects = Map.empty\<rparr>, cd_trail = trail\<rparr>"
| step: "contained_history repo start0 db \<Longrightarrow> faulty_request repo True db e db' \<Longrightarrow>
    contained_history repo start0 db'"

lemma community_request_faulty:
  assumes "community_request repo db e db'"
  shows "faulty_request repo True db e db'"
  using assms
proof cases
  case (served call env)
  have "contained env (\<lambda>_. False) call" using served(2) by (simp add: contained_def)
  with faulty_request.served [of repo call db env "\<lambda>_. False" e db'] served(1,3) show ?thesis
    by (simp add: faulty_none)
qed

lemma community_history_contained: "community_history repo start0 db \<Longrightarrow> contained_history repo start0 db"
  by (induction rule: community_history.induct)
    (blast intro: contained_history.intros community_request_faulty)+

lemma run_community_Inr:
  "run_community f tr op db = (Inr v, db') \<Longrightarrow>
     op (cd_community db) = (Inr v, cd_community db') \<and> cd_trail db' = tr v (cd_trail db)"
  by (auto simp: run_community_def community_transaction_def split: prod.splits sum.splits)

lemma run_community_Inl:
  assumes "run_community f tr op db = (Inl e, db')"
    and "\<And>e c. op (cd_community db) = (Inl e, c) \<Longrightarrow> cs_objects c = cs_objects (cd_community db)"
  shows "db' = db"
  using assms by (auto simp: run_community_def community_transaction_def split: prod.splits sum.splits)

lemma media_lifecycle_for_Inr:
  "media_lifecycle_for env repo = Inr ml \<Longrightarrow> ml = Some l \<Longrightarrow> lifecycle_ok repo l"
  by (auto simp: media_lifecycle_for_def dest: lifecycle_ok_init split: option.splits sum.splits)

lemma media_lifecycle_for_store:
  "media_lifecycle_for env repo = Inr ml \<Longrightarrow> map_option ml_store ml = ce_bucket env"
  by (auto simp: media_lifecycle_for_def dest: lifecycle_ok_init split: option.splits sum.splits)

lemma required_lifecycle_Inr:
  "required_lifecycle env repo = Inr l \<Longrightarrow> lifecycle_ok repo l \<and> ce_bucket env = Some (ml_store l)"
  by (auto simp: required_lifecycle_def dest: media_lifecycle_for_Inr media_lifecycle_for_store
      split: option.splits sum.splits)

lemma run_community_objects:
  "(\<And>res s'. op (cd_community db) = (res, s') \<Longrightarrow> cs_objects s' = cs_objects (cd_community db)) \<Longrightarrow>
     cs_objects (cd_community (snd (run_community f tr op db))) = cs_objects (cd_community db)"
  by (auto simp: run_community_def community_transaction_def split: prod.splits sum.splits)

lemma serve_objects:
  assumes "\<not> touches_bucket call" and "serve env repo call db = (e, db')"
  shows "cs_objects (cd_community db') = cs_objects (cd_community db)"
proof (cases call)
  case (Submit found cat lat lon desc i now)
  with assms(2) show ?thesis
    by (auto simp: answered_def submit_report_def intro: submit_plain_objects
        intro!: run_community_objects split: sum.splits if_splits)
next
  case (Access found i seconds audit_id now)
  with assms(2) show ?thesis
    by (auto simp: answered_def access_report_media_def intro!: run_community_objects
        split: sum.splits if_splits)
next
  case (Moderate found i approved reason audit_id now)
  with assms show ?thesis
    by (auto simp: answered_def moderate_report_def intro: approve_objects
        intro!: run_community_objects split: sum.splits if_splits)
next
  case (Appeal found i reason new_id now)
  with assms(2) show ?thesis
    by (auto simp: answered_def appeal_report_def intro: appeal_objects
        intro!: run_community_objects split: sum.splits if_splits)
next
  case (Resolve found j overturned reason audit_id now)
  with assms(2) show ?thesis
    by (auto simp: answered_def resolve_appeal_endpoint_def intro: resolve_appeal_objects
        intro!: run_community_objects split: sum.splits if_splits)
qed (use assms(1) in simp_all)

text \<open>An error leaves the database as it was, whatever the faults.\<close>

definition undone :: "'r community_db \<Rightarrow> (http_error + 'x) \<times> 'r community_db \<Rightarrow> bool" where
  "undone db out \<longleftrightarrow> (\<forall>e. fst out = Inl e \<longrightarrow>
     cs_repo (cd_community (snd out)) = cs_repo (cd_community db) \<and> cd_trail (snd out) = cd_trail db)"

lemma undone_error: "undone db (Inl e, db)"
  by (simp add: undone_def)

lemma undone_run: "undone db (run_community f tr op db)"
  by (auto simp: undone_def run_community_def community_transaction_def split: prod.splits sum.splits)

lemma answered_undone:
  "undone db out \<Longrightarrow> answered out = (Some e, db') \<Longrightarrow>
     cs_repo (cd_community db') = cs_repo (cd_community db) \<and> cd_trail db' = cd_trail db"
  by (auto simp: undone_def answered_def error_of_def split: sum.splits)

lemmas undone_intros = undone_error undone_run

lemma endpoints_undone:
  "undone db (submit_report env repo found cat lat lon desc i now db)"
  "undone db (submit_report_with_photo env repo found cat lat lon desc upload ctype i now db)"
  "undone db (purge_report_media env repo found limit audit_id now db)"
  "undone db (access_report_media env repo found i seconds audit_id now db)"
  "undone db (moderate_report env repo found i approved reason audit_id now db)"
  "undone db (appeal_report repo found i reason new_id now db)"
  "undone db (resolve_appeal_endpoint env repo found j overturned reason audit_id now db)"
  by (auto simp: submit_report_def submit_report_with_photo_def purge_report_media_def access_report_media_def
      moderate_report_def appeal_report_def resolve_appeal_endpoint_def Let_def intro!: undone_intros
      split: sum.split image_check.split)

lemma serve_error:
  assumes "serve env repo call db = (Some e, db')"
  shows "cs_repo (cd_community db') = cs_repo (cd_community db) \<and> cd_trail db' = cd_trail db"
  using assms by (cases call) (auto dest!: answered_undone [OF endpoints_undone(1)] answered_undone [OF endpoints_undone(2)]
      answered_undone [OF endpoints_undone(3)] answered_undone [OF endpoints_undone(4)]
      answered_undone [OF endpoints_undone(5)] answered_undone [OF endpoints_undone(6)]
      answered_undone [OF endpoints_undone(7)])

lemma faulty_request_error:
  assumes "faulty_request repo b db (Some e) db'"
  shows "cs_repo (cd_community db') = cs_repo (cd_community db) \<and> cd_trail db' = cd_trail db"
  using assms by cases (auto simp: rolled_back_def dest: serve_error)

context report_store
begin

text \<open>A service call that leaves the bucket alone when it fails and keeps the invariant when it does
  not.\<close>

definition safe_op :: "('r community_state \<Rightarrow> (community_error + 'x) \<times> 'r community_state) \<Rightarrow>
    'r community_state \<Rightarrow> bool" where
  "safe_op op s \<longleftrightarrow> (\<forall>x s'. op s = (Inr x, s') \<longrightarrow> sound s')
     \<and> (\<forall>e s'. op s = (Inl e, s') \<longrightarrow> cs_objects s' = cs_objects s)"

definition kept :: "'r community_db \<Rightarrow> (http_error + 'x) \<times> 'r community_db \<Rightarrow> bool" where
  "kept db out \<longleftrightarrow> sound (cd_community (snd out)) \<and> (\<forall>e. fst out = Inl e \<longrightarrow> snd out = db)"

lemma kept_error: "sound (cd_community db) \<Longrightarrow> kept db (Inl e, db)"
  by (simp add: kept_def)

lemma kept_run:
  assumes ok: "sound (cd_community db)" and op: "safe_op op (cd_community db)"
  shows "kept db (run_community f tr op db)"
proof -
  obtain res db' where run: "run_community f tr op db = (res, db')" by fastforce
  show ?thesis
  proof (cases res)
    case (Inl e)
    with run run_community_Inl [of f tr op db e db'] op have "db' = db" by (auto simp: safe_op_def)
    with ok Inl run show ?thesis by (simp add: kept_def)
  next
    case (Inr v)
    with run run_community_Inr [of f tr op db v db'] op show ?thesis by (auto simp: safe_op_def kept_def)
  qed
qed

lemma submit_safe:
  assumes "sound s" "reports (cs_repo s) new_id = None"
    and "\<And>l. ml = Some l \<Longrightarrow> lifecycle_ok repo' l \<and> definite_puts (ml_store l)"
    and "\<And>l k. ml = Some l \<Longrightarrow> fails ADD_REPORT \<Longrightarrow> accepts_delete (ml_store l) k"
  shows "safe_op (submit st sb (faulty fails repo) ml u cat lat lon desc photo ct new_id now) s"
  unfolding safe_op_def
proof (intro conjI allI impI)
  fix r s' assume "submit st sb (faulty fails repo) ml u cat lat lon desc photo ct new_id now s = (Inr r, s')"
  from submit_cases [OF assms(1-3) submit_faulty_Inr [OF this]] show "sound s'" by auto
next
  fix e s' assume "submit st sb (faulty fails repo) ml u cat lat lon desc photo ct new_id now s = (Inl e, s')"
  from submit_faulty_Inl [OF assms this] show "cs_objects s' = cs_objects s" .
qed

lemma purge_safe:
  assumes ok: "sound s" and ml: "lifecycle_ok (faulty fails repo) ml" "definite_deletes (ml_store ml)"
    and marks: "\<And>i. \<not> fails (MARK_DELETED i)"
  shows "safe_op (purge_expired ml now limit) s"
proof -
  have repo: "ml_repository ml = faulty fails repo" using ml(1) by (simp add: lifecycle_ok_def)
  note eq = purge_expired_faulty [OF marks repo, of now limit]
  have ml': "lifecycle_ok repo (over_repo repo ml) \<and> definite_deletes (ml_store (over_repo repo ml))"
    using over_repo_ok [OF ml(1)] ml(2) by simp
  show ?thesis
  proof (cases "1 \<le> limit \<and> limit \<le> 500")
    case True
    with purge_expired_cases [OF ok ml', of limit now] show ?thesis unfolding safe_op_def eq by fastforce
  next
    case False
    with ok show ?thesis by (auto simp: safe_op_def purge_expired_def)
  qed
qed

lemma moderate_safe:
  assumes ok: "sound s"
    and ml: "\<And>l. ml = Some l \<Longrightarrow> lifecycle_ok (faulty fails repo) l \<and> definite_deletes (ml_store l)"
    and fails: "\<not> approved \<Longrightarrow> (\<forall>i. \<not> fails (MARK_DELETED i)) \<and> (\<forall>u. \<not> fails (ADJUST_REPUTATION u))"
  shows "safe_op (moderate (faulty fails repo) ml i approved reason now) s"
proof -
  have step: "(\<forall>x. res = Inr x \<longrightarrow> sound s') \<and> (\<forall>e. res = Inl e \<longrightarrow> cs_objects s' = cs_objects s)"
    if run: "moderate (faulty fails repo) ml i approved reason now s = (res, s')" for res s'
  proof -
    have repo: "ml_repository l = faulty fails repo" if "ml = Some l" for l
      using ml [OF that] by (simp add: lifecycle_ok_def)
    have ml': "lifecycle_ok repo l" "definite_deletes (ml_store l)"
      if "map_option (over_repo repo) ml = Some l" for l
      using that ml over_repo_ok by auto
    from moderate_faulty [OF repo fails run] show ?thesis
    proof
      assume "moderate repo (map_option (over_repo repo) ml) i approved reason now s = (res, s')"
      from moderate_cases [OF ok ml'(1) this] ml'(2) show ?thesis by auto
    next
      assume "(\<exists>e. res = Inl e) \<and> cs_objects s' = cs_objects s"
      then show ?thesis by auto
    qed
  qed
  then show ?thesis unfolding safe_op_def by blast
qed

lemma appeal_safe: "sound s \<Longrightarrow> safe_op (appeal (faulty fails repo) i u reason new_id now) s"
  unfolding safe_op_def by (auto dest!: appeal_faulty_Inr dest: appeal_sound appeal_objects)

lemma resolve_safe: "sound s \<Longrightarrow> safe_op (resolve_appeal (faulty fails repo) j overturned reason now) s"
  unfolding safe_op_def by (auto dest!: resolve_appeal_faulty_Inr dest: resolve_appeal_sound resolve_appeal_objects)

lemma access_safe: "sound s \<Longrightarrow> safe_op (\<lambda>s. (create_access_grant ml i now seconds s, s)) s"
  unfolding safe_op_def by auto

lemma submit_report_kept:
  assumes ok: "sound (cd_community db)" and new: "get_report repo new_id (cs_repo (cd_community db)) = None"
  shows "kept db (submit_report env (faulty fails repo) found cat lat lon desc new_id now db)"
    and "definite env \<Longrightarrow> (\<And>c k. ce_bucket env = Some c \<Longrightarrow> fails ADD_REPORT \<Longrightarrow> accepts_delete c k) \<Longrightarrow>
      kept db (submit_report_with_photo env (faulty fails repo) found cat lat lon desc upload ctype new_id now db)"
proof -
  have fresh: "reports (cs_repo (cd_community db)) new_id = None"
    using new get_law [OF soundD(1) [OF ok]] by simp
  show "kept db (submit_report env (faulty fails repo) found cat lat lon desc new_id now db)"
    unfolding submit_report_def
    by (auto intro!: kept_error kept_run submit_safe ok fresh split: sum.split)
  assume store: "definite env" "\<And>c k. ce_bucket env = Some c \<Longrightarrow> fails ADD_REPORT \<Longrightarrow> accepts_delete c k"
  have ml: "lifecycle_ok (faulty fails repo) l \<and> definite_puts (ml_store l)"
      "fails ADD_REPORT \<Longrightarrow> accepts_delete (ml_store l) k"
    if "media_lifecycle_for env (faulty fails repo) = Inr (Some l)" for l k
    using media_lifecycle_for_Inr [OF that] media_lifecycle_for_store [OF that] store
    by (auto simp: definite_def)
  show "kept db (submit_report_with_photo env (faulty fails repo) found cat lat lon desc upload ctype new_id now db)"
    unfolding submit_report_with_photo_def Let_def
    by (auto intro!: kept_error kept_run submit_safe [where repo' = "faulty fails repo"] ok fresh
        dest: ml split: sum.split image_check.split)
qed

lemma purge_report_media_kept:
  assumes ok: "sound (cd_community db)" and env: "definite env" and marks: "\<And>i. \<not> fails (MARK_DELETED i)"
  shows "kept db (purge_report_media env (faulty fails repo) found limit audit_id now db)"
proof -
  have ml: "lifecycle_ok (faulty fails repo) l" "definite_deletes (ml_store l)"
    if "required_lifecycle env (faulty fails repo) = Inr l" for l
    using required_lifecycle_Inr [OF that] env by (auto simp: definite_def)
  have safe: "safe_op (purge_expired l now limit) (cd_community db)"
    if "required_lifecycle env (faulty fails repo) = Inr l" for l
    by (rule purge_safe [OF ok ml [OF that] marks])
  show ?thesis unfolding purge_report_media_def
    by (auto intro!: kept_error kept_run safe ok split: sum.split)
qed

lemma access_report_media_kept:
  "sound (cd_community db) \<Longrightarrow> kept db (access_report_media env repo' found i seconds audit_id now db)"
  unfolding access_report_media_def by (auto intro!: kept_error kept_run access_safe split: sum.split)

lemma moderate_report_kept:
  assumes ok: "sound (cd_community db)" and env: "definite env"
    and fails: "\<not> approved \<Longrightarrow> (\<forall>i. \<not> fails (MARK_DELETED i)) \<and> (\<forall>u. \<not> fails (ADJUST_REPUTATION u))"
  shows "kept db (moderate_report env (faulty fails repo) found i approved reason audit_id now db)"
proof -
  have ml: "lifecycle_ok (faulty fails repo) l \<and> definite_deletes (ml_store l)"
    if "media_lifecycle_for env (faulty fails repo) = Inr ml" "ml = Some l" for ml l
    using media_lifecycle_for_Inr [OF that] media_lifecycle_for_store [OF that(1)] that(2) env
    by (auto simp: definite_def)
  have safe: "safe_op (moderate (faulty fails repo) ml i b reason now) (cd_community db)"
    if "media_lifecycle_for env (faulty fails repo) = Inr ml" "b = approved" for ml b
    unfolding that(2) by (rule moderate_safe [OF ok ml [OF that(1)] fails])
  show ?thesis unfolding moderate_report_def
    by (auto intro!: kept_error kept_run safe ok split: sum.split)
qed

lemma appeal_endpoints_kept:
  assumes ok: "sound (cd_community db)"
  shows "kept db (appeal_report (faulty fails repo) found i reason new_id now db)"
    and "kept db (resolve_appeal_endpoint env (faulty fails repo) found j overturned reason audit_id now db)"
  unfolding appeal_report_def resolve_appeal_endpoint_def
  by (auto intro!: kept_error kept_run appeal_safe resolve_safe ok split: sum.split)

lemma answered_kept:
  "kept db out \<Longrightarrow> answered out = (e, db') \<Longrightarrow> sound (cd_community db') \<and> (e \<noteq> None \<longrightarrow> db' = db)"
  by (auto simp: kept_def answered_def error_of_def split: sum.splits)

lemma serve_kept:
  assumes ok: "sound (cd_community db)" and new: "draws_new repo call db" and c: "contained env fails call"
    and run: "serve env (faulty fails repo) call db = (e, db')"
  shows "sound (cd_community db') \<and> (e \<noteq> None \<longrightarrow> db' = db)"
proof -
  from c have env: "definite env" and put: "\<And>c k. ce_bucket env = Some c \<Longrightarrow> fails ADD_REPORT \<Longrightarrow> accepts_delete c k"
    and after: "touches_bucket call \<Longrightarrow> (\<forall>i. \<not> fails (MARK_DELETED i)) \<and> (\<forall>u. \<not> fails (ADJUST_REPUTATION u))"
    unfolding contained_def by blast+
  show ?thesis
  proof (cases call)
    case (Submit found cat lat lon desc i now)
    with new run show ?thesis by (intro answered_kept [OF submit_report_kept(1) [OF ok]]) auto
  next
    case (SubmitPhoto found cat lat lon desc upload ctype i now)
    with new run show ?thesis by (intro answered_kept [OF submit_report_kept(2) [OF ok _ env put]]) auto
  next
    case (Purge found limit audit_id now)
    with run after show ?thesis by (intro answered_kept [OF purge_report_media_kept [OF ok env]]) auto
  next
    case (Access found i seconds audit_id now)
    with run show ?thesis by (intro answered_kept [OF access_report_media_kept [OF ok]]) auto
  next
    case (Moderate found i approved reason audit_id now)
    with run after show ?thesis by (intro answered_kept [OF moderate_report_kept [OF ok env]]) auto
  next
    case (Appeal found i reason new_id now)
    with run show ?thesis by (intro answered_kept [OF appeal_endpoints_kept(1) [OF ok]]) auto
  next
    case (Resolve found j overturned reason audit_id now)
    with run show ?thesis by (intro answered_kept [OF appeal_endpoints_kept(2) [OF ok]]) auto
  qed
qed

lemma request_safe:
  assumes "faulty_request repo b db e db'" and b and ok: "sound (cd_community db)"
  shows "sound (cd_community db') \<and> (e \<noteq> None \<longrightarrow> db' = db)"
  using assms(1)
proof cases
  case (served call env fails)
  with \<open>b\<close> serve_kept [OF ok] show ?thesis by blast
next
  case (uncommitted call env fails db1)
  then have "\<not> touches_bucket call" using \<open>b\<close> by simp
  then have "cs_objects (cd_community db1) = cs_objects (cd_community db)"
    using uncommitted serve_objects by blast
  then have "db' = db" unfolding uncommitted by (simp add: rolled_back_def)
  with ok show ?thesis by simp
qed (use ok in simp)

lemma history_sound:
  assumes "contained_history repo start0 db" and "inv start0" and "\<And>i. reports start0 i = None"
  shows "sound (cd_community db)"
  using assms(1)
proof induction
  case (start trail)
  have "reports start0 = Map.empty" using assms(3) by auto
  with assms(2) show ?case by (intro soundI) (auto simp: keyed_def held_def)
next
  case (step db e db')
  then show ?case using request_safe by blast
qed

end

section \<open>Sample data\<close>

definition sql_start :: sql_community where
  "sql_start = \<lparr>report_rows = [], reputation_rows = Map.empty, appeal_rows = []\<rparr>"

lemma key_ok_object_key:
  assumes "CHR ''.'' \<notin> set c"
  shows "key_ok (object_key i c)"
proof -
  have "CHR ''.'' \<notin> set (uuid_str i)"
  proof -
    have "c \<noteq> CHR ''.''" if "c \<in> set (hex_fixed k n)" for c k n
      using that
    proof (induction k arbitrary: n)
      case (Suc k)
      have "digit_char (n mod 16) \<noteq> CHR ''.''"
        using hex_value_digit_char [of "n mod 16"] by (auto simp: hex_value_def)
      with Suc show ?case by auto
    qed simp
    then show ?thesis
      by (auto simp: uuid_str_def uuid_hex_def Let_def dest!: in_set_takeD in_set_dropD)
  qed
  with assms have "CHR ''.'' \<notin> set (object_key i c)" by (simp add: object_key_def)
  then have "\<not> str_in ''..'' (object_key i c)" by (auto simp: str_in_iff)
  then show ?thesis by (simp add: key_ok_def object_key_def)
qed

definition sample_client :: s3_client where
  "sample_client = \<lparr>accepts_put = (\<lambda>_. True), put_lands = (\<lambda>_. False), accepts_delete = (\<lambda>_. True), delete_lands = (\<lambda>_. False), presign = (\<lambda>_ _. None)\<rparr>"

definition sample_community_env :: community_env where
  "sample_community_env = \<lparr>ce_sha_text = (\<lambda>_. ''f''), ce_sha_bytes = (\<lambda>_. ''c''),
     ce_bucket = Some sample_client, ce_days = 30, ce_image = (\<lambda>_. ImageSize 10 10)\<rparr>"

definition sample_moderator :: user where
  "sample_moderator = sample_admin"

definition community_start :: "sql_community community_db" where
  "community_start = \<lparr>cd_community = \<lparr>cs_repo = sql_start, cs_objects = Map.empty\<rparr>, cd_trail = []\<rparr>"

definition sample_stored :: stored_media where
  "sample_stored = \<lparr>sm_object_key = object_key 5 ''c'', sm_content_type = ''image/png'', sm_size_bytes = 1,
     sm_retained_until = 30 * day\<rparr>"

definition sample_report :: community_report where
  "sample_report = new_report (\<lambda>_. ''c'') 5 7 TOWING (Fin 1) (Fin 2) ''no parking here'' (Some [1]) ''f'' 0
     (Some sample_stored)"

definition sample_object :: media_object where
  "sample_object = \<lparr>mo_payload = [1], mo_content_type = ''image/png'', mo_checksum = ''c'',
     mo_retained_until = 30 * day\<rparr>"

definition sample_db :: "sql_community community_db" where
  "sample_db = \<lparr>cd_community = \<lparr>cs_repo = sql_start\<lparr>report_rows := [sample_report]\<rparr>,
     cs_objects = [object_key 5 ''c'' \<mapsto> sample_object]\<rparr>, cd_trail = []\<rparr>"

lemma cleaned_sample: "cleaned_description ''no parking here'' = ''no parking here''" by code_simp

lemma sample_submit:
  "submit_report_with_photo sample_community_env sql_report_repository (Inr sample_moderator) TOWING
     (Fin 1) (Fin 2) ''no parking here'' [1] ''image/png'' 5 0 community_start = (Inr sample_report, sample_db)"
proof -
  have mc: "media_constraints sample_report"
    by (simp add: media_constraints_def sample_report_def new_report_def sample_stored_def)
  have st: "store_media (\<lambda>_. ''c'') \<lparr>ml_repository = sql_report_repository, ml_store = sample_client, retention = 30 * day\<rparr>
      5 [1] ''image/png'' ''c'' 0 Map.empty = (Inr sample_stored, [object_key 5 ''c'' \<mapsto> sample_object])"
    by (simp add: store_media_def allowed_media_types_def max_media_bytes_def s3_put_def key_ok_object_key
        sample_client_def sample_stored_def sample_object_def Let_def)
  have dup: "find_recent_duplicate sql_report_repository ''f'' t sql_start = None" for t
    by (simp add: sql_report_repository_def sql_find_recent_duplicate_def sql_start_def)
  have add: "add_report sql_report_repository sample_report sql_start = Some (sql_start\<lparr>report_rows := [sample_report]\<rparr>)"
    using mc by (simp add: sql_report_repository_def sql_add_report_def sql_start_def)
  have "user_id sample_moderator = 7" by (simp add: sample_moderator_def sample_admin_def)
  with st dup add show ?thesis
    by (simp add: submit_report_with_photo_def report_create_ok_def sample_community_env_def Let_def
        media_lifecycle_for_def media_lifecycle_init_def run_community_def submit_def cleaned_sample
        attach_photo_def add_or_discard_def community_start_def sample_report_def [symmetric] unaudited_def
        community_transaction_def sample_db_def)
qed

lemma sample_definite: "definite sample_community_env"
  by (simp add: definite_def sample_community_env_def sample_client_def definite_puts_def definite_deletes_def)

lemma sample_history: "community_history sql_report_repository sql_start sample_db"
proof -
  have "community_history sql_report_repository sql_start community_start"
    unfolding community_start_def by (rule community_history.start)
  moreover have "get_report sql_report_repository 5 (cs_repo (cd_community community_start)) = None"
    by (simp add: community_start_def sql_start_def sql_report_repository_def sql_get_report_def)
  with sample_submit sample_definite have "community_request sql_report_repository community_start None sample_db"
    by (intro community_request.served [where env = sample_community_env and call = "SubmitPhoto (Inr sample_moderator)
          TOWING (Fin 1) (Fin 2) ''no parking here'' [1] ''image/png'' 5 0"]) (simp_all add: answered_def)
  ultimately show ?thesis by (rule community_history.step)
qed

section \<open>Properties\<close>

abbreviation sql_rows :: "sql_community community_db \<Rightarrow> community_report list" where
  "sql_rows db \<equiv> report_rows (cs_repo (cd_community db))"

lemma sql_contained_sound:
  "contained_history sql_report_repository sql_start db \<Longrightarrow> sql_reports.sound (cd_community db)"
  by (erule sql_reports.history_sound) (simp_all add: sql_start_def report_rows_ok_def sql_get_report_def)

lemma sql_history_sound:
  "community_history sql_report_repository sql_start db \<Longrightarrow> sql_reports.sound (cd_community db)"
  by (rule sql_contained_sound) (rule community_history_contained)

lemma sql_soundD:
  assumes "sql_reports.sound (cd_community db)"
  shows "report_rows_ok (cs_repo (cd_community db))"
    and "keyed (\<lambda>i. sql_get_report i (cs_repo (cd_community db)))"
    and "dom (cs_objects (cd_community db)) = held (\<lambda>i. sql_get_report i (cs_repo (cd_community db)))"
  using sql_reports.soundD [OF assms] by simp_all

text \<open>
  C14: Photo evidence and reports agree in every state that the community requests reach, through any
  faults they contain: an object is in the bucket exactly when some report's row names it and is not
  marked deleted, and no two rows name the same object. Database calls may fail and the object store may
  refuse calls; in particular a photo that was stored before its report could not be added is discarded
  again. Not contained, and excluded, are in a request that may change the bucket a failure to mark a
  photo deleted, to adjust a reputation, to record the audit or to commit, further a failing call of the
  object store that took effect all the same, and a refusal of the discarding deletion itself. Account
  erasure is not a community request.
\<close>

theorem evidence_matches_reports:
  assumes "contained_history sql_report_repository sql_start db"
  shows "(k \<in> dom (cs_objects (cd_community db)) \<longleftrightarrow>
           (\<exists>r \<in> set (sql_rows db). photo_object_key r = Some k \<and> photo_deleted_at r = None)) \<and>
         (\<forall>r \<in> set (sql_rows db). \<forall>q \<in> set (sql_rows db).
            photo_object_key r = Some k \<longrightarrow> photo_object_key q = Some k \<longrightarrow> r = q)"
proof -
  note d = sql_soundD [OF sql_contained_sound [OF assms]]
  note get = sql_get_iff [OF d(1)]
  have "k \<in> dom (cs_objects (cd_community db)) \<longleftrightarrow>
      (\<exists>r \<in> set (sql_rows db). photo_object_key r = Some k \<and> photo_deleted_at r = None)"
    unfolding d(3) held_def evidence_key_Some by (auto simp: get)
  moreover have "r = q" if "r \<in> set (sql_rows db)" "q \<in> set (sql_rows db)"
      "photo_object_key r = Some k" "photo_object_key q = Some k" for r q
  proof -
    have at: "sql_get_report (cr_id r) (cs_repo (cd_community db)) = Some r"
      "sql_get_report (cr_id q) (cs_repo (cd_community db)) = Some q" using that by (simp_all add: get)
    from keyed_same_key [OF d(2) at that(3,4)] have "cr_id r = cr_id q" .
    with at show "r = q" by (metis option.inject)
  qed
  ultimately show ?thesis by blast
qed

text \<open>A submission whose report cannot be added, after one that succeeded: the photo that it had stored
  is discarded.\<close>

abbreviation failing_add :: "db_call \<Rightarrow> bool" where
  "failing_add \<equiv> (\<lambda>c. c = ADD_REPORT)"

definition second_call :: community_call where
  "second_call = SubmitPhoto (Inr sample_moderator) TOWING (Fin 1) (Fin 2) ''no parking here'' [1] ''image/png'' 6 (2 * day)"

lemma failing_submission:
  "serve sample_community_env (faulty failing_add sql_report_repository) second_call sample_db
     = (Some server_error, sample_db)"
proof -
  have st: "store_media (\<lambda>_. ''c'') \<lparr>ml_repository = r, ml_store = sample_client, retention = 30 * day\<rparr>
      6 [1] ''image/png'' ''c'' (2 * day) objs = (Inr \<lparr>sm_object_key = object_key 6 ''c'', sm_content_type = ''image/png'',
        sm_size_bytes = 1, sm_retained_until = 32 * day\<rparr>, objs(object_key 6 ''c'' \<mapsto> \<lparr>mo_payload = [1],
          mo_content_type = ''image/png'', mo_checksum = ''c'', mo_retained_until = 32 * day\<rparr>))"
    for r :: "sql_community report_repository" and objs
    by (simp add: store_media_def allowed_media_types_def max_media_bytes_def s3_put_def key_ok_object_key
        sample_client_def Let_def)
  have dup: "find_recent_duplicate sql_report_repository ''f'' (2 * day - 24 * hour)
      (sql_start\<lparr>report_rows := [sample_report]\<rparr>) = None"
    by (simp add: sql_report_repository_def sql_find_recent_duplicate_def sample_report_def new_report_def)
  have "object_key 6 ''c'' \<noteq> object_key 5 ''c''" using object_key_inj by fastforce
  then have gone: "[object_key 5 ''c'' \<mapsto> sample_object](object_key 6 ''c'' \<mapsto> x, object_key 6 ''c'' := None)
      = [object_key 5 ''c'' \<mapsto> sample_object]" for x by (auto simp: fun_eq_iff)
  show ?thesis
    using st dup gone
    by (simp add: second_call_def answered_def submit_report_with_photo_def report_create_ok_def sample_community_env_def
        Let_def media_lifecycle_for_def media_lifecycle_init_def run_community_def submit_def cleaned_sample
        attach_photo_def add_or_discard_def s3_delete_def key_ok_object_key sample_client_def sample_db_def
        community_transaction_def)
qed

lemma second_call_new: "draws_new sql_report_repository second_call sample_db"
  by (simp add: second_call_def sample_db_def sql_start_def sql_report_repository_def sql_get_report_def
      sample_report_def)

lemma second_call_contained: "contained sample_community_env failing_add second_call"
  using sample_definite by (simp add: contained_def sample_community_env_def sample_client_def)

lemma failing_request: "faulty_request sql_report_repository True sample_db (Some server_error) sample_db"
  using faulty_request.served [OF second_call_new failing_submission] second_call_contained by simp

lemma sample_contained: "contained_history sql_report_repository sql_start sample_db"
  using community_history_contained [OF sample_history] failing_request by (rule contained_history.step)

theorem evidence_matches_reports_witness:
  "object_key 5 ''c'' \<in> dom (cs_objects (cd_community sample_db)) \<longleftrightarrow>
     (\<exists>r \<in> set (sql_rows sample_db). photo_object_key r = Some (object_key 5 ''c'') \<and> photo_deleted_at r = None)"
  using evidence_matches_reports [OF sample_contained, of "object_key 5 ''c''"] by blast

text \<open>
  C15: A community request that is answered with an error changes nothing. Whatever faults it meets, no
  row, no appeal, no reputation and no audit record changes. If its faults are contained, and those of
  the requests before it, no object in the bucket changes either: a submission that fails after its
  photo was stored discards it.
\<close>

theorem failed_community_requests_change_nothing:
  assumes "faulty_request sql_report_repository b db (Some e) db'"
  shows "cs_repo (cd_community db') = cs_repo (cd_community db) \<and> cd_trail db' = cd_trail db
    \<and> (b \<and> contained_history sql_report_repository sql_start db \<longrightarrow> db' = db)"
  using faulty_request_error [OF assms] sql_reports.request_safe [OF assms] sql_contained_sound by blast

theorem failed_community_requests_change_nothing_witness:
  "\<exists>db'. serve sample_community_env (faulty failing_add sql_report_repository) second_call sample_db
     = (Some server_error, db') \<and> cs_objects (cd_community db') = [object_key 5 ''c'' \<mapsto> sample_object]"
proof -
  from failing_submission obtain db' where run: "serve sample_community_env (faulty failing_add sql_report_repository)
    second_call sample_db = (Some server_error, db')" by blast
  from faulty_request.served [OF second_call_new run] second_call_contained
  have "faulty_request sql_report_repository True sample_db (Some server_error) db'" by simp
  from failed_community_requests_change_nothing [OF this] sample_contained have "db' = sample_db" by blast
  with run show ?thesis by (simp add: sample_db_def)
qed

lemma sample_unknown_report:
  "fst (moderate_report sample_community_env sql_report_repository (Inr sample_moderator) 9 False
     ''fake sign'' 1 0 sample_db) = Inl (http_exception 404 ''report not found'')"
proof -
  have "py_strip ''fake sign'' = ''fake sign''" by code_simp
  moreover have "set_status sql_report_repository 9 st m (sql_start\<lparr>report_rows := [sample_report]\<rparr>)
      = Some (None, sql_start\<lparr>report_rows := [sample_report]\<rparr>)" for st m
    by (simp add: sql_report_repository_def sql_set_status_def sql_update_where_def sql_get_report_def
        sample_report_def)
  ultimately show ?thesis
    by (simp add: moderate_report_def sample_community_env_def media_lifecycle_for_def
        media_lifecycle_init_def run_community_def moderate_def sample_db_def community_transaction_def)
qed

lemma card_expired:
  assumes "report_rows_ok s"
  shows "length (filter (expired_evidence t) (report_rows s)) =
    card {i. \<exists>r. sql_get_report i s = Some r \<and> expired_evidence t r}"
proof -
  let ?xs = "filter (expired_evidence t) (report_rows s)"
  have "distinct (map cr_id ?xs)" using assms by (simp add: report_rows_ok_def distinct_map_filter)
  then have "length ?xs = card (set (map cr_id ?xs))" by (metis distinct_card length_map)
  also have "set (map cr_id ?xs) = {i. \<exists>r. sql_get_report i s = Some r \<and> expired_evidence t r}"
    by (auto simp: sql_get_iff [OF assms])
  finally show ?thesis .
qed

lemma expired_after_purge:
  fixes now :: instant
  assumes ok: "report_rows_ok s" "report_rows_ok s'" and acc: "\<And>k. accepts_delete (ml_store ml) k"
    and batch: "batch = take n (sort_key (retained_or now) (filter (expired_evidence now) (report_rows s)))"
    and after: "(\<lambda>i. sql_get_report i s') = sql_reports.purged ml now batch (\<lambda>i. sql_get_report i s)"
  shows "length (filter (expired_evidence now) (report_rows s')) =
    length (filter (expired_evidence now) (report_rows s)) - n"
proof -
  let ?E = "\<lambda>f. {i. \<exists>r. f i = Some r \<and> expired_evidence now r}"
  let ?f = "\<lambda>i. sql_get_report i s"
  have dist: "distinct (map cr_id batch)"
    unfolding batch by (rule expired_list(2) [OF ok(1) [unfolded report_rows_ok_def] sql_get_iff [OF ok(1)]])
  have "sql_get_report (cr_id r) s = Some r \<and> expired_evidence now r" if "r \<in> set batch" for r
    using that unfolding batch
    by (rule expired_list(1) [OF ok(1) [unfolded report_rows_ok_def] sql_get_iff [OF ok(1)]])
  then have sub: "set (map cr_id batch) \<subseteq> ?E ?f" by fastforce
  have at: "sql_get_report i s' = (if i \<in> set (map cr_id batch)
      then map_option (\<lambda>r. r\<lparr>photo_deleted_at := Some now\<rparr>) (?f i) else ?f i)" for i
    using fun_cong [OF after, of i] by (auto simp: sql_reports.purged_def acc)
  have E': "?E (\<lambda>i. sql_get_report i s') = ?E ?f - set (map cr_id batch)"
  proof (rule set_eqI)
    fix i
    have "\<not> expired_evidence now (r\<lparr>photo_deleted_at := Some now\<rparr>)" for r
      by (simp add: expired_evidence_def photo_available_def)
    then show "i \<in> ?E (\<lambda>i. sql_get_report i s') \<longleftrightarrow> i \<in> ?E ?f - set (map cr_id batch)"
      by (cases "i \<in> set (map cr_id batch)") (auto simp: at)
  qed
  have "length (filter (expired_evidence now) (report_rows s')) = card (?E ?f - set (map cr_id batch))"
    using card_expired [OF ok(2), of now] by (simp add: E')
  also have "\<dots> = card (?E ?f) - card (set (map cr_id batch))"
    using sub by (intro card_Diff_subset) auto
  also have "card (set (map cr_id batch)) = length batch" using dist by (metis distinct_card length_map)
  also have "card (?E ?f) - length batch = length (filter (expired_evidence now) (report_rows s)) - n"
    using card_expired [OF ok(1), of now] by (simp add: batch)
  finally show ?thesis .
qed

text \<open>
  C16: The retention purge makes progress. For a privileged actor, a configured bucket that
  accepts deletions and a limit in range, the endpoint answers, every report it scanned lost its
  photo, and the number of reports with evidence past its deadline falls by the limit (to zero
  when there were no more).
\<close>

theorem purge_drains_expired_evidence:
  assumes hist: "community_history sql_report_repository sql_start db"
    and env: "ce_bucket env = Some client" "1 \<le> ce_days env" "ce_days env \<le> 30"
    and acc: "\<And>k. accepts_delete client k"
    and lim: "1 \<le> limit" "limit \<le> 500"
  shows "\<exists>res db'. purge_report_media env sql_report_repository (Inr actor) limit audit_id now db = (Inr res, db')
    \<and> failed res = 0 \<and> deleted res = scanned res
    \<and> length (filter (expired_evidence now) (sql_rows db'))
        = length (filter (expired_evidence now) (sql_rows db)) - nat limit"
proof -
  let ?c = "cd_community db" and ?repo = sql_report_repository
  have ok: "sql_reports.sound ?c" by (rule sql_history_sound [OF hist])
  obtain ml where ml: "required_lifecycle env ?repo = Inr ml" "lifecycle_ok ?repo ml" "ml_store ml = client"
    using env by (auto simp: required_lifecycle_def media_lifecycle_for_def media_lifecycle_init_def lifecycle_ok_def)
  let ?batch = "expired_media ?repo now (nat limit) (cs_repo ?c)"
  have ml': "lifecycle_ok ?repo ml \<and> definite_deletes (ml_store ml)"
    using ml(2,3) acc by (simp add: definite_deletes_def)
  from sql_reports.purge_expired_cases [OF ok ml' lim, of now]
  obtain d f c' where p: "purge_expired ml now limit ?c = (Inr \<lparr>scanned = length ?batch, deleted = d, failed = f\<rparr>, c')"
    "sql_reports.sound c'" "d + f = length ?batch" "f = 0"
    "(\<lambda>i. sql_get_report i (cs_repo c')) = sql_reports.purged ml now ?batch (\<lambda>i. sql_get_report i (cs_repo ?c))"
    by (auto simp: ml(3) acc)
  have batch: "?batch = take (nat limit) (sort_key (retained_or now) (filter (expired_evidence now) (sql_rows db)))"
    by (simp add: sql_report_repository_def sql_expired_media_def)
  have "length (filter (expired_evidence now) (report_rows (cs_repo c')))
      = length (filter (expired_evidence now) (sql_rows db)) - nat limit"
    by (rule expired_after_purge [OF sql_reports.soundD(1) [OF ok] sql_reports.soundD(1) [OF p(2)] _ batch p(5)])
       (simp add: ml(3) acc)
  then show ?thesis
    using p(1,3,4) ml(1) lim
    by (simp add: purge_report_media_def run_community_def community_transaction_def)
qed

theorem purge_drains_expired_evidence_witness:
  "\<exists>res db'. purge_report_media sample_community_env sql_report_repository (Inr sample_moderator) 10 9
       (30 * day) sample_db = (Inr res, db') \<and> failed res = 0 \<and> deleted res = scanned res
     \<and> filter (expired_evidence (30 * day)) (sql_rows db') = []"
proof -
  have "length (filter (expired_evidence (30 * day)) (sql_rows sample_db)) \<le> 1"
    by (simp add: sample_db_def)
  then show ?thesis
    using purge_drains_expired_evidence [OF sample_history, of sample_community_env sample_client 10
        sample_moderator 9 "30 * day"]
    by (auto simp: sample_community_env_def sample_client_def)
qed

text \<open>
  C17: A rejection removes the evidence. When a moderator rejects a report and a bucket is
  configured, the stored report is rejected and has no available photo, the bucket holds nothing
  under that report's identifier, and the trail ends with the record of the rejection by that
  moderator.
\<close>

theorem rejection_removes_evidence:
  assumes hist: "community_history sql_report_repository sql_start db"
    and bucket: "ce_bucket env \<noteq> None"
    and run: "moderate_report env sql_report_repository (Inr actor) i False reason audit_id now db = (Inr r, db')"
  shows "r \<in> set (sql_rows db') \<and> cr_id r = i \<and> report_status r = REJECTED \<and> \<not> photo_available r
    \<and> cs_objects (cd_community db') (object_key i c) = None
    \<and> (\<exists>a. cd_trail db' = cd_trail db @ [a] \<and> actor_id a = user_id actor
          \<and> action a = ''community.report_rejected'' \<and> subject_id a = Some i)"
proof -
  let ?c = "cd_community db" and ?repo = sql_report_repository
  have ok: "sql_reports.sound ?c" by (rule sql_history_sound [OF hist])
  from run obtain ml where ml: "media_lifecycle_for env ?repo = Inr ml"
    and run': "run_community moderate_error
      (\<lambda>r trail. snd (append_record (ce_sha_text env) (user_id actor) ''community.report_rejected''
         (Some (cr_id r)) audit_id now trail)) (moderate ?repo ml i False reason now) db = (Inr r, db')"
    by (auto simp: moderate_report_def split: if_splits sum.splits)
  have some: "ml \<noteq> None" using media_lifecycle_for_store [OF ml] bucket by auto
  note m = run_community_Inr [OF run']
  from sql_reports.moderate_cases [OF ok media_lifecycle_for_Inr [OF ml] conjunct1 [OF m]] some
  have r: "sql_reports.sound (cd_community db')" "cr_id r = i" "report_status r = REJECTED"
    "\<not> photo_available r" "sql_get_report i (cs_repo (cd_community db')) = Some r"
    by (auto simp: fun_eq_iff)
  note d = sql_soundD [OF r(1)]
  have "cs_objects (cd_community db') (object_key i c) = None"
  proof (rule ccontr)
    assume "\<not> ?thesis"
    then have "object_key i c \<in> held (\<lambda>i. sql_get_report i (cs_repo (cd_community db')))"
      using d(3) by auto
    then obtain j q where q: "sql_get_report j (cs_repo (cd_community db')) = Some q"
      "photo_object_key q = Some (object_key i c)" "photo_deleted_at q = None" by (rule heldE)
    from keyedD(3) [OF d(2) q(1,2)] have "j = i" by (auto dest: object_key_inj)
    with q r(4,5) show False by (simp add: photo_available_def)
  qed
  then show ?thesis using r sql_get_iff [OF d(1)] conjunct2 [OF m]
    by (auto simp: append_record_def Let_def)
qed

lemma sample_rejection:
  "\<exists>r db'. moderate_report sample_community_env sql_report_repository (Inr sample_moderator) 5 False
     ''fake sign'' 1 0 sample_db = (Inr r, db') \<and> cs_objects (cd_community db') = Map.empty"
proof -
  have strip: "py_strip ''fake sign'' = ''fake sign''" by code_simp
  let ?r = "sample_report\<lparr>report_status := REJECTED, moderation_reason := Some ''fake sign''\<rparr>"
  let ?rs = "sql_start\<lparr>report_rows := [?r]\<rparr>"
  have id: "cr_id sample_report = 5" by (simp add: sample_report_def)
  have st: "set_status sql_report_repository 5 REJECTED ''fake sign'' (sql_start\<lparr>report_rows := [sample_report]\<rparr>)
      = Some (Some ?r, ?rs)"
    by (simp add: sql_report_repository_def sql_set_status_def sql_update_where_def sql_get_report_def id)
  have av: "photo_available ?r" "photo_object_key ?r = Some (object_key 5 ''c'')" "photo_deleted_at ?r = None"
    by (simp_all add: photo_available_def sample_report_def sample_stored_def)
  obtain q rs where mk: "mark_photo_deleted sql_report_repository 5 0 ?rs = Some (Some q, rs)"
    using av(3) by (simp add: sql_report_repository_def sql_mark_photo_deleted_def sql_update_where_def
        sql_get_report_def id)
  have "key_ok (object_key 5 ''c'')" by (rule key_ok_object_key) simp
  moreover obtain rs' where adj: "adjust_reputation sql_report_repository (reporter_id q) False rs = Some rs'"
    by (simp add: sql_report_repository_def)
  ultimately show ?thesis using strip st mk adj id av
    by (auto simp: moderate_report_def sample_community_env_def media_lifecycle_for_def
        media_lifecycle_init_def run_community_def moderate_def sample_db_def community_transaction_def
        delete_report_photo_def s3_delete_def sample_client_def)
qed

theorem rejection_removes_evidence_witness:
  "\<exists>r db'. moderate_report sample_community_env sql_report_repository (Inr sample_moderator) 5 False
     ''fake sign'' 1 0 sample_db = (Inr r, db') \<and> report_status r = REJECTED \<and> \<not> photo_available r
     \<and> cs_objects (cd_community db') (object_key 5 ''c'') = None"
proof -
  have bucket: "ce_bucket sample_community_env \<noteq> None" by (simp add: sample_community_env_def)
  from sample_rejection obtain r db' where run: "moderate_report sample_community_env
      sql_report_repository (Inr sample_moderator) 5 False ''fake sign'' 1 0 sample_db = (Inr r, db')"
    by blast
  from rejection_removes_evidence [OF sample_history bucket run, of "''c''"] run show ?thesis by blast
qed

section \<open>Faults that are not contained\<close>

text \<open>A commit that fails after the photo of a report was stored leaves the photo without a report, and
  a database that fails after the photo of a rejected report was deleted leaves a report that still
  offers it.\<close>

lemma uncommitted_submission_orphans_a_photo:
  "\<exists>db'. faulty_request sql_report_repository False community_start (Some server_error) db'
     \<and> sql_rows db' = [] \<and> object_key 5 ''c'' \<in> dom (cs_objects (cd_community db'))"
proof -
  let ?call = "SubmitPhoto (Inr sample_moderator) TOWING (Fin 1) (Fin 2) ''no parking here'' [1] ''image/png'' 5 0"
  have "draws_new sql_report_repository ?call community_start"
    by (simp add: community_start_def sql_start_def sql_report_repository_def sql_get_report_def)
  moreover have "serve sample_community_env (faulty (\<lambda>_. False) sql_report_repository) ?call community_start = (None, sample_db)"
    using sample_submit by (simp add: faulty_none answered_def)
  ultimately have "faulty_request sql_report_repository (\<not> touches_bucket ?call) community_start (Some server_error)
      (rolled_back community_start sample_db)"
    by (rule faulty_request.uncommitted)
  then show ?thesis
    by (intro exI [of _ "rolled_back community_start sample_db"])
      (simp add: rolled_back_def community_start_def sample_db_def sql_start_def)
qed

lemma unmarked_deletion_loses_a_photo:
  "\<exists>db' r. faulty_request sql_report_repository False sample_db (Some server_error) db'
     \<and> r \<in> set (sql_rows db') \<and> photo_available r \<and> the (photo_object_key r) \<notin> dom (cs_objects (cd_community db'))"
proof -
  let ?call = "Moderate (Inr sample_moderator) 5 False ''fake sign'' 1 0"
  obtain r db1 where run: "moderate_report sample_community_env sql_report_repository (Inr sample_moderator) 5 False
     ''fake sign'' 1 0 sample_db = (Inr r, db1)" and objs: "cs_objects (cd_community db1) = Map.empty"
    using sample_rejection by blast
  have "serve sample_community_env (faulty (\<lambda>_. False) sql_report_repository) ?call sample_db = (None, db1)"
    using run by (simp add: faulty_none answered_def)
  then have "faulty_request sql_report_repository (\<not> touches_bucket ?call) sample_db (Some server_error)
      (rolled_back sample_db db1)"
    by (intro faulty_request.uncommitted) simp_all
  then show ?thesis using objs
    by (intro exI [of _ "rolled_back sample_db db1"] exI [of _ sample_report])
      (simp add: rolled_back_def sample_db_def photo_available_def sample_report_def sample_stored_def)
qed

text \<open>The SQL repository adds to a reputation without the clamping of the in-memory one: twelve
  approvals take a score out of the unit interval.\<close>

lemma sql_reputation_is_not_clamped:
  "rr_score (sql_reputation u ((sql_adjust_reputation u True ^^ 12) sql_start)) = 110 / 100"
  "rr_score (inmem_reputation u ((inmem_adjust_reputation u True ^^ 12)
     \<lparr>im_reports = [], im_reputations = [], im_appeals = []\<rparr>)) = 1"
  by (simp_all add: eval_nat_numeral sql_reputation_def sql_adjust_reputation_def sql_start_def
      inmem_reputation_def inmem_adjust_reputation_def Let_def)

text \<open>An appeal that was already decided can be decided again, which credits the reporter again.\<close>

lemma resolved_appeal_resolves_again:
  fixes t :: instant
  assumes "ap_status a = OVERTURNED" "cr_id r = ap_report_id a" "report_rows (cs_repo s) = [r]" "appeal_rows (cs_repo s) = [a]"
    "5 \<le> length (py_strip reason)"
  defines "rs \<equiv> cs_repo (snd (resolve_appeal sql_report_repository (ap_id a) True reason t s))"
  shows "approved_reports (sql_reputation (reporter_id r) rs)
    = approved_reports (sql_reputation (reporter_id r) (cs_repo s)) + 1"
proof -
  have "reputation_rows rs = reputation_rows (sql_adjust_reputation (reporter_id r) True (cs_repo s))"
    using assms(1-5) unfolding rs_def
    by (simp add: resolve_appeal_def sql_report_repository_def sql_resolve_appeal_def sql_set_status_def
        sql_update_where_def sql_get_report_def Let_def sql_adjust_reputation_def)
  then show ?thesis by (simp add: sql_reputation_def sql_adjust_reputation_def split: option.splits)
qed

end
