(* ===== verification/Notifications.thy ===== *)
theory Notifications
  imports Identity_Http Parking_Decision Calendar
begin

text \<open>
  Preventive parking alerts (\<open>app/modules/notifications\<close>): preferences, push devices, the
  evaluation of a location with its deduplication, both repositories, the push gateway and the
  endpoints (\<open>app/presentation/api/routes/notifications.py\<close>). SHA-256, the encryption of device
  tokens, the time zone data and the answer of the push gateway are parameters. Identifiers
  drawn by \<open>uuid4\<close> are arguments and are taken to be new.
\<close>

section \<open>Domain\<close>

datatype device_platform = ANDROID | IOS

fun device_platform_value :: "device_platform \<Rightarrow> string" where
  "device_platform_value ANDROID = ''android''"
| "device_platform_value IOS = ''ios''"

record notification_preferences =
  np_user_id :: uuid
  parking_alerts_enabled :: bool
  background_location_enabled :: bool
  push_enabled :: bool
  quiet_start_hour :: int
  quiet_end_hour :: int
  np_timezone :: string
  np_updated_at :: instant

record push_device =
  pd_id :: uuid
  pd_user_id :: uuid
  pd_platform :: device_platform
  pd_token :: string
  pd_enabled :: bool
  pd_updated_at :: instant

record alert_decision =
  should_alert :: bool
  ad_reason :: string
  ad_parking_score :: "int option"
  ad_risk_level :: "RiskLevel option"
  ad_towing_cost :: "int option"
  deduplicated :: bool

record 'n notification_repository =
  preferences :: "uuid \<Rightarrow> instant \<Rightarrow> 'n \<Rightarrow> notification_preferences"
  save_preferences :: "notification_preferences \<Rightarrow> 'n \<Rightarrow> 'n"
  store_device :: "push_device \<Rightarrow> 'n \<Rightarrow> 'n"
  devices :: "uuid \<Rightarrow> 'n \<Rightarrow> push_device list"
  claim_delivery :: "uuid \<Rightarrow> string \<Rightarrow> instant \<Rightarrow> uuid \<Rightarrow> 'n \<Rightarrow> bool \<times> 'n"
  record_delivery :: "uuid \<Rightarrow> string \<Rightarrow> instant \<Rightarrow> uuid \<Rightarrow> 'n \<Rightarrow> 'n"

record push_message =
  pm_device :: push_device
  pm_title :: string
  pm_body :: string
  pm_data :: "(string \<times> string) list"

datatype notification_error = InvalidNotificationPreference string | LocationFailure parking_error
  | TimezoneFailure

section \<open>Push providers\<close>

text \<open>The gateway answers a status, or \<open>None\<close> for an \<open>httpx.HTTPError\<close>.\<close>

definition http_push_send :: "(push_message \<Rightarrow> int option) \<Rightarrow> push_message \<Rightarrow> bool" where
  "http_push_send post msg =
     (case post msg of None \<Rightarrow> False | Some status \<Rightarrow> 200 \<le> status \<and> status < 300)"

definition disabled_push_send :: "push_message \<Rightarrow> bool" where
  "disabled_push_send msg = False"

definition push_provider ::
  "string option \<Rightarrow> string option \<Rightarrow> (push_message \<Rightarrow> int option) \<Rightarrow> push_message \<Rightarrow> bool" where
  "push_provider url token post =
     (if str_or url [] \<noteq> [] \<and> str_or token [] \<noteq> [] then http_push_send post else disabled_push_send)"

section \<open>NotificationService\<close>

record 'n notification_state =
  ns_repo :: 'n
  ns_sent :: "push_message list"

text \<open>The collaborators of the service: the time zone data, the zones and the push provider.\<close>

record notification_env =
  ne_tzdb :: "string \<Rightarrow> tz_lookup"
  ne_sha256 :: "string \<Rightarrow> string"
  ne_zones :: zone_repository
  ne_send :: "push_message \<Rightarrow> bool"

definition update_preferences ::
  "(string \<Rightarrow> tz_lookup) \<Rightarrow> 'n notification_repository \<Rightarrow> uuid \<Rightarrow> bool \<Rightarrow> bool \<Rightarrow> bool \<Rightarrow> int \<Rightarrow> int \<Rightarrow>
     string \<Rightarrow> instant \<Rightarrow> 'n notification_state \<Rightarrow>
     (notification_error + notification_preferences) \<times> 'n notification_state" where
  "update_preferences tzdb repo u alerts background push start finish tz now s =
     (if background \<and> \<not> alerts
      then (Inl (InvalidNotificationPreference ''background location requires parking alerts''), s)
      else if \<not> (0 \<le> start \<and> start \<le> 23) \<or> \<not> (0 \<le> finish \<and> finish \<le> 23)
      then (Inl (InvalidNotificationPreference ''quiet hours must be between 0 and 23''), s)
      else case tzdb tz of
        TzNotFound \<Rightarrow> (Inl (InvalidNotificationPreference ''unknown timezone''), s)
      | TzInvalidKey \<Rightarrow> (Inl TimezoneFailure, s)
      | TzFound _ \<Rightarrow>
          let p = \<lparr>np_user_id = u, parking_alerts_enabled = alerts,
                   background_location_enabled = background, push_enabled = push,
                   quiet_start_hour = start, quiet_end_hour = finish, np_timezone = tz,
                   np_updated_at = now\<rparr>
          in (Inr p, s\<lparr>ns_repo := save_preferences repo p (ns_repo s)\<rparr>))"

definition register_device ::
  "'n notification_repository \<Rightarrow> uuid \<Rightarrow> device_platform \<Rightarrow> string \<Rightarrow> uuid \<Rightarrow> instant \<Rightarrow>
     'n notification_state \<Rightarrow> (notification_error + push_device) \<times> 'n notification_state" where
  "register_device repo u platform token new_id now s =
     (if length (py_strip token) < 20 \<or> length token > 4096
      then (Inl (InvalidNotificationPreference ''invalid device token''), s)
      else
        let d = \<lparr>pd_id = new_id, pd_user_id = u, pd_platform = platform, pd_token = py_strip token,
                 pd_enabled = True, pd_updated_at = now\<rparr>
        in (Inr d, s\<lparr>ns_repo := store_device repo d (ns_repo s)\<rparr>))"

definition local_hour :: "(instant \<Rightarrow> int) \<Rightarrow> instant \<Rightarrow> int" where
  "local_hour off t = local_wall off t mod day div hour"

definition quiet_at :: "notification_preferences \<Rightarrow> int \<Rightarrow> bool" where
  "quiet_at p h =
     (let start = quiet_start_hour p; finish = quiet_end_hour p in
      if start = finish then False
      else if start < finish then start \<le> h \<and> h < finish
      else h \<ge> start \<or> h < finish)"

text \<open>\<open>_is_quiet\<close>: \<open>None\<close> when the stored time zone cannot be loaded.\<close>

definition is_quiet :: "(string \<Rightarrow> tz_lookup) \<Rightarrow> notification_preferences \<Rightarrow> instant \<Rightarrow> bool option" where
  "is_quiet tzdb p moment =
     (case tzdb (np_timezone p) of TzFound off \<Rightarrow> Some (quiet_at p (local_hour off moment)) | _ \<Rightarrow> None)"

text \<open>\<open>f"{moment:%Y%m%d%H}"\<close> of a UTC instant.\<close>

definition hour_stamp :: "instant \<Rightarrow> string" where
  "hour_stamp t = (case civil (day_number t) of
     (y, m, d) \<Rightarrow> dec_fixed 4 y @ dec_fixed 2 m @ dec_fixed 2 d @ dec_fixed 2 (nat (t mod day div hour)))"

definition dedupe_key ::
  "(string \<Rightarrow> string) \<Rightarrow> pyfloat \<Rightarrow> pyfloat \<Rightarrow> RiskLevel \<Rightarrow> instant \<Rightarrow> string" where
  "dedupe_key sha256 latitude longitude risk moment =
     sha256 (fmt_fixed 4 (finite_value latitude) @ '':'' @ fmt_fixed 4 (finite_value longitude) @ '':''
       @ risk_value risk @ '':'' @ hour_stamp moment)"

definition no_alert :: "string \<Rightarrow> alert_decision" where
  "no_alert why = \<lparr>should_alert = False, ad_reason = why, ad_parking_score = None,
     ad_risk_level = None, ad_towing_cost = None, deduplicated = False\<rparr>"

definition zone_alert :: "bool \<Rightarrow> string \<Rightarrow> parking_zone \<Rightarrow> RiskLevel \<Rightarrow> bool \<Rightarrow> alert_decision" where
  "zone_alert alert why zone risk dup = \<lparr>should_alert = alert, ad_reason = why,
     ad_parking_score = Some (z_parking_score zone), ad_risk_level = Some risk,
     ad_towing_cost = z_average_towing_cost_cents zone, deduplicated = dup\<rparr>"

definition alert_message :: "alert_decision \<Rightarrow> parking_zone \<Rightarrow> RiskLevel \<Rightarrow> push_device \<Rightarrow> push_message" where
  "alert_message d zone risk device = \<lparr>pm_device = device, pm_title = ''Parking risk warning'',
     pm_body = ad_reason d,
     pm_data = [(''parking_score'', int_str (z_parking_score zone)), (''risk_level'', risk_value risk)]\<rparr>"

text \<open>The pushes of an alert and the delivery that is recorded.\<close>

definition push_alert ::
  "notification_env \<Rightarrow> 'n notification_repository \<Rightarrow> uuid \<Rightarrow> alert_decision \<Rightarrow> parking_zone \<Rightarrow> RiskLevel \<Rightarrow>
     instant \<Rightarrow> uuid \<Rightarrow> 'n notification_state \<Rightarrow> 'n notification_state" where
  "push_alert env repo u d zone risk moment delivery_id s =
     (let msgs = map (alert_message d zone risk) (devices repo u (ns_repo s));
          status = (if list_ex (ne_send env) msgs then ''delivered'' else ''failed'')
      in \<lparr>ns_repo = record_delivery repo u status moment delivery_id (ns_repo s),
          ns_sent = ns_sent s @ msgs\<rparr>)"

text \<open>\<open>evaluate_location\<close>, first its part after a zone was found.\<close>

definition evaluate_zone ::
  "notification_env \<Rightarrow> 'n notification_repository \<Rightarrow> uuid \<Rightarrow> notification_preferences \<Rightarrow> pyfloat \<Rightarrow> pyfloat \<Rightarrow>
     parking_zone \<Rightarrow> instant \<Rightarrow> uuid \<Rightarrow> uuid \<Rightarrow> 'n notification_state \<Rightarrow>
     (notification_error + alert_decision) \<times> 'n notification_state" where
  "evaluate_zone env repo u p latitude longitude zone moment claim_id delivery_id s =
     (if z_parking_score zone \<ge> 60
      then (case zone_risk_level zone of
              Inl e \<Rightarrow> (Inl (LocationFailure e), s)
            | Inr risk \<Rightarrow> (Inr (zone_alert False ''No preventive warning is required.'' zone risk False), s))
      else case is_quiet (ne_tzdb env) p moment of
        None \<Rightarrow> (Inl TimezoneFailure, s)
      | Some quiet \<Rightarrow>
          (case zone_risk_level zone of
             Inl e \<Rightarrow> (Inl (LocationFailure e), s)
           | Inr risk \<Rightarrow>
               if quiet
               then (Inr (zone_alert False ''Suppressed by quiet hours.'' zone risk False), s)
               else (case claim_delivery repo u
                       (dedupe_key (ne_sha256 env) latitude longitude risk moment)
                       moment claim_id (ns_repo s) of
                  (False, n) \<Rightarrow>
                    (Inr (zone_alert False ''A matching alert was already delivered.'' zone risk True),
                     s\<lparr>ns_repo := n\<rparr>)
                | (True, n) \<Rightarrow>
                    let d = zone_alert True (str_or (z_restriction_summary zone)
                              ''High parking or towing risk detected.'') zone risk False
                    in (Inr d,
                        if push_enabled p
                        then push_alert env repo u d zone risk moment delivery_id (s\<lparr>ns_repo := n\<rparr>)
                        else s\<lparr>ns_repo := n\<rparr>))))"

definition evaluate_location ::
  "notification_env \<Rightarrow> 'n notification_repository \<Rightarrow> uuid \<Rightarrow> pyfloat \<Rightarrow> pyfloat \<Rightarrow> instant \<Rightarrow> uuid \<Rightarrow> uuid \<Rightarrow>
     'n notification_state \<Rightarrow> (notification_error + alert_decision) \<times> 'n notification_state" where
  "evaluate_location env repo u latitude longitude moment claim_id delivery_id s =
     (let p = preferences repo u moment (ns_repo s) in
      if \<not> parking_alerts_enabled p then (Inr (no_alert ''Parking alerts are disabled.''), s)
      else if \<not> background_location_enabled p
      then (Inr (no_alert ''Background location consent is disabled.''), s)
      else case map_decision (ne_zones env) longitude latitude of
        Inl e \<Rightarrow> (Inl (LocationFailure e), s)
      | Inr None \<Rightarrow> (Inr (no_alert ''No verified parking intelligence covers this location.''), s)
      | Inr (Some zone) \<Rightarrow>
          evaluate_zone env repo u p latitude longitude zone moment claim_id delivery_id s)"

section \<open>InMemoryNotificationRepository\<close>

record inmem_notifications =
  nm_preferences :: "(uuid, notification_preferences) pydict"
  nm_devices :: "(uuid, push_device) pydict"
  nm_dedupe :: "(uuid \<times> string) set"
  nm_deliveries :: "(uuid \<times> string \<times> instant) list"

definition default_preferences :: "uuid \<Rightarrow> instant \<Rightarrow> notification_preferences" where
  "default_preferences u now = \<lparr>np_user_id = u, parking_alerts_enabled = False,
     background_location_enabled = False, push_enabled = False, quiet_start_hour = 22,
     quiet_end_hour = 7, np_timezone = ''UTC'', np_updated_at = now\<rparr>"

definition inmem_preferences :: "uuid \<Rightarrow> instant \<Rightarrow> inmem_notifications \<Rightarrow> notification_preferences" where
  "inmem_preferences u now s =
     (case dict_get (nm_preferences s) u of Some p \<Rightarrow> p | None \<Rightarrow> default_preferences u now)"

definition inmem_save_preferences ::
  "notification_preferences \<Rightarrow> inmem_notifications \<Rightarrow> inmem_notifications" where
  "inmem_save_preferences p s = s\<lparr>nm_preferences := dict_set (np_user_id p) p (nm_preferences s)\<rparr>"

definition inmem_store_device :: "push_device \<Rightarrow> inmem_notifications \<Rightarrow> inmem_notifications" where
  "inmem_store_device d s = s\<lparr>nm_devices := dict_set (pd_id d) d (nm_devices s)\<rparr>"

definition inmem_devices :: "uuid \<Rightarrow> inmem_notifications \<Rightarrow> push_device list" where
  "inmem_devices u s = filter (\<lambda>d. pd_user_id d = u \<and> pd_enabled d) (dict_values (nm_devices s))"

definition inmem_claim_delivery ::
  "uuid \<Rightarrow> string \<Rightarrow> instant \<Rightarrow> uuid \<Rightarrow> inmem_notifications \<Rightarrow> bool \<times> inmem_notifications" where
  "inmem_claim_delivery u k now new_id s =
     (if (u, k) \<in> nm_dedupe s then (False, s)
      else (True, s\<lparr>nm_dedupe := insert (u, k) (nm_dedupe s)\<rparr>))"

definition inmem_record_delivery ::
  "uuid \<Rightarrow> string \<Rightarrow> instant \<Rightarrow> uuid \<Rightarrow> inmem_notifications \<Rightarrow> inmem_notifications" where
  "inmem_record_delivery u status now new_id s = s\<lparr>nm_deliveries := nm_deliveries s @ [(u, status, now)]\<rparr>"

definition inmem_notification_repository :: "inmem_notifications notification_repository" where
  "inmem_notification_repository = \<lparr>preferences = inmem_preferences,
     save_preferences = inmem_save_preferences, store_device = inmem_store_device,
     devices = inmem_devices, claim_delivery = inmem_claim_delivery,
     record_delivery = inmem_record_delivery\<rparr>"

section \<open>SqlNotificationRepository\<close>

record push_device_row =
  dr_id :: uuid
  dr_user_id :: uuid
  dr_platform :: string
  dr_token_ciphertext :: string
  dr_token_hash :: string
  dr_enabled :: bool
  dr_updated_at :: instant

record alert_delivery_row =
  al_id :: uuid
  al_user_id :: uuid
  al_dedupe_key :: "string option"
  al_status :: string
  al_created_at :: instant

record sql_notifications =
  preference_rows :: "notification_preferences list"
  device_rows :: "push_device_row list"
  delivery_rows :: "alert_delivery_row list"

definition sql_preferences :: "uuid \<Rightarrow> instant \<Rightarrow> sql_notifications \<Rightarrow> notification_preferences" where
  "sql_preferences u now s =
     (case find (\<lambda>p. np_user_id p = u) (preference_rows s) of
        Some p \<Rightarrow> p | None \<Rightarrow> default_preferences u now)"

text \<open>\<open>INSERT ... ON CONFLICT (key) DO UPDATE\<close>: the row with that key is changed by \<open>upd\<close>, or the
  new one is inserted.\<close>

definition upsert_row :: "('r \<Rightarrow> 'k) \<Rightarrow> 'r \<Rightarrow> ('r \<Rightarrow> 'r) \<Rightarrow> 'r list \<Rightarrow> 'r list" where
  "upsert_row key new upd rows =
     (if list_ex (\<lambda>r. key r = key new) rows
      then map (\<lambda>r. if key r = key new then upd r else r) rows
      else rows @ [new])"

definition sql_save_preferences ::
  "notification_preferences \<Rightarrow> sql_notifications \<Rightarrow> sql_notifications" where
  "sql_save_preferences p s =
     s\<lparr>preference_rows := upsert_row np_user_id p (\<lambda>_. p) (preference_rows s)\<rparr>"

definition sql_store_device ::
  "(string \<Rightarrow> string) \<Rightarrow> (string \<Rightarrow> string) \<Rightarrow> push_device \<Rightarrow> sql_notifications \<Rightarrow> sql_notifications" where
  "sql_store_device enc sha256 d s =
     (let row = \<lparr>dr_id = pd_id d, dr_user_id = pd_user_id d,
                 dr_platform = device_platform_value (pd_platform d),
                 dr_token_ciphertext = enc (pd_token d), dr_token_hash = sha256 (pd_token d),
                 dr_enabled = pd_enabled d, dr_updated_at = pd_updated_at d\<rparr>
      in s\<lparr>device_rows := upsert_row dr_token_hash row
             (\<lambda>r. r\<lparr>dr_user_id := pd_user_id d, dr_platform := device_platform_value (pd_platform d),
                    dr_token_ciphertext := enc (pd_token d), dr_enabled := True,
                    dr_updated_at := pd_updated_at d\<rparr>) (device_rows s)\<rparr>)"

definition of_device_row :: "(string \<Rightarrow> string) \<Rightarrow> push_device_row \<Rightarrow> push_device" where
  "of_device_row dec r = \<lparr>pd_id = dr_id r, pd_user_id = dr_user_id r,
     pd_platform = (if dr_platform r = ''ios'' then IOS else ANDROID),
     pd_token = dec (dr_token_ciphertext r), pd_enabled = dr_enabled r,
     pd_updated_at = dr_updated_at r\<rparr>"

definition sql_devices ::
  "(string \<Rightarrow> string) \<Rightarrow> uuid \<Rightarrow> sql_notifications \<Rightarrow> push_device list" where
  "sql_devices dec u s =
     map (of_device_row dec) (filter (\<lambda>r. dr_user_id r = u \<and> dr_enabled r) (device_rows s))"

definition sql_claim_delivery ::
  "uuid \<Rightarrow> string \<Rightarrow> instant \<Rightarrow> uuid \<Rightarrow> sql_notifications \<Rightarrow> bool \<times> sql_notifications" where
  "sql_claim_delivery u k now new_id s =
     (if list_ex (\<lambda>r. al_user_id r = u \<and> al_dedupe_key r = Some k) (delivery_rows s) then (False, s)
      else (True, s\<lparr>delivery_rows := delivery_rows s @
        [\<lparr>al_id = new_id, al_user_id = u, al_dedupe_key = Some k, al_status = ''claimed'',
          al_created_at = now\<rparr>]\<rparr>))"

definition sql_record_delivery ::
  "uuid \<Rightarrow> string \<Rightarrow> instant \<Rightarrow> uuid \<Rightarrow> sql_notifications \<Rightarrow> sql_notifications" where
  "sql_record_delivery u status now new_id s = s\<lparr>delivery_rows := delivery_rows s @
     [\<lparr>al_id = new_id, al_user_id = u, al_dedupe_key = None, al_status = status, al_created_at = now\<rparr>]\<rparr>"

definition sql_notification_repository ::
  "(string \<Rightarrow> string) \<Rightarrow> (string \<Rightarrow> string) \<Rightarrow> (string \<Rightarrow> string) \<Rightarrow> sql_notifications notification_repository" where
  "sql_notification_repository enc dec sha256 = \<lparr>preferences = sql_preferences,
     save_preferences = sql_save_preferences, store_device = sql_store_device enc sha256,
     devices = sql_devices dec, claim_delivery = sql_claim_delivery,
     record_delivery = sql_record_delivery\<rparr>"

section \<open>Endpoints\<close>

definition notification_http ::
  "'n notification_state \<Rightarrow> (notification_error + 'a) \<times> 'n notification_state \<Rightarrow>
     (http_error + 'a) \<times> 'n notification_state" where
  "notification_http s res =
     (case res of
        (Inr x, s') \<Rightarrow> (Inr x, s')
      | (Inl (InvalidNotificationPreference m), s') \<Rightarrow>
          (Inl (http_exception 422 m), s\<lparr>ns_sent := ns_sent s'\<rparr>)
      | (Inl _, s') \<Rightarrow>
          (Inl (http_exception 500 ''Unexpected server error.''), s\<lparr>ns_sent := ns_sent s'\<rparr>))"

definition route_get_preferences ::
  "'n notification_repository \<Rightarrow> http_error + user \<Rightarrow> instant \<Rightarrow> 'n notification_state \<Rightarrow>
     http_error + notification_preferences" where
  "route_get_preferences repo found now s =
     (case found of Inl e \<Rightarrow> Inl e | Inr u \<Rightarrow> Inr (preferences repo (user_id u) now (ns_repo s)))"

definition route_update_preferences ::
  "(string \<Rightarrow> tz_lookup) \<Rightarrow> 'n notification_repository \<Rightarrow> http_error + user \<Rightarrow> bool \<Rightarrow> bool \<Rightarrow> bool \<Rightarrow>
     int \<Rightarrow> int \<Rightarrow> string \<Rightarrow> instant \<Rightarrow> 'n notification_state \<Rightarrow>
     (http_error + notification_preferences) \<times> 'n notification_state" where
  "route_update_preferences tzdb repo found alerts background push start finish tz now s =
     (case found of
        Inl e \<Rightarrow> (Inl e, s)
      | Inr u \<Rightarrow>
          if \<not> (0 \<le> start \<and> start \<le> 23 \<and> 0 \<le> finish \<and> finish \<le> 23 \<and> 1 \<le> length tz \<and> length tz \<le> 64)
          then (Inl (http_exception 422 ''Invalid request.''), s)
          else notification_http s
            (update_preferences tzdb repo (user_id u) alerts background push start finish tz now s))"

definition route_register_device ::
  "'n notification_repository \<Rightarrow> http_error + user \<Rightarrow> device_platform \<Rightarrow> string \<Rightarrow> uuid \<Rightarrow> instant \<Rightarrow>
     'n notification_state \<Rightarrow> (http_error + push_device) \<times> 'n notification_state" where
  "route_register_device repo found platform token new_id now s =
     (case found of
        Inl e \<Rightarrow> (Inl e, s)
      | Inr u \<Rightarrow>
          if \<not> (20 \<le> length token \<and> length token \<le> 4096)
          then (Inl (http_exception 422 ''Invalid request.''), s)
          else notification_http s (register_device repo (user_id u) platform token new_id now s))"

definition route_evaluate_location ::
  "notification_env \<Rightarrow> 'n notification_repository \<Rightarrow> http_error + user \<Rightarrow> pyfloat \<Rightarrow> pyfloat \<Rightarrow> instant \<Rightarrow>
     uuid \<Rightarrow> uuid \<Rightarrow> 'n notification_state \<Rightarrow> (http_error + alert_decision) \<times> 'n notification_state" where
  "route_evaluate_location env repo found latitude longitude now claim_id delivery_id s =
     (case found of
        Inl e \<Rightarrow> (Inl e, s)
      | Inr u \<Rightarrow>
          if \<not> (fbetween (-90) latitude 90 \<and> fbetween (-180) longitude 180)
          then (Inl (http_exception 422 ''Invalid request.''), s)
          else notification_http s
            (evaluate_location env repo (user_id u) latitude longitude now claim_id delivery_id s))"

end
