(* ===== verification/Notification_Safety.thy ===== *)
theory Notification_Safety
  imports Notifications
begin

text \<open>
  What the alert service relies on of its repository, as the locale \<open>notification_store\<close> with
  both adapters as providers, and the properties of alerts: consent, quiet hours, at most one
  alert per place and hour, and one owner per device token.
\<close>

section \<open>The interface\<close>

locale notification_store =
  fixes repo :: "'n notification_repository"
    and claims :: "'n \<Rightarrow> (uuid \<times> string) set"
  assumes claim_law: "claim_delivery repo u k t i n = (b, n') \<Longrightarrow>
      b = ((u, k) \<notin> claims n) \<and> claims n' = insert (u, k) (claims n)"
    and preference_law: "preferences repo u t (save_preferences repo p n) =
      (if u = np_user_id p then p else preferences repo u t n)"
    and save_frame: "claims (save_preferences repo p n) = claims n"
    and device_frame: "claims (store_device repo d n) = claims n"
      "preferences repo u t (store_device repo d n) = preferences repo u t n"
    and delivery_frame: "claims (record_delivery repo u st t i n) = claims n"
    and devices_law: "d \<in> set (devices repo u n) \<Longrightarrow> pd_user_id d = u \<and> pd_enabled d"

section \<open>One request\<close>

text \<open>The label is the deduplication key of the alert a request raises for its user.\<close>

inductive notification_step ::
  "'n notification_repository \<Rightarrow> 'n notification_state \<Rightarrow> (uuid \<times> string) option \<Rightarrow>
     'n notification_state \<Rightarrow> bool" for repo where
  updated: "route_update_preferences tzdb repo found alerts background push start finish tz now s = (res, s') \<Longrightarrow>
    notification_step repo s None s'"
| registered: "route_register_device repo found platform token new_id now s = (res, s') \<Longrightarrow>
    notification_step repo s None s'"
| evaluated: "route_evaluate_location env repo (Inr u) latitude longitude now claim_id delivery_id s = (Inr d, s') \<Longrightarrow>
    notification_step repo s
      (if should_alert d
       then Some (user_id u, dedupe_key (ne_sha256 env) latitude longitude (the (ad_risk_level d)) now)
       else None) s'"
| refused: "route_evaluate_location env repo found latitude longitude now claim_id delivery_id s = (Inl e, s') \<Longrightarrow>
    notification_step repo s None s'"

inductive notification_history ::
  "'n notification_repository \<Rightarrow> 'n \<Rightarrow> (uuid \<times> string) list \<Rightarrow> 'n notification_state \<Rightarrow> bool"
  for repo initial where
  start: "notification_history repo initial [] \<lparr>ns_repo = initial, ns_sent = []\<rparr>"
| step: "notification_history repo initial trace s \<Longrightarrow> notification_step repo s ev s' \<Longrightarrow>
    notification_history repo initial (trace @ (case ev of None \<Rightarrow> [] | Some x \<Rightarrow> [x])) s'"

text \<open>The branches of \<open>evaluate_location\<close> that change the state.\<close>

lemma evaluate_zone_claims:
  assumes low: "\<not> 60 \<le> z_parking_score zone" "is_quiet (ne_tzdb env) p t = Some False"
      "zone_risk_level zone = Inr risk"
    and c: "claim_delivery repo u (dedupe_key (ne_sha256 env) lat lon risk t) t ci (ns_repo s) = (b, n)"
  defines "d \<equiv> zone_alert b (if b then str_or (z_restriction_summary zone)
     ''High parking or towing risk detected.'' else ''A matching alert was already delivered.'') zone risk (\<not> b)"
  shows "evaluate_zone env repo u p lat lon zone t ci di s =
    (Inr d, if b \<and> push_enabled p then push_alert env repo u d zone risk t di (s\<lparr>ns_repo := n\<rparr>)
            else s\<lparr>ns_repo := n\<rparr>)"
  unfolding evaluate_zone_def if_not_P [OF low(1)] low(2,3) option.case sum.case if_False c prod.case d_def
  by (cases b) (simp_all only: bool.case Let_def if_True if_False simp_thms)

lemma evaluate_zone_cases:
  assumes "evaluate_zone env repo u p lat lon zone t ci di s = (res, s')"
  shows "s' = s \<and> (\<forall>d. res = Inr d \<longrightarrow> \<not> should_alert d) \<or>
    (\<exists>risk n b d. zone_risk_level zone = Inr risk \<and> z_parking_score zone < 60 \<and>
       is_quiet (ne_tzdb env) p t = Some False \<and>
       claim_delivery repo u (dedupe_key (ne_sha256 env) lat lon risk t) t ci (ns_repo s) = (b, n) \<and>
       res = Inr d \<and> should_alert d = b \<and> ad_risk_level d = Some risk \<and>
       s' = (if b \<and> push_enabled p then push_alert env repo u d zone risk t di (s\<lparr>ns_repo := n\<rparr>)
             else s\<lparr>ns_repo := n\<rparr>))"
proof (cases "z_parking_score zone < 60 \<and> is_quiet (ne_tzdb env) p t = Some False \<and>
    (\<exists>risk. zone_risk_level zone = Inr risk)")
  case False
  with assms show ?thesis
    by (auto simp: evaluate_zone_def zone_alert_def not_le split: if_splits option.splits sum.splits)
next
  case True
  then obtain risk where low: "\<not> 60 \<le> z_parking_score zone" "is_quiet (ne_tzdb env) p t = Some False"
    "zone_risk_level zone = Inr risk" by auto
  obtain b n where c: "claim_delivery repo u (dedupe_key (ne_sha256 env) lat lon risk t) t ci (ns_repo s) = (b, n)"
    by fastforce
  let ?d = "zone_alert b (if b then str_or (z_restriction_summary zone)
     ''High parking or towing risk detected.'' else ''A matching alert was already delivered.'') zone risk (\<not> b)"
  note run = evaluate_zone_claims [OF low c, of di, unfolded assms prod.inject]
  have sel: "should_alert ?d = b" "ad_risk_level ?d = Some risk" by (simp_all add: zone_alert_def)
  show ?thesis
    by (intro disjI2 exI [of _ risk] exI [of _ n] exI [of _ b] exI [of _ ?d] conjI)
       (rule conjunct1 [OF run] conjunct2 [OF run] sel low(2,3) c conjunct1 [OF True])+
qed

lemma evaluate_location_cases:
  assumes "evaluate_location env repo u lat lon t ci di s = (res, s')"
  shows "s' = s \<and> (\<forall>d. res = Inr d \<longrightarrow> \<not> should_alert d) \<or>
    (\<exists>zone risk n b d. map_decision (ne_zones env) lon lat = Inr (Some zone) \<and>
       parking_alerts_enabled (preferences repo u t (ns_repo s)) \<and>
       background_location_enabled (preferences repo u t (ns_repo s)) \<and>
       zone_risk_level zone = Inr risk \<and> z_parking_score zone < 60 \<and>
       is_quiet (ne_tzdb env) (preferences repo u t (ns_repo s)) t = Some False \<and>
       claim_delivery repo u (dedupe_key (ne_sha256 env) lat lon risk t) t ci (ns_repo s) = (b, n) \<and>
       res = Inr d \<and> should_alert d = b \<and> ad_risk_level d = Some risk \<and>
       s' = (if b \<and> push_enabled (preferences repo u t (ns_repo s))
             then push_alert env repo u d zone risk t di (s\<lparr>ns_repo := n\<rparr>) else s\<lparr>ns_repo := n\<rparr>))"
proof -
  let ?p = "preferences repo u t (ns_repo s)"
  consider (none) "s' = s" "\<forall>d. res = Inr d \<longrightarrow> \<not> should_alert d"
    | (zone) zone where "parking_alerts_enabled ?p" "background_location_enabled ?p"
        "map_decision (ne_zones env) lon lat = Inr (Some zone)"
        "evaluate_zone env repo u ?p lat lon zone t ci di s = (res, s')"
    using assms by (auto simp: evaluate_location_def Let_def no_alert_def split: if_splits sum.splits option.splits)
  then show ?thesis
  proof cases
    case zone
    from evaluate_zone_cases [OF zone(4)] zone(1-3) show ?thesis by blast
  qed blast
qed

lemma evaluate_route_Inr:
  "route_evaluate_location env repo (Inr u) lat lon t ci di s = (Inr d, s') \<Longrightarrow>
     evaluate_location env repo (user_id u) lat lon t ci di s = (Inr d, s')"
  by (auto simp: route_evaluate_location_def notification_http_def
      split: if_splits prod.splits sum.splits notification_error.splits)

lemma notification_http_Inl: "notification_http s res = (Inl e, s') \<Longrightarrow> ns_repo s' = ns_repo s"
  by (auto simp: notification_http_def split: prod.splits sum.splits notification_error.splits)

lemma evaluate_route_Inl:
  "route_evaluate_location env repo found lat lon t ci di s = (Inl e, s') \<Longrightarrow> ns_repo s' = ns_repo s"
  by (auto simp: route_evaluate_location_def dest: notification_http_Inl split: sum.splits if_splits)

lemma update_route_repo:
  "route_update_preferences tzdb repo found al bg pu st fi tz now s = (res, s') \<Longrightarrow>
     ns_repo s' = ns_repo s \<or> (\<exists>p. ns_repo s' = save_preferences repo p (ns_repo s))"
  by (auto simp: route_update_preferences_def update_preferences_def notification_http_def Let_def
      split: sum.splits if_splits tz_lookup.splits)

lemma register_route_repo:
  "route_register_device repo found platform token i now s = (res, s') \<Longrightarrow>
     ns_repo s' = ns_repo s \<or> (\<exists>d. ns_repo s' = store_device repo d (ns_repo s))"
  by (auto simp: route_register_device_def register_device_def notification_http_def Let_def
      split: sum.splits if_splits)

context notification_store
begin

lemma step_claims:
  assumes "notification_step repo s ev s'"
  shows "case ev of None \<Rightarrow> claims (ns_repo s) \<subseteq> claims (ns_repo s')
    | Some x \<Rightarrow> x \<notin> claims (ns_repo s) \<and> claims (ns_repo s') = insert x (claims (ns_repo s))"
  using assms
proof cases
  case (evaluated env u lat lon now ci di d)
  from evaluate_location_cases [OF evaluate_route_Inr [OF evaluated(2)]]
  show ?thesis
  proof (elim disjE exE conjE)
    fix zone risk n b d'
    assume *: "claim_delivery repo (user_id u) (dedupe_key (ne_sha256 env) lat lon risk now) now ci (ns_repo s) = (b, n)"
      "Inr d = Inr d'" "should_alert d' = b" "ad_risk_level d' = Some risk"
      "s' = (if b \<and> push_enabled (preferences repo (user_id u) now (ns_repo s))
             then push_alert env repo (user_id u) d' zone risk now di (s\<lparr>ns_repo := n\<rparr>) else s\<lparr>ns_repo := n\<rparr>)"
    then have "claims (ns_repo s') = claims n" by (simp add: push_alert_def Let_def delivery_frame)
    with claim_law [OF *(1)] *(2-4) show ?thesis by (auto simp: evaluated(1))
  qed (simp add: evaluated(1))
qed (auto dest: update_route_repo register_route_repo evaluate_route_Inl
    simp: save_frame device_frame)

lemma history_claims:
  assumes "notification_history repo initial trace s"
  shows "distinct trace \<and> set trace \<subseteq> claims (ns_repo s)"
  using assms
proof induction
  case (step trace s ev s')
  with step_claims [OF step.hyps(2)] show ?case by (cases ev) auto
qed simp

end

section \<open>Providers\<close>

interpretation inmem_notifications: notification_store inmem_notification_repository nm_dedupe
  by unfold_locales
     (auto simp: inmem_notification_repository_def inmem_claim_delivery_def inmem_save_preferences_def
        inmem_store_device_def inmem_record_delivery_def inmem_preferences_def inmem_devices_def
        split: if_splits)

lemma find_upsert_row:
  assumes "key (upd new) = key new" and "\<And>r. key r = key new \<Longrightarrow> upd r = new"
  shows "find (\<lambda>r. key r = k) (upsert_row key new upd rows) =
    (if k = key new then Some new else find (\<lambda>r. key r = k) rows)"
proof -
  have "find (\<lambda>r. key r = k) (map (\<lambda>r. if key r = key new then upd r else r) rows) =
    (if k = key new \<and> list_ex (\<lambda>r. key r = key new) rows then Some new else find (\<lambda>r. key r = k) rows)"
    using assms(2) by (induction rows) auto
  moreover have "find (\<lambda>r. key r = k) (rows @ [new]) = (if k = key new then Some new else find (\<lambda>r. key r = k) rows)"
    if "\<not> list_ex (\<lambda>r. key r = key new) rows"
    using that by (induction rows) auto
  moreover have "find (\<lambda>r. key r = k) rows = None" if "\<not> list_ex (\<lambda>r. key r = key new) rows" "k = key new"
    using that by (induction rows) auto
  ultimately show ?thesis unfolding upsert_row_def by auto
qed

definition claimed :: "sql_notifications \<Rightarrow> (uuid \<times> string) set" where
  "claimed s = {(u, k). \<exists>r \<in> set (delivery_rows s). al_user_id r = u \<and> al_dedupe_key r = Some k}"

interpretation sql_notifications: notification_store "sql_notification_repository enc dec sha256" claimed
  for enc dec sha256
proof
  show "b = ((u, k) \<notin> claimed n) \<and> claimed n' = insert (u, k) (claimed n)"
    if "claim_delivery (sql_notification_repository enc dec sha256) u k t i n = (b, n')" for u k t i n b n'
    using that
    by (auto simp: sql_notification_repository_def sql_claim_delivery_def claimed_def list_ex_iff split: if_splits)
  show "preferences (sql_notification_repository enc dec sha256) u t
      (save_preferences (sql_notification_repository enc dec sha256) p n) =
      (if u = np_user_id p then p else preferences (sql_notification_repository enc dec sha256) u t n)" for u t p n
    by (simp add: sql_notification_repository_def sql_preferences_def sql_save_preferences_def find_upsert_row)
qed (auto simp: sql_notification_repository_def sql_save_preferences_def sql_store_device_def
       sql_preferences_def sql_record_delivery_def sql_devices_def of_device_row_def claimed_def Let_def)

text \<open>What every operation of a repository keeps, every request keeps.\<close>

lemma notification_step_keeps:
  assumes "notification_step repo s ev s'" and "P (ns_repo s)"
    and "\<And>p n. P n \<Longrightarrow> P (save_preferences repo p n)" "\<And>d n. P n \<Longrightarrow> P (store_device repo d n)"
    and "\<And>u k t i n. P n \<Longrightarrow> P (snd (claim_delivery repo u k t i n))"
    and "\<And>u st t i n. P n \<Longrightarrow> P (record_delivery repo u st t i n)"
  shows "P (ns_repo s')"
  using assms(1)
proof cases
  case (evaluated env u lat lon now ci di d)
  from evaluate_location_cases [OF evaluate_route_Inr [OF evaluated(2)]]
  show ?thesis
  proof (elim disjE exE conjE)
    fix zone risk n b d'
    assume *: "claim_delivery repo (user_id u) (dedupe_key (ne_sha256 env) lat lon risk now) now ci (ns_repo s) = (b, n)"
      "s' = (if b \<and> push_enabled (preferences repo (user_id u) now (ns_repo s))
             then push_alert env repo (user_id u) d' zone risk now di (s\<lparr>ns_repo := n\<rparr>) else s\<lparr>ns_repo := n\<rparr>)"
    have "P n" using assms(5) [OF assms(2), of "user_id u" _ now ci] *(1) by (metis snd_conv)
    then show ?thesis by (simp add: *(2) push_alert_def Let_def assms(6))
  qed (simp add: assms(2))
next
  case (updated tzdb found alerts background push start finish tz now res)
  with update_route_repo [OF updated(2)] assms(2,3) show ?thesis by metis
next
  case (registered found platform token new_id now res)
  with register_route_repo [OF registered(2)] assms(2,4) show ?thesis by metis
next
  case (refused env found lat lon now ci di e)
  with evaluate_route_Inl [OF refused(2)] assms(2) show ?thesis by simp
qed

definition device_rows_ok :: "(string \<Rightarrow> string) \<Rightarrow> (string \<Rightarrow> string) \<Rightarrow> sql_notifications \<Rightarrow> bool" where
  "device_rows_ok dec sha256 s \<longleftrightarrow> distinct (map dr_token_hash (device_rows s)) \<and>
     (\<forall>r \<in> set (device_rows s). dr_token_hash r = sha256 (dec (dr_token_ciphertext r)))"

lemma upsert_row_distinct:
  "distinct (map key rows) \<Longrightarrow> (\<And>r. key (upd r) = key r) \<Longrightarrow> distinct (map key (upsert_row key new upd rows))"
proof -
  assume d: "distinct (map key rows)" and k: "\<And>r. key (upd r) = key r"
  have "map key (map (\<lambda>r. if key r = key new then upd r else r) rows) = map key rows" by (simp add: k)
  with d have "distinct (map key (map (\<lambda>r. if key r = key new then upd r else r) rows))" by (simp only:)
  with d show ?thesis by (auto simp: upsert_row_def list_ex_iff simp del: map_map)
qed

lemma store_device_rows_ok:
  assumes "\<And>t. dec (enc t) = t" and ok: "device_rows_ok dec sha256 n"
  shows "device_rows_ok dec sha256 (sql_store_device enc sha256 d n)"
  using ok assms(1) unfolding device_rows_ok_def sql_store_device_def Let_def
  by (auto intro!: upsert_row_distinct) (auto simp: upsert_row_def split: if_splits)

section \<open>Sample data\<close>

definition risky_zone :: parking_zone where
  "risky_zone = sample_zone\<lparr>z_parking_score := 20\<rparr>"

definition sample_notification_env :: notification_env where
  "sample_notification_env = \<lparr>ne_tzdb = (\<lambda>_. TzFound (\<lambda>_. 0)), ne_sha256 = (\<lambda>_. ''k''),
     ne_zones = \<lparr>in_viewport = (\<lambda>_ _ _ _ _. []), at_location = (\<lambda>_ _ _. Some risky_zone)\<rparr>,
     ne_send = (\<lambda>_. True)\<rparr>"

definition sample_preferences :: notification_preferences where
  "sample_preferences = \<lparr>np_user_id = 7, parking_alerts_enabled = True, background_location_enabled = True,
     push_enabled = True, quiet_start_hour = 22, quiet_end_hour = 7, np_timezone = ''UTC'', np_updated_at = 0\<rparr>"

definition sample_device :: push_device where
  "sample_device = \<lparr>pd_id = 3, pd_user_id = 7, pd_platform = IOS, pd_token = ''t'', pd_enabled = True,
     pd_updated_at = 0\<rparr>"

definition sample_notifications :: sql_notifications where
  "sample_notifications = sql_store_device id id sample_device
     \<lparr>preference_rows = [sample_preferences], device_rows = [], delivery_rows = []\<rparr>"

definition sample_user :: user where
  "sample_user = \<lparr>user_id = 7, email = ''a@b'', password_hash = [], user_role = USER, is_active = True,
     is_verified = True, user_created_at = 0, mfa_secret = None, mfa_enabled = False\<rparr>"

definition sample_alert :: alert_decision where
  "sample_alert = zone_alert True ''High parking or towing risk detected.'' risky_zone RISK_VERY_HIGH_RISK False"

abbreviation "sample_sql \<equiv> sql_notification_repository id id id"

lemma sample_alert_raised:
  "fst (route_evaluate_location sample_notification_env sample_sql (Inr sample_user) (Fin 1) (Fin 2) (12 * hour) 8 9
     \<lparr>ns_repo = sample_notifications, ns_sent = []\<rparr>) = Inr sample_alert"
proof -
  let ?s = "\<lparr>ns_repo = sample_notifications, ns_sent = []\<rparr>"
  have p: "preferences sample_sql 7 (12 * hour) (ns_repo ?s) = sample_preferences"
    by (simp add: sql_notification_repository_def sql_preferences_def sample_notifications_def
        sql_store_device_def sample_preferences_def Let_def)
  have low: "\<not> 60 \<le> z_parking_score risky_zone" "zone_risk_level risky_zone = Inr RISK_VERY_HIGH_RISK"
    by (simp_all add: risky_zone_def sample_zone_def zone_risk_level_def risk_level_def)
  have q: "is_quiet (ne_tzdb sample_notification_env) sample_preferences (12 * hour) = Some False"
    by (simp add: is_quiet_def sample_notification_env_def quiet_at_def sample_preferences_def local_hour_def
        local_wall_def Let_def)
  obtain b n where c: "claim_delivery sample_sql 7 (dedupe_key (ne_sha256 sample_notification_env) (Fin 1) (Fin 2)
      RISK_VERY_HIGH_RISK (12 * hour)) (12 * hour) 8 (ns_repo ?s) = (b, n)" by fastforce
  have b: "b"
    using c by (simp add: sql_notification_repository_def sql_claim_delivery_def sample_notifications_def
        sql_store_device_def Let_def)
  from evaluate_zone_claims [OF low(1) q low(2) c, of 9] b
  have z: "fst (evaluate_zone sample_notification_env sample_sql 7 sample_preferences (Fin 1) (Fin 2) risky_zone
      (12 * hour) 8 9 ?s) = Inr sample_alert"
    by (simp add: sample_alert_def risky_zone_def sample_zone_def)
  have "map_decision (ne_zones sample_notification_env) (Fin 2) (Fin 1) = Inr (Some risky_zone)"
    by (simp add: map_decision_def coordinates_ok_def sample_notification_env_def)
  with p z have "fst (evaluate_location sample_notification_env sample_sql 7 (Fin 1) (Fin 2) (12 * hour) 8 9 ?s)
      = Inr sample_alert"
    by (simp add: evaluate_location_def sample_preferences_def Let_def)
  then obtain s' where "evaluate_location sample_notification_env sample_sql 7 (Fin 1) (Fin 2) (12 * hour) 8 9 ?s
      = (Inr sample_alert, s')" by (metis prod.collapse)
  then show ?thesis
    by (simp add: route_evaluate_location_def notification_http_def sample_user_def)
qed

lemma sample_alert_step:
  "\<exists>s'. route_evaluate_location sample_notification_env sample_sql (Inr sample_user) (Fin 1) (Fin 2) (12 * hour) 8 9
       \<lparr>ns_repo = sample_notifications, ns_sent = []\<rparr> = (Inr sample_alert, s')
     \<and> notification_history sample_sql sample_notifications [(7, ''k'')] s'"
proof -
  obtain s' where run: "route_evaluate_location sample_notification_env sample_sql (Inr sample_user)
      (Fin 1) (Fin 2) (12 * hour) 8 9 \<lparr>ns_repo = sample_notifications, ns_sent = []\<rparr> = (Inr sample_alert, s')"
    using sample_alert_raised by (metis prod.collapse)
  from notification_step.evaluated [OF run]
  have "notification_step sample_sql \<lparr>ns_repo = sample_notifications, ns_sent = []\<rparr> (Some (7, ''k'')) s'"
    by (simp add: sample_alert_def zone_alert_def dedupe_key_def sample_notification_env_def sample_user_def)
  from notification_history.step [OF notification_history.start this] run show ?thesis by auto
qed

section \<open>Properties\<close>

text \<open>
  C18: Alerts respect consent. A request that raises an alert or sends a push comes from an
  account whose stored preferences enable alerts and background location and are outside the
  quiet hours of its own time zone; a current zone with a score below 60 covers the place; and
  pushes go only to enabled devices of that account, and only with pushes enabled.
\<close>

theorem alerts_respect_consent:
  assumes "route_evaluate_location env (sql_notification_repository enc dec sha256) (Inr u) lat lon now ci di s
      = (Inr d, s')"
    and "should_alert d \<or> ns_sent s' \<noteq> ns_sent s"
  shows "\<exists>p \<in> set (preference_rows (ns_repo s)). np_user_id p = user_id u
    \<and> parking_alerts_enabled p \<and> background_location_enabled p
    \<and> is_quiet (ne_tzdb env) p now = Some False
    \<and> (\<exists>zone. at_location (ne_zones env) lon lat False = Some zone \<and> z_parking_score zone < 60)
    \<and> (\<exists>new. ns_sent s' = ns_sent s @ new \<and> (new \<noteq> [] \<longrightarrow> push_enabled p) \<and>
         (\<forall>m \<in> set new. pd_user_id (pm_device m) = user_id u \<and> pd_enabled (pm_device m)))"
proof -
  let ?repo = "sql_notification_repository enc dec sha256"
  let ?p = "preferences ?repo (user_id u) now (ns_repo s)"
  from evaluate_location_cases [OF evaluate_route_Inr [OF assms(1)]] assms(2)
  obtain zone risk n b where z: "map_decision (ne_zones env) lon lat = Inr (Some zone)"
      "parking_alerts_enabled ?p" "background_location_enabled ?p" "z_parking_score zone < 60"
      "is_quiet (ne_tzdb env) ?p now = Some False"
      "s' = (if b \<and> push_enabled ?p then push_alert env ?repo (user_id u) d zone risk now di (s\<lparr>ns_repo := n\<rparr>)
             else s\<lparr>ns_repo := n\<rparr>)" by blast
  have "?p \<in> set (preference_rows (ns_repo s)) \<and> np_user_id ?p = user_id u"
    using z(2) by (auto simp: sql_notification_repository_def sql_preferences_def default_preferences_def
        dest: find_Some_D split: option.splits)
  moreover have "at_location (ne_zones env) lon lat False = Some zone"
    using z(1) by (simp add: map_decision_def split: if_splits)
  moreover have "\<exists>new. ns_sent s' = ns_sent s @ new \<and> (new \<noteq> [] \<longrightarrow> push_enabled ?p) \<and>
      (\<forall>m \<in> set new. pd_user_id (pm_device m) = user_id u \<and> pd_enabled (pm_device m))"
    by (auto simp: z(6) push_alert_def Let_def alert_message_def dest: sql_notifications.devices_law)
  ultimately show ?thesis using z(2-5) by blast
qed

theorem alerts_respect_consent_witness:
  "\<exists>p \<in> set (preference_rows sample_notifications). np_user_id p = 7 \<and> parking_alerts_enabled p
     \<and> background_location_enabled p"
proof -
  from sample_alert_step obtain s' where run: "route_evaluate_location sample_notification_env sample_sql
      (Inr sample_user) (Fin 1) (Fin 2) (12 * hour) 8 9 \<lparr>ns_repo = sample_notifications, ns_sent = []\<rparr>
      = (Inr sample_alert, s')" by blast
  have "should_alert sample_alert \<or> ns_sent s' \<noteq> []" by (simp add: sample_alert_def zone_alert_def)
  with alerts_respect_consent [OF run] show ?thesis by (auto simp: sample_user_def)
qed

text \<open>
  C19: One alert per place, risk and hour. In any history of requests over PostgreSQL, from any
  database, no two alerts of one account have the same deduplication key.
\<close>

theorem alerts_are_deduplicated:
  assumes "notification_history (sql_notification_repository enc dec sha256) initial trace s"
  shows "distinct trace"
  using sql_notifications.history_claims [OF assms] by blast

theorem alerts_are_deduplicated_witness:
  "\<exists>s. notification_history sample_sql sample_notifications [(7, ''k'')] s \<and> distinct [(7 :: uuid, ''k'')]"
  using sample_alert_step alerts_are_deduplicated [of id id id sample_notifications "[(7, ''k'')]"] by blast

text \<open>
  C20: A push token belongs to one account. In any history of requests from an empty database, a
  token that two devices share is one device of one account: registering a token moves it, so an
  account never receives the alerts of another.
\<close>

theorem device_token_has_one_owner:
  assumes hist: "notification_history (sql_notification_repository enc dec sha256) initial trace s"
    and "device_rows initial = []" and inverse: "\<And>t. dec (enc t) = t"
    and "d \<in> set (sql_devices dec u (ns_repo s))" "e \<in> set (sql_devices dec v (ns_repo s))"
    and "pd_token d = pd_token e"
  shows "u = v \<and> d = e"
proof -
  have "device_rows_ok dec sha256 (ns_repo s)"
    using hist
  proof induction
    case start
    with assms(2) show ?case by (simp add: device_rows_ok_def)
  next
    case (step trace s ev s')
    from step.hyps(2) step.IH show ?case
    proof (rule notification_step_keeps)
      show "device_rows_ok dec sha256 (store_device (sql_notification_repository enc dec sha256) d n)"
        if "device_rows_ok dec sha256 n" for d n
        using store_device_rows_ok [of dec enc, OF inverse that] by (simp add: sql_notification_repository_def)
    qed (simp_all add: sql_notification_repository_def sql_save_preferences_def sql_claim_delivery_def
          sql_record_delivery_def device_rows_ok_def)
  qed
  then have inj: "inj_on dr_token_hash (set (device_rows (ns_repo s)))"
    and hash: "\<And>r. r \<in> set (device_rows (ns_repo s)) \<Longrightarrow> dr_token_hash r = sha256 (dec (dr_token_ciphertext r))"
    by (auto simp: device_rows_ok_def distinct_map)
  from assms(4,5) obtain r q where r: "r \<in> set (device_rows (ns_repo s))" "d = of_device_row dec r" "dr_user_id r = u"
    and q: "q \<in> set (device_rows (ns_repo s))" "e = of_device_row dec q" "dr_user_id q = v"
    by (auto simp: sql_devices_def)
  with assms(6) hash have "dr_token_hash r = dr_token_hash q" by (simp add: of_device_row_def)
  from inj_onD [OF inj this r(1) q(1)] have "r = q" .
  with r q show ?thesis by simp
qed

lemma sample_registration:
  "notification_history sample_sql (sample_notifications\<lparr>device_rows := []\<rparr>) []
     \<lparr>ns_repo = sample_notifications\<lparr>device_rows := [\<lparr>dr_id = 3, dr_user_id = 7, dr_platform = ''ios'',
        dr_token_ciphertext = replicate 20 (CHR ''t''), dr_token_hash = replicate 20 (CHR ''t''),
        dr_enabled = True, dr_updated_at = 0\<rparr>]\<rparr>, ns_sent = []\<rparr>"
proof -
  have "py_strip (replicate 20 (CHR ''t'')) = replicate 20 (CHR ''t'')" by code_simp
  then have "route_register_device sample_sql (Inr sample_user) IOS (replicate 20 (CHR ''t'')) 3 0
      \<lparr>ns_repo = sample_notifications\<lparr>device_rows := []\<rparr>, ns_sent = []\<rparr> =
    (Inr (sample_device\<lparr>pd_token := replicate 20 (CHR ''t'')\<rparr>),
     \<lparr>ns_repo = sample_notifications\<lparr>device_rows := [\<lparr>dr_id = 3, dr_user_id = 7, dr_platform = ''ios'',
        dr_token_ciphertext = replicate 20 (CHR ''t''), dr_token_hash = replicate 20 (CHR ''t''),
        dr_enabled = True, dr_updated_at = 0\<rparr>]\<rparr>, ns_sent = []\<rparr>)"
    by (simp add: route_register_device_def register_device_def notification_http_def sample_user_def
        sample_device_def sql_notification_repository_def sql_store_device_def upsert_row_def
        sample_notifications_def Let_def)
  from notification_history.step [OF notification_history.start notification_step.registered [OF this]]
  show ?thesis by simp
qed

theorem device_token_has_one_owner_witness:
  "set (sql_devices id 7 (sample_notifications\<lparr>device_rows := [\<lparr>dr_id = 3, dr_user_id = 7,
        dr_platform = ''ios'', dr_token_ciphertext = replicate 20 (CHR ''t''),
        dr_token_hash = replicate 20 (CHR ''t''), dr_enabled = True, dr_updated_at = 0\<rparr>]\<rparr>))
      = {sample_device\<lparr>pd_token := replicate 20 (CHR ''t'')\<rparr>}" (is "set ?ds = {?d}")
proof (intro subset_antisym subsetI)
  have d: "?d \<in> set ?ds" and tok: "\<And>e. e \<in> set ?ds \<Longrightarrow> pd_token ?d = pd_token e"
    by (simp_all add: sql_devices_def of_device_row_def sample_device_def)
  fix e assume e: "e \<in> set ?ds"
  have "(7 :: uuid) = 7 \<and> ?d = e"
    by (rule device_token_has_one_owner [OF sample_registration, where u = 7 and v = 7])
       (use d e tok [OF e] in simp_all)
  then show "e \<in> {?d}" by simp
next
  fix e assume "e \<in> {?d}"
  then show "e \<in> set ?ds" by (simp add: sql_devices_def of_device_row_def sample_device_def)
qed

text \<open>The in-memory repository keys devices by identifier: the token of one account can be
  registered by another, and both keep it.\<close>

lemma inmem_token_has_two_owners:
  assumes "u \<noteq> v" "i \<noteq> j"
  defines "dev \<equiv> \<lambda>i u. \<lparr>pd_id = i, pd_user_id = u, pd_platform = IOS, pd_token = ''t'', pd_enabled = True,
      pd_updated_at = 0\<rparr>"
    and "blank \<equiv> \<lparr>nm_preferences = [], nm_devices = [], nm_dedupe = {}, nm_deliveries = []\<rparr>"
  shows "inmem_devices u (inmem_store_device (dev j v) (inmem_store_device (dev i u) blank)) = [dev i u]"
    and "inmem_devices v (inmem_store_device (dev j v) (inmem_store_device (dev i u) blank)) = [dev j v]"
  using assms by (simp_all add: inmem_devices_def inmem_store_device_def)

text \<open>A token that is registered again keeps the identifier of its row, while the endpoint answers
  the identifier it drew.\<close>

lemma reregistration_answers_an_unknown_identifier:
  assumes "r \<in> set (device_rows (ns_repo s))" and "dr_token_hash r = sha256 (py_strip token)"
    and "20 \<le> length (py_strip token)" "length token \<le> 4096" "new_id \<notin> dr_id ` set (device_rows (ns_repo s))"
    and "register_device (sql_notification_repository enc dec sha256) u platform token new_id now s = (Inr d, s')"
  shows "pd_id d = new_id \<and> new_id \<notin> dr_id ` set (device_rows (ns_repo s'))"
proof -
  have "list_ex (\<lambda>r. dr_token_hash r = sha256 (py_strip token)) (device_rows (ns_repo s))"
    using assms(1,2) by (auto simp: list_ex_iff)
  with assms(3-6) show ?thesis
    by (auto simp: register_device_def sql_notification_repository_def sql_store_device_def upsert_row_def Let_def
        split: if_splits)
qed

end
