(* ===== verification/Json.thy ===== *)
theory Json
  imports Calendar Parking_Domain
begin

text \<open>
  JSON documents as Python sees them after \<open>json.loads\<close>, the built-in conversions the code applies
  to them (\<open>int\<close>, \<open>str\<close>, iteration, \<open>dict.get\<close>) with the exceptions they raise, and the ISO 8601
  texts of times, dates and instants. \<open>fromisoformat\<close> accepts more spellings than \<open>isoformat\<close>
  writes, so readers and writers are fields of a record whose law is the locale \<open>iso_8601\<close>; the
  canonical texts are an instance of it.
\<close>

section \<open>Documents\<close>

text \<open>Objects are dictionaries: the last of two equal keys has already won.\<close>

datatype json = JNull | JBool bool | JInt int | JFloat pyfloat | JRat rat | JStr string
  | JList "json list" | JObject "(string \<times> json) list"

text \<open>The outcome of an expression inside a \<open>try\<close>: a value, an exception the handler names, or one
  it does not.\<close>

datatype 'a attempt = Ok 'a | Caught | Escapes

fun and_then :: "'a attempt \<Rightarrow> ('a \<Rightarrow> 'b attempt) \<Rightarrow> 'b attempt" where
  "and_then (Ok x) f = f x"
| "and_then Caught f = Caught"
| "and_then Escapes f = Escapes"

fun attempt_all :: "('a \<Rightarrow> 'b attempt) \<Rightarrow> 'a list \<Rightarrow> 'b list attempt" where
  "attempt_all f [] = Ok []"
| "attempt_all f (x # xs) = and_then (f x) (\<lambda>y. and_then (attempt_all f xs) (\<lambda>ys. Ok (y # ys)))"

definition caught_if_none :: "'a option \<Rightarrow> 'a attempt" where
  "caught_if_none x = (case x of None \<Rightarrow> Caught | Some v \<Rightarrow> Ok v)"

lemma and_then_Ok: "and_then a f = Ok y \<longleftrightarrow> (\<exists>x. a = Ok x \<and> f x = Ok y)"
  by (cases a) auto

lemma caught_if_none_Ok [simp]: "caught_if_none x = Ok y \<longleftrightarrow> x = Some y"
  by (simp add: caught_if_none_def split: option.splits)

lemma caught_if_none_Some [simp]: "caught_if_none (Some y) = Ok y"
  by (simp add: caught_if_none_def)

lemma attempt_all_Ok: "attempt_all f xs = Ok ys \<longleftrightarrow> list_all2 (\<lambda>x y. f x = Ok y) xs ys"
proof (induction xs arbitrary: ys)
  case (Cons x xs)
  then show ?case by (cases ys) (auto simp: and_then_Ok)
qed auto

lemma attempt_all_source: "attempt_all f xs = Ok ys \<Longrightarrow> y \<in> set ys \<Longrightarrow> \<exists>x. f x = Ok y"
  by (induction xs arbitrary: ys) (auto simp: and_then_Ok)

lemma attempt_all_map: "(\<And>x. x \<in> set xs \<Longrightarrow> f (g x) = Ok x) \<Longrightarrow> attempt_all f (map g xs) = Ok xs"
  by (induction xs) simp_all

section \<open>Built-in conversions\<close>

text \<open>\<open>int(text)\<close> on text without surrounding white space: a sign, then digits with single
  underscores between them.\<close>

fun digits_value :: "int \<Rightarrow> string \<Rightarrow> int option" where
  "digits_value acc [] = Some acc"
| "digits_value acc (c # cs) =
     (if is_digit c then digits_value (acc * 10 + (of_char c - 48)) cs
      else if c = CHR ''_'' then (case cs of d # _ \<Rightarrow> if is_digit d then digits_value acc cs else None | [] \<Rightarrow> None)
      else None)"

definition unsigned_value :: "string \<Rightarrow> int option" where
  "unsigned_value s = (case s of [] \<Rightarrow> None | c # _ \<Rightarrow> if is_digit c then digits_value 0 s else None)"

definition py_int :: "string \<Rightarrow> int option" where
  "py_int text = (case py_strip text of
     [] \<Rightarrow> None
   | c # cs \<Rightarrow> if c = CHR ''-'' then map_option uminus (unsigned_value cs)
       else if c = CHR ''+'' then unsigned_value cs else unsigned_value (c # cs))"

text \<open>\<open>int(value)\<close>: \<open>ValueError\<close> and \<open>TypeError\<close> are caught where the code uses it, the
  \<open>OverflowError\<close> of an infinite float is not.\<close>

fun int_of_json :: "json \<Rightarrow> int attempt" where
  "int_of_json (JInt n) = Ok n"
| "int_of_json (JBool b) = Ok (if b then 1 else 0)"
| "int_of_json (JFloat (Fin r)) = Ok (if r < 0 then - \<lfloor>- r\<rfloor> else \<lfloor>r\<rfloor>)"
| "int_of_json (JFloat NaN) = Caught"
| "int_of_json (JFloat _) = Escapes"
| "int_of_json (JStr s) = caught_if_none (py_int s)"
| "int_of_json _ = Caught"

text \<open>\<open>str(value)\<close>; the text of anything but a string is a parameter.\<close>

definition str_of :: "(json \<Rightarrow> string) \<Rightarrow> json \<Rightarrow> string" where
  "str_of repr v = (case v of JStr s \<Rightarrow> s | _ \<Rightarrow> repr v)"

lemma str_of_JStr [simp]: "str_of repr (JStr s) = s"
  by (simp add: str_of_def)

text \<open>\<open>for item in value\<close>.\<close>

fun iterated :: "json \<Rightarrow> json list attempt" where
  "iterated (JList xs) = Ok xs"
| "iterated (JStr s) = Ok (map (\<lambda>c. JStr [c]) s)"
| "iterated (JObject kvs) = Ok (map (\<lambda>kv. JStr (fst kv)) kvs)"
| "iterated _ = Caught"

text \<open>\<open>value[key]\<close> on a dictionary and on any value, \<open>KeyError\<close> and \<open>TypeError\<close> being caught.\<close>

definition item :: "string \<Rightarrow> (string \<times> json) list \<Rightarrow> json attempt" where
  "item k d = caught_if_none (dict_get d k)"

fun subscript :: "string \<Rightarrow> json \<Rightarrow> json attempt" where
  "subscript k (JObject d) = item k d"
| "subscript k _ = Caught"

definition get_or :: "string \<Rightarrow> json \<Rightarrow> (string \<times> json) list \<Rightarrow> json" where
  "get_or k d kvs = (case dict_get kvs k of None \<Rightarrow> d | Some v \<Rightarrow> v)"

fun truthy :: "json \<Rightarrow> bool" where
  "truthy JNull = False"
| "truthy (JBool b) = b"
| "truthy (JInt n) = (n \<noteq> 0)"
| "truthy (JFloat x) = (\<not> feq x (Fin 0))"
| "truthy (JRat r) = (r \<noteq> 0)"
| "truthy (JStr s) = (s \<noteq> [])"
| "truthy (JList xs) = (xs \<noteq> [])"
| "truthy (JObject d) = (d \<noteq> [])"

text \<open>\<open>text.replace("Z", "+00:00")\<close>.\<close>

definition replace_zulu :: "string \<Rightarrow> string" where
  "replace_zulu s = concat (map (\<lambda>c. if c = CHR ''Z'' then ''+00:00'' else [c]) s)"

lemma replace_zulu_id: "CHR ''Z'' \<notin> set s \<Longrightarrow> replace_zulu s = s"
  by (induction s) (auto simp: replace_zulu_def)

end
