(* ===== verification/Analytics.thy ===== *)
theory Analytics
  imports Prelude "HOL-Library.Char_ord" "HOL-Library.List_Lexorder" "HOL-Library.Product_Lexorder"
begin

text \<open>
  Product analytics (\<open>app/modules/observability\<close>): the field filter of \<open>redaction.py\<close>, the
  in-process metrics of \<open>metrics.py\<close> and the consent-gated event intake of \<open>analytics.py\<close> with
  its in-memory provider. The keyed hash of a user identifier is a parameter. The structured log
  lines are left out.
\<close>

section \<open>redaction.py\<close>

definition prohibited_fragments :: "string list" where
  "prohibited_fragments = [''authorization'', ''cookie'', ''credential'', ''email'', ''latitude'',
     ''longitude'', ''location'', ''message'', ''password'', ''payload'', ''photo'', ''receipt'',
     ''secret'', ''signed'', ''token'', ''vin'']"

definition is_prohibited_field :: "string \<Rightarrow> bool" where
  "is_prohibited_field name =
     (let normalized = replace_char (CHR ''-'') (CHR ''_'') (casefold name)
      in list_ex (\<lambda>fragment. str_in fragment normalized) prohibited_fragments)"

text \<open>A value of a JSON object: one of the scalar types, or anything else.\<close>

datatype scalar = StrS string | IntS int | FloatS pyfloat | BoolS bool
datatype pyvalue = Scalar scalar | Other

fun truncated :: "scalar \<Rightarrow> scalar" where
  "truncated (StrS s) = StrS (take 80 s)"
| "truncated x = x"

fun allowlisted_fields ::
  "(string \<times> pyvalue) list \<Rightarrow> string set \<Rightarrow> (string, scalar) pydict \<Rightarrow> (string, scalar) pydict" where
  "allowlisted_fields [] allowed result = result"
| "allowlisted_fields ((key, v) # rest) allowed result =
     (if key \<notin> allowed \<or> is_prohibited_field key then allowlisted_fields rest allowed result
      else case v of
        Other \<Rightarrow> allowlisted_fields rest allowed result
      | Scalar x \<Rightarrow> allowlisted_fields rest allowed (dict_set key (truncated x) result))"

section \<open>metrics.py\<close>

type_synonym label_key = "(string \<times> string) list"

record metrics =
  counters :: "(string \<times> label_key, int) pydict"
  observations :: "(string \<times> label_key, pyfloat list) pydict"

text \<open>\<open>_label_key\<close>; no labels and \<open>None\<close> give the same key.\<close>

definition label_key :: "(string \<times> string) list \<Rightarrow> label_key" where
  "label_key labels = sort (map (\<lambda>(k, v). (take 32 k, take 40 v)) labels)"

definition increment :: "string \<Rightarrow> (string \<times> string) list \<Rightarrow> metrics \<Rightarrow> metrics" where
  "increment name labels m =
     (let k = (name, label_key labels); n = (case dict_get (counters m) k of None \<Rightarrow> 0 | Some n \<Rightarrow> n)
      in m\<lparr>counters := dict_set k (n + 1) (counters m)\<rparr>)"

definition observe :: "string \<Rightarrow> pyfloat \<Rightarrow> (string \<times> string) list \<Rightarrow> metrics \<Rightarrow> metrics" where
  "observe name x labels m =
     (let k = (name, label_key labels); xs = (case dict_get (observations m) k of None \<Rightarrow> [] | Some xs \<Rightarrow> xs)
      in m\<lparr>observations := dict_set k (xs @ [x]) (observations m)\<rparr>)"

section \<open>analytics.py\<close>

datatype product_event_name = SCREEN_VIEWED | SESSION_STARTED | SIGN_IN_COMPLETED
  | PARKING_DECISION_VIEWED | PARKING_RECOMMENDATION_OPENED | SIGN_SCAN_COMPLETED
  | COMMUNITY_REPORT_SUBMITTED | TOW_RECOVERY_SEARCHED | BILLING_VERIFICATION_COMPLETED

fun event_name_value :: "product_event_name \<Rightarrow> string" where
  "event_name_value SCREEN_VIEWED = ''screen_viewed''"
| "event_name_value SESSION_STARTED = ''session_started''"
| "event_name_value SIGN_IN_COMPLETED = ''sign_in_completed''"
| "event_name_value PARKING_DECISION_VIEWED = ''parking_decision_viewed''"
| "event_name_value PARKING_RECOMMENDATION_OPENED = ''parking_recommendation_opened''"
| "event_name_value SIGN_SCAN_COMPLETED = ''sign_scan_completed''"
| "event_name_value COMMUNITY_REPORT_SUBMITTED = ''community_report_submitted''"
| "event_name_value TOW_RECOVERY_SEARCHED = ''tow_recovery_searched''"
| "event_name_value BILLING_VERIFICATION_COMPLETED = ''billing_verification_completed''"

fun event_properties :: "product_event_name \<Rightarrow> string set" where
  "event_properties SCREEN_VIEWED = {''screen''}"
| "event_properties SESSION_STARTED = {''platform'', ''app_version''}"
| "event_properties SIGN_IN_COMPLETED = {''outcome'', ''mfa_used''}"
| "event_properties PARKING_DECISION_VIEWED = {''risk_band'', ''source_level''}"
| "event_properties PARKING_RECOMMENDATION_OPENED = {''distance_band'', ''price_band''}"
| "event_properties SIGN_SCAN_COMPLETED = {''outcome'', ''source_level'', ''restriction_count''}"
| "event_properties COMMUNITY_REPORT_SUBMITTED = {''report_type'', ''outcome''}"
| "event_properties TOW_RECOVERY_SEARCHED = {''outcome'', ''result_band''}"
| "event_properties BILLING_VERIFICATION_COMPLETED = {''provider'', ''outcome''}"

record product_event =
  pe_name :: product_event_name
  pe_subject :: string
  pe_occurred_at :: instant
  pe_expires_at :: instant
  pe_properties :: "(string, scalar) pydict"

text \<open>The provider that stores events: bounded, oldest first.\<close>

definition publish :: "nat \<Rightarrow> product_event \<Rightarrow> product_event list \<Rightarrow> product_event list" where
  "publish max_events e events =
     (let es = events @ [e]
      in if length es > max_events then drop (length es - max_events) es else es)"

definition delete_subject :: "string \<Rightarrow> product_event list \<Rightarrow> nat \<times> product_event list" where
  "delete_subject subject events =
     (let es = filter (\<lambda>e. pe_subject e \<noteq> subject) events in (length events - length es, es))"

definition purge_expired_events :: "instant \<Rightarrow> product_event list \<Rightarrow> nat \<times> product_event list" where
  "purge_expired_events now events =
     (let es = filter (\<lambda>e. pe_expires_at e > now) events in (length events - length es, es))"

text \<open>A provider is the in-memory one, the disabled one, the one that only reports that it is not ready,
  or one that raises on \<open>publish\<close>.\<close>

datatype provider_kind = InMemoryProvider nat | DisabledProvider | UnavailableProvider | FailingProvider

record product_analytics =
  pa_provider :: provider_kind
  pa_subject :: "uuid \<Rightarrow> string"
  pa_retention :: int
  pa_enabled :: bool

record analytics_state =
  an_events :: "product_event list"
  an_metrics :: metrics

definition provider_publish ::
  "provider_kind \<Rightarrow> product_event \<Rightarrow> product_event list \<Rightarrow> product_event list option" where
  "provider_publish k e events =
     (case k of
        InMemoryProvider n \<Rightarrow> Some (publish n e events)
      | DisabledProvider \<Rightarrow> Some events
      | UnavailableProvider \<Rightarrow> Some events
      | FailingProvider \<Rightarrow> None)"

definition rejected :: "string \<Rightarrow> analytics_state \<Rightarrow> bool \<times> analytics_state" where
  "rejected reason s =
     (False, s\<lparr>an_metrics := increment ''product_analytics_rejections_total'' [(''reason'', reason)]
                 (an_metrics s)\<rparr>)"

definition long_string :: "pyvalue \<Rightarrow> bool" where
  "long_string v = (case v of Scalar (StrS s) \<Rightarrow> length s > 80 | _ \<Rightarrow> False)"

definition track ::
  "product_analytics \<Rightarrow> uuid \<Rightarrow> product_event_name \<Rightarrow> (string \<times> pyvalue) list \<Rightarrow> bool \<Rightarrow> instant \<Rightarrow>
     analytics_state \<Rightarrow> bool \<times> analytics_state" where
  "track pa user name properties consent_granted now s =
     (if \<not> pa_enabled pa then rejected ''disabled'' s
      else if \<not> consent_granted then rejected ''consent'' s
      else
        let cleaned = allowlisted_fields properties (event_properties name) [] in
        if set (map fst properties) \<noteq> set (map fst cleaned) \<or> list_ex (\<lambda>(k, v). long_string v) properties
        then rejected ''schema'' s
        else
          let e = \<lparr>pe_name = name, pe_subject = pa_subject pa user, pe_occurred_at = now,
                   pe_expires_at = now + pa_retention pa, pe_properties = cleaned\<rparr>
          in case provider_publish (pa_provider pa) e (an_events s) of
               None \<Rightarrow> rejected ''provider'' s
             | Some es \<Rightarrow>
                 (True, \<lparr>an_events = es,
                    an_metrics = increment ''product_analytics_events_total''
                      [(''event'', event_name_value name)] (an_metrics s)\<rparr>))"

definition delete_user :: "product_analytics \<Rightarrow> uuid \<Rightarrow> analytics_state \<Rightarrow> nat \<times> analytics_state" where
  "delete_user pa user s =
     (case pa_provider pa of
        InMemoryProvider _ \<Rightarrow>
          (case delete_subject (pa_subject pa user) (an_events s) of (n, es) \<Rightarrow> (n, s\<lparr>an_events := es\<rparr>))
      | _ \<Rightarrow> (0, s))"

definition purge_analytics :: "product_analytics \<Rightarrow> instant \<Rightarrow> analytics_state \<Rightarrow> nat \<times> analytics_state" where
  "purge_analytics pa now s =
     (case pa_provider pa of
        InMemoryProvider _ \<Rightarrow>
          (case purge_expired_events now (an_events s) of (n, es) \<Rightarrow> (n, s\<lparr>an_events := es\<rparr>))
      | _ \<Rightarrow> (0, s))"

section \<open>Lemmas\<close>

fun short_scalar :: "scalar \<Rightarrow> bool" where
  "short_scalar (StrS s) = (length s \<le> 80)"
| "short_scalar _ = True"

lemma short_truncated [simp]: "short_scalar (truncated x)"
  by (cases x) simp_all

definition field_ok :: "string set \<Rightarrow> string \<times> scalar \<Rightarrow> bool" where
  "field_ok allowed f = (fst f \<in> allowed \<and> \<not> is_prohibited_field (fst f) \<and> short_scalar (snd f))"

lemma allowlisted_fields_ok:
  "\<forall>f \<in> set r. field_ok allowed f \<Longrightarrow> \<forall>f \<in> set (allowlisted_fields ps allowed r). field_ok allowed f"
proof (induction ps allowed r rule: allowlisted_fields.induct)
  case (2 key v rest allowed result)
  show ?case
  proof (cases v)
    case (Scalar x)
    have "\<forall>f \<in> set (dict_set key (truncated x) result). field_ok allowed f"
      if "key \<in> allowed" "\<not> is_prohibited_field key"
      using 2(4) that set_dict_set_subset [of key "truncated x" result] by (auto simp: field_ok_def)
    with 2 Scalar show ?thesis by auto
  qed (use 2 in auto)
qed simp

text \<open>What every stored event satisfies.\<close>

definition event_ok :: "product_analytics \<Rightarrow> product_event \<Rightarrow> bool" where
  "event_ok pa e \<longleftrightarrow> (\<forall>f \<in> set (pe_properties e). field_ok (event_properties (pe_name e)) f) \<and>
     pe_expires_at e = pe_occurred_at e + pa_retention pa"

lemma set_publish: "set (publish n e es) \<subseteq> insert e (set es)"
  by (auto simp: publish_def Let_def dest: in_set_dropD)

lemma length_publish: "length es \<le> n \<Longrightarrow> length (publish n e es) \<le> n"
  by (cases n) (auto simp: publish_def Let_def)

lemma track_True:
  assumes "track pa u name ps consent now s = (True, s')"
  shows "pa_enabled pa \<and> consent"
  using assms by (auto simp: track_def rejected_def Let_def split: if_splits option.splits)

lemma track_False:
  assumes "track pa u name ps consent now s = (False, s')"
  shows "an_events s' = an_events s"
  using assms by (auto simp: track_def rejected_def Let_def split: if_splits option.splits)

lemma track_events:
  assumes "track pa u name ps consent now s = (b, s')"
  shows "an_events s' = an_events s \<or> pa_enabled pa \<and> consent \<and>
    (\<exists>n e. pa_provider pa = InMemoryProvider n \<and> an_events s' = publish n e (an_events s) \<and>
       pe_subject e = pa_subject pa u \<and> pe_name e = name \<and> event_ok pa e)"
proof -
  have ok: "event_ok pa \<lparr>pe_name = name, pe_subject = pa_subject pa u, pe_occurred_at = now,
      pe_expires_at = now + pa_retention pa,
      pe_properties = allowlisted_fields ps (event_properties name) []\<rparr>"
    using allowlisted_fields_ok [of "[]" "event_properties name" ps] by (simp add: event_ok_def)
  show ?thesis
  proof (cases "an_events s' = an_events s")
    case False
    with assms obtain n where "pa_enabled pa" "consent" "pa_provider pa = InMemoryProvider n"
      "an_events s' = publish n \<lparr>pe_name = name, pe_subject = pa_subject pa u, pe_occurred_at = now,
        pe_expires_at = now + pa_retention pa,
        pe_properties = allowlisted_fields ps (event_properties name) []\<rparr> (an_events s)"
      by (auto simp: track_def rejected_def provider_publish_def Let_def
          split: if_splits option.splits provider_kind.splits)
    with ok show ?thesis by fastforce
  qed simp
qed

text \<open>No documented property is prohibited, so every one of them can be recorded.\<close>

lemma event_properties_recordable: "k \<in> event_properties name \<Longrightarrow> \<not> is_prohibited_field k"
  by (cases name) (auto; code_simp)+

end
