(* ===== verification/Privacy.thy ===== *)
theory Privacy
  imports Json Notifications Analytics Community_Evidence Admin Billing
    "HOL-Library.Product_Lexorder" "HOL-Library.List_Lexorder" "HOL-Library.Char_ord"
begin

text \<open>
  Data rights (\<open>app/modules/privacy\<close>): optional consents, the account export and account
  deletion, over PostgreSQL (\<open>sql_repository.py\<close>, with the foreign keys of
  \<open>app/infrastructure/models.py\<close>) and in memory, and the endpoints
  (\<open>app/presentation/api/routes/privacy.py\<close>, \<open>analytics.py\<close>). Password hashing, the keyed hash of
  identifiers and what the object store answers are parameters.
\<close>

section \<open>Domain\<close>

datatype consent_purpose = PRODUCT_ANALYTICS | PERSONALIZED_RECOMMENDATIONS | COMMUNITY_RESEARCH

fun purpose_value :: "consent_purpose \<Rightarrow> string" where
  "purpose_value PRODUCT_ANALYTICS = ''product_analytics''"
| "purpose_value PERSONALIZED_RECOMMENDATIONS = ''personalized_recommendations''"
| "purpose_value COMMUNITY_RESEARCH = ''community_research''"

datatype data_request_type = EXPORT | DELETION
datatype data_request_status = PROCESSING | COMPLETED

fun request_type_value :: "data_request_type \<Rightarrow> string" where
  "request_type_value EXPORT = ''export''"
| "request_type_value DELETION = ''deletion''"

fun request_status_value :: "data_request_status \<Rightarrow> string" where
  "request_status_value PROCESSING = ''processing''"
| "request_status_value COMPLETED = ''completed''"

record consent_decision =
  cd_id :: uuid
  cd_user_id :: uuid
  cd_purpose :: consent_purpose
  cd_policy_version :: string
  cd_granted :: bool
  cd_occurred_at :: instant

record data_rights_request =
  dq_id :: uuid
  dq_user_id :: "uuid option"
  dq_subject_reference :: string
  dq_type :: data_request_type
  dq_status :: data_request_status
  dq_requested_at :: instant
  dq_completed_at :: "instant option"

record 'p privacy_repository =
  record_consent :: "consent_decision \<Rightarrow> 'p \<Rightarrow> 'p"
  latest_consents :: "uuid \<Rightarrow> 'p \<Rightarrow> consent_decision list"
  add_request :: "data_rights_request \<Rightarrow> 'p \<Rightarrow> 'p"
  complete_request :: "uuid \<Rightarrow> instant \<Rightarrow> 'p \<Rightarrow> 'p"
  export_for_user :: "uuid \<Rightarrow> 'p \<Rightarrow> json option"
  active_media_keys :: "uuid \<Rightarrow> 'p \<Rightarrow> string list"
  erase_account :: "uuid \<Rightarrow> 'p \<Rightarrow> bool \<times> 'p"

section \<open>PrivacyService\<close>

definition account_deletion_confirmation :: string where
  "account_deletion_confirmation = ''DELETE MY PARKSHIELD ACCOUNT''"

datatype privacy_error = PrivacyRequestError string | ExternalDataDeletionError string
  | PrivacyValueError string

record data_export =
  de_request_id :: uuid
  de_generated_at :: instant
  de_policy_version :: string
  de_data :: json

text \<open>\<open>pv_analytics\<close> deletes the events of a user, \<open>None\<close> when the provider raises.\<close>

record 'p privacy_service =
  pv_repository :: "'p privacy_repository"
  pv_verify_password :: "string \<Rightarrow> string \<Rightarrow> bool"
  pv_subject :: "uuid \<Rightarrow> string"
  pv_policy_version :: string
  pv_media_store :: "s3_client option"
  pv_analytics :: "(uuid \<Rightarrow> analytics_state \<Rightarrow> analytics_state option) option"
  pv_totp :: totp_library

record 'p privacy_state =
  ps_repo :: 'p
  ps_objects :: objects
  ps_analytics :: analytics_state

definition decide_consent ::
  "'p privacy_service \<Rightarrow> uuid \<Rightarrow> consent_purpose \<Rightarrow> bool \<Rightarrow> uuid \<Rightarrow> instant \<Rightarrow> 'p privacy_state \<Rightarrow>
     consent_decision \<times> 'p privacy_state" where
  "decide_consent svc u purpose granted new_id now s =
     (let d = \<lparr>cd_id = new_id, cd_user_id = u, cd_purpose = purpose,
               cd_policy_version = pv_policy_version svc, cd_granted = granted, cd_occurred_at = now\<rparr>
      in (d, s\<lparr>ps_repo := record_consent (pv_repository svc) d (ps_repo s)\<rparr>))"

definition new_request ::
  "'p privacy_service \<Rightarrow> uuid \<Rightarrow> data_request_type \<Rightarrow> instant \<Rightarrow> uuid \<Rightarrow> data_rights_request" where
  "new_request svc u ty now new_id =
     \<lparr>dq_id = new_id, dq_user_id = Some u, dq_subject_reference = pv_subject svc u, dq_type = ty,
      dq_status = PROCESSING, dq_requested_at = now, dq_completed_at = None\<rparr>"

definition export_account ::
  "'p privacy_service \<Rightarrow> uuid \<Rightarrow> uuid \<Rightarrow> instant \<Rightarrow> instant \<Rightarrow> 'p privacy_state \<Rightarrow>
     (privacy_error + data_export) \<times> 'p privacy_state" where
  "export_account svc u new_id now later s =
     (let repo = pv_repository svc;
          p1 = add_request repo (new_request svc u EXPORT now new_id) (ps_repo s)
      in case export_for_user repo u p1 of
           None \<Rightarrow> (Inl (PrivacyValueError ''account no longer exists''), s\<lparr>ps_repo := p1\<rparr>)
         | Some data \<Rightarrow>
             (Inr \<lparr>de_request_id = new_id, de_generated_at = later,
                   de_policy_version = pv_policy_version svc, de_data = data\<rparr>,
              s\<lparr>ps_repo := complete_request repo new_id later p1\<rparr>))"

text \<open>The loop over the media keys: it stops at the first deletion that is not confirmed.\<close>

fun delete_media :: "s3_client \<Rightarrow> string list \<Rightarrow> objects \<Rightarrow> bool \<times> objects" where
  "delete_media client [] objs = (True, objs)"
| "delete_media client (k # ks) objs =
     (case s3_delete client k objs of
        (Inl _, objs') \<Rightarrow> (False, objs')
      | (Inr _, objs') \<Rightarrow> delete_media client ks objs')"

text \<open>The checks of \<open>delete_account\<close> on the account and the credentials; \<open>None\<close> is an exception of
  \<open>verify_totp\<close>.\<close>

definition deletion_refusal ::
  "'p privacy_service \<Rightarrow> user \<Rightarrow> string \<Rightarrow> string \<Rightarrow> string option \<Rightarrow> int \<Rightarrow> privacy_error option" where
  "deletion_refusal svc u password confirmation code moment =
     (if user_role u \<noteq> USER
      then Some (PrivacyRequestError ''privileged accounts require controlled administrative offboarding'')
      else if confirmation \<noteq> account_deletion_confirmation
      then Some (PrivacyRequestError ''account deletion confirmation does not match'')
      else if \<not> pv_verify_password svc password (password_hash u)
      then Some (PrivacyRequestError ''account deletion credentials are invalid'')
      else if \<not> mfa_enabled u then None
      else if str_or (mfa_secret u) [] = [] \<or> code = None
      then Some (PrivacyRequestError ''a valid MFA code is required'')
      else case verify_totp (pv_totp svc) (str_or (mfa_secret u) []) (the code) moment of
        None \<Rightarrow> Some (PrivacyValueError ''invalid MFA code'')
      | Some ok \<Rightarrow> if ok then None else Some (PrivacyRequestError ''a valid MFA code is required''))"

text \<open>The deletion of what is held outside the database; an object-store failure is any exception,
  a refused key included.\<close>

definition delete_external ::
  "'p privacy_service \<Rightarrow> uuid \<Rightarrow> string list \<Rightarrow> 'p privacy_state \<Rightarrow>
     (privacy_error + unit) \<times> 'p privacy_state" where
  "delete_external svc u keys s =
     (case (case pv_media_store svc of
              None \<Rightarrow>
                if keys \<noteq> []
                then (Inl (ExternalDataDeletionError
                        ''private media storage is unavailable; account was not deleted''), ps_objects s)
                else (Inr (), ps_objects s)
            | Some client \<Rightarrow>
                (case delete_media client keys (ps_objects s) of
                   (True, objs) \<Rightarrow> (Inr (), objs)
                 | (False, objs) \<Rightarrow> (Inl (ExternalDataDeletionError
                     ''private media deletion could not be confirmed; account was not deleted''), objs))) of
        (Inl e, objs) \<Rightarrow> (Inl e, s\<lparr>ps_objects := objs\<rparr>)
      | (Inr _, objs) \<Rightarrow>
          (case pv_analytics svc of
             None \<Rightarrow> (Inr (), s\<lparr>ps_objects := objs\<rparr>)
           | Some del \<Rightarrow>
               (case del u (ps_analytics s) of
                  None \<Rightarrow> (Inl (ExternalDataDeletionError
                      ''product analytics deletion could not be confirmed; account was not deleted''),
                    s\<lparr>ps_objects := objs\<rparr>)
                | Some an \<Rightarrow> (Inr (), s\<lparr>ps_objects := objs, ps_analytics := an\<rparr>))))"

definition delete_account ::
  "'p privacy_service \<Rightarrow> user \<Rightarrow> string \<Rightarrow> string \<Rightarrow> string option \<Rightarrow> int \<Rightarrow> uuid \<Rightarrow> instant \<Rightarrow> instant \<Rightarrow>
     'p privacy_state \<Rightarrow> (privacy_error + uuid) \<times> 'p privacy_state" where
  "delete_account svc u password confirmation code moment new_id now later s =
     (case deletion_refusal svc u password confirmation code moment of
        Some e \<Rightarrow> (Inl e, s)
      | None \<Rightarrow>
          let repo = pv_repository svc;
              p1 = add_request repo (new_request svc (user_id u) DELETION now new_id) (ps_repo s)
          in case delete_external svc (user_id u) (active_media_keys repo (user_id u) p1) (s\<lparr>ps_repo := p1\<rparr>) of
               (Inl e, s') \<Rightarrow> (Inl e, s')
             | (Inr _, s') \<Rightarrow>
                 (case erase_account repo (user_id u) (complete_request repo new_id later (ps_repo s')) of
                    (erased, p2) \<Rightarrow>
                      (if erased then Inr new_id else Inl (PrivacyRequestError ''account no longer exists''),
                       s'\<lparr>ps_repo := p2\<rparr>)))"

section \<open>InMemoryPrivacyRepository\<close>

record inmem_privacy =
  ip_consents :: "consent_decision list"
  ip_requests :: "(uuid, data_rights_request) pydict"
  ip_export :: json
  ip_media_keys :: "string list"
  ip_deleted :: "uuid set"

definition inmem_record_consent :: "consent_decision \<Rightarrow> inmem_privacy \<Rightarrow> inmem_privacy" where
  "inmem_record_consent d s = s\<lparr>ip_consents := ip_consents s @ [d]\<rparr>"

definition inmem_latest_consents :: "uuid \<Rightarrow> inmem_privacy \<Rightarrow> consent_decision list" where
  "inmem_latest_consents u s =
     (let latest = foldl (\<lambda>acc d. if cd_user_id d = u then dict_set (cd_purpose d) d acc else acc) []
                     (sort_key cd_occurred_at (ip_consents s))
      in sort_key (\<lambda>d. purpose_value (cd_purpose d)) (dict_values latest))"

definition inmem_add_request :: "data_rights_request \<Rightarrow> inmem_privacy \<Rightarrow> inmem_privacy" where
  "inmem_add_request r s = s\<lparr>ip_requests := dict_set (dq_id r) r (ip_requests s)\<rparr>"

text \<open>A request that was never added is a \<open>KeyError\<close>, which the service cannot cause.\<close>

definition inmem_complete_request :: "uuid \<Rightarrow> instant \<Rightarrow> inmem_privacy \<Rightarrow> inmem_privacy" where
  "inmem_complete_request i now s =
     (case dict_get (ip_requests s) i of
        None \<Rightarrow> s
      | Some r \<Rightarrow> s\<lparr>ip_requests := dict_set i (r\<lparr>dq_status := COMPLETED, dq_completed_at := Some now\<rparr>)
                                     (ip_requests s)\<rparr>)"

definition inmem_privacy_repository :: "inmem_privacy privacy_repository" where
  "inmem_privacy_repository = \<lparr>record_consent = inmem_record_consent,
     latest_consents = inmem_latest_consents, add_request = inmem_add_request,
     complete_request = inmem_complete_request, export_for_user = (\<lambda>u s. Some (ip_export s)),
     active_media_keys = (\<lambda>u s. ip_media_keys s),
     erase_account = (\<lambda>u s. (True, s\<lparr>ip_deleted := insert u (ip_deleted s)\<rparr>))\<rparr>"

section \<open>SqlPrivacyRepository\<close>

text \<open>The tables that hold data of an account, or, like the administrative audit trail, its
  identifier. The rows of the identity audit keep their action and time; a row of the domain and its
  stored form are one record where they differ only in the spelling of enumerations.\<close>

record account_tables =
  t_users :: "user_row list"
  t_sessions :: "session list"
  t_audit :: "audit_event list"
  t_reports :: "community_report list"
  t_reputations :: "reporter_reputation list"
  t_appeals :: "report_appeal list"
  t_preferences :: "notification_preferences list"
  t_devices :: "push_device_row list"
  t_deliveries :: "alert_delivery_row list"
  t_consents :: "consent_decision list"
  t_requests :: "data_rights_request list"
  t_subscriptions :: "subscription_record list"
  t_admin_audit :: "admin_audit_record list"

definition sql_record_consent :: "consent_decision \<Rightarrow> account_tables \<Rightarrow> account_tables" where
  "sql_record_consent d t = t\<lparr>t_consents := t_consents t @ [d]\<rparr>"

text \<open>\<open>latest.setdefault(key, value)\<close>.\<close>

definition dict_setdefault :: "'k \<Rightarrow> 'v \<Rightarrow> ('k, 'v) pydict \<Rightarrow> ('k, 'v) pydict" where
  "dict_setdefault k v d = (if dict_get d k = None then d @ [(k, v)] else d)"

definition consent_order :: "consent_decision \<Rightarrow> string \<times> int \<times> int" where
  "consent_order d = (purpose_value (cd_purpose d), - cd_occurred_at d, - uint (cd_id d))"

definition sql_latest_consents :: "uuid \<Rightarrow> account_tables \<Rightarrow> consent_decision list" where
  "sql_latest_consents u t =
     (let rows = sort_key consent_order (filter (\<lambda>d. cd_user_id d = u) (t_consents t));
          latest = foldl (\<lambda>acc d. dict_setdefault (purpose_value (cd_purpose d)) d acc) [] rows
      in map (\<lambda>p. the (dict_get latest p)) (sort (map fst latest)))"

definition sql_add_request :: "data_rights_request \<Rightarrow> account_tables \<Rightarrow> account_tables" where
  "sql_add_request r t = t\<lparr>t_requests := t_requests t @ [r]\<rparr>"

definition sql_complete_request :: "uuid \<Rightarrow> instant \<Rightarrow> account_tables \<Rightarrow> account_tables" where
  "sql_complete_request i now t = t\<lparr>t_requests := map (\<lambda>r. if dq_id r = i \<and> dq_status r = PROCESSING
      then r\<lparr>dq_status := COMPLETED, dq_completed_at := Some now\<rparr> else r) (t_requests t)\<rparr>"

definition sql_active_media_keys :: "uuid \<Rightarrow> account_tables \<Rightarrow> string list" where
  "sql_active_media_keys u t =
     map (\<lambda>r. the (photo_object_key r)) (filter (\<lambda>r. reporter_id r = u \<and> photo_object_key r \<noteq> None
       \<and> photo_deleted_at r = None) (t_reports t))"

subsection \<open>Deletion with its foreign keys\<close>

text \<open>\<open>DELETE FROM users\<close>: \<open>ON DELETE CASCADE\<close> removes the rows of the account (a report takes
  its appeals with it), \<open>ON DELETE SET NULL\<close> clears the reference. The columns of the administrative
  audit trail are no foreign keys.\<close>

definition cascade_user :: "uuid \<Rightarrow> account_tables \<Rightarrow> account_tables" where
  "cascade_user u t =
     (let gone = cr_id ` {r \<in> set (t_reports t). reporter_id r = u} in
      \<lparr>t_users = filter (\<lambda>r. row_id r \<noteq> u) (t_users t),
       t_sessions = filter (\<lambda>r. session_user r \<noteq> u) (t_sessions t),
       t_audit = t_audit t,
       t_reports = filter (\<lambda>r. reporter_id r \<noteq> u) (t_reports t),
       t_reputations = filter (\<lambda>r. rr_user_id r \<noteq> u) (t_reputations t),
       t_appeals = filter (\<lambda>r. appellant_id r \<noteq> u \<and> ap_report_id r \<notin> gone) (t_appeals t),
       t_preferences = filter (\<lambda>r. np_user_id r \<noteq> u) (t_preferences t),
       t_devices = filter (\<lambda>r. dr_user_id r \<noteq> u) (t_devices t),
       t_deliveries = filter (\<lambda>r. al_user_id r \<noteq> u) (t_deliveries t),
       t_consents = filter (\<lambda>r. cd_user_id r \<noteq> u) (t_consents t),
       t_requests = map (\<lambda>r. if dq_user_id r = Some u then r\<lparr>dq_user_id := None\<rparr> else r) (t_requests t),
       t_subscriptions = map (\<lambda>r. if sr_user_id r = Some u then r\<lparr>sr_user_id := None\<rparr> else r)
         (t_subscriptions t),
       t_admin_audit = t_admin_audit t\<rparr>)"

definition sql_erase_account :: "uuid \<Rightarrow> account_tables \<Rightarrow> bool \<times> account_tables" where
  "sql_erase_account u t =
     (let t1 = t\<lparr>t_audit := map (\<lambda>e. if audit_subject e = Some u then e\<lparr>audit_subject := None\<rparr> else e)
                 (t_audit t)\<rparr>
      in if list_ex (\<lambda>r. row_id r = u) (t_users t1) then (True, cascade_user u t1) else (False, t1))"

subsection \<open>Export\<close>

fun report_status_value :: "report_status \<Rightarrow> string" where
  "report_status_value PENDING = ''pending''"
| "report_status_value PUBLISHED = ''published''"
| "report_status_value Community.REJECTED = ''rejected''"

fun appeal_status_value :: "appeal_status \<Rightarrow> string" where
  "appeal_status_value APPEAL_OPEN = ''open''"
| "appeal_status_value UPHELD = ''upheld''"
| "appeal_status_value OVERTURNED = ''overturned''"

fun audit_action_value :: "audit_action \<Rightarrow> string" where
  "audit_action_value USER_REGISTERED = ''user.registered''"
| "audit_action_value EMAIL_VERIFIED = ''user.email_verified''"
| "audit_action_value LOGIN_SUCCEEDED = ''session.login_succeeded''"
| "audit_action_value LOGIN_FAILED = ''session.login_failed''"
| "audit_action_value TOKEN_REFRESHED = ''session.token_refreshed''"
| "audit_action_value LOGOUT = ''session.logout''"
| "audit_action_value SESSION_REVOKED = ''session.revoked''"
| "audit_action_value PASSWORD_RESET_REQUESTED = ''user.password_reset_requested''"
| "audit_action_value PASSWORD_RESET_COMPLETED = ''user.password_reset_completed''"

definition jopt :: "('a \<Rightarrow> json) \<Rightarrow> 'a option \<Rightarrow> json" where
  "jopt f x = (case x of None \<Rightarrow> JNull | Some v \<Rightarrow> f v)"

definition iso :: "instant option \<Rightarrow> json" where
  "iso t = jopt (\<lambda>t. JStr (isoformat t)) t"

definition profile_json :: "user_row \<Rightarrow> json" where
  "profile_json r = JObject [(''id'', JStr (uuid_str (row_id r))), (''email'', JStr (row_email r)),
     (''role'', JStr (row_role r)), (''is_active'', JBool (row_is_active r)),
     (''is_verified'', JBool (row_is_verified r)), (''mfa_enabled'', JBool (row_mfa_enabled r)),
     (''created_at'', iso (Some (row_created_at r)))]"

definition session_json :: "session \<Rightarrow> json" where
  "session_json r = JObject [(''id'', JStr (uuid_str (session_id r))),
     (''created_at'', iso (Some (session_created_at r))), (''expires_at'', iso (Some (session_expires_at r)))]"

definition report_json :: "community_report \<Rightarrow> json" where
  "report_json r = JObject [(''id'', JStr (uuid_str (cr_id r))), (''category'', JStr (category_value (category r))),
     (''latitude'', JFloat (cr_latitude r)), (''longitude'', JFloat (cr_longitude r)),
     (''description'', JStr (description r)), (''status'', JStr (report_status_value (report_status r))),
     (''validation_score'', JRat (validation_score r)), (''photo_sha256'', jopt JStr (photo_sha256 r)),
     (''photo_content_type'', jopt JStr (photo_content_type r)),
     (''photo_size_bytes'', jopt (\<lambda>n. JInt (int n)) (photo_size_bytes r)),
     (''photo_retained_until'', iso (photo_retained_until r)), (''photo_deleted_at'', iso (photo_deleted_at r)),
     (''moderation_reason'', jopt JStr (moderation_reason r)), (''created_at'', iso (Some (cr_created_at r))),
     (''expires_at'', iso (Some (cr_expires_at r)))]"

definition appeal_json :: "report_appeal \<Rightarrow> json" where
  "appeal_json r = JObject [(''id'', JStr (uuid_str (ap_id r))), (''report_id'', JStr (uuid_str (ap_report_id r))),
     (''reason'', JStr (ap_reason r)), (''status'', JStr (appeal_status_value (ap_status r))),
     (''created_at'', iso (Some (ap_created_at r))), (''resolved_at'', iso (resolved_at r)),
     (''resolution_reason'', jopt JStr (resolution_reason r))]"

definition reputation_json :: "reporter_reputation \<Rightarrow> json" where
  "reputation_json r = JObject [(''score'', JRat (rr_score r)), (''approved_reports'', JInt (approved_reports r)),
     (''rejected_reports'', JInt (rejected_reports r))]"

definition preferences_json :: "notification_preferences \<Rightarrow> json" where
  "preferences_json r = JObject [(''parking_alerts_enabled'', JBool (parking_alerts_enabled r)),
     (''background_location_enabled'', JBool (background_location_enabled r)),
     (''push_enabled'', JBool (push_enabled r)), (''quiet_start_hour'', JInt (quiet_start_hour r)),
     (''quiet_end_hour'', JInt (quiet_end_hour r)), (''timezone'', JStr (np_timezone r)),
     (''updated_at'', iso (Some (np_updated_at r)))]"

definition device_json :: "push_device_row \<Rightarrow> json" where
  "device_json r = JObject [(''id'', JStr (uuid_str (dr_id r))), (''platform'', JStr (dr_platform r)),
     (''enabled'', JBool (dr_enabled r)), (''updated_at'', iso (Some (dr_updated_at r)))]"

definition delivery_json :: "alert_delivery_row \<Rightarrow> json" where
  "delivery_json r = JObject [(''id'', JStr (uuid_str (al_id r))), (''status'', JStr (al_status r)),
     (''created_at'', iso (Some (al_created_at r)))]"

definition consent_json :: "consent_decision \<Rightarrow> json" where
  "consent_json r = JObject [(''id'', JStr (uuid_str (cd_id r))), (''purpose'', JStr (purpose_value (cd_purpose r))),
     (''policy_version'', JStr (cd_policy_version r)), (''granted'', JBool (cd_granted r)),
     (''occurred_at'', iso (Some (cd_occurred_at r)))]"

definition request_json :: "data_rights_request \<Rightarrow> json" where
  "request_json r = JObject [(''id'', JStr (uuid_str (dq_id r))),
     (''request_type'', JStr (request_type_value (dq_type r))), (''status'', JStr (request_status_value (dq_status r))),
     (''requested_at'', iso (Some (dq_requested_at r))), (''completed_at'', iso (dq_completed_at r))]"

definition subscription_json :: "subscription_record \<Rightarrow> json" where
  "subscription_json r = JObject [(''platform'', JStr (platform_value (sr_platform r))),
     (''product_id'', JStr (sr_product_id r)), (''entitlement'', JStr (entitlement_value (sr_entitlement r))),
     (''status'', JStr (status_value (sr_status r))), (''environment'', JStr (environment_value (sr_environment r))),
     (''purchased_at'', iso (Some (sr_purchased_at r))), (''expires_at'', iso (sr_expires_at r)),
     (''verified_at'', iso (Some (sr_verified_at r))), (''auto_renews'', JBool (sr_auto_renews r))]"

definition security_json :: "audit_event \<Rightarrow> json" where
  "security_json e = JObject [(''action'', JStr (audit_action_value (audit_action e))),
     (''occurred_at'', iso (Some (audit_occurred_at e)))]"

text \<open>\<open>SELECT ... WHERE p ORDER BY key\<close> as a JSON list.\<close>

definition selected :: "('r \<Rightarrow> json) \<Rightarrow> ('r \<Rightarrow> bool) \<Rightarrow> ('r \<Rightarrow> instant) \<Rightarrow> 'r list \<Rightarrow> json" where
  "selected f p key rows = JList (map f (sort_key key (filter p rows)))"

definition sql_export_for_user :: "uuid \<Rightarrow> account_tables \<Rightarrow> json option" where
  "sql_export_for_user u t =
     (case find (\<lambda>r. row_id r = u) (t_users t) of
        None \<Rightarrow> None
      | Some user \<Rightarrow> Some (JObject
          [(''profile'', profile_json user),
           (''sessions'', selected session_json (\<lambda>r. session_user r = u) session_created_at (t_sessions t)),
           (''community_reports'', selected report_json (\<lambda>r. reporter_id r = u) cr_created_at (t_reports t)),
           (''report_appeals'', selected appeal_json (\<lambda>r. appellant_id r = u) ap_created_at (t_appeals t)),
           (''reporter_reputation'', jopt reputation_json (find (\<lambda>r. rr_user_id r = u) (t_reputations t))),
           (''notification_preferences'', jopt preferences_json (find (\<lambda>r. np_user_id r = u) (t_preferences t))),
           (''push_devices'', selected device_json (\<lambda>r. dr_user_id r = u) dr_updated_at (t_devices t)),
           (''alert_deliveries'', selected delivery_json (\<lambda>r. al_user_id r = u) al_created_at (t_deliveries t)),
           (''consent_history'', selected consent_json (\<lambda>r. cd_user_id r = u) cd_occurred_at (t_consents t)),
           (''data_rights_requests'', selected request_json (\<lambda>r. dq_user_id r = Some u) dq_requested_at (t_requests t)),
           (''store_subscriptions'',
              selected subscription_json (\<lambda>r. sr_user_id r = Some u) sr_verified_at (t_subscriptions t)),
           (''security_events'',
              selected security_json (\<lambda>e. audit_subject e = Some u) audit_occurred_at (t_audit t))]))"

definition sql_privacy_repository :: "account_tables privacy_repository" where
  "sql_privacy_repository = \<lparr>record_consent = sql_record_consent, latest_consents = sql_latest_consents,
     add_request = sql_add_request, complete_request = sql_complete_request,
     export_for_user = sql_export_for_user, active_media_keys = sql_active_media_keys,
     erase_account = sql_erase_account\<rparr>"

section \<open>Endpoints\<close>

text \<open>A request that ends in an exception restores the database; what the object store and the
  analytics provider already deleted stays deleted.\<close>

definition privacy_transaction ::
  "'p privacy_state \<Rightarrow> (http_error + 'a) \<times> 'p privacy_state \<Rightarrow> (http_error + 'a) \<times> 'p privacy_state" where
  "privacy_transaction s res =
     (case res of
        (Inl e, s') \<Rightarrow> (Inl e, s'\<lparr>ps_repo := ps_repo s\<rparr>)
      | (Inr x, s') \<Rightarrow> (Inr x, s'))"

fun deletion_error :: "privacy_error \<Rightarrow> http_error" where
  "deletion_error (PrivacyRequestError m) = http_exception 403 m"
| "deletion_error (ExternalDataDeletionError m) = http_exception 503 m"
| "deletion_error (PrivacyValueError m) = http_exception 500 ''Unexpected server error.''"

definition route_consents ::
  "'p privacy_service \<Rightarrow> http_error + user \<Rightarrow> 'p privacy_state \<Rightarrow> http_error + consent_decision list" where
  "route_consents svc found s =
     (case found of Inl e \<Rightarrow> Inl e
      | Inr u \<Rightarrow> Inr (latest_consents (pv_repository svc) (user_id u) (ps_repo s)))"

definition route_decide_consent ::
  "'p privacy_service \<Rightarrow> http_error + user \<Rightarrow> consent_purpose \<Rightarrow> bool \<Rightarrow> uuid \<Rightarrow> instant \<Rightarrow> 'p privacy_state \<Rightarrow>
     (http_error + consent_decision) \<times> 'p privacy_state" where
  "route_decide_consent svc found purpose granted new_id now s =
     (case found of Inl e \<Rightarrow> (Inl e, s)
      | Inr u \<Rightarrow> (case decide_consent svc (user_id u) purpose granted new_id now s of (d, s') \<Rightarrow> (Inr d, s')))"

definition route_export ::
  "'p privacy_service \<Rightarrow> http_error + user \<Rightarrow> uuid \<Rightarrow> instant \<Rightarrow> instant \<Rightarrow> 'p privacy_state \<Rightarrow>
     (http_error + data_export) \<times> 'p privacy_state" where
  "route_export svc found new_id now later s =
     (case found of Inl e \<Rightarrow> (Inl e, s)
      | Inr u \<Rightarrow> privacy_transaction s
          (case export_account svc (user_id u) new_id now later s of
             (Inl e, s') \<Rightarrow> (Inl (http_exception 500 ''Unexpected server error.''), s')
           | (Inr x, s') \<Rightarrow> (Inr x, s')))"

text \<open>The bounds of \<open>AccountDeletionCommand\<close>.\<close>

definition deletion_command_ok :: "string \<Rightarrow> string \<Rightarrow> string option \<Rightarrow> bool" where
  "deletion_command_ok password confirmation code =
     (1 \<le> length password \<and> length password \<le> 128 \<and> confirmation = account_deletion_confirmation
      \<and> (case code of None \<Rightarrow> True | Some c \<Rightarrow> length c = 6 \<and> list_all is_digit c))"

definition route_delete_account ::
  "'p privacy_service \<Rightarrow> http_error + user \<Rightarrow> string \<Rightarrow> string \<Rightarrow> string option \<Rightarrow> int \<Rightarrow> uuid \<Rightarrow> instant \<Rightarrow> instant \<Rightarrow>
     'p privacy_state \<Rightarrow> (http_error + uuid) \<times> 'p privacy_state" where
  "route_delete_account svc found password confirmation code moment new_id now later s =
     (case found of Inl e \<Rightarrow> (Inl e, s)
      | Inr u \<Rightarrow>
          if \<not> deletion_command_ok password confirmation code
          then (Inl (http_exception 422 ''Invalid request.''), s)
          else privacy_transaction s
            (case delete_account svc u password confirmation code moment new_id now later s of
               (Inl e, s') \<Rightarrow> (Inl (deletion_error e), s')
             | (Inr x, s') \<Rightarrow> (Inr x, s')))"

text \<open>The event intake of \<open>analytics.py\<close>: at most eight properties, none of them prohibited.\<close>

definition record_product_event ::
  "product_analytics \<Rightarrow> 'p privacy_repository \<Rightarrow> http_error + user \<Rightarrow> product_event_name \<Rightarrow>
     (string \<times> scalar) list \<Rightarrow> instant \<Rightarrow> 'p privacy_state \<Rightarrow> (http_error + bool) \<times> 'p privacy_state" where
  "record_product_event pa repo found name properties now s =
     (case found of Inl e \<Rightarrow> (Inl e, s)
      | Inr u \<Rightarrow>
          if length properties > 8 \<or> list_ex (\<lambda>(k, v). is_prohibited_field k) properties
          then (Inl (http_exception 422 ''Invalid request.''), s)
          else
            let granted = list_ex (\<lambda>d. cd_purpose d = PRODUCT_ANALYTICS \<and> cd_granted d)
                            (latest_consents repo (user_id u) (ps_repo s))
            in case track pa (user_id u) name (map (\<lambda>(k, v). (k, Scalar v)) properties) granted now
                      (ps_analytics s) of
                 (accepted, an) \<Rightarrow> (Inr accepted, s\<lparr>ps_analytics := an\<rparr>))"

end
