(* ===== verification/Consents.thy ===== *)
theory Consents
  imports Privacy
begin

text \<open>
  Consents as a map: the last decision of an account for each purpose is what both repositories
  report, and it gates product analytics.
\<close>

section \<open>The abstract state\<close>

definition last_decision :: "consent_decision list \<Rightarrow> uuid \<Rightarrow> consent_purpose \<Rightarrow> consent_decision option" where
  "last_decision ds u p = find (\<lambda>d. cd_user_id d = u \<and> cd_purpose d = p) (rev ds)"

text \<open>The decisions in force, in the order of the purposes' names.\<close>

definition decisions_in_force :: "consent_decision list \<Rightarrow> uuid \<Rightarrow> consent_decision list" where
  "decisions_in_force ds u = concat (map (\<lambda>p. case last_decision ds u p of None \<Rightarrow> [] | Some d \<Rightarrow> [d])
     [COMMUNITY_RESEARCH, PERSONALIZED_RECOMMENDATIONS, PRODUCT_ANALYTICS])"

text \<open>Decisions recorded by a clock that moves between them.\<close>

abbreviation chronological :: "consent_decision list \<Rightarrow> bool" where
  "chronological \<equiv> sorted_wrt (\<lambda>d e. cd_occurred_at d < cd_occurred_at e)"

abbreviation purpose_name :: "consent_decision \<Rightarrow> string" where
  "purpose_name d \<equiv> purpose_value (cd_purpose d)"

lemma purpose_order:
  "purpose_value COMMUNITY_RESEARCH < purpose_value PERSONALIZED_RECOMMENDATIONS"
  "purpose_value PERSONALIZED_RECOMMENDATIONS < purpose_value PRODUCT_ANALYTICS"
  "purpose_value COMMUNITY_RESEARCH < purpose_value PRODUCT_ANALYTICS"
  by (simp_all add: less_char_def)

lemma purpose_value_inj: "purpose_value p = purpose_value q \<Longrightarrow> p = q"
  by (cases p; cases q; simp)

lemma last_decision_purpose: "last_decision ds u p = Some d \<Longrightarrow> d \<in> set ds \<and> cd_user_id d = u \<and> cd_purpose d = p"
  unfolding last_decision_def by (drule find_Some_D) auto

lemma last_decision_exists:
  "d \<in> set ds \<Longrightarrow> cd_user_id d = u \<Longrightarrow> cd_purpose d = p \<Longrightarrow> \<exists>l. last_decision ds u p = Some l"
  by (cases "last_decision ds u p") (auto simp: last_decision_def find_None_iff')

lemma last_decision_latest:
  "chronological ds \<Longrightarrow> last_decision ds u p = Some l \<Longrightarrow> d \<in> set ds \<Longrightarrow> cd_user_id d = u \<Longrightarrow>
     cd_purpose d = p \<Longrightarrow> cd_occurred_at d \<le> cd_occurred_at l"
proof (induction ds rule: rev_induct)
  case (snoc x xs)
  have before: "cd_occurred_at y < cd_occurred_at x" if "y \<in> set xs" for y
    using snoc.prems(1) that by (auto simp: sorted_wrt_append)
  show ?case
  proof (cases "cd_user_id x = u \<and> cd_purpose x = p")
    case True
    with snoc.prems(2) have "l = x" by (simp add: last_decision_def)
    with before snoc.prems(3) show ?thesis by (auto intro: less_imp_le)
  next
    case False
    with snoc show ?thesis by (auto simp: last_decision_def sorted_wrt_append)
  qed
qed simp

lemma chronological_inj:
  "chronological ds \<Longrightarrow> d \<in> set ds \<Longrightarrow> e \<in> set ds \<Longrightarrow> cd_occurred_at d = cd_occurred_at e \<Longrightarrow> d = e"
  by (induction ds) auto

lemma decisions_in_force_set: "set (decisions_in_force ds u) = {d. \<exists>p. last_decision ds u p = Some d}"
proof -
  have opt: "set (case q of None \<Rightarrow> [] | Some d \<Rightarrow> [d]) = {d. q = Some d}" for q :: "consent_decision option"
    by (cases q) auto
  have "set (decisions_in_force ds u) =
      (\<Union>p \<in> {COMMUNITY_RESEARCH, PERSONALIZED_RECOMMENDATIONS, PRODUCT_ANALYTICS}. {d. last_decision ds u p = Some d})"
    by (simp only: decisions_in_force_def set_concat set_map image_image opt list.set)
  also have "{COMMUNITY_RESEARCH, PERSONALIZED_RECOMMENDATIONS, PRODUCT_ANALYTICS} = UNIV"
    using consent_purpose.exhaust by blast
  finally show ?thesis by blast
qed

lemma sorted_options:
  fixes f :: "'a \<Rightarrow> 'b::linorder"
  assumes "a < b" "b < c" "a < c"
    and "\<And>d. x = Some d \<Longrightarrow> f d = a" "\<And>d. y = Some d \<Longrightarrow> f d = b" "\<And>d. z = Some d \<Longrightarrow> f d = c"
  shows "sorted_wrt (<) (map f (concat (map (\<lambda>q. case q of None \<Rightarrow> [] | Some d \<Rightarrow> [d]) [x, y, z])))"
proof -
  have "sorted_wrt (<) (map f (list_of x @ list_of y @ list_of z))"
    if "list_of = case_option [] (\<lambda>d. [d])" for list_of
    using assms(1-3) unfolding that
    by (cases x; cases y; cases z) (simp_all only: option.case append.simps list.map sorted_wrt.simps list.set
      ball_empty ball_simps insert_iff assms(4-6) simp_thms)
  then show ?thesis by simp
qed

lemma decisions_in_force_sorted:
  "sorted (map purpose_name (decisions_in_force ds u)) \<and> distinct (map purpose_name (decisions_in_force ds u))"
proof -
  have p: "purpose_name d = purpose_value p" if "last_decision ds u p = Some d" for p d
    using last_decision_purpose [OF that] by simp
  have eq: "decisions_in_force ds u = concat (map (\<lambda>q. case q of None \<Rightarrow> [] | Some d \<Rightarrow> [d])
      [last_decision ds u COMMUNITY_RESEARCH, last_decision ds u PERSONALIZED_RECOMMENDATIONS,
       last_decision ds u PRODUCT_ANALYTICS])"
    by (simp only: decisions_in_force_def list.map)
  show ?thesis
    unfolding strict_sorted_iff [symmetric] eq by (rule sorted_options [OF purpose_order p p p])
qed

text \<open>A list of decisions in the order of their purposes, one per purpose, is determined by its set.\<close>

lemma latest_unique:
  assumes "sorted (map purpose_name xs)" "distinct (map purpose_name xs)"
    and "set xs = {d. \<exists>p. last_decision ds u p = Some d}"
  shows "xs = decisions_in_force ds u"
proof (rule map_sorted_distinct_set_unique [where f = purpose_name])
  show "set xs = set (decisions_in_force ds u)" by (simp add: assms(3) decisions_in_force_set)
  then show "inj_on purpose_name (set xs \<union> set (decisions_in_force ds u))"
    using assms(2) by (simp add: distinct_map)
qed (use assms decisions_in_force_sorted in simp_all)

section \<open>PostgreSQL\<close>

lemma find_sorted_least:
  "sorted (map k ys) \<Longrightarrow> find P ys = Some d \<Longrightarrow> e \<in> set ys \<Longrightarrow> P e \<Longrightarrow> k d \<le> k e"
  by (induction ys) (auto split: if_splits)

lemma dict_get_setdefault:
  "dict_get (dict_setdefault k v d) j = (if j = k \<and> dict_get d k = None then Some v else dict_get d j)"
  by (auto simp: dict_setdefault_def map_add_def split: option.splits)

lemma foldl_setdefault:
  "dict_get (foldl (\<lambda>acc d. dict_setdefault (f d) d acc) acc ds) k =
     (case dict_get acc k of Some v \<Rightarrow> Some v | None \<Rightarrow> find (\<lambda>d. f d = k) ds)"
  by (induction ds arbitrary: acc) (auto simp: dict_get_setdefault split: option.splits)

lemma foldl_setdefault_ok:
  "dict_ok acc \<Longrightarrow> dict_ok (foldl (\<lambda>acc d. dict_setdefault (f d) d acc) acc ds)"
  by (induction ds arbitrary: acc) (auto simp: dict_setdefault_def map_of_eq_None_iff)

lemma sql_found:
  assumes "chronological ds"
  shows "find (\<lambda>d. purpose_name d = purpose_value p) (sort_key consent_order (filter (\<lambda>d. cd_user_id d = u) ds))
    = last_decision ds u p" (is "find ?P ?ys = _")
proof (cases "find ?P ?ys")
  case None
  then have "\<not> (cd_user_id d = u \<and> cd_purpose d = p)" if "d \<in> set ds" for d
    using that by (auto simp: find_None_iff')
  then have "last_decision ds u p = None" by (auto simp: last_decision_def find_None_iff')
  with None show ?thesis by simp
next
  case (Some d)
  then have d: "d \<in> set ds" "cd_user_id d = u" "cd_purpose d = p"
    using purpose_value_inj by (auto dest!: find_Some_D)
  then obtain l where l: "last_decision ds u p = Some l" using last_decision_exists by blast
  note lp = last_decision_purpose [OF l]
  have "consent_order d \<le> consent_order l"
    by (rule find_sorted_least [OF sorted_sort_key Some]) (use lp in auto)
  with lp d(3) have "cd_occurred_at l \<le> cd_occurred_at d" by (auto simp: consent_order_def less_eq_prod_def)
  with last_decision_latest [OF assms l d] have "cd_occurred_at d = cd_occurred_at l" by simp
  with chronological_inj [OF assms d(1)] lp have "d = l" by blast
  with Some l show ?thesis by simp
qed

lemma sql_latest:
  assumes "chronological (t_consents t)"
  shows "sql_latest_consents u t = decisions_in_force (t_consents t) u"
proof -
  let ?rows = "sort_key consent_order (filter (\<lambda>d. cd_user_id d = u) (t_consents t))"
  let ?latest = "foldl (\<lambda>acc d. dict_setdefault (purpose_name d) d acc) [] ?rows"
  have get: "dict_get ?latest k = find (\<lambda>d. purpose_name d = k) ?rows" for k
    by (simp add: foldl_setdefault)
  have ok: "dict_ok ?latest" by (rule foldl_setdefault_ok) simp
  have key: "purpose_name (the (dict_get ?latest k)) = k \<and> dict_get ?latest k \<noteq> None"
    if "k \<in> set (map fst ?latest)" for k
  proof -
    from that have "dict_get ?latest k \<noteq> None" by (simp add: map_of_eq_None_iff)
    then show ?thesis unfolding get by (auto dest: find_Some_D)
  qed
  let ?xs = "map (\<lambda>k. the (dict_get ?latest k)) (sort (map fst ?latest))"
  have names: "map purpose_name ?xs = sort (map fst ?latest)"
  proof -
    have "map purpose_name ?xs = map (\<lambda>k. purpose_name (the (dict_get ?latest k))) (sort (map fst ?latest))"
      by (simp add: comp_def)
    also have "\<dots> = sort (map fst ?latest)"
      by (rule map_idI) (simp only: set_sort key)
    finally show ?thesis .
  qed
  have "set ?xs = {d. \<exists>p. last_decision (t_consents t) u p = Some d}"
  proof (intro set_eqI iffI)
    fix d assume "d \<in> set ?xs"
    then obtain k where k: "k \<in> set (map fst ?latest)" "d = the (dict_get ?latest k)" by auto
    with key [OF k(1)] have "dict_get ?latest (purpose_name d) = Some d" by auto
    then show "d \<in> {d. \<exists>p. last_decision (t_consents t) u p = Some d}"
      unfolding get sql_found [OF assms] by blast
  next
    fix d assume "d \<in> {d. \<exists>p. last_decision (t_consents t) u p = Some d}"
    then obtain p where p: "last_decision (t_consents t) u p = Some d" by blast
    then have "dict_get ?latest (purpose_value p) = Some d" unfolding get sql_found [OF assms] .
    then have "purpose_value p \<in> set (map fst ?latest)" "d = the (dict_get ?latest (purpose_value p))"
      by (force dest: map_of_SomeD, metis option.sel)
    then show "d \<in> set ?xs" unfolding set_map [of _ "sort _"] set_sort by (rule rev_image_eqI)
  qed
  from latest_unique [OF _ _ this] have "?xs = decisions_in_force (t_consents t) u"
    by (simp only: names sorted_sort distinct_sort ok)
  then show ?thesis by (simp add: sql_latest_consents_def Let_def)
qed

section \<open>In memory\<close>

lemma foldl_last:
  "dict_get (foldl (\<lambda>acc d. if P d then dict_set (f d) d acc else acc) acc ds) k =
     (case find (\<lambda>d. P d \<and> f d = k) (rev ds) of Some d \<Rightarrow> Some d | None \<Rightarrow> dict_get acc k)"
  by (induction ds arbitrary: acc rule: rev_induct) auto

lemma foldl_last_ok:
  "dict_ok acc \<Longrightarrow> dict_ok (foldl (\<lambda>acc d. if P d then dict_set (f d) d acc else acc) acc ds)"
  by (induction ds arbitrary: acc) auto

lemma inmem_latest:
  assumes "chronological (ip_consents s)"
  shows "inmem_latest_consents u s = decisions_in_force (ip_consents s) u"
proof -
  have sorted: "sort_key cd_occurred_at (ip_consents s) = ip_consents s"
    using assms by (intro sort_key_id_if_sorted) (auto simp: sorted_map intro: sorted_wrt_mono_rel [rotated])
  let ?latest = "foldl (\<lambda>acc d. if cd_user_id d = u then dict_set (cd_purpose d) d acc else acc) [] (ip_consents s)"
  have get: "dict_get ?latest p = last_decision (ip_consents s) u p" for p
    by (simp add: foldl_last last_decision_def split: option.splits)
  have ok: "dict_ok ?latest" by (rule foldl_last_ok) simp
  have vals: "set (dict_values ?latest) = {d. \<exists>p. last_decision (ip_consents s) u p = Some d}"
    using dict_values_iff [OF ok] by (auto simp only: get)
  have "fst q = cd_purpose (snd q)" if "q \<in> set ?latest" for q
  proof -
    have "dict_get ?latest (fst q) = Some (snd q)" using ok that by (cases q) (simp only: map_of_is_SomeI fst_conv snd_conv)
    from last_decision_purpose [OF this [unfolded get]] show ?thesis by simp
  qed
  then have "map fst ?latest = map cd_purpose (dict_values ?latest)"
    by (simp only: map_map comp_def cong: map_cong)
  then have "distinct (map cd_purpose (dict_values ?latest))" using ok by (simp only:)
  then have "distinct (map purpose_name (dict_values ?latest))"
    using purpose_value_inj by (auto simp: distinct_map inj_on_def)
  then have "distinct (map purpose_name (sort_key purpose_name (dict_values ?latest)))"
    unfolding distinct_map distinct_sort set_sort .
  from latest_unique [OF sorted_sort_key this]
  have "sort_key purpose_name (dict_values ?latest) = decisions_in_force (ip_consents s) u"
    by (simp only: set_sort vals)
  then show ?thesis by (simp add: inmem_latest_consents_def sorted Let_def)
qed

section \<open>What the endpoints rest on\<close>

text \<open>
  C21: The two consent repositories refine one abstract state, the last decision of each account for
  each purpose: once a decision later than every stored one is recorded, both report exactly the
  decisions in force, in the order of their purposes, with that decision in force for its account
  and purpose and every other one as it was.
\<close>

theorem consents_refine:
  assumes "chronological ds" and "\<forall>e \<in> set ds. cd_occurred_at e < cd_occurred_at d"
    and "t_consents t = ds" and "ip_consents s = ds"
  shows "latest_consents sql_privacy_repository u (record_consent sql_privacy_repository d t) = decisions_in_force (ds @ [d]) u
    \<and> latest_consents inmem_privacy_repository u (record_consent inmem_privacy_repository d s) = decisions_in_force (ds @ [d]) u
    \<and> last_decision (ds @ [d]) u p = (if cd_user_id d = u \<and> cd_purpose d = p then Some d else last_decision ds u p)"
proof -
  have "chronological (ds @ [d])" using assms(1,2) by (simp add: sorted_wrt_append)
  then show ?thesis
    using sql_latest [of "sql_record_consent d t" u] inmem_latest [of "inmem_record_consent d s" u] assms(3,4)
    by (simp add: sql_privacy_repository_def inmem_privacy_repository_def sql_record_consent_def
        inmem_record_consent_def last_decision_def)
qed

lemma granted_iff:
  "list_ex (\<lambda>d. cd_purpose d = p \<and> cd_granted d) (decisions_in_force ds u) \<longleftrightarrow>
     (\<exists>d. last_decision ds u p = Some d \<and> cd_granted d)"
  unfolding list_ex_iff decisions_in_force_set using last_decision_purpose by blast

lemma fst_dict_set: "fst ` set (dict_set k v d) = insert k (fst ` set d)"
  by (induction d) auto

lemma allowlisted_keys:
  "\<forall>f \<in> set ps. field_ok allowed f \<Longrightarrow>
     fst ` set (allowlisted_fields (map (\<lambda>(k, v). (k, Scalar v)) ps) allowed r) = fst ` set ps \<union> fst ` set r"
  by (induction ps arbitrary: r) (simp_all add: field_ok_def fst_dict_set case_prod_unfold)

lemma track_accepts:
  assumes "pa_enabled pa" "pa_provider pa \<noteq> FailingProvider"
    and fields: "\<forall>f \<in> set ps. field_ok (event_properties name) f"
  shows "fst (track pa u name (map (\<lambda>(k, v). (k, Scalar v)) ps) True now s)"
proof -
  let ?ps = "map (\<lambda>(k, v). (k, Scalar v)) ps"
  have "set (map fst ?ps) = set (map fst (allowlisted_fields ?ps (event_properties name) []))"
    using allowlisted_keys [OF fields, of "[]"] by (simp add: image_image case_prod_unfold)
  moreover have "\<not> long_string (Scalar v)" if "(k, v) \<in> set ps" for k v
    using fields that by (cases v) (auto simp: field_ok_def long_string_def)
  then have "\<not> list_ex (\<lambda>(k, v). long_string v) ?ps" by (auto simp: list_ex_iff)
  ultimately show ?thesis
    using assms(1,2) by (simp add: track_def Let_def provider_publish_def split: provider_kind.splits)
qed

text \<open>
  C22: Product analytics follows consent. Recording a product event leaves the database alone, and
  stores an event only when analytics is enabled and the last decision of the account on product
  analytics is a grant; the event is under the pseudonym of the account, carries only documented,
  non-prohibited fields of at most eighty characters and expires after the retention, and the store
  keeps its bound. Conversely such a request with documented short fields is accepted.
\<close>

theorem product_events_respect_consent:
  assumes "record_product_event pa sql_privacy_repository found name props now s = (r, s')"
    and "chronological (t_consents (ps_repo s))" and "pa_provider pa = InMemoryProvider n"
    and "length (an_events (ps_analytics s)) \<le> n"
  shows "ps_repo s' = ps_repo s \<and> ps_objects s' = ps_objects s
    \<and> length (an_events (ps_analytics s')) \<le> n
    \<and> (an_events (ps_analytics s') \<noteq> an_events (ps_analytics s) \<longrightarrow> pa_enabled pa
         \<and> (\<exists>u d e. found = Inr u \<and> last_decision (t_consents (ps_repo s)) (user_id u) PRODUCT_ANALYTICS = Some d
              \<and> cd_granted d \<and> an_events (ps_analytics s') = publish n e (an_events (ps_analytics s))
              \<and> pe_subject e = pa_subject pa (user_id u) \<and> pe_name e = name \<and> event_ok pa e))
    \<and> (\<forall>u d. found = Inr u \<and> last_decision (t_consents (ps_repo s)) (user_id u) PRODUCT_ANALYTICS = Some d
         \<and> cd_granted d \<and> pa_enabled pa \<and> length props \<le> 8
         \<and> (\<forall>f \<in> set props. fst f \<in> event_properties name \<and> short_scalar (snd f)) \<longrightarrow> r = Inr True)"
proof (cases found)
  case (Inl e)
  with assms show ?thesis by (simp add: record_product_event_def)
next
  case (Inr u)
  let ?refused = "length props > 8 \<or> list_ex (\<lambda>(k, v). is_prohibited_field k) props"
  let ?granted = "list_ex (\<lambda>d. cd_purpose d = PRODUCT_ANALYTICS \<and> cd_granted d)
    (latest_consents sql_privacy_repository (user_id u) (ps_repo s))"
  have granted: "?granted \<longleftrightarrow>
      (\<exists>d. last_decision (t_consents (ps_repo s)) (user_id u) PRODUCT_ANALYTICS = Some d \<and> cd_granted d)"
    unfolding granted_iff [symmetric] sql_latest [OF assms(2), symmetric]
    by (simp add: sql_privacy_repository_def)
  obtain b an where track: "track pa (user_id u) name (map (\<lambda>(k, v). (k, Scalar v)) props) ?granted now
      (ps_analytics s) = (b, an)" by fastforce
  show ?thesis
  proof (cases ?refused)
    case True
    have False if "length props \<le> 8" "\<forall>f \<in> set props. fst f \<in> event_properties name"
      using True that event_properties_recordable by (fastforce simp: list_ex_iff)
    with assms Inr True show ?thesis by (auto simp: record_product_event_def)
  next
    case False
    with assms(1) Inr track have r: "r = Inr b" "s' = s\<lparr>ps_analytics := an\<rparr>"
      by (simp_all add: record_product_event_def Let_def)
    have bound: "length (an_events an) \<le> n"
      using track_events [OF track] assms(3,4) length_publish by auto
    have "b" if "?granted" "pa_enabled pa"
      "\<forall>f \<in> set props. fst f \<in> event_properties name \<and> short_scalar (snd f)"
    proof -
      from that(3) have "\<forall>f \<in> set props. field_ok (event_properties name) f"
        unfolding field_ok_def using event_properties_recordable by blast
      from track_accepts [OF that(2) _ this, of "user_id u" now "ps_analytics s"] track that(1) assms(3)
      show ?thesis by simp
    qed
    moreover note track_events [OF track]
    ultimately show ?thesis using Inr r bound granted assms(3) by auto
  qed
qed

section \<open>Witnesses\<close>

definition sample_decision :: "bool \<Rightarrow> instant \<Rightarrow> consent_decision" where
  "sample_decision granted t = \<lparr>cd_id = 1, cd_user_id = 7, cd_purpose = PRODUCT_ANALYTICS,
     cd_policy_version = ''2026-01'', cd_granted = granted, cd_occurred_at = t\<rparr>"

definition tables_with_consents :: "consent_decision list \<Rightarrow> account_tables" where
  "tables_with_consents ds = \<lparr>t_users = [], t_sessions = [], t_audit = [], t_reports = [], t_reputations = [],
     t_appeals = [], t_preferences = [], t_devices = [], t_deliveries = [], t_consents = ds, t_requests = [],
     t_subscriptions = [], t_admin_audit = []\<rparr>"

definition privacy_with_consents :: "consent_decision list \<Rightarrow> inmem_privacy" where
  "privacy_with_consents ds = \<lparr>ip_consents = ds, ip_requests = [], ip_export = JNull, ip_media_keys = [], ip_deleted = {}\<rparr>"

theorem consents_refine_witness:
  "latest_consents sql_privacy_repository 7 (record_consent sql_privacy_repository (sample_decision False 5)
      (tables_with_consents [sample_decision True 3])) = decisions_in_force [sample_decision True 3, sample_decision False 5] 7
   \<and> last_decision [sample_decision True 3, sample_decision False 5] 7 PRODUCT_ANALYTICS = Some (sample_decision False 5)"
  using consents_refine [of "[sample_decision True 3]" "sample_decision False 5" "tables_with_consents [sample_decision True 3]"
      "privacy_with_consents [sample_decision True 3]" 7 PRODUCT_ANALYTICS]
  by (simp add: sample_decision_def tables_with_consents_def privacy_with_consents_def)

definition analytics_user :: user where
  "analytics_user = \<lparr>user_id = 7, email = ''a@b'', password_hash = [], user_role = USER, is_active = True,
     is_verified = True, user_created_at = 0, mfa_secret = None, mfa_enabled = False\<rparr>"

definition sample_analytics :: product_analytics where
  "sample_analytics = \<lparr>pa_provider = InMemoryProvider 2, pa_subject = (\<lambda>u. ''reference''), pa_retention = 30,
     pa_enabled = True\<rparr>"

definition analytics_privacy_state :: "account_tables privacy_state" where
  "analytics_privacy_state = \<lparr>ps_repo = tables_with_consents [sample_decision False 3, sample_decision True 5],
     ps_objects = Map.empty, ps_analytics = \<lparr>an_events = [], an_metrics = \<lparr>counters = [], observations = []\<rparr>\<rparr>\<rparr>"

theorem product_events_respect_consent_witness:
  "fst (record_product_event sample_analytics sql_privacy_repository (Inr analytics_user) SCREEN_VIEWED
     [(''screen'', StrS ''map'')] 9 analytics_privacy_state) = Inr True"
proof -
  obtain r s' where run: "record_product_event sample_analytics sql_privacy_repository (Inr analytics_user) SCREEN_VIEWED
     [(''screen'', StrS ''map'')] 9 analytics_privacy_state = (r, s')" by fastforce
  have repo: "ps_repo analytics_privacy_state = tables_with_consents [sample_decision False 3, sample_decision True 5]"
    by (simp add: analytics_privacy_state_def)
  have "chronological (t_consents (ps_repo analytics_privacy_state))"
    by (simp add: repo tables_with_consents_def sample_decision_def)
  moreover have "pa_provider sample_analytics = InMemoryProvider 2" "pa_enabled sample_analytics"
    by (simp_all add: sample_analytics_def)
  moreover have "length (an_events (ps_analytics analytics_privacy_state)) \<le> 2"
    by (simp add: analytics_privacy_state_def)
  moreover have "last_decision (t_consents (ps_repo analytics_privacy_state)) (user_id analytics_user)
      PRODUCT_ANALYTICS = Some (sample_decision True 5)" "cd_granted (sample_decision True 5)"
    by (simp_all add: repo tables_with_consents_def sample_decision_def last_decision_def analytics_user_def)
  ultimately show ?thesis
    using product_events_respect_consent [OF run, of 2] run by simp
qed

end
