(* ===== verification/Privacy_Safety.thy ===== *)
theory Privacy_Safety
  imports Consents
begin

text \<open>
  What the data rights promise: the export depends on nothing but the account's own rows with their
  secrets blanked, and a confirmed erasure leaves nothing of the account behind, in the object store,
  with the analytics provider or in the database, but for the append-only administrative audit trail,
  while a refused one leaves the database as it was.
\<close>

section \<open>The view of an account\<close>

text \<open>What the account may see of the tables: its own rows, without the password hash, the MFA
  secret, object keys, fingerprints, push tokens, deduplication keys and the references under which
  transactions and subjects are stored, and nothing of the administrative audit trail.\<close>

definition account_view :: "uuid \<Rightarrow> account_tables \<Rightarrow> account_tables" where
  "account_view u t =
     \<lparr>t_users = map (\<lambda>r. r\<lparr>row_password_hash := [], row_mfa_secret := None\<rparr>)
        (filter (\<lambda>r. row_id r = u) (t_users t)),
      t_sessions = filter (\<lambda>r. session_user r = u) (t_sessions t),
      t_audit = filter (\<lambda>e. audit_subject e = Some u) (t_audit t),
      t_reports = map (\<lambda>r. r\<lparr>fingerprint := [], photo_object_key := None\<rparr>)
        (filter (\<lambda>r. reporter_id r = u) (t_reports t)),
      t_reputations = filter (\<lambda>r. rr_user_id r = u) (t_reputations t),
      t_appeals = filter (\<lambda>r. appellant_id r = u) (t_appeals t),
      t_preferences = filter (\<lambda>r. np_user_id r = u) (t_preferences t),
      t_devices = map (\<lambda>r. r\<lparr>dr_token_ciphertext := [], dr_token_hash := []\<rparr>)
        (filter (\<lambda>r. dr_user_id r = u) (t_devices t)),
      t_deliveries = map (\<lambda>r. r\<lparr>al_dedupe_key := None\<rparr>) (filter (\<lambda>r. al_user_id r = u) (t_deliveries t)),
      t_consents = filter (\<lambda>r. cd_user_id r = u) (t_consents t),
      t_requests = map (\<lambda>r. r\<lparr>dq_subject_reference := []\<rparr>)
        (filter (\<lambda>r. dq_user_id r = Some u) (t_requests t)),
      t_subscriptions = map (\<lambda>r. r\<lparr>sr_subject_reference := [], sr_transaction_reference := [],
          sr_original_reference := []\<rparr>) (filter (\<lambda>r. sr_user_id r = Some u) (t_subscriptions t)),
      t_admin_audit = []\<rparr>"

lemma insort_key_map:
  "(\<And>x. key (f x) = key x) \<Longrightarrow> insort_key key (f x) (map f xs) = map f (insort_key key x xs)"
  by (induction xs) simp_all

lemma sort_key_map: "(\<And>x. key (f x) = key x) \<Longrightarrow> sort_key key (map f xs) = map f (sort_key key xs)"
  by (induction xs) (simp_all add: insort_key_map)

lemma selected_filter: "selected js p key (filter p rows) = selected js p key rows"
  by (simp add: selected_def)

lemma selected_map:
  assumes "\<And>r. p (f r) = p r" "\<And>r. key (f r) = key r" "\<And>r. js (f r) = js r"
  shows "selected js p key (map f (filter p rows)) = selected js p key rows"
  by (simp add: selected_def filter_map comp_def assms sort_key_map)

lemma find_filter: "find p (filter p rows) = find p rows"
  by (induction rows) simp_all

lemma find_map: "(\<And>r. p (f r) = p r) \<Longrightarrow> find p (map f rows) = map_option f (find p rows)"
  by (induction rows) simp_all

lemma export_by_view: "sql_export_for_user u (account_view u t) = sql_export_for_user u t"
proof -
  have users: "find (\<lambda>r. row_id r = u) (t_users (account_view u t)) =
      map_option (\<lambda>r. r\<lparr>row_password_hash := [], row_mfa_secret := None\<rparr>) (find (\<lambda>r. row_id r = u) (t_users t))"
    by (simp add: account_view_def find_map find_filter)
  show ?thesis
    unfolding sql_export_for_user_def users
    by (cases "find (\<lambda>r. row_id r = u) (t_users t)")
      (simp_all add: account_view_def selected_filter selected_map find_filter profile_json_def
        report_json_def device_json_def delivery_json_def request_json_def subscription_json_def)
qed

text \<open>
  C24: The export reveals nothing but the account's own data, and no secret of it: on any tables it
  is the export of the view that keeps only the account's rows and blanks the password hash, the
  MFA secret, media keys, fingerprints, push tokens, deduplication keys and stored references. Two
  databases that agree on that view therefore export the same.
\<close>

theorem export_reveals_no_secret:
  "sql_export_for_user u (account_view u t) = sql_export_for_user u t
   \<and> (account_view u t = account_view u t' \<longrightarrow> sql_export_for_user u t = sql_export_for_user u t')"
  using export_by_view [of u t] export_by_view [of u t'] by auto

section \<open>Erasure\<close>

text \<open>Whether a table other than the administrative audit trail refers to the account.\<close>

definition mentions :: "uuid \<Rightarrow> account_tables \<Rightarrow> bool" where
  "mentions u t \<longleftrightarrow> list_ex (\<lambda>r. row_id r = u) (t_users t) \<or> list_ex (\<lambda>r. session_user r = u) (t_sessions t)
     \<or> list_ex (\<lambda>e. audit_subject e = Some u) (t_audit t) \<or> list_ex (\<lambda>r. reporter_id r = u) (t_reports t)
     \<or> list_ex (\<lambda>r. rr_user_id r = u) (t_reputations t) \<or> list_ex (\<lambda>r. appellant_id r = u) (t_appeals t)
     \<or> list_ex (\<lambda>r. np_user_id r = u) (t_preferences t) \<or> list_ex (\<lambda>r. dr_user_id r = u) (t_devices t)
     \<or> list_ex (\<lambda>r. al_user_id r = u) (t_deliveries t) \<or> list_ex (\<lambda>r. cd_user_id r = u) (t_consents t)
     \<or> list_ex (\<lambda>r. dq_user_id r = Some u) (t_requests t)
     \<or> list_ex (\<lambda>r. sr_user_id r = Some u) (t_subscriptions t)"

text \<open>An appeal of another account on a report of this one, which goes with the report.\<close>

definition appeals_against :: "uuid \<Rightarrow> uuid \<Rightarrow> account_tables \<Rightarrow> bool" where
  "appeals_against v u t \<longleftrightarrow>
     (\<exists>a \<in> set (t_appeals t). appellant_id a = v \<and> (\<exists>r \<in> set (t_reports t). cr_id r = ap_report_id a \<and> reporter_id r = u))"

lemma erase_leaves_nothing: "sql_erase_account u t = (True, t') \<Longrightarrow> \<not> mentions u t'"
  by (auto simp: sql_erase_account_def cascade_user_def mentions_def list_ex_iff Let_def split: if_splits)

text \<open>The administrative audit trail is append-only: an erasure keeps its records as they are, those
  that name the account as actor or subject included.\<close>

definition audited :: "uuid \<Rightarrow> account_tables \<Rightarrow> bool" where
  "audited u t = list_ex (\<lambda>r. actor_id r = u \<or> subject_id r = Some u) (t_admin_audit t)"

lemma erase_keeps_trail: "sql_erase_account u t = (b, t') \<Longrightarrow> t_admin_audit t' = t_admin_audit t"
  by (auto simp: sql_erase_account_def cascade_user_def Let_def split: if_splits)

lemma erase_drops_appeals:
  "sql_erase_account u t = (True, t') \<Longrightarrow> a \<in> set (t_appeals t') \<Longrightarrow> r \<in> set (t_reports t) \<Longrightarrow>
     reporter_id r = u \<Longrightarrow> ap_report_id a \<noteq> cr_id r"
  by (auto simp: sql_erase_account_def cascade_user_def Let_def split: if_splits)

lemma filter_twice:
  "(\<And>x. x \<in> set xs \<Longrightarrow> P x \<Longrightarrow> Q x) \<Longrightarrow> filter P (filter Q xs) = filter P xs"
  by (induction xs) auto

lemma filter_own: "v \<noteq> u \<Longrightarrow> filter (\<lambda>r. f r = v) (filter (\<lambda>r. f r \<noteq> u) xs) = filter (\<lambda>r. f r = v) xs"
  by (rule filter_twice) simp

lemma filter_changed:
  assumes "\<And>x. P (f x) = (P x \<and> f x = x)" "\<And>x. P x \<Longrightarrow> f x = x"
  shows "filter P (map f xs) = filter P xs"
  using assms by (induction xs) auto

lemma erase_view:
  assumes "sql_erase_account u t = (True, t')" "v \<noteq> u" "\<not> appeals_against v u t"
  shows "account_view v t' = account_view v t"
proof -
  let ?t = "t\<lparr>t_audit := map (\<lambda>e. if audit_subject e = Some u then e\<lparr>audit_subject := None\<rparr> else e) (t_audit t)\<rparr>"
  have t': "t' = cascade_user u ?t" using assms(1) by (auto simp: sql_erase_account_def Let_def split: if_splits)
  have sel: "t_users ?t = t_users t" "t_sessions ?t = t_sessions t" "t_reports ?t = t_reports t"
    "t_reputations ?t = t_reputations t" "t_appeals ?t = t_appeals t" "t_preferences ?t = t_preferences t"
    "t_devices ?t = t_devices t" "t_deliveries ?t = t_deliveries t" "t_consents ?t = t_consents t"
    "t_requests ?t = t_requests t" "t_subscriptions ?t = t_subscriptions t"
    "t_audit ?t = map (\<lambda>e. if audit_subject e = Some u then e\<lparr>audit_subject := None\<rparr> else e) (t_audit t)"
    by simp_all
  have appeals: "filter (\<lambda>r. appellant_id r = v) (filter (\<lambda>r. appellant_id r \<noteq> u \<and>
      ap_report_id r \<notin> cr_id ` {r \<in> set (t_reports t). reporter_id r = u}) (t_appeals t)) =
      filter (\<lambda>r. appellant_id r = v) (t_appeals t)"
    using assms(2,3) unfolding appeals_against_def by (intro filter_twice) (simp add: image_iff, metis)
  have audit: "filter (\<lambda>e. audit_subject e = Some v) (map (\<lambda>e. if audit_subject e = Some u
      then e\<lparr>audit_subject := None\<rparr> else e) (t_audit t)) = filter (\<lambda>e. audit_subject e = Some v) (t_audit t)"
    using assms(2) by (intro filter_changed) auto
  have requests: "filter (\<lambda>r. dq_user_id r = Some v) (map (\<lambda>r. if dq_user_id r = Some u
      then r\<lparr>dq_user_id := None\<rparr> else r) (t_requests t)) = filter (\<lambda>r. dq_user_id r = Some v) (t_requests t)"
    using assms(2) by (intro filter_changed) auto
  have subscriptions: "filter (\<lambda>r. sr_user_id r = Some v) (map (\<lambda>r. if sr_user_id r = Some u
      then r\<lparr>sr_user_id := None\<rparr> else r) (t_subscriptions t)) = filter (\<lambda>r. sr_user_id r = Some v) (t_subscriptions t)"
    using assms(2) by (intro filter_changed) auto
  show ?thesis
    by (simp only: t' account_view_def cascade_user_def Let_def account_tables.select_convs sel
        appeals audit requests subscriptions filter_own [OF assms(2)])
qed

lemma delete_media_done:
  "delete_media c ks objs = (True, objs') \<Longrightarrow>
     (\<forall>k \<in> set ks. objs' k = None) \<and> (\<forall>k. objs k = None \<longrightarrow> objs' k = None)"
  by (induction ks arbitrary: objs) (force simp: s3_delete_def split: if_splits)+

lemma delete_media_gone: "delete_media c ks objs = (True, objs') \<Longrightarrow> k \<in> set ks \<Longrightarrow> objs' k = None"
  using delete_media_done by blast

lemma delete_external_done:
  assumes "delete_external svc u keys s = (Inr x, s')"
  shows "ps_repo s' = ps_repo s \<and> (\<forall>k \<in> set keys. ps_objects s' k = None)
    \<and> (\<forall>del. pv_analytics svc = Some del \<longrightarrow> del u (ps_analytics s) = Some (ps_analytics s'))"
proof (cases "pv_media_store svc")
  case None
  with assms show ?thesis by (auto simp: delete_external_def split: option.splits if_splits)
next
  case (Some c)
  obtain b objs where del: "delete_media c keys (ps_objects s) = (b, objs)" by fastforce
  with assms Some have b: "b" by (auto simp: delete_external_def split: bool.splits)
  have "\<forall>k \<in> set keys. objs k = None" using del b delete_media_gone by simp
  with assms Some del b show ?thesis by (auto simp: delete_external_def split: option.splits)
qed

text \<open>A deletion that succeeds was requested by an ordinary account with its confirmation, its
  password and, with MFA, a code; and it ran every step on the tables with the request added.\<close>

lemma deletion_allowed:
  assumes "deletion_refusal svc u password confirmation code moment = None"
  shows "user_role u = USER \<and> confirmation = account_deletion_confirmation
    \<and> pv_verify_password svc password (password_hash u)
    \<and> (mfa_enabled u \<longrightarrow> (\<exists>k c. mfa_secret u = Some k \<and> code = Some c \<and> verify_totp (pv_totp svc) k c moment = Some True))"
proof -
  have "\<exists>k. mfa_secret u = Some k \<and> str_or (mfa_secret u) [] = k" if "str_or (mfa_secret u) [] \<noteq> []"
    using that by (cases "(mfa_secret u, [] :: string)" rule: str_or.cases) auto
  with assms show ?thesis by (auto simp: deletion_refusal_def split: if_splits option.splits)
qed

lemma delete_account_done:
  assumes "delete_account svc u password confirmation code moment new_id now later s = (Inr rid, s')"
    and "pv_repository svc = sql_privacy_repository"
  shows "\<exists>s1 t'. rid = new_id \<and> deletion_refusal svc u password confirmation code moment = None
    \<and> delete_external svc (user_id u) (sql_active_media_keys (user_id u)
          (sql_add_request (new_request svc (user_id u) DELETION now new_id) (ps_repo s)))
        (s\<lparr>ps_repo := sql_add_request (new_request svc (user_id u) DELETION now new_id) (ps_repo s)\<rparr>) = (Inr (), s1)
    \<and> sql_erase_account (user_id u) (sql_complete_request new_id later (ps_repo s1)) = (True, t')
    \<and> s' = s1\<lparr>ps_repo := t'\<rparr>"
  using assms
  by (auto simp: delete_account_def Let_def sql_privacy_repository_def split: option.splits prod.splits sum.splits if_splits)

lemma request_survives:
  assumes "sql_erase_account u (sql_complete_request i later (sql_add_request r t)) = (True, t')"
    and "dq_id r = i" "dq_user_id r = Some u" "dq_status r = PROCESSING"
  shows "r\<lparr>dq_status := COMPLETED, dq_completed_at := Some later, dq_user_id := None\<rparr> \<in> set (t_requests t')"
  using assms
  by (auto simp: sql_erase_account_def cascade_user_def sql_complete_request_def sql_add_request_def Let_def
      split: if_splits)

lemma request_view:
  assumes "v \<noteq> u" "dq_user_id r = Some u" "\<forall>q \<in> set (t_requests t). dq_id q \<noteq> i"
  shows "account_view v (sql_complete_request i later (sql_add_request r t)) = account_view v t"
proof -
  have "map (\<lambda>r. if dq_id r = i \<and> dq_status r = PROCESSING then r\<lparr>dq_status := COMPLETED, dq_completed_at := Some later\<rparr>
      else r) (t_requests t) = t_requests t"
    using assms(3) by (intro map_idI) auto
  with assms(1,2) show ?thesis
    by (simp add: account_view_def sql_complete_request_def sql_add_request_def)
qed

lemma appeals_against_request:
  "appeals_against v u (sql_complete_request i later (sql_add_request r t)) = appeals_against v u t"
  by (simp add: appeals_against_def sql_complete_request_def sql_add_request_def)

lemma media_keys_request: "sql_active_media_keys u (sql_add_request r t) = sql_active_media_keys u t"
  by (simp add: sql_active_media_keys_def sql_add_request_def)

lemma deleted_subject_is_gone:
  "pa_provider pa = InMemoryProvider n \<Longrightarrow>
     \<forall>e \<in> set (an_events (snd (delete_user pa u a))). pe_subject e \<noteq> pa_subject pa u"
  by (simp add: delete_user_def delete_subject_def Let_def)

text \<open>
  C23: Erasure is complete but for the administrative audit trail, and fails closed. A deletion that
  the endpoint refuses leaves the database as it was. One that it confirms was requested by an ordinary
  account with the confirmation, its password and, where MFA is on, a valid code. Afterwards no table
  but the administrative audit trail refers to the account; the trail is kept as it was, with the
  records that name the account as actor or subject (an account that was once privileged and enrolled a
  second factor has some). Every active photo of the account is gone from the object store, and a
  configured analytics provider confirmed its deletion, which for the in-memory provider means that no
  event of the account is left. The completed request is kept without the account. The appeals of other
  accounts on its reports go with the reports; the export of every account without such an appeal is
  unchanged.
\<close>

theorem erasure_is_complete:
  assumes "route_delete_account svc (Inr u) password confirmation code moment new_id now later s = (r, s')"
    and "pv_repository svc = sql_privacy_repository"
    and "\<forall>q \<in> set (t_requests (ps_repo s)). dq_id q \<noteq> new_id"
  shows "(\<forall>e. r = Inl e \<longrightarrow> ps_repo s' = ps_repo s)
    \<and> (\<forall>rid. r = Inr rid \<longrightarrow>
         user_role u = USER \<and> confirmation = account_deletion_confirmation \<and> pv_verify_password svc password (password_hash u)
       \<and> (mfa_enabled u \<longrightarrow> (\<exists>k c. mfa_secret u = Some k \<and> code = Some c \<and> verify_totp (pv_totp svc) k c moment = Some True))
       \<and> \<not> mentions (user_id u) (ps_repo s')
       \<and> t_admin_audit (ps_repo s') = t_admin_audit (ps_repo s)
       \<and> (\<forall>k \<in> set (sql_active_media_keys (user_id u) (ps_repo s)). ps_objects s' k = None)
       \<and> (\<forall>del. pv_analytics svc = Some del \<longrightarrow> del (user_id u) (ps_analytics s) = Some (ps_analytics s'))
       \<and> (\<forall>pa n. pa_provider pa = InMemoryProvider n \<and> pv_analytics svc = Some (\<lambda>u a. Some (snd (delete_user pa u a))) \<longrightarrow>
            (\<forall>e \<in> set (an_events (ps_analytics s')). pe_subject e \<noteq> pa_subject pa (user_id u)))
       \<and> \<lparr>dq_id = rid, dq_user_id = None, dq_subject_reference = pv_subject svc (user_id u), dq_type = DELETION,
            dq_status = COMPLETED, dq_requested_at = now, dq_completed_at = Some later\<rparr> \<in> set (t_requests (ps_repo s'))
       \<and> (\<forall>a \<in> set (t_appeals (ps_repo s')). \<forall>p \<in> set (t_reports (ps_repo s)).
            reporter_id p = user_id u \<longrightarrow> ap_report_id a \<noteq> cr_id p)
       \<and> (\<forall>v. v \<noteq> user_id u \<and> \<not> appeals_against v (user_id u) (ps_repo s) \<longrightarrow>
            sql_export_for_user v (ps_repo s') = sql_export_for_user v (ps_repo s)))"
proof (cases r)
  case (Inl e)
  with assms(1) show ?thesis
    by (auto simp: route_delete_account_def privacy_transaction_def split: if_splits prod.splits sum.splits)
next
  case (Inr rid)
  let ?u = "user_id u" and ?r = "new_request svc (user_id u) DELETION now new_id"
  from Inr assms(1) have run: "delete_account svc u password confirmation code moment new_id now later s = (Inr rid, s')"
    by (auto simp: route_delete_account_def privacy_transaction_def split: if_splits prod.splits sum.splits)
  from delete_account_done [OF run assms(2)] obtain s1 t' where s1: "rid = new_id"
      "deletion_refusal svc u password confirmation code moment = None"
      "delete_external svc ?u (sql_active_media_keys ?u (ps_repo s)) (s\<lparr>ps_repo := sql_add_request ?r (ps_repo s)\<rparr>) = (Inr (), s1)"
      "sql_erase_account ?u (sql_complete_request new_id later (ps_repo s1)) = (True, t')"
      "s' = s1\<lparr>ps_repo := t'\<rparr>"
    unfolding media_keys_request by blast
  note ext = delete_external_done [OF s1(3)]
  have erase: "sql_erase_account ?u (sql_complete_request new_id later (sql_add_request ?r (ps_repo s))) = (True, t')"
    using s1(4) ext by simp
  have req: "dq_id ?r = new_id" "dq_user_id ?r = Some ?u" "dq_status ?r = PROCESSING"
    by (simp_all add: new_request_def)
  have asked: "\<forall>del. pv_analytics svc = Some del \<longrightarrow> del ?u (ps_analytics s) = Some (ps_analytics s')"
    using ext s1(5) by simp
  have events: "\<forall>e \<in> set (an_events (ps_analytics s')). pe_subject e \<noteq> pa_subject pa ?u"
    if "pa_provider pa = InMemoryProvider n" "pv_analytics svc = Some (\<lambda>u a. Some (snd (delete_user pa u a)))" for pa n
    using asked [rule_format, OF that(2)] that(1) deleted_subject_is_gone [of pa n ?u "ps_analytics s"] by simp
  have trail: "t_admin_audit t' = t_admin_audit (ps_repo s)"
    using erase_keeps_trail [OF erase] by (simp add: sql_complete_request_def sql_add_request_def)
  have appeals: "\<forall>a \<in> set (t_appeals t'). \<forall>p \<in> set (t_reports (ps_repo s)).
      reporter_id p = ?u \<longrightarrow> ap_report_id a \<noteq> cr_id p"
    using erase_drops_appeals [OF erase] by (simp add: sql_complete_request_def sql_add_request_def)
  have others: "sql_export_for_user v t' = sql_export_for_user v (ps_repo s)"
    if "v \<noteq> ?u" "\<not> appeals_against v ?u (ps_repo s)" for v
    using erase_view [OF erase that(1)] that(2) request_view [OF that(1) req(2) assms(3)]
    by (simp add: appeals_against_request) (metis export_by_view)
  have "\<lparr>dq_id = rid, dq_user_id = None, dq_subject_reference = pv_subject svc ?u, dq_type = DELETION,
      dq_status = COMPLETED, dq_requested_at = now, dq_completed_at = Some later\<rparr> \<in> set (t_requests t')"
    using request_survives [OF erase req] s1(1) by (simp add: new_request_def)
  with Inr deletion_allowed [OF s1(2)] erase_leaves_nothing [OF erase] ext asked events trail appeals others s1(5)
  show ?thesis by simp
qed

text \<open>A refused erasure restores the database but not the object store: when the second of two photos
  cannot be deleted the first is gone, and its report still offers it.\<close>

lemma refused_erasure_loses_photos:
  assumes "pv_media_store svc = Some c" "key_ok k" "accepts_delete c k" "\<not> accepts_delete c k'"
    and "sql_active_media_keys (user_id u) (ps_repo s) = [k, k']" "pv_repository svc = sql_privacy_repository"
    and "deletion_refusal svc u password confirmation code moment = None" "deletion_command_ok password confirmation code"
    and "route_delete_account svc (Inr u) password confirmation code moment new_id now later s = (r, s')"
  shows "(\<exists>e. r = Inl e) \<and> ps_repo s' = ps_repo s \<and> ps_objects s' k = None
    \<and> k \<in> set (sql_active_media_keys (user_id u) (ps_repo s'))"
  using assms(9) unfolding route_delete_account_def delete_account_def sum.case assms(7) option.case
  using assms(1-6,8)
  by (auto simp: Let_def sql_privacy_repository_def media_keys_request delete_external_def s3_delete_def
      privacy_transaction_def split: if_splits)

section \<open>Witness\<close>

definition erasure_key :: string where
  "erasure_key = ''community-reports/a''"

definition erasure_report :: community_report where
  "erasure_report = \<lparr>cr_id = 5, reporter_id = 7, category = TOWING, cr_latitude = Fin 1, cr_longitude = Fin 2,
     description = ''no parking here'', report_status = PENDING, validation_score = 0, fingerprint = ''f'',
     photo_sha256 = None, cr_created_at = 0, cr_expires_at = 9, moderation_reason = None,
     photo_object_key = Some erasure_key, photo_content_type = None, photo_size_bytes = None,
     photo_retained_until = None, photo_deleted_at = None\<rparr>"

definition erasure_tables :: account_tables where
  "erasure_tables = (tables_with_consents [sample_decision True 3])\<lparr>t_users := [\<lparr>row_id = 7, row_email = ''a@b'',
     row_password_hash = ''h'', row_role = ''user'', row_is_active = True, row_is_verified = True, row_created_at = 0,
     row_mfa_secret = None, row_mfa_enabled = False\<rparr>], t_reports := [erasure_report],
     t_admin_audit := [\<lparr>ar_id = 1, actor_id = 7, action = ''admin.mfa_enabled'', subject_id = Some 7, occurred_at = 0,
       previous_hash = genesis_hash, ar_event_hash = ''h''\<rparr>]\<rparr>"

definition erasure_service :: "account_tables privacy_service" where
  "erasure_service = \<lparr>pv_repository = sql_privacy_repository, pv_verify_password = (\<lambda>p h. p = ''pw''),
     pv_subject = (\<lambda>u. ''subject''), pv_policy_version = ''2026-01'',
     pv_media_store = Some \<lparr>accepts_put = (\<lambda>_. True), put_lands = (\<lambda>_. False), accepts_delete = (\<lambda>_. True), delete_lands = (\<lambda>_. False), presign = (\<lambda>_ _. None)\<rparr>,
     pv_analytics = Some (\<lambda>u a. Some (snd (delete_user sample_analytics u a))),
     pv_totp = \<lparr>b32decode = (\<lambda>_. None), hmac_sha1 = (\<lambda>_ _. [])\<rparr>\<rparr>"

definition erasure_state :: "account_tables privacy_state" where
  "erasure_state = \<lparr>ps_repo = erasure_tables, 
     ps_objects = [erasure_key \<mapsto> \<lparr>mo_payload = [1], mo_content_type = ''image/png'', mo_checksum = ''c'',
        mo_retained_until = 9\<rparr>],
     ps_analytics = \<lparr>an_events = [\<lparr>pe_name = SCREEN_VIEWED, pe_subject = ''reference'', pe_occurred_at = 0,
        pe_expires_at = 30, pe_properties = []\<rparr>], an_metrics = \<lparr>counters = [], observations = []\<rparr>\<rparr>\<rparr>"

lemmas erasure_samples = erasure_service_def erasure_state_def erasure_tables_def erasure_report_def analytics_user_def
  sample_analytics_def tables_with_consents_def sample_decision_def

lemma erasure_runs:
  "\<exists>s'. route_delete_account erasure_service (Inr analytics_user) ''pw'' account_deletion_confirmation None 0 9 1 2
     erasure_state = (Inr 9, s')"
proof -
  have key: "key_ok erasure_key" by (simp add: erasure_key_def key_ok_def; code_simp)
  have ok: "deletion_command_ok ''pw'' account_deletion_confirmation None" by (simp add: deletion_command_ok_def)
  have allowed: "deletion_refusal erasure_service analytics_user ''pw'' account_deletion_confirmation None 0 = None"
    by (simp add: deletion_refusal_def erasure_service_def analytics_user_def)
  show ?thesis
    unfolding route_delete_account_def delete_account_def sum.case allowed option.case
    by (simp add: ok privacy_transaction_def delete_external_def s3_delete_def key Let_def
        sql_active_media_keys_def sql_add_request_def sql_complete_request_def sql_erase_account_def
        sql_privacy_repository_def delete_user_def delete_subject_def erasure_samples)
qed

theorem erasure_is_complete_witness:
  "\<exists>s'. route_delete_account erasure_service (Inr analytics_user) ''pw'' account_deletion_confirmation None 0 9 1 2
     erasure_state = (Inr 9, s') \<and> \<not> mentions 7 (ps_repo s') \<and> audited 7 (ps_repo s')
     \<and> an_events (ps_analytics s') = [] \<and> ps_objects s' erasure_key = None"
proof -
  obtain s' where run: "route_delete_account erasure_service (Inr analytics_user) ''pw'' account_deletion_confirmation
      None 0 9 1 2 erasure_state = (Inr 9, s')" using erasure_runs by blast
  have keys: "erasure_key \<in> set (sql_active_media_keys 7 (ps_repo erasure_state))"
    by (simp add: sql_active_media_keys_def erasure_samples)
  have pre: "\<forall>q \<in> set (t_requests (ps_repo erasure_state)). dq_id q \<noteq> 9"
    "pv_repository erasure_service = sql_privacy_repository"
    by (simp_all add: erasure_samples)
  have del: "pv_analytics erasure_service = Some (\<lambda>u a. Some (snd (delete_user sample_analytics u a)))"
    by (simp add: erasure_service_def)
  have trail: "audited 7 (ps_repo erasure_state)" by (simp add: audited_def erasure_samples)
  have left: "an_events (snd (delete_user sample_analytics 7 (ps_analytics erasure_state))) = []"
    by (simp add: delete_user_def delete_subject_def Let_def erasure_samples)
  have u: "user_id analytics_user = 7" by (simp add: analytics_user_def)
  from erasure_is_complete [OF run pre(2,1)] have gone:
      "\<not> mentions 7 (ps_repo s')" "t_admin_audit (ps_repo s') = t_admin_audit (ps_repo erasure_state)"
      "ps_objects s' erasure_key = None"
      "Some (snd (delete_user sample_analytics 7 (ps_analytics erasure_state))) = Some (ps_analytics s')"
    unfolding u using keys del by blast+
  with trail left run show ?thesis by (auto simp: audited_def)
qed

theorem export_reveals_no_secret_witness:
  "sql_export_for_user 7 erasure_tables = sql_export_for_user 7 (erasure_tables\<lparr>t_users := t_users erasure_tables
     @ [\<lparr>row_id = 8, row_email = ''b@c'', row_password_hash = ''i'', row_role = ''user'', row_is_active = True,
        row_is_verified = True, row_created_at = 0, row_mfa_secret = None, row_mfa_enabled = False\<rparr>]\<rparr>)"
proof -
  have "account_view 7 erasure_tables = account_view 7 (erasure_tables\<lparr>t_users := t_users erasure_tables
     @ [\<lparr>row_id = 8, row_email = ''b@c'', row_password_hash = ''i'', row_role = ''user'', row_is_active = True,
        row_is_verified = True, row_created_at = 0, row_mfa_secret = None, row_mfa_enabled = False\<rparr>]\<rparr>)"
    by (simp add: account_view_def)
  then show ?thesis using export_reveals_no_secret by blast
qed

end
