(* ===== verification/Iso8601.thy ===== *)
theory Iso8601
  imports Json "HOL-Library.Monad_Syntax"
begin

text \<open>
  ISO 8601 texts: the interface between what the code writes with \<open>isoformat\<close> and reads back with
  \<open>fromisoformat\<close>, as a locale, and the canonical UTC texts that provide it. The readers of the
  instance accept the canonical spelling only; the code runs over any instance.
\<close>

section \<open>The interface\<close>

record iso_codec =
  time_iso :: "pytime \<Rightarrow> string"
  date_iso :: "pydate \<Rightarrow> string"
  datetime_iso :: "pydatetime \<Rightarrow> string"
  parse_time :: "string \<Rightarrow> pytime option"
  parse_date :: "string \<Rightarrow> pydate option"
  parse_datetime :: "string \<Rightarrow> pydatetime option"

text \<open>What was read can be written and read again.\<close>

locale iso_8601 =
  fixes codec :: iso_codec
  assumes time_back: "parse_time codec s = Some t \<Longrightarrow> parse_time codec (time_iso codec t) = Some t"
    and date_back: "parse_date codec s = Some d \<Longrightarrow> parse_date codec (date_iso codec d) = Some d"
    and datetime_back: "parse_datetime codec s = Some dt \<Longrightarrow>
      parse_datetime codec (replace_zulu (datetime_iso codec dt)) = Some dt"
    and datetime_text: "datetime_iso codec dt \<noteq> []"

section \<open>Digits\<close>

fun digits :: "nat \<Rightarrow> nat \<Rightarrow> string \<Rightarrow> (nat \<times> string) option" where
  "digits 0 acc s = Some (acc, s)"
| "digits (Suc k) acc [] = None"
| "digits (Suc k) acc (c # cs) = (if is_digit c then digits k (acc * 10 + (of_char c - 48)) cs else None)"

fun lit :: "char \<Rightarrow> string \<Rightarrow> string option" where
  "lit c [] = None"
| "lit c (x # xs) = (if x = c then Some xs else None)"

lemma digits_Suc:
  "digits (Suc k) acc s = (case digits k acc s of
     Some (a, c # cs) \<Rightarrow> if is_digit c then Some (a * 10 + (of_char c - 48), cs) else None | _ \<Rightarrow> None)"
proof (induction k arbitrary: acc s)
  case 0
  then show ?case by (cases s) auto
next
  case (Suc k)
  show ?case
  proof (cases s)
    case (Cons a cs)
    show ?thesis unfolding Cons using Suc [of "acc * 10 + (of_char a - 48)" cs] by simp
  qed simp
qed

lemma digits_two: "digits 2 acc (a # b # s) =
    (if is_digit a \<and> is_digit b then Some ((acc * 10 + (of_char a - 48)) * 10 + (of_char b - 48), s) else None)"
  by (simp add: numeral_2_eq_2)

lemma digits_four: "digits 4 acc (a # b # s) =
    (if is_digit a \<and> is_digit b then digits 2 ((acc * 10 + (of_char a - 48)) * 10 + (of_char b - 48)) s else None)"
proof -
  have "(4 :: nat) = Suc (Suc 2)" by simp
  then show ?thesis by (simp only: digits.simps) simp
qed

lemma digits_dec_fixed: "n < 10 ^ k \<Longrightarrow> digits k acc (dec_fixed k n @ s) = Some (acc * 10 ^ k + n, s)"
proof (induction k arbitrary: n s)
  case (Suc k)
  have digit: "is_digit (digit_char (n mod 10))" "of_char (digit_char (n mod 10)) - 48 = (n mod 10 :: nat)"
    by (simp_all add: is_digit_def of_char_digit_char)
  have "n div 10 < 10 ^ k" using Suc.prems by (simp add: less_mult_imp_div_less mult.commute)
  from Suc.IH [OF this, of "digit_char (n mod 10) # s"] digit
  show ?case by (simp add: digits_Suc del: digits.simps(2,3))
qed simp

lemma digits_bound: "digits k acc s = Some (n, t) \<Longrightarrow> acc < b \<Longrightarrow> n < b * 10 ^ k"
proof (induction k acc s arbitrary: b rule: digits.induct)
  case (3 k acc c cs)
  from 3(2) have c: "is_digit c" and rest: "digits k (acc * 10 + (of_char c - 48)) cs = Some (n, t)"
    by (auto split: if_splits)
  from c have "(of_char c :: nat) - 48 < 10" by (auto simp: is_digit_def)
  with 3(3) have "acc * 10 + (of_char c - 48) < b * 10" by linarith
  from 3(1) [OF c rest this] show ?case by (simp add: mult.assoc)
qed auto

section \<open>Dates\<close>

definition day_of :: "nat \<Rightarrow> nat \<Rightarrow> nat \<Rightarrow> nat" where
  "day_of y m d = sum_list (map year_length [1..<y]) + sum_list (take (m - 1) (month_lengths y)) + (d - 1)"

definition valid_date :: "nat \<Rightarrow> nat \<Rightarrow> nat \<Rightarrow> bool" where
  "valid_date y m d \<longleftrightarrow> 1 \<le> y \<and> y \<le> 9999 \<and> 1 \<le> m \<and> m \<le> 12 \<and> 1 \<le> d \<and> d \<le> month_lengths y ! (m - 1)"

lemma year_of_add:
  "y \<le> y' \<Longrightarrow> r < year_length y' \<Longrightarrow> year_of y (sum_list (map year_length [y..<y']) + r) = (y', r)"
proof (induction "y' - y" arbitrary: y)
  case 0
  then show ?case by (simp add: year_of.simps)
next
  case (Suc k)
  then have "[y..<y'] = y # [Suc y..<y']" by (simp add: upt_conv_Cons)
  with Suc.hyps(1) [of "Suc y"] Suc.hyps(2) Suc.prems show ?case by (subst year_of.simps) simp
qed

lemma month_of_add:
  "k < length ls \<Longrightarrow> r < ls ! k \<Longrightarrow> month_of ls m (sum_list (take k ls) + r) = (m + k, r)"
proof (induction ls arbitrary: m k)
  case (Cons l ls)
  then show ?case by (cases k) auto
qed simp

lemma month_prefix: "k < length ls \<Longrightarrow> r < ls ! k \<Longrightarrow> sum_list (take k ls) + r < (sum_list ls :: nat)"
proof (induction ls arbitrary: k)
  case (Cons l ls)
  then show ?case by (cases k) auto
qed simp

lemma civil_day_of:
  assumes "valid_date y m d"
  shows "civil (day_of y m d) = (y, m, d)"
proof -
  let ?r = "sum_list (take (m - 1) (month_lengths y)) + (d - 1)"
  have m: "m - 1 < length (month_lengths y)" "d - 1 < month_lengths y ! (m - 1)"
    using assms by (auto simp: valid_date_def month_lengths_def)
  then have r: "?r < year_length y" using month_prefix [OF m] by (simp add: sum_month_lengths)
  have "year_of 1 (day_of y m d) = (y, ?r)"
    using year_of_add [of 1 y ?r] r assms by (simp add: day_of_def valid_date_def add.assoc)
  then show ?thesis using month_of_add [OF m, of 1] assms by (simp add: civil_def valid_date_def)
qed

definition date_text :: "nat \<Rightarrow> string" where
  "date_text n = (case civil n of (y, m, d) \<Rightarrow> dec_fixed 4 y @ ''-'' @ dec_fixed 2 m @ ''-'' @ dec_fixed 2 d)"

definition read_date :: "string \<Rightarrow> (nat \<times> string) option" where
  "read_date s = do {
     (y, s) \<leftarrow> digits 4 0 s; s \<leftarrow> lit (CHR ''-'') s;
     (m, s) \<leftarrow> digits 2 0 s; s \<leftarrow> lit (CHR ''-'') s;
     (d, s) \<leftarrow> digits 2 0 s;
     if valid_date y m d then Some (day_of y m d, s) else None }"

lemma month_lengths_bound: "m \<le> 12 \<Longrightarrow> 1 \<le> m \<Longrightarrow> month_lengths y ! (m - 1) \<le> 31"
proof -
  assume m: "m \<le> 12" "1 \<le> m"
  have "\<forall>l \<in> set (month_lengths y). l \<le> 31" "length (month_lengths y) = 12" by (simp_all add: month_lengths_def)
  with m show ?thesis by (simp add: nth_mem)
qed

lemma read_date_text:
  assumes "read_date s = Some (n, t)"
  shows "read_date (date_text n @ u) = Some (n, u)"
proof -
  from assms obtain y m d where v: "valid_date y m d" "n = day_of y m d"
    by (auto simp: read_date_def split: bind_splits if_splits)
  from v(1) month_lengths_bound [of m y] have b: "y < 10 ^ 4" "m < 10 ^ 2" "d < 10 ^ 2"
    by (auto simp: valid_date_def)
  from v show ?thesis
    by (simp add: read_date_def date_text_def civil_day_of digits_dec_fixed [OF b(1)]
        digits_dec_fixed [OF b(2)] digits_dec_fixed [OF b(3)] del: dec_fixed.simps digits.simps)
qed

section \<open>Times of day\<close>

definition clock_text :: "nat \<Rightarrow> string" where
  "clock_text u =
     (let s = u div 1000000
      in dec_fixed 2 (s div 3600) @ '':'' @ dec_fixed 2 (s div 60 mod 60) @ '':'' @ dec_fixed 2 (s mod 60)
         @ (if u mod 1000000 = 0 then [] else ''.'' @ dec_fixed 6 (u mod 1000000)))"

definition read_fraction :: "string \<Rightarrow> (nat \<times> string) option" where
  "read_fraction s = (case lit (CHR ''.'') s of None \<Rightarrow> Some (0, s) | Some s' \<Rightarrow> digits 6 0 s')"

definition read_clock :: "string \<Rightarrow> (nat \<times> string) option" where
  "read_clock s = do {
     (h, s) \<leftarrow> digits 2 0 s; s \<leftarrow> lit (CHR '':'') s;
     (m, s) \<leftarrow> digits 2 0 s; s \<leftarrow> lit (CHR '':'') s;
     (x, s) \<leftarrow> digits 2 0 s; (f, s) \<leftarrow> read_fraction s;
     if h < 24 \<and> m < 60 \<and> x < 60 then Some ((h * 3600 + m * 60 + x) * 1000000 + f, s) else None }"

text \<open>What may follow a time: nothing, or the offset.\<close>

definition no_fraction :: "string \<Rightarrow> bool" where
  "no_fraction s = (lit (CHR ''.'') s = None)"

lemma read_clock_bound: "read_clock s = Some (u, t) \<Longrightarrow> u < 86400000000"
proof -
  assume "read_clock s = Some (u, t)"
  then obtain h m x f where c: "h < 24" "m < 60" "x < 60" "u = 3600000000 * h + 60000000 * m + x * 1000000 + f"
      and f: "\<exists>r. read_fraction r = Some (f, t)"
    by (auto simp: read_clock_def split: bind_splits if_splits) blast
  from f have "f < 1000000"
    by (auto simp: read_fraction_def split: option.splits dest!: digits_bound [of _ _ _ _ _ 1])
  with c(1-3) show ?thesis using c(4) by linarith
qed

lemma hours_minutes_seconds:
  fixes s :: nat
  shows "s div 3600 * 3600 + s div 60 mod 60 * 60 + s mod 60 = s"
proof -
  have "s div 3600 = s div 60 div 60" by (simp add: div_mult2_eq [symmetric])
  then have "s div 3600 * 3600 + s div 60 mod 60 * 60 = (s div 60 div 60 * 60 + s div 60 mod 60) * 60"
    by (simp only: distrib_right mult.assoc)
  also have "\<dots> = s div 60 * 60" by (simp only: div_mult_mod_eq)
  finally show ?thesis by (simp only: div_mult_mod_eq)
qed

lemma clock_parts:
  fixes u :: nat
  assumes "u < 86400000000"
  shows "u div 1000000 div 3600 < 24 \<and>
    (u div 1000000 div 3600 * 3600 + u div 1000000 div 60 mod 60 * 60 + u div 1000000 mod 60) * 1000000
      + u mod 1000000 = u"
proof -
  let ?s = "u div 1000000"
  have "?s < 86400" using assms by (simp add: less_mult_imp_div_less)
  then have h: "?s div 3600 < 24" by (simp add: less_mult_imp_div_less)
  with hours_minutes_seconds [of ?s] show ?thesis by simp
qed

lemma read_clock_text:
  assumes "u < 86400000000" "no_fraction t"
  shows "read_clock (clock_text u @ t) = Some (u, t)"
proof -
  let ?s = "u div 1000000"
  note c = clock_parts [OF assms(1)]
  then have b: "?s div 3600 < 10 ^ 2" "?s div 60 mod 60 < 10 ^ 2" "?s mod 60 < 10 ^ 2" "u mod 1000000 < 10 ^ 6"
    using mod_less_divisor [of 60 "?s div 60"] mod_less_divisor [of 60 ?s] by simp_all
  have fraction: "read_fraction ((if u mod 1000000 = 0 then [] else ''.'' @ dec_fixed 6 (u mod 1000000)) @ t)
      = Some (u mod 1000000, t)"
    using assms(2) digits_dec_fixed [OF b(4)]
    by (simp add: read_fraction_def no_fraction_def del: dec_fixed.simps digits.simps)
  show ?thesis
    using c fraction
    by (simp add: read_clock_def clock_text_def Let_def digits_dec_fixed [OF b(1)] digits_dec_fixed [OF b(2)]
        digits_dec_fixed [OF b(3)] del: dec_fixed.simps digits.simps)
qed

section \<open>The canonical texts\<close>

text \<open>The instance knows no offset but UTC.\<close>

fun canonical_time :: "pytime \<Rightarrow> string" where
  "canonical_time (NaiveTime t) = clock_text (nat t)"
| "canonical_time (AwareTime t offset) = clock_text (nat t) @ ''+00:00''"

definition canonical_date :: "pydate \<Rightarrow> string" where
  "canonical_date d = date_text (nat (d + epoch_day))"

fun canonical_datetime :: "pydatetime \<Rightarrow> string" where
  "canonical_datetime (Aware t) = date_text (day_number t) @ ''T'' @ clock_text (nat (t mod day)) @ ''+00:00''"
| "canonical_datetime (Naive t) = date_text (day_number t) @ ''T'' @ clock_text (nat (t mod day))"

definition read_canonical_time :: "string \<Rightarrow> pytime option" where
  "read_canonical_time s = do {
     (u, s) \<leftarrow> read_clock s;
     if s = [] then Some (NaiveTime (int u))
     else if s = ''+00:00'' \<or> s = ''Z'' then Some (AwareTime (int u) 0) else None }"

definition read_canonical_date :: "string \<Rightarrow> pydate option" where
  "read_canonical_date s = (case read_date s of Some (n, []) \<Rightarrow> Some (int n - epoch_day) | _ \<Rightarrow> None)"

definition read_canonical_datetime :: "string \<Rightarrow> pydatetime option" where
  "read_canonical_datetime s = do {
     (n, s) \<leftarrow> read_date s; s \<leftarrow> lit (CHR ''T'') s; (u, s) \<leftarrow> read_clock s;
     let t = (int n - epoch_day) * day + int u;
     if s = [] then Some (Naive t) else if s = ''+00:00'' then Some (Aware t) else None }"

definition utc_codec :: iso_codec where
  "utc_codec = \<lparr>time_iso = canonical_time, date_iso = canonical_date, datetime_iso = canonical_datetime,
     parse_time = read_canonical_time, parse_date = read_canonical_date,
     parse_datetime = read_canonical_datetime\<rparr>"

text \<open>\<open>canonical_datetime\<close> on an aware instant is \<open>isoformat\<close> of the audit chain.\<close>

lemma canonical_isoformat: "canonical_datetime (Aware t) = isoformat t"
  by (simp add: isoformat_def iso_text_def date_text_def clock_text_def Let_def split: prod.splits)

lemma digits_plain: "CHR ''Z'' \<notin> set (dec_fixed k n)"
  using dec_fixed_digits [of "CHR ''Z''" k n] by (auto simp: is_digit_def)

lemma canonical_plain: "CHR ''Z'' \<notin> set (canonical_datetime dt)"
  by (cases dt) (auto simp: date_text_def clock_text_def Let_def digits_plain split: prod.splits)

lemma instant_parts:
  fixes n u :: nat
  assumes "u < 86400000000"
  shows "day_number ((int n - epoch_day) * day + int u) = n \<and>
    nat (((int n - epoch_day) * day + int u) mod day) = u"
proof -
  have "((int n - epoch_day) * day + int u) div day = int n - epoch_day + int u div day"
    by (rule div_mult_self3) simp
  moreover have "((int n - epoch_day) * day + int u) mod day = int u mod day"
    by (rule mod_mult_self3)
  moreover have "int u div day = 0" "int u mod day = int u" using assms by simp_all
  ultimately show ?thesis by (simp only: day_number_def) simp
qed

lemma no_fraction_simps [simp]: "no_fraction []" "no_fraction ''+00:00''"
  by (simp_all add: no_fraction_def)

lemma canonical_datetime_back:
  assumes "read_canonical_datetime s = Some dt"
  shows "read_canonical_datetime (canonical_datetime dt) = Some dt"
proof -
  from assms obtain n s1 s2 u s3 where r: "read_date s = Some (n, s1)" "read_clock s2 = Some (u, s3)"
      and dt: "dt = Naive ((int n - epoch_day) * day + int u) \<or> dt = Aware ((int n - epoch_day) * day + int u)"
    by (auto simp: read_canonical_datetime_def Let_def split: bind_splits if_splits)
  note u = read_clock_bound [OF r(2)]
  define t where "t = (int n - epoch_day) * day + int u"
  then have t: "day_number t = n" "nat (t mod day) = u" "(int n - epoch_day) * day + int u = t"
    using instant_parts [OF u, of n] by simp_all
  have "read_canonical_datetime (canonical_datetime (Naive t)) = Some (Naive t)"
    and "read_canonical_datetime (canonical_datetime (Aware t)) = Some (Aware t)"
    using read_clock_text [OF u, of "[]"] read_clock_text [OF u, of "''+00:00''"]
    by (simp_all only: read_canonical_datetime_def canonical_datetime.simps t read_date_text [OF r(1)]
        no_fraction_simps) (simp_all add: t(3) [symmetric])
  with dt t(3) show ?thesis by auto
qed

interpretation utc: iso_8601 utc_codec
proof (unfold_locales, goal_cases)
  case (1 s t)
  then obtain u z where u: "read_clock s = Some (u, z)" and t: "t = NaiveTime (int u) \<or> t = AwareTime (int u) 0"
    by (auto simp: utc_codec_def read_canonical_time_def split: bind_splits if_splits)
  have "read_canonical_time (canonical_time (NaiveTime (int u))) = Some (NaiveTime (int u))"
    and "read_canonical_time (canonical_time (AwareTime (int u) 0)) = Some (AwareTime (int u) 0)"
    using read_clock_text [OF read_clock_bound [OF u], of "[]"]
      read_clock_text [OF read_clock_bound [OF u], of "''+00:00''"]
    by (simp_all add: read_canonical_time_def)
  with t show ?case by (auto simp: utc_codec_def)
next
  case (2 s d)
  then obtain n where n: "read_date s = Some (n, [])" "d = int n - epoch_day"
    by (auto simp: utc_codec_def read_canonical_date_def split: option.splits list.splits)
  from read_date_text [OF n(1), of "[]"] n(2) show ?case
    by (simp add: utc_codec_def read_canonical_date_def canonical_date_def)
next
  case (3 s dt)
  then show ?case by (simp add: utc_codec_def replace_zulu_id [OF canonical_plain] canonical_datetime_back)
next
  case (4 dt)
  then show ?case by (cases dt) (simp_all add: utc_codec_def)
qed

end
