(* ===== verification/Ingestion_Connectors.thy ===== *)
theory Ingestion_Connectors
  imports Iso8601 "HOL-Library.List_Lexorder" "HOL-Library.Char_ord"
begin

text \<open>
  The offline connectors for municipal feeds (\<open>app/modules/ingestion/connectors.py\<close>, with the
  records of \<open>domain.py\<close>): GeoJSON parking zones and CSV parking facilities, record by record, with
  quarantine. \<open>json.loads\<close>, \<open>csv.DictReader\<close>, \<open>urlparse\<close>, \<open>float\<close>, the ISO 8601 readers, the JSON
  texts, their hash and the type coercion of pydantic are parameters; the constraints of the
  pydantic models are written out.
\<close>

section \<open>Domain records\<close>

datatype feed_kind = PARKING_ZONES | PARKING_FACILITIES
datatype data_format = GEOJSON | CSV

record normalized_zone =
  nz_external_id :: string
  nz_name :: string
  nz_zone_type :: zone_type
  nz_geometry_geojson :: string
  nz_parking_score :: int
  nz_restriction_summary :: "string option"
  nz_average_towing_cost_cents :: "int option"
  nz_towing_hotspot :: bool
  nz_observed_at :: pydatetime
  nz_expires_at :: "pydatetime option"
  nz_temporal_rules :: "temporal_rule list"
  nz_temporal_schedule_required :: bool

record normalized_facility =
  nf_external_id :: string
  nf_name :: string
  nf_address :: string
  nf_latitude :: pyfloat
  nf_longitude :: pyfloat
  nf_hourly_price_cents :: "int option"
  nf_safety_score :: int
  nf_towing_incidents :: pyfloat
  nf_rating :: "pyfloat option"
  nf_available_spaces :: "int option"
  nf_capacity :: "int option"
  nf_navigation_url :: string
  nf_observed_at :: pydatetime
  nf_expires_at :: "pydatetime option"

record rejected_record =
  rj_index :: int
  rj_sha256 :: string
  rj_code :: string
  rj_detail :: string

record normalized_import =
  ni_input_count :: nat
  ni_zones :: "normalized_zone list"
  ni_facilities :: "normalized_facility list"
  ni_rejected :: "rejected_record list"

definition accepted_count :: "normalized_import \<Rightarrow> nat" where
  "accepted_count n = length (ni_zones n) + length (ni_facilities n)"

definition rejected_feed :: "rejected_record \<Rightarrow> normalized_import" where
  "rejected_feed r = \<lparr>ni_input_count = 1, ni_zones = [], ni_facilities = [], ni_rejected = [r]\<rparr>"

section \<open>The validated models\<close>

record zone_properties =
  zp_external_id :: string
  zp_name :: string
  zp_zone_type :: zone_type
  zp_parking_score :: int
  zp_restriction_summary :: "string option"
  zp_average_towing_cost_cents :: "int option"
  zp_towing_hotspot :: bool
  zp_observed_at :: pydatetime
  zp_expires_at :: "pydatetime option"
  zp_temporal_schedule_required :: bool
  zp_temporal_rules :: "(string \<times> json) list list"

record zone_feature =
  zf_type :: string
  zf_properties :: zone_properties
  zf_geometry_type :: string
  zf_coordinates :: "pyfloat list list list"

text \<open>The \<open>Field\<close> constraints of \<open>ZoneProperties\<close>.\<close>

definition zone_properties_ok :: "zone_properties \<Rightarrow> bool" where
  "zone_properties_ok p \<longleftrightarrow>
     1 \<le> length (zp_external_id p) \<and> length (zp_external_id p) \<le> 160
     \<and> 1 \<le> length (zp_name p) \<and> length (zp_name p) \<le> 160
     \<and> 0 \<le> zp_parking_score p \<and> zp_parking_score p \<le> 100
     \<and> (case zp_restriction_summary p of None \<Rightarrow> True | Some s \<Rightarrow> length s \<le> 2000)
     \<and> (case zp_average_towing_cost_cents p of None \<Rightarrow> True | Some c \<Rightarrow> 0 \<le> c \<and> c \<le> 1000000)
     \<and> length (zp_temporal_rules p) \<le> 64"

section \<open>What the connectors call\<close>

text \<open>\<open>json.loads\<close> after decoding: a document, an error the connector names, or another exception.\<close>

datatype decoded = Document json | Undecodable | DecodeRaises

record url_parts =
  url_scheme :: string
  url_netloc :: string
  url_username :: "string option"
  url_password :: "string option"
  url_query :: string
  url_fragment :: string

text \<open>A row of \<open>csv.DictReader\<close>: the fields under their headers, and the fields beyond them, which
  the reader files under the key \<open>None\<close>.\<close>

record csv_row =
  row_fields :: "(string \<times> string option) list"
  row_extra :: "string list"

text \<open>\<open>cn_shape\<close> is the validation of \<open>ZoneFeature\<close> without its constraints; \<open>cn_csv\<close> gives the
  headers and, unless reading them raises, the rows; \<open>cn_hash\<close> hashes the JSON text of a value.\<close>

record connector_env =
  cn_json :: "8 word list \<Rightarrow> decoded"
  cn_shape :: "json \<Rightarrow> zone_feature option"
  cn_dumps :: "json \<Rightarrow> string"
  cn_hash :: "json \<Rightarrow> string"
  cn_repr :: "json \<Rightarrow> string"
  cn_iso :: iso_codec
  cn_utf8 :: "8 word list \<Rightarrow> string option"
  cn_csv :: "string \<Rightarrow> (string list \<times> csv_row list option) option"
  cn_float :: "string \<Rightarrow> pyfloat option"
  cn_url :: "string \<Rightarrow> url_parts option"

definition max_records :: nat where "max_records = 5000"

definition reject :: "connector_env \<Rightarrow> int \<Rightarrow> json \<Rightarrow> string \<Rightarrow> string \<Rightarrow> rejected_record" where
  "reject env index v code det =
     \<lparr>rj_index = index, rj_sha256 = cn_hash env v, rj_code = code, rj_detail = take 500 det\<rparr>"

definition bytes_hex :: "8 word list \<Rightarrow> string" where
  "bytes_hex bs = concat (map (\<lambda>b. hex_fixed 2 (unat b)) bs)"

definition timestamps_ok :: "pydatetime \<Rightarrow> pydatetime option \<Rightarrow> bool" where
  "timestamps_ok observed expires \<longleftrightarrow> is_aware observed \<and>
     (case expires of None \<Rightarrow> True | Some e \<Rightarrow> is_aware e \<and> aware_instant e > aware_instant observed)"

section \<open>Temporal rules\<close>

definition effect_of_value :: "string \<Rightarrow> rule_effect option" where
  "effect_of_value s = find (\<lambda>e. effect_value e = s) [EFF_PARK, EFF_CAUTION, EFF_DO_NOT_PARK]"

definition read_time :: "connector_env \<Rightarrow> json \<Rightarrow> pytime attempt" where
  "read_time env v = caught_if_none (parse_time (cn_iso env) (str_of (cn_repr env) v))"

definition read_window :: "connector_env \<Rightarrow> json \<Rightarrow> temporal_window attempt" where
  "read_window env w =
     and_then (subscript ''starts_at'' w) (\<lambda>a. and_then (read_time env a) (\<lambda>s.
     and_then (subscript ''ends_at'' w) (\<lambda>b. and_then (read_time env b) (\<lambda>e.
       Ok \<lparr>starts_at = s, ends_at = e\<rparr>))))"

definition read_instant :: "connector_env \<Rightarrow> json \<Rightarrow> pydatetime attempt" where
  "read_instant env v = caught_if_none (parse_datetime (cn_iso env) (replace_zulu (str_of (cn_repr env) v)))"

definition read_day :: "connector_env \<Rightarrow> json \<Rightarrow> pydate attempt" where
  "read_day env v = caught_if_none (parse_date (cn_iso env) (str_of (cn_repr env) v))"

definition read_until :: "connector_env \<Rightarrow> (string \<times> json) list \<Rightarrow> pydatetime option attempt" where
  "read_until env v =
     (let raw = get_or ''valid_until'' JNull v
      in if truthy raw then and_then (read_instant env raw) (\<lambda>t. Ok (Some t)) else Ok None)"

definition read_each :: "string \<Rightarrow> (json \<Rightarrow> 'a attempt) \<Rightarrow> (string \<times> json) list \<Rightarrow> 'a list attempt" where
  "read_each k f v = and_then (iterated (get_or k (JList []) v)) (attempt_all f)"

definition read_text :: "connector_env \<Rightarrow> string \<Rightarrow> (string \<times> json) list \<Rightarrow> string attempt" where
  "read_text env k v = and_then (item k v) (\<lambda>x. Ok (str_of (cn_repr env) x))"

definition read_effect :: "connector_env \<Rightarrow> (string \<times> json) list \<Rightarrow> rule_effect attempt" where
  "read_effect env v = and_then (read_text env ''effect'' v) (\<lambda>s. caught_if_none (effect_of_value s))"

definition read_weekdays :: "(string \<times> json) list \<Rightarrow> int list attempt" where
  "read_weekdays v = and_then (item ''weekdays'' v) (\<lambda>w. and_then (iterated w) (attempt_all int_of_json))"

definition schedule_ok :: "int list \<Rightarrow> pydatetime \<Rightarrow> pydatetime option \<Rightarrow> bool" where
  "schedule_ok days from until \<longleftrightarrow> days \<noteq> [] \<and> list_all (\<lambda>d. 0 \<le> d \<and> d < 7) days \<and> is_aware from
     \<and> (case until of None \<Rightarrow> True | Some t \<Rightarrow> is_aware t)"

text \<open>\<open>_temporal_rule\<close>: \<open>AssertionError\<close>, \<open>KeyError\<close>, \<open>TypeError\<close> and \<open>ValueError\<close> become one
  \<open>ValueError\<close>; anything else escapes.\<close>

definition connector_rule :: "connector_env \<Rightarrow> (string \<times> json) list \<Rightarrow> temporal_rule attempt" where
  "connector_rule env v =
     and_then (read_weekdays v) (\<lambda>days.
     and_then (item ''window'' v) (\<lambda>w. and_then (read_window env w) (\<lambda>win.
     and_then (item ''valid_from'' v) (\<lambda>f. and_then (read_instant env f) (\<lambda>from.
     and_then (read_until env v) (\<lambda>until.
     and_then (read_each ''exception_dates'' (read_day env) v) (\<lambda>exceptions.
     and_then (read_each ''not_applicable_windows'' (read_window env) v) (\<lambda>omitted.
     if \<not> schedule_ok days from until then Caught
     else
     and_then (read_text env ''rule_id'' v) (\<lambda>i. and_then (read_effect env v) (\<lambda>eff.
     and_then (read_text env ''timezone'' v) (\<lambda>tz.
     and_then (read_each ''special_restrictions'' (\<lambda>x. Ok (str_of (cn_repr env) x)) v) (\<lambda>special.
       Ok \<lparr>rule_id = i, effect = eff, weekdays = days, window = win, rule_timezone = tz, valid_from = from,
           valid_until = until, exception_dates = exceptions, not_applicable_windows = omitted,
           special_restrictions = special\<rparr>))))))))))))"

section \<open>GeoJsonParkingZoneConnector\<close>

definition same_point :: "pyfloat list \<Rightarrow> pyfloat list \<Rightarrow> bool" where
  "same_point a b = list_all2 feq a b"

definition coordinate_ok :: "pyfloat list \<Rightarrow> bool" where
  "coordinate_ok c = (case c of [longitude, latitude] \<Rightarrow>
     fbetween (-180) longitude 180 \<and> fbetween (-90) latitude 90 | _ \<Rightarrow> False)"

definition ring_ok :: "pyfloat list list \<Rightarrow> bool" where
  "ring_ok ring \<longleftrightarrow> \<not> (length ring < 4 \<or> \<not> same_point (hd ring) (last ring)) \<and> list_all coordinate_ok ring"

definition polygon_ok :: "pyfloat list list list \<Rightarrow> bool" where
  "polygon_ok coordinates \<longleftrightarrow> coordinates \<noteq> [] \<and> list_all ring_ok coordinates"

definition geometry_json :: "zone_feature \<Rightarrow> json" where
  "geometry_json f = JObject [(''type'', JStr (zf_geometry_type f)),
     (''coordinates'', JList (map (\<lambda>ring. JList (map (\<lambda>c. JList (map JFloat c)) ring)) (zf_coordinates f)))]"

definition zone_of_feature :: "connector_env \<Rightarrow> zone_feature \<Rightarrow> temporal_rule list \<Rightarrow> normalized_zone" where
  "zone_of_feature env f rules =
     (let p = zf_properties f in
      \<lparr>nz_external_id = zp_external_id p, nz_name = zp_name p, nz_zone_type = zp_zone_type p,
       nz_geometry_geojson = cn_dumps env (geometry_json f), nz_parking_score = zp_parking_score p,
       nz_restriction_summary = zp_restriction_summary p,
       nz_average_towing_cost_cents = zp_average_towing_cost_cents p,
       nz_towing_hotspot = zp_towing_hotspot p, nz_observed_at = zp_observed_at p,
       nz_expires_at = zp_expires_at p, nz_temporal_rules = rules,
       nz_temporal_schedule_required = zp_temporal_schedule_required p\<rparr>)"

text \<open>The checks before the identifier is remembered.\<close>

definition feature_ok :: "zone_feature \<Rightarrow> string list \<Rightarrow> bool" where
  "feature_ok f seen \<longleftrightarrow> zf_type f = ''Feature'' \<and> zf_geometry_type f = ''Polygon''
     \<and> zp_external_id (zf_properties f) \<notin> set seen \<and> polygon_ok (zf_coordinates f)
     \<and> timestamps_ok (zp_observed_at (zf_properties f)) (zp_expires_at (zf_properties f))"

definition validated_feature :: "connector_env \<Rightarrow> json \<Rightarrow> zone_feature option" where
  "validated_feature env raw =
     (case cn_shape env raw of None \<Rightarrow> None
      | Some f \<Rightarrow> if zone_properties_ok (zf_properties f) then Some f else None)"

text \<open>One round of the loop: the zone, and the identifiers seen afterwards. The identifier is
  remembered before the temporal rules are read.\<close>

definition accept_feature ::
  "connector_env \<Rightarrow> json \<Rightarrow> string list \<Rightarrow> normalized_zone attempt \<times> string list" where
  "accept_feature env raw seen =
     (case validated_feature env raw of
        None \<Rightarrow> (Caught, seen)
      | Some f \<Rightarrow>
          if \<not> feature_ok f seen then (Caught, seen)
          else (and_then (attempt_all (connector_rule env) (zp_temporal_rules (zf_properties f)))
                  (\<lambda>rules. Ok (zone_of_feature env f rules)),
                zp_external_id (zf_properties f) # seen))"

definition invalid_zone :: "connector_env \<Rightarrow> nat \<Rightarrow> json \<Rightarrow> rejected_record" where
  "invalid_zone env i raw =
     reject env (int i) raw ''invalid_zone'' ''record does not satisfy the parking-zone contract''"

text \<open>The loop over the features; \<open>None\<close> when an exception escapes.\<close>

fun parse_features ::
  "connector_env \<Rightarrow> nat \<Rightarrow> json list \<Rightarrow> string list \<Rightarrow> (normalized_zone list \<times> rejected_record list) option" where
  "parse_features env i [] seen = Some ([], [])"
| "parse_features env i (raw # raws) seen =
     (case accept_feature env raw seen of
        (Escapes, _) \<Rightarrow> None
      | (Caught, seen') \<Rightarrow>
          map_option (\<lambda>(zs, rs). (zs, invalid_zone env i raw # rs)) (parse_features env (Suc i) raws seen')
      | (Ok z, seen') \<Rightarrow>
          map_option (\<lambda>(zs, rs). (z # zs, rs)) (parse_features env (Suc i) raws seen'))"

definition parse_zones :: "connector_env \<Rightarrow> 8 word list \<Rightarrow> normalized_import option" where
  "parse_zones env payload =
     (case cn_json env payload of
        DecodeRaises \<Rightarrow> None
      | Undecodable \<Rightarrow> Some (rejected_feed
          (reject env (-1) (JStr (bytes_hex payload)) ''invalid_json'' ''feed is not UTF-8 JSON''))
      | Document doc \<Rightarrow>
          let refused = (\<lambda>code det. Some (rejected_feed (reject env (-1) doc code det))) in
          (case doc of
             JObject d \<Rightarrow>
               if dict_get d ''type'' \<noteq> Some (JStr ''FeatureCollection'')
               then refused ''invalid_collection'' ''root must be a GeoJSON FeatureCollection''
               else
                 (case dict_get d ''features'' of
                    Some (JList raws) \<Rightarrow>
                      if length raws > max_records
                      then refused ''invalid_record_count'' ''features must be a list with at most 5000 records''
                      else map_option (\<lambda>(zs, rs). \<lparr>ni_input_count = length raws, ni_zones = zs,
                             ni_facilities = [], ni_rejected = rs\<rparr>) (parse_features env 0 raws [])
                  | _ \<Rightarrow> refused ''invalid_record_count'' ''features must be a list with at most 5000 records'')
           | _ \<Rightarrow> refused ''invalid_collection'' ''root must be a GeoJSON FeatureCollection''))"

section \<open>CsvParkingFacilityConnector\<close>

definition required_fields :: "string list" where
  "required_fields = [''external_id'', ''name'', ''address'', ''latitude'', ''longitude'', ''safety_score'',
     ''towing_incidents_per_1000'', ''navigation_url'', ''observed_at'']"

text \<open>\<open>(row.get(key) or "").strip()\<close>.\<close>

definition field_text :: "csv_row \<Rightarrow> string \<Rightarrow> string" where
  "field_text row key = py_strip (case dict_get (row_fields row) key of Some (Some s) \<Rightarrow> s | _ \<Rightarrow> [])"

definition bounded_text :: "nat \<Rightarrow> string \<Rightarrow> string option" where
  "bounded_text maximum value = (if value = [] \<or> length value > maximum then None else Some value)"

definition required :: "csv_row \<Rightarrow> string \<Rightarrow> nat \<Rightarrow> string option" where
  "required row key maximum = bounded_text maximum (field_text row key)"

definition float_between :: "connector_env \<Rightarrow> rat \<Rightarrow> rat \<Rightarrow> string \<Rightarrow> pyfloat option" where
  "float_between env minimum maximum text =
     do { x \<leftarrow> cn_float env text; if fbetween minimum x maximum then Some x else None }"

definition int_between :: "int \<Rightarrow> int \<Rightarrow> string \<Rightarrow> int option" where
  "int_between minimum maximum text =
     do { n \<leftarrow> py_int text; if minimum \<le> n \<and> n \<le> maximum then Some n else None }"

definition float_field :: "connector_env \<Rightarrow> csv_row \<Rightarrow> string \<Rightarrow> rat \<Rightarrow> rat \<Rightarrow> pyfloat option" where
  "float_field env row key minimum maximum =
     do { text \<leftarrow> required row key 64; float_between env minimum maximum text }"

definition int_field :: "csv_row \<Rightarrow> string \<Rightarrow> int \<Rightarrow> int \<Rightarrow> int option" where
  "int_field row key minimum maximum = do { text \<leftarrow> required row key 32; int_between minimum maximum text }"

text \<open>The optional fields read the stripped value again under the same bounds; the outer \<open>None\<close> is
  the \<open>ValueError\<close>.\<close>

definition single :: "string \<Rightarrow> string \<Rightarrow> csv_row" where
  "single key value = \<lparr>row_fields = [(key, Some value)], row_extra = []\<rparr>"

definition optional_int :: "csv_row \<Rightarrow> string \<Rightarrow> int \<Rightarrow> int \<Rightarrow> int option option" where
  "optional_int row key minimum maximum =
     (let value = field_text row key in
      if value = [] then Some None else map_option Some (int_field (single key value) key minimum maximum))"

definition optional_float :: "connector_env \<Rightarrow> csv_row \<Rightarrow> string \<Rightarrow> rat \<Rightarrow> rat \<Rightarrow> pyfloat option option" where
  "optional_float env row key minimum maximum =
     (let value = field_text row key in
      if value = [] then Some None
      else map_option Some (float_field env (single key value) key minimum maximum))"

definition datetime_field :: "connector_env \<Rightarrow> csv_row \<Rightarrow> string \<Rightarrow> bool \<Rightarrow> pydatetime option option" where
  "datetime_field env row key is_required =
     (let value = field_text row key in
      if value = [] \<and> \<not> is_required then Some None
      else if value = [] then None
      else map_option Some (parse_datetime (cn_iso env) (replace_zulu value)))"

definition facility_of_row :: "connector_env \<Rightarrow> csv_row \<Rightarrow> normalized_facility option" where
  "facility_of_row env row = do {
     external_id \<leftarrow> required row ''external_id'' 160;
     name \<leftarrow> required row ''name'' 160;
     address \<leftarrow> required row ''address'' 500;
     latitude \<leftarrow> float_field env row ''latitude'' (-90) 90;
     longitude \<leftarrow> float_field env row ''longitude'' (-180) 180;
     safety \<leftarrow> int_field row ''safety_score'' 0 100;
     towing \<leftarrow> float_field env row ''towing_incidents_per_1000'' 0 1000;
     navigation \<leftarrow> required row ''navigation_url'' 1000;
     parts \<leftarrow> cn_url env navigation;
     if url_scheme parts \<noteq> ''https'' then None else do {
     observed' \<leftarrow> datetime_field env row ''observed_at'' True;
     observed \<leftarrow> observed';
     expires \<leftarrow> datetime_field env row ''expires_at'' False;
     if \<not> timestamps_ok observed expires then None else do {
     price \<leftarrow> optional_int row ''hourly_price_cents'' 0 1000000;
     rating \<leftarrow> optional_float env row ''rating'' 0 5;
     capacity \<leftarrow> optional_int row ''capacity'' 0 1000000;
     available \<leftarrow> optional_int row ''available_spaces'' 0 1000000;
     if (case (available, capacity) of (Some a, Some c) \<Rightarrow> a > c | _ \<Rightarrow> False) then None
     else Some \<lparr>nf_external_id = external_id, nf_name = name, nf_address = address, nf_latitude = latitude,
       nf_longitude = longitude, nf_hourly_price_cents = price, nf_safety_score = safety,
       nf_towing_incidents = towing, nf_rating = rating, nf_available_spaces = available,
       nf_capacity = capacity, nf_navigation_url = navigation, nf_observed_at = observed,
       nf_expires_at = expires\<rparr> }}}"

text \<open>\<open>_reject(index, row, ...)\<close>: sorting the keys of a row with fields beyond the headers compares
  \<open>None\<close> with a string, a \<open>TypeError\<close> that no handler is left to catch.\<close>

definition row_json :: "csv_row \<Rightarrow> json" where
  "row_json row = JObject (map (\<lambda>(k, v). (k, case v of None \<Rightarrow> JNull | Some s \<Rightarrow> JStr s)) (row_fields row))"

definition invalid_facility :: "connector_env \<Rightarrow> nat \<Rightarrow> csv_row \<Rightarrow> rejected_record option" where
  "invalid_facility env i row =
     (if row_extra row \<noteq> [] then None
      else Some (reject env (int i) (row_json row) ''invalid_facility''
        ''record does not satisfy the parking-facility contract''))"

text \<open>One round of the loop; \<open>Caught\<close> is quarantine.\<close>

definition accept_row :: "connector_env \<Rightarrow> csv_row \<Rightarrow> string list \<Rightarrow> normalized_facility option" where
  "accept_row env row seen =
     do { f \<leftarrow> facility_of_row env row; if nf_external_id f \<in> set seen then None else Some f }"

fun parse_rows ::
  "connector_env \<Rightarrow> nat \<Rightarrow> csv_row list \<Rightarrow> string list \<Rightarrow>
     (normalized_facility list \<times> rejected_record list) option" where
  "parse_rows env i [] seen = Some ([], [])"
| "parse_rows env i (row # rows) seen =
     (case accept_row env row seen of
        Some f \<Rightarrow> map_option (\<lambda>(fs, rs). (f # fs, rs)) (parse_rows env (Suc i) rows (nf_external_id f # seen))
      | None \<Rightarrow>
          (case invalid_facility env i row of
             None \<Rightarrow> None
           | Some r \<Rightarrow> map_option (\<lambda>(fs, rs). (fs, r # rs)) (parse_rows env (Suc i) rows seen)))"

definition parse_facilities :: "connector_env \<Rightarrow> 8 word list \<Rightarrow> normalized_import option" where
  "parse_facilities env payload =
     (case cn_utf8 env payload of
        None \<Rightarrow> Some (rejected_feed
          (reject env (-1) (JStr (bytes_hex payload)) ''invalid_csv'' ''feed is not UTF-8 CSV''))
      | Some text \<Rightarrow>
          (case cn_csv env text of
             None \<Rightarrow> None
           | Some (headers, read) \<Rightarrow>
               if \<not> set required_fields \<subseteq> set headers
               then Some (rejected_feed (reject env (-1) (JList (map JStr (sort (remdups headers))))
                      ''missing_columns'' ''CSV is missing one or more required columns''))
               else
                 (case read of
                    None \<Rightarrow> None
                  | Some rows \<Rightarrow>
                      if length rows > max_records
                      then Some (rejected_feed (reject env (-1) (JInt (int (length rows)))
                             ''invalid_record_count'' ''CSV must contain at most 5000 records''))
                      else map_option (\<lambda>(fs, rs). \<lparr>ni_input_count = length rows, ni_zones = [],
                             ni_facilities = fs, ni_rejected = rs\<rparr>) (parse_rows env 0 rows []))))"

definition connector ::
  "connector_env \<Rightarrow> feed_kind \<Rightarrow> data_format \<Rightarrow> (8 word list \<Rightarrow> normalized_import option) option" where
  "connector env kind fmt =
     (case (kind, fmt) of
        (PARKING_ZONES, GEOJSON) \<Rightarrow> Some (parse_zones env)
      | (PARKING_FACILITIES, CSV) \<Rightarrow> Some (parse_facilities env)
      | _ \<Rightarrow> None)"

end
