(* ===== verification/Ingestion.thy ===== *)
theory Ingestion
  imports Ingestion_Connectors Parking_Source Admin
begin

text \<open>
  Municipal sources and imports (\<open>app/modules/ingestion\<close>): the service, the in-memory repository, the
  PostgreSQL repository with the tables it shares with the parking map, the way the parking
  repository reads a stored zone back, and the endpoints. SHA-256, \<open>uuid5\<close>, \<open>urlparse\<close> and the
  PostGIS constructors are parameters.
\<close>

section \<open>Sources and batches\<close>

datatype import_status = IMPORT_COMMITTED | IMPORT_PARTIAL | IMPORT_REJECTED

fun feed_kind_value :: "feed_kind \<Rightarrow> string" where
  "feed_kind_value PARKING_ZONES = ''parking_zones''"
| "feed_kind_value PARKING_FACILITIES = ''parking_facilities''"

fun import_status_value :: "import_status \<Rightarrow> string" where
  "import_status_value IMPORT_COMMITTED = ''committed''"
| "import_status_value IMPORT_PARTIAL = ''partial''"
| "import_status_value IMPORT_REJECTED = ''rejected''"

record municipal_source =
  ms_id :: uuid
  ms_name :: string
  ms_jurisdiction :: string
  ms_feed_kind :: feed_kind
  ms_data_format :: data_format
  ms_source_url :: string
  ms_license_url :: "string option"
  ms_official :: bool
  ms_enabled :: bool
  ms_refresh_interval :: int
  ms_stale_after :: int
  ms_created_at :: instant
  ms_updated_at :: instant

definition source_provenance :: "municipal_source \<Rightarrow> provenance" where
  "source_provenance s = (if ms_official s then OFFICIAL else ESTIMATED)"

record import_batch =
  ib_id :: uuid
  ib_source_id :: uuid
  ib_sha256 :: string
  ib_importer_version :: string
  ib_status :: import_status
  ib_input_count :: nat
  ib_accepted_count :: nat
  ib_rejected_count :: nat
  ib_received_at :: instant
  ib_completed_at :: instant

text \<open>The port; \<open>commit_import\<close> answers \<open>None\<close> when it raises.\<close>

record 'r ingestion_repository =
  add_source :: "municipal_source \<Rightarrow> 'r \<Rightarrow> 'r"
  source_by_id :: "uuid \<Rightarrow> 'r \<Rightarrow> municipal_source option"
  all_sources :: "'r \<Rightarrow> municipal_source list"
  batch_by_digest :: "uuid \<Rightarrow> string \<Rightarrow> 'r \<Rightarrow> import_batch option"
  commit_import :: "municipal_source \<Rightarrow> import_batch \<Rightarrow> normalized_import \<Rightarrow> 'r \<Rightarrow> 'r option"
  recent_batches :: "uuid \<Rightarrow> int \<Rightarrow> 'r \<Rightarrow> import_batch list"

section \<open>MunicipalIngestionService\<close>

definition importer_version :: string where "importer_version = ''1.0''"

datatype ingestion_error = MunicipalIngestionError string | IngestionCrash

record 'r ingestion_service =
  is_repository :: "'r ingestion_repository"
  is_connector :: "feed_kind \<Rightarrow> data_format \<Rightarrow> (8 word list \<Rightarrow> normalized_import option) option"
  is_max_upload :: int
  is_sha256 :: "8 word list \<Rightarrow> string"
  is_url :: "string \<Rightarrow> url_parts option"

text \<open>\<open>urlparse\<close> raises a \<open>ValueError\<close> of its own on some texts.\<close>

definition validate_url :: "(string \<Rightarrow> url_parts option) \<Rightarrow> string \<Rightarrow> string \<Rightarrow> ingestion_error option" where
  "validate_url parse value field =
     (case parse value of
        None \<Rightarrow> Some IngestionCrash
      | Some p \<Rightarrow>
          if url_scheme p \<noteq> ''https'' \<or> url_netloc p = [] \<or> url_username p \<noteq> None
             \<or> url_password p \<noteq> None \<or> url_query p \<noteq> [] \<or> url_fragment p \<noteq> []
          then Some (MunicipalIngestionError
            (field @ '' must be an absolute HTTPS URL without credentials, queries, or fragments''))
          else None)"

record source_command =
  sc_name :: string
  sc_jurisdiction :: string
  sc_feed_kind :: feed_kind
  sc_data_format :: data_format
  sc_source_url :: string
  sc_license_url :: "string option"
  sc_official :: bool
  sc_refresh_interval :: int
  sc_stale_after :: int

definition source_refusal :: "'r ingestion_service \<Rightarrow> source_command \<Rightarrow> ingestion_error option" where
  "source_refusal svc c =
     (if is_connector svc (sc_feed_kind c) (sc_data_format c) = None
      then Some (MunicipalIngestionError ''no approved connector supports this feed contract'')
      else case validate_url (is_url svc) (sc_source_url c) ''source_url'' of
        Some e \<Rightarrow> Some e
      | None \<Rightarrow>
          (case (case sc_license_url c of None \<Rightarrow> None | Some l \<Rightarrow> validate_url (is_url svc) l ''license_url'') of
             Some e \<Rightarrow> Some e
           | None \<Rightarrow>
               if sc_official c \<and> sc_license_url c = None
               then Some (MunicipalIngestionError ''official sources require a public license URL'')
               else if \<not> (5 \<le> sc_refresh_interval c \<and> sc_refresh_interval c \<le> 10080)
               then Some (MunicipalIngestionError ''refresh interval must be between 5 and 10080 minutes'')
               else if sc_stale_after c < sc_refresh_interval c
               then Some (MunicipalIngestionError ''stale threshold cannot precede the refresh interval'')
               else if py_strip (sc_name c) = [] \<or> length (py_strip (sc_name c)) > 160
               then Some (MunicipalIngestionError ''source name must contain at most 160 characters'')
               else if py_strip (sc_jurisdiction c) = [] \<or> length (py_strip (sc_jurisdiction c)) > 160
               then Some (MunicipalIngestionError ''jurisdiction must contain at most 160 characters'')
               else None))"

definition new_source :: "source_command \<Rightarrow> uuid \<Rightarrow> instant \<Rightarrow> municipal_source" where
  "new_source c new_id now =
     \<lparr>ms_id = new_id, ms_name = py_strip (sc_name c), ms_jurisdiction = py_strip (sc_jurisdiction c),
      ms_feed_kind = sc_feed_kind c, ms_data_format = sc_data_format c, ms_source_url = sc_source_url c,
      ms_license_url = sc_license_url c, ms_official = sc_official c, ms_enabled = True,
      ms_refresh_interval = sc_refresh_interval c, ms_stale_after = sc_stale_after c,
      ms_created_at = now, ms_updated_at = now\<rparr>"

definition create_source ::
  "'r ingestion_service \<Rightarrow> source_command \<Rightarrow> uuid \<Rightarrow> instant \<Rightarrow> 'r \<Rightarrow>
     (ingestion_error + municipal_source) \<times> 'r" where
  "create_source svc c new_id now s =
     (case source_refusal svc c of
        Some e \<Rightarrow> (Inl e, s)
      | None \<Rightarrow> (Inr (new_source c new_id now), add_source (is_repository svc) (new_source c new_id now) s))"

definition batch_status :: "normalized_import \<Rightarrow> import_status" where
  "batch_status n = (if accepted_count n = 0 then IMPORT_REJECTED
     else if ni_rejected n \<noteq> [] then IMPORT_PARTIAL else IMPORT_COMMITTED)"

definition new_batch ::
  "municipal_source \<Rightarrow> string \<Rightarrow> normalized_import \<Rightarrow> uuid \<Rightarrow> instant \<Rightarrow> instant \<Rightarrow> import_batch" where
  "new_batch source digest n new_id received completed =
     \<lparr>ib_id = new_id, ib_source_id = ms_id source, ib_sha256 = digest, ib_importer_version = importer_version,
      ib_status = batch_status n, ib_input_count = ni_input_count n, ib_accepted_count = accepted_count n,
      ib_rejected_count = length (ni_rejected n), ib_received_at = received, ib_completed_at = completed\<rparr>"

text \<open>An import of an enabled source whose digest is new.\<close>

definition import_new ::
  "'r ingestion_service \<Rightarrow> municipal_source \<Rightarrow> string \<Rightarrow> 8 word list \<Rightarrow> uuid \<Rightarrow> instant \<Rightarrow> instant \<Rightarrow> 'r \<Rightarrow>
     (ingestion_error + import_batch) \<times> 'r" where
  "import_new svc source digest payload new_id received completed s =
     (case is_connector svc (ms_feed_kind source) (ms_data_format source) of
        None \<Rightarrow> (Inl (MunicipalIngestionError ''configured connector is unavailable''), s)
      | Some parse \<Rightarrow>
          (case parse payload of
             None \<Rightarrow> (Inl IngestionCrash, s)
           | Some n \<Rightarrow>
               let batch = new_batch source digest n new_id received completed in
               (case commit_import (is_repository svc) source batch n s of
                  None \<Rightarrow> (Inl IngestionCrash, s)
                | Some s' \<Rightarrow> (Inr batch, s'))))"

definition import_payload ::
  "'r ingestion_service \<Rightarrow> uuid \<Rightarrow> 8 word list \<Rightarrow> uuid \<Rightarrow> instant \<Rightarrow> instant \<Rightarrow> 'r \<Rightarrow>
     (ingestion_error + import_batch) \<times> 'r" where
  "import_payload svc source_id payload new_id received completed s =
     (if payload = [] \<or> int (length payload) > is_max_upload svc
      then (Inl (MunicipalIngestionError
             (''feed must contain between 1 and '' @ int_str (is_max_upload svc) @ '' bytes'')), s)
      else case source_by_id (is_repository svc) source_id s of
        None \<Rightarrow> (Inl (MunicipalIngestionError ''municipal source not found''), s)
      | Some source \<Rightarrow>
          if \<not> ms_enabled source then (Inl (MunicipalIngestionError ''municipal source is disabled''), s)
          else
            let digest = is_sha256 svc payload in
            (case batch_by_digest (is_repository svc) source_id digest s of
               Some existing \<Rightarrow> (Inr existing, s)
             | None \<Rightarrow> import_new svc source digest payload new_id received completed s))"

definition list_batches ::
  "'r ingestion_service \<Rightarrow> uuid \<Rightarrow> int \<Rightarrow> 'r \<Rightarrow> ingestion_error + import_batch list" where
  "list_batches svc source_id limit s =
     (case source_by_id (is_repository svc) source_id s of
        None \<Rightarrow> Inl (MunicipalIngestionError ''municipal source not found'')
      | Some _ \<Rightarrow> Inr (recent_batches (is_repository svc) source_id limit s))"

section \<open>InMemoryMunicipalIngestionRepository\<close>

record inmem_ingestion =
  ii_sources :: "(uuid, municipal_source) pydict"
  ii_batches :: "(uuid, import_batch) pydict"
  ii_normalized :: "(uuid, normalized_import) pydict"

definition source_order :: "municipal_source \<Rightarrow> string \<times> int" where
  "source_order s = (ms_name s, uint (ms_id s))"

definition batch_of :: "uuid \<Rightarrow> string \<Rightarrow> import_batch \<Rightarrow> bool" where
  "batch_of source_id digest b \<longleftrightarrow> ib_source_id b = source_id \<and> ib_sha256 b = digest"

definition newest_batches :: "uuid \<Rightarrow> int \<Rightarrow> import_batch list \<Rightarrow> import_batch list" where
  "newest_batches source_id limit bs =
     slice_to limit (sort_key (\<lambda>b. - ib_received_at b) (filter (\<lambda>b. ib_source_id b = source_id) bs))"

definition inmem_ingestion_repository :: "inmem_ingestion ingestion_repository" where
  "inmem_ingestion_repository =
     \<lparr>add_source = (\<lambda>x s. s\<lparr>ii_sources := dict_set (ms_id x) x (ii_sources s)\<rparr>),
      source_by_id = (\<lambda>i s. dict_get (ii_sources s) i),
      all_sources = (\<lambda>s. sort_key source_order (dict_values (ii_sources s))),
      batch_by_digest = (\<lambda>i d s. find (batch_of i d) (dict_values (ii_batches s))),
      commit_import = (\<lambda>x b n s. Some (s\<lparr>ii_batches := dict_set (ib_id b) b (ii_batches s),
         ii_normalized := dict_set (ib_id b) n (ii_normalized s)\<rparr>)),
      recent_batches = (\<lambda>i limit s. newest_batches i limit (dict_values (ii_batches s)))\<rparr>"

section \<open>Stored temporal rules\<close>

definition window_json :: "iso_codec \<Rightarrow> temporal_window \<Rightarrow> json" where
  "window_json codec w = JObject [(''starts_at'', JStr (time_iso codec (starts_at w))),
     (''ends_at'', JStr (time_iso codec (ends_at w)))]"

definition serialized_rule :: "iso_codec \<Rightarrow> temporal_rule \<Rightarrow> (string \<times> json) list" where
  "serialized_rule codec r =
     [(''rule_id'', JStr (rule_id r)), (''effect'', JStr (effect_value (effect r))),
      (''weekdays'', JList (map JInt (weekdays r))), (''window'', window_json codec (window r)),
      (''timezone'', JStr (rule_timezone r)), (''valid_from'', JStr (datetime_iso codec (valid_from r))),
      (''valid_until'', (case valid_until r of None \<Rightarrow> JNull | Some t \<Rightarrow> JStr (datetime_iso codec t))),
      (''exception_dates'', JList (map (\<lambda>d. JStr (date_iso codec d)) (exception_dates r))),
      (''not_applicable_windows'', JList (map (window_json codec) (not_applicable_windows r))),
      (''special_restrictions'', JList (map JStr (special_restrictions r)))]"

text \<open>\<open>_rule\<close> of the parking repository: whatever goes wrong is an exception, here \<open>None\<close>. A
  window must be an object.\<close>

definition stored_rule :: "connector_env \<Rightarrow> (string \<times> json) list \<Rightarrow> temporal_rule option" where
  "stored_rule env v =
     (case
        and_then (item ''window'' v) (\<lambda>w.
        and_then (read_text env ''rule_id'' v) (\<lambda>i. and_then (read_effect env v) (\<lambda>eff.
        and_then (read_weekdays v) (\<lambda>days. and_then (read_window env w) (\<lambda>win.
        and_then (read_text env ''timezone'' v) (\<lambda>tz.
        and_then (item ''valid_from'' v) (\<lambda>f. and_then (read_instant env f) (\<lambda>from.
        and_then (read_until env v) (\<lambda>until.
        and_then (read_each ''exception_dates'' (read_day env) v) (\<lambda>exceptions.
        and_then (read_each ''not_applicable_windows'' (read_window env) v) (\<lambda>omitted.
        and_then (read_each ''special_restrictions'' (\<lambda>x. Ok (str_of (cn_repr env) x)) v) (\<lambda>special.
          Ok \<lparr>rule_id = i, effect = eff, weekdays = days, window = win, rule_timezone = tz, valid_from = from,
              valid_until = until, exception_dates = exceptions, not_applicable_windows = omitted,
              special_restrictions = special\<rparr>))))))))))))
      of Ok r \<Rightarrow> Some r | _ \<Rightarrow> None)"

section \<open>SqlMunicipalIngestionRepository\<close>

text \<open>\<open>'g\<close> is a PostGIS value. A time is the instant of a \<open>timestamptz\<close> column.\<close>

record 'g parking_zone_row =
  pz_id :: uuid
  pz_name :: string
  pz_zone_type :: string
  pz_geometry :: 'g
  pz_parking_score :: int
  pz_provenance :: string
  pz_confidence :: pyfloat
  pz_restriction_summary :: "string option"
  pz_average_towing_cost_cents :: "int option"
  pz_towing_hotspot :: bool
  pz_observed_at :: instant
  pz_expires_at :: "instant option"
  pz_source_id :: "uuid option"
  pz_import_batch_id :: "uuid option"
  pz_external_record_id :: "string option"
  pz_jurisdiction :: "string option"
  pz_temporal_rules :: "(string \<times> json) list list"
  pz_temporal_schedule_required :: bool

record 'g parking_facility_row =
  pf_id :: uuid
  pf_name :: string
  pf_address :: string
  pf_location :: 'g
  pf_hourly_price_cents :: "int option"
  pf_safety_score :: int
  pf_towing_incidents :: pyfloat
  pf_rating :: "pyfloat option"
  pf_available_spaces :: "int option"
  pf_capacity :: "int option"
  pf_navigation_url :: string
  pf_provenance :: string
  pf_confidence :: pyfloat
  pf_observed_at :: instant
  pf_expires_at :: "instant option"
  pf_source_id :: "uuid option"
  pf_import_batch_id :: "uuid option"
  pf_external_record_id :: "string option"

record quarantine_row =
  qr_id :: uuid
  qr_batch_id :: uuid
  qr_record_index :: int
  qr_record_sha256 :: string
  qr_reason_code :: string
  qr_reason_detail :: string
  qr_created_at :: instant

record 'g municipal_tables =
  mt_sources :: "municipal_source list"
  mt_batches :: "import_batch list"
  mt_quarantine :: "quarantine_row list"
  mt_zones :: "'g parking_zone_row list"
  mt_facilities :: "'g parking_facility_row list"

text \<open>What the database evaluates or the adapter draws: \<open>ST_GeomFromGeoJSON\<close> (which can fail),
  \<open>ST_MakePoint\<close>, \<open>uuid5\<close>, and the \<open>uuid4\<close> of the quarantined records by position.\<close>

record 'g geo_env =
  ge_polygon :: "string \<Rightarrow> 'g option"
  ge_point :: "pyfloat \<Rightarrow> pyfloat \<Rightarrow> 'g"
  ge_uuid5 :: "uuid \<Rightarrow> string \<Rightarrow> uuid"
  ge_quarantine_id :: "nat \<Rightarrow> uuid"
  ge_iso :: iso_codec

definition zone_row_of ::
  "'g geo_env \<Rightarrow> municipal_source \<Rightarrow> import_batch \<Rightarrow> normalized_zone \<Rightarrow> 'g \<Rightarrow> 'g parking_zone_row" where
  "zone_row_of ge source batch z g =
     \<lparr>pz_id = ge_uuid5 ge (ms_id source) (nz_external_id z), pz_name = nz_name z,
      pz_zone_type = zone_type_value (nz_zone_type z), pz_geometry = g, pz_parking_score = nz_parking_score z,
      pz_provenance = provenance_value (source_provenance source),
      pz_confidence = Fin (if ms_official source then 1 else 1 / 2),
      pz_restriction_summary = nz_restriction_summary z,
      pz_average_towing_cost_cents = nz_average_towing_cost_cents z, pz_towing_hotspot = nz_towing_hotspot z,
      pz_observed_at = aware_instant (nz_observed_at z),
      pz_expires_at = map_option aware_instant (nz_expires_at z), pz_source_id = Some (ms_id source),
      pz_import_batch_id = Some (ib_id batch), pz_external_record_id = Some (nz_external_id z),
      pz_jurisdiction = Some (ms_jurisdiction source),
      pz_temporal_rules = map (serialized_rule (ge_iso ge)) (nz_temporal_rules z),
      pz_temporal_schedule_required = nz_temporal_schedule_required z\<rparr>"

definition facility_row_of ::
  "'g geo_env \<Rightarrow> municipal_source \<Rightarrow> import_batch \<Rightarrow> normalized_facility \<Rightarrow> 'g parking_facility_row" where
  "facility_row_of ge source batch f =
     \<lparr>pf_id = ge_uuid5 ge (ms_id source) (nf_external_id f), pf_name = nf_name f, pf_address = nf_address f,
      pf_location = ge_point ge (nf_longitude f) (nf_latitude f),
      pf_hourly_price_cents = nf_hourly_price_cents f, pf_safety_score = nf_safety_score f,
      pf_towing_incidents = nf_towing_incidents f, pf_rating = nf_rating f,
      pf_available_spaces = nf_available_spaces f, pf_capacity = nf_capacity f,
      pf_navigation_url = nf_navigation_url f, pf_provenance = provenance_value (source_provenance source),
      pf_confidence = Fin (if ms_official source then 1 else 1 / 2),
      pf_observed_at = aware_instant (nf_observed_at f),
      pf_expires_at = map_option aware_instant (nf_expires_at f), pf_source_id = Some (ms_id source),
      pf_import_batch_id = Some (ib_id batch), pf_external_record_id = Some (nf_external_id f)\<rparr>"

text \<open>The check constraints of the two tables. PostgreSQL orders NaN above every number.\<close>

definition zone_constraints :: "'g parking_zone_row \<Rightarrow> bool" where
  "zone_constraints r \<longleftrightarrow> 0 \<le> pz_parking_score r \<and> pz_parking_score r \<le> 100 \<and> fbetween 0 (pz_confidence r) 1
     \<and> (case pz_average_towing_cost_cents r of None \<Rightarrow> True | Some c \<Rightarrow> 0 \<le> c)"

definition facility_constraints :: "'g parking_facility_row \<Rightarrow> bool" where
  "facility_constraints r \<longleftrightarrow> (case pf_hourly_price_cents r of None \<Rightarrow> True | Some p \<Rightarrow> 0 \<le> p)
     \<and> 0 \<le> pf_safety_score r \<and> pf_safety_score r \<le> 100
     \<and> (fle (Fin 0) (pf_towing_incidents r) \<or> pf_towing_incidents r = NaN)
     \<and> (case pf_rating r of None \<Rightarrow> True | Some x \<Rightarrow> fbetween 0 x 5)
     \<and> (case pf_available_spaces r of None \<Rightarrow> True | Some a \<Rightarrow> 0 \<le> a)
     \<and> (case pf_capacity r of None \<Rightarrow> True | Some c \<Rightarrow> 0 < c)
     \<and> fbetween 0 (pf_confidence r) 1"

text \<open>\<open>INSERT ... ON CONFLICT (source_id, external_record_id) DO UPDATE\<close> of every column but the
  identifier; a violated constraint and a clash of primary keys raise.\<close>

definition upsert_zone :: "'g parking_zone_row \<Rightarrow> 'g parking_zone_row list \<Rightarrow> 'g parking_zone_row list option" where
  "upsert_zone r rows =
     (let same = (\<lambda>x. pz_source_id x = pz_source_id r \<and> pz_external_record_id x = pz_external_record_id r)
      in if \<not> zone_constraints r then None
         else if list_ex same rows then Some (map (\<lambda>x. if same x then r\<lparr>pz_id := pz_id x\<rparr> else x) rows)
         else if list_ex (\<lambda>x. pz_id x = pz_id r) rows then None
         else Some (rows @ [r]))"

definition upsert_facility ::
  "'g parking_facility_row \<Rightarrow> 'g parking_facility_row list \<Rightarrow> 'g parking_facility_row list option" where
  "upsert_facility r rows =
     (let same = (\<lambda>x. pf_source_id x = pf_source_id r \<and> pf_external_record_id x = pf_external_record_id r)
      in if \<not> facility_constraints r then None
         else if list_ex same rows then Some (map (\<lambda>x. if same x then r\<lparr>pf_id := pf_id x\<rparr> else x) rows)
         else if list_ex (\<lambda>x. pf_id x = pf_id r) rows then None
         else Some (rows @ [r]))"

fun store_zones ::
  "'g geo_env \<Rightarrow> municipal_source \<Rightarrow> import_batch \<Rightarrow> normalized_zone list \<Rightarrow> 'g parking_zone_row list \<Rightarrow>
     'g parking_zone_row list option" where
  "store_zones ge source batch [] rows = Some rows"
| "store_zones ge source batch (z # zs) rows =
     (case ge_polygon ge (nz_geometry_geojson z) of
        None \<Rightarrow> None
      | Some g \<Rightarrow>
          (case upsert_zone (zone_row_of ge source batch z g) rows of
             None \<Rightarrow> None
           | Some rows' \<Rightarrow> store_zones ge source batch zs rows'))"

fun store_facilities ::
  "'g geo_env \<Rightarrow> municipal_source \<Rightarrow> import_batch \<Rightarrow> normalized_facility list \<Rightarrow> 'g parking_facility_row list \<Rightarrow>
     'g parking_facility_row list option" where
  "store_facilities ge source batch [] rows = Some rows"
| "store_facilities ge source batch (f # fs) rows =
     (case upsert_facility (facility_row_of ge source batch f) rows of
        None \<Rightarrow> None
      | Some rows' \<Rightarrow> store_facilities ge source batch fs rows')"

definition quarantine_row_of :: "'g geo_env \<Rightarrow> import_batch \<Rightarrow> nat \<times> rejected_record \<Rightarrow> quarantine_row" where
  "quarantine_row_of ge batch x = (case x of (k, r) \<Rightarrow>
     \<lparr>qr_id = ge_quarantine_id ge k, qr_batch_id = ib_id batch, qr_record_index = rj_index r,
      qr_record_sha256 = rj_sha256 r, qr_reason_code = rj_code r, qr_reason_detail = rj_detail r,
      qr_created_at = ib_completed_at batch\<rparr>)"

text \<open>The primary key and the unique index on \<open>(source_id, content_sha256)\<close> of the batches.\<close>

definition sql_commit_import ::
  "'g geo_env \<Rightarrow> municipal_source \<Rightarrow> import_batch \<Rightarrow> normalized_import \<Rightarrow> 'g municipal_tables \<Rightarrow>
     'g municipal_tables option" where
  "sql_commit_import ge source batch n t =
     (if list_ex (\<lambda>b. ib_id b = ib_id batch \<or> batch_of (ib_source_id batch) (ib_sha256 batch) b) (mt_batches t)
      then None
      else case store_zones ge source batch (ni_zones n) (mt_zones t) of
        None \<Rightarrow> None
      | Some zones \<Rightarrow>
          (case store_facilities ge source batch (ni_facilities n) (mt_facilities t) of
             None \<Rightarrow> None
           | Some facilities \<Rightarrow>
               Some (t\<lparr>mt_batches := mt_batches t @ [batch],
                  mt_quarantine := mt_quarantine t @ map (quarantine_row_of ge batch) (enumerate 0 (ni_rejected n)),
                  mt_zones := zones, mt_facilities := facilities\<rparr>)))"

definition sql_ingestion_repository :: "'g geo_env \<Rightarrow> 'g municipal_tables ingestion_repository" where
  "sql_ingestion_repository ge =
     \<lparr>add_source = (\<lambda>x t. t\<lparr>mt_sources := mt_sources t @ [x]\<rparr>),
      source_by_id = (\<lambda>i t. find (\<lambda>x. ms_id x = i) (mt_sources t)),
      all_sources = (\<lambda>t. sort_key source_order (mt_sources t)),
      batch_by_digest = (\<lambda>i d t. find (batch_of i d) (mt_batches t)),
      commit_import = sql_commit_import ge,
      recent_batches = (\<lambda>i limit t. newest_batches i limit (mt_batches t))\<rparr>"

section \<open>Reading a stored zone\<close>

definition zone_type_of_value :: "string \<Rightarrow> zone_type option" where
  "zone_type_of_value s = find (\<lambda>x. zone_type_value x = s)
     [GENERAL, RESIDENT_ONLY, PRIVATE_PROPERTY, COMMERCIAL, ZT_TOWING_HOTSPOT]"

definition provenance_of_value :: "string \<Rightarrow> provenance option" where
  "provenance_of_value s = find (\<lambda>x. provenance_value x = s)
     [OFFICIAL, COMMUNITY_VERIFIED, AI_PREDICTION, ESTIMATED]"

fun those_rules :: "connector_env \<Rightarrow> (string \<times> json) list list \<Rightarrow> temporal_rule list option" where
  "those_rules env [] = Some []"
| "those_rules env (v # vs) =
     (case stored_rule env v of None \<Rightarrow> None | Some r \<Rightarrow> map_option (\<lambda>rs. r # rs) (those_rules env vs))"

text \<open>\<open>_map\<close>, with the \<open>ST_AsGeoJSON\<close> text of the geometry.\<close>

definition zone_of_row :: "connector_env \<Rightarrow> ('g \<Rightarrow> string) \<Rightarrow> 'g parking_zone_row \<Rightarrow> parking_zone option" where
  "zone_of_row env as_geojson r =
     (case (zone_type_of_value (pz_zone_type r), provenance_of_value (pz_provenance r),
            those_rules env (pz_temporal_rules r)) of
        (Some ty, Some prov, Some rules) \<Rightarrow> Some
          \<lparr>z_id = pz_id r, z_name = pz_name r, z_type = ty, z_geometry_geojson = as_geojson (pz_geometry r),
           z_parking_score = pz_parking_score r, z_provenance = prov, z_confidence = pz_confidence r,
           z_restriction_summary = pz_restriction_summary r,
           z_average_towing_cost_cents = pz_average_towing_cost_cents r, z_towing_hotspot = pz_towing_hotspot r,
           z_observed_at = pz_observed_at r, z_expires_at = pz_expires_at r, z_source_id = pz_source_id r,
           z_import_batch_id = pz_import_batch_id r, z_jurisdiction = pz_jurisdiction r,
           z_temporal_rules = rules, z_temporal_schedule_required = pz_temporal_schedule_required r\<rparr>
      | _ \<Rightarrow> None)"

section \<open>Endpoints\<close>

record 'r ingestion_env =
  ie_enabled :: bool
  ie_service :: "'r ingestion_service"
  ie_sha_text :: "string \<Rightarrow> string"

record 'r ingestion_db =
  in_repo :: 'r
  in_trail :: "admin_audit_record list"

text \<open>A request that raises leaves the database as it was.\<close>

definition ingestion_transaction ::
  "'r ingestion_db \<Rightarrow> (http_error + 'a) \<times> 'r ingestion_db \<Rightarrow> (http_error + 'a) \<times> 'r ingestion_db" where
  "ingestion_transaction db res = (case res of (Inl e, _) \<Rightarrow> (Inl e, db) | (Inr x, db') \<Rightarrow> (Inr x, db'))"

fun ingestion_http :: "nat \<Rightarrow> ingestion_error \<Rightarrow> http_error" where
  "ingestion_http code (MunicipalIngestionError m) = http_exception code m"
| "ingestion_http code IngestionCrash = http_exception 500 ''Unexpected server error.''"

text \<open>The dependencies in their order: the privileged actor, then the service, which is refused while
  imports are disabled.\<close>

definition ingestion_actor :: "'r ingestion_env \<Rightarrow> http_error + user \<Rightarrow> http_error + user" where
  "ingestion_actor env privileged =
     (case privileged of
        Inl e \<Rightarrow> Inl e
      | Inr u \<Rightarrow>
          if \<not> ie_enabled env
          then Inl (http_exception 503 ''municipal imports are disabled pending approved source rights'')
          else Inr u)"

definition source_command_ok :: "source_command \<Rightarrow> bool" where
  "source_command_ok c \<longleftrightarrow> 1 \<le> length (sc_name c) \<and> length (sc_name c) \<le> 160
     \<and> 1 \<le> length (sc_jurisdiction c) \<and> length (sc_jurisdiction c) \<le> 160
     \<and> 8 \<le> length (sc_source_url c) \<and> length (sc_source_url c) \<le> 1000
     \<and> (case sc_license_url c of None \<Rightarrow> True | Some l \<Rightarrow> 8 \<le> length l \<and> length l \<le> 1000)
     \<and> 5 \<le> sc_refresh_interval c \<and> sc_refresh_interval c \<le> 10080
     \<and> 5 \<le> sc_stale_after c \<and> sc_stale_after c \<le> 43200"

definition ingestion_audit :: "'r ingestion_env \<Rightarrow> user \<Rightarrow> string \<Rightarrow> uuid \<Rightarrow> uuid \<Rightarrow> instant \<Rightarrow> 'r ingestion_db \<Rightarrow> 'r ingestion_db" where
  "ingestion_audit env actor act subject audit_id now db =
     db\<lparr>in_trail := snd (append_record (ie_sha_text env) (user_id actor) act (Some subject) audit_id now (in_trail db))\<rparr>"

definition route_create_source ::
  "'r ingestion_env \<Rightarrow> http_error + user \<Rightarrow> source_command \<Rightarrow> uuid \<Rightarrow> uuid \<Rightarrow> instant \<Rightarrow> 'r ingestion_db \<Rightarrow>
     (http_error + municipal_source) \<times> 'r ingestion_db" where
  "route_create_source env privileged c new_id audit_id now db =
     (case ingestion_actor env privileged of
        Inl e \<Rightarrow> (Inl e, db)
      | Inr actor \<Rightarrow>
          if \<not> source_command_ok c then (Inl (http_exception 422 ''Invalid request.''), db)
          else ingestion_transaction db
            (case create_source (ie_service env) c new_id now (in_repo db) of
               (Inl e, s) \<Rightarrow> (Inl (ingestion_http 422 e), db\<lparr>in_repo := s\<rparr>)
             | (Inr x, s) \<Rightarrow>
                 (Inr x, ingestion_audit env actor ''municipal.source_created'' (ms_id x) audit_id now
                    (db\<lparr>in_repo := s\<rparr>))))"

definition route_sources ::
  "'r ingestion_env \<Rightarrow> http_error + user \<Rightarrow> 'r ingestion_db \<Rightarrow> http_error + municipal_source list" where
  "route_sources env privileged db =
     (case ingestion_actor env privileged of
        Inl e \<Rightarrow> Inl e
      | Inr _ \<Rightarrow> Inr (all_sources (is_repository (ie_service env)) (in_repo db)))"

text \<open>At most one byte more than the limit is read.\<close>

definition route_import_feed ::
  "'r ingestion_env \<Rightarrow> http_error + user \<Rightarrow> uuid \<Rightarrow> 8 word list \<Rightarrow> uuid \<Rightarrow> uuid \<Rightarrow> instant \<Rightarrow> instant \<Rightarrow> instant \<Rightarrow>
     'r ingestion_db \<Rightarrow> (http_error + import_batch) \<times> 'r ingestion_db" where
  "route_import_feed env privileged source_id upload new_id audit_id received completed now db =
     (case ingestion_actor env privileged of
        Inl e \<Rightarrow> (Inl e, db)
      | Inr actor \<Rightarrow> ingestion_transaction db
          (case import_payload (ie_service env) source_id (slice_to (is_max_upload (ie_service env) + 1) upload)
                  new_id received completed (in_repo db) of
             (Inl e, s) \<Rightarrow> (Inl (ingestion_http 422 e), db\<lparr>in_repo := s\<rparr>)
           | (Inr b, s) \<Rightarrow>
               (Inr b, ingestion_audit env actor (''municipal.import_'' @ import_status_value (ib_status b))
                  (ib_id b) audit_id now (db\<lparr>in_repo := s\<rparr>))))"

definition route_batches ::
  "'r ingestion_env \<Rightarrow> http_error + user \<Rightarrow> uuid \<Rightarrow> int \<Rightarrow> 'r ingestion_db \<Rightarrow> http_error + import_batch list" where
  "route_batches env privileged source_id limit db =
     (case ingestion_actor env privileged of
        Inl e \<Rightarrow> Inl e
      | Inr _ \<Rightarrow>
          if \<not> (1 \<le> limit \<and> limit \<le> 100) then Inl (http_exception 422 ''Invalid request.'')
          else (case list_batches (ie_service env) source_id limit (in_repo db) of
            Inl e \<Rightarrow> Inl (ingestion_http 404 e)
          | Inr bs \<Rightarrow> Inr bs))"

text \<open>The service the endpoints build.\<close>

definition sql_ingestion_service ::
  "connector_env \<Rightarrow> 'g geo_env \<Rightarrow> int \<Rightarrow> (8 word list \<Rightarrow> string) \<Rightarrow> 'g municipal_tables ingestion_service" where
  "sql_ingestion_service cn ge max_upload sha =
     \<lparr>is_repository = sql_ingestion_repository ge, is_connector = connector cn, is_max_upload = max_upload,
      is_sha256 = sha, is_url = cn_url cn\<rparr>"

datatype ingestion_request =
    CreateSource "http_error + user" source_command uuid uuid instant
  | ImportFeed "http_error + user" uuid "8 word list" uuid uuid instant instant instant

fun ingestion_step :: "'r ingestion_env \<Rightarrow> ingestion_request \<Rightarrow> 'r ingestion_db \<Rightarrow> 'r ingestion_db" where
  "ingestion_step env (CreateSource p c i a now) db = snd (route_create_source env p c i a now db)"
| "ingestion_step env (ImportFeed p src up i a r c now) db = snd (route_import_feed env p src up i a r c now db)"

definition ingestion_history ::
  "'r ingestion_env \<Rightarrow> ingestion_request list \<Rightarrow> 'r ingestion_db \<Rightarrow> 'r ingestion_db" where
  "ingestion_history env rs db = foldl (\<lambda>d r. ingestion_step env r d) db rs"

end
