(* ===== verification/Ingestion_Safety.thy ===== *)
theory Ingestion_Safety
  imports Ingestion
begin

text \<open>
  What an import promises: what a connector accepts is well formed and everything else is counted
  and quarantined; a payload is imported once per source; and a stored zone reads back, with its
  temporal rules, as the zone the feed described. The repositories are two instances of one locale.
\<close>

section \<open>The contract of a normalized import\<close>

text \<open>An aware observation time and, where it expires, an aware expiry after it.\<close>

definition lifetime_contract :: "pydatetime \<Rightarrow> pydatetime option \<Rightarrow> bool" where
  "lifetime_contract observed expires \<longleftrightarrow>
     (\<exists>t. observed = Aware t \<and> (\<forall>e. expires = Some e \<longrightarrow> (\<exists>u. e = Aware u \<and> t < u)))"

definition rule_contract :: "temporal_rule \<Rightarrow> bool" where
  "rule_contract r \<longleftrightarrow> weekdays r \<noteq> [] \<and> (\<forall>d \<in> set (weekdays r). 0 \<le> d \<and> d < 7) \<and> is_aware (valid_from r)
     \<and> (\<forall>u. valid_until r = Some u \<longrightarrow> is_aware u)"

text \<open>The rings of a polygon: at least one, each closed, of at least four points, each point a
  longitude and a latitude within WGS84.\<close>

definition wgs84_polygon :: "pyfloat list list list \<Rightarrow> bool" where
  "wgs84_polygon rings \<longleftrightarrow> rings \<noteq> [] \<and> (\<forall>ring \<in> set rings. 4 \<le> length ring \<and> list_all2 feq (hd ring) (last ring)
     \<and> (\<forall>p \<in> set ring. \<exists>lon lat. p = [lon, lat] \<and> fbetween (-180) lon 180 \<and> fbetween (-90) lat 90))"

definition polygon_text :: "connector_env \<Rightarrow> pyfloat list list list \<Rightarrow> string" where
  "polygon_text env rings = cn_dumps env (JObject [(''type'', JStr ''Polygon''),
     (''coordinates'', JList (map (\<lambda>ring. JList (map (\<lambda>c. JList (map JFloat c)) ring)) rings))])"

definition zone_contract :: "connector_env \<Rightarrow> normalized_zone \<Rightarrow> bool" where
  "zone_contract env z \<longleftrightarrow> 1 \<le> length (nz_external_id z) \<and> length (nz_external_id z) \<le> 160
     \<and> 1 \<le> length (nz_name z) \<and> length (nz_name z) \<le> 160
     \<and> (\<exists>rings. wgs84_polygon rings \<and> nz_geometry_geojson z = polygon_text env rings)
     \<and> 0 \<le> nz_parking_score z \<and> nz_parking_score z \<le> 100
     \<and> (\<forall>s. nz_restriction_summary z = Some s \<longrightarrow> length s \<le> 2000)
     \<and> (\<forall>c. nz_average_towing_cost_cents z = Some c \<longrightarrow> 0 \<le> c \<and> c \<le> 1000000)
     \<and> lifetime_contract (nz_observed_at z) (nz_expires_at z)
     \<and> length (nz_temporal_rules z) \<le> 64 \<and> list_all rule_contract (nz_temporal_rules z)"

definition facility_contract :: "connector_env \<Rightarrow> normalized_facility \<Rightarrow> bool" where
  "facility_contract env f \<longleftrightarrow> 1 \<le> length (nf_external_id f) \<and> length (nf_external_id f) \<le> 160
     \<and> 1 \<le> length (nf_name f) \<and> length (nf_name f) \<le> 160
     \<and> 1 \<le> length (nf_address f) \<and> length (nf_address f) \<le> 500
     \<and> fbetween (-90) (nf_latitude f) 90 \<and> fbetween (-180) (nf_longitude f) 180
     \<and> 0 \<le> nf_safety_score f \<and> nf_safety_score f \<le> 100 \<and> fbetween 0 (nf_towing_incidents f) 1000
     \<and> (\<forall>x. nf_rating f = Some x \<longrightarrow> fbetween 0 x 5)
     \<and> (\<forall>p. nf_hourly_price_cents f = Some p \<longrightarrow> 0 \<le> p \<and> p \<le> 1000000)
     \<and> (\<forall>c. nf_capacity f = Some c \<longrightarrow> 0 \<le> c \<and> c \<le> 1000000)
     \<and> (\<forall>a. nf_available_spaces f = Some a \<longrightarrow> 0 \<le> a \<and> a \<le> 1000000
          \<and> (\<forall>c. nf_capacity f = Some c \<longrightarrow> a \<le> c))
     \<and> 1 \<le> length (nf_navigation_url f) \<and> length (nf_navigation_url f) \<le> 1000
     \<and> (\<exists>parts. cn_url env (nf_navigation_url f) = Some parts \<and> url_scheme parts = ''https'')
     \<and> lifetime_contract (nf_observed_at f) (nf_expires_at f)"

text \<open>
  The records of a feed, the accepted entries and the quarantined ones: a quarantined entry names the
  index of its record and holds the hash of it, the indices ascend, and the records whose index is not
  quarantined are the accepted ones, in order.
\<close>

definition accounted ::
  "connector_env \<Rightarrow> ('r \<Rightarrow> json) \<Rightarrow> ('r \<Rightarrow> 'a \<Rightarrow> bool) \<Rightarrow> nat \<Rightarrow> 'r list \<Rightarrow> 'a list \<Rightarrow> rejected_record list \<Rightarrow> bool" where
  "accounted env js same i recs xs rs \<longleftrightarrow> sorted_wrt (<) (map rj_index rs)
     \<and> (\<forall>r \<in> set rs. int i \<le> rj_index r \<and> rj_index r < int (i + length recs)
          \<and> rj_sha256 r = cn_hash env (js (recs ! (nat (rj_index r) - i))))
     \<and> list_all2 same (nths recs {k. int (i + k) \<notin> set (map rj_index rs)}) xs"

lemma accounted_Nil: "accounted env js same i [] [] []"
  by (simp add: accounted_def)

lemma accounted_accept:
  assumes "accounted env js same (Suc i) recs xs rs" and "same r a"
  shows "accounted env js same i (r # recs) (a # xs) rs"
proof -
  from assms(1) have later: "int (Suc i) \<le> rj_index q" if "q \<in> set rs" for q
    using that unfolding accounted_def by blast
  then have head: "int i \<notin> set (map rj_index rs)" by fastforce
  have at': "(r # recs) ! (nat (rj_index q) - i) = recs ! (nat (rj_index q) - Suc i)" if "q \<in> set rs" for q
    using later [OF that] by (simp add: nth_Cons' Suc_diff_Suc [symmetric])
  show ?thesis using assms head at' unfolding accounted_def by (auto simp: nths_Cons ac_simps)
qed

lemma accounted_reject:
  assumes "accounted env js same (Suc i) recs xs rs" and "rj_index q = int i" and "rj_sha256 q = cn_hash env (js r)"
  shows "accounted env js same i (r # recs) xs (q # rs)"
proof -
  from assms(1) have later: "int (Suc i) \<le> rj_index p" if "p \<in> set rs" for p
    using that unfolding accounted_def by blast
  have at': "(r # recs) ! (nat (rj_index p) - i) = recs ! (nat (rj_index p) - Suc i)" if "p \<in> set rs" for p
    using later [OF that] by (simp add: nth_Cons' Suc_diff_Suc [symmetric])
  show ?thesis using assms later at' unfolding accounted_def by (force simp: nths_Cons ac_simps)
qed

lemma accounted_distinct:
  "accounted env js same i recs xs rs \<Longrightarrow> distinct (map rj_index rs)"
  by (simp add: accounted_def strict_sorted_iff)

definition import_contract :: "connector_env \<Rightarrow> normalized_import \<Rightarrow> bool" where
  "import_contract env n \<longleftrightarrow> list_all (zone_contract env) (ni_zones n) \<and> list_all (facility_contract env) (ni_facilities n)
     \<and> distinct (map nz_external_id (ni_zones n)) \<and> distinct (map nf_external_id (ni_facilities n))
     \<and> distinct (map rj_index (ni_rejected n))
     \<and> accepted_count n + length (ni_rejected n) = ni_input_count n \<and> ni_input_count n \<le> max_records"

lemma rejected_feed_contract: "import_contract env (rejected_feed r)"
  by (simp add: import_contract_def rejected_feed_def accepted_count_def max_records_def)

section \<open>The zone connector\<close>

lemma connector_rule_contract: "connector_rule env v = Ok r \<Longrightarrow> rule_contract r"
  by (auto simp: connector_rule_def and_then_Ok rule_contract_def schedule_ok_def list_all_iff
      split: if_splits option.splits)

lemma timestamps_contract: "timestamps_ok observed expires \<Longrightarrow> lifetime_contract observed expires"
  unfolding timestamps_ok_def lifetime_contract_def
  by (cases observed; cases expires) (auto elim: is_aware.elims)

lemma polygon_contract: "polygon_ok rings \<Longrightarrow> wgs84_polygon rings"
  unfolding polygon_ok_def ring_ok_def coordinate_ok_def same_point_def wgs84_polygon_def list_all_iff
  by (fastforce simp: not_less split: list.splits)

text \<open>The record that an accepted zone came from.\<close>

definition zone_of_record :: "connector_env \<Rightarrow> json \<Rightarrow> normalized_zone \<Rightarrow> bool" where
  "zone_of_record env raw z \<longleftrightarrow> (\<exists>f. cn_shape env raw = Some f \<and> z = zone_of_feature env f (nz_temporal_rules z))"

lemma zone_geometry:
  "zf_geometry_type f = ''Polygon'' \<Longrightarrow> nz_geometry_geojson (zone_of_feature env f rules) = polygon_text env (zf_coordinates f)"
  by (simp add: zone_of_feature_def geometry_json_def polygon_text_def Let_def)

lemma accept_feature_Ok:
  assumes "accept_feature env raw seen = (Ok z, seen')"
  shows "zone_contract env z \<and> nz_external_id z \<notin> set seen \<and> seen' = nz_external_id z # seen \<and> zone_of_record env raw z"
proof -
  from assms obtain f rules where f: "validated_feature env raw = Some f" "feature_ok f seen"
      "attempt_all (connector_rule env) (zp_temporal_rules (zf_properties f)) = Ok rules"
      "z = zone_of_feature env f rules" "seen' = zp_external_id (zf_properties f) # seen"
    by (auto simp: accept_feature_def and_then_Ok split: option.splits if_splits)
  from f(1) have ok: "zone_properties_ok (zf_properties f)"
    by (auto simp: validated_feature_def split: option.splits if_splits)
  have all: "list_all2 (\<lambda>v r. connector_rule env v = Ok r) (zp_temporal_rules (zf_properties f)) rules"
    using f(3) by (simp add: attempt_all_Ok)
  then have "list_all rule_contract rules"
    by (auto simp: list_all_length list_all2_conv_all_nth dest: connector_rule_contract)
  from f(2) have shape: "polygon_ok (zf_coordinates f)" "zf_geometry_type f = ''Polygon''"
    "timestamps_ok (zp_observed_at (zf_properties f)) (zp_expires_at (zf_properties f))"
    "zp_external_id (zf_properties f) \<notin> set seen" by (simp_all add: feature_ok_def)
  have geometry: "\<exists>rings. wgs84_polygon rings \<and> nz_geometry_geojson z = polygon_text env rings"
    unfolding f(4) zone_geometry [OF shape(2)] using polygon_contract [OF shape(1)] by blast
  have "cn_shape env raw = Some f" using f(1) by (auto simp: validated_feature_def split: option.splits if_splits)
  then have origin: "zone_of_record env raw z" unfolding zone_of_record_def f(4) by (auto simp: zone_of_feature_def Let_def)
  have "length rules \<le> 64" using all ok by (auto simp: zone_properties_ok_def dest: list_all2_lengthD)
  with \<open>list_all rule_contract rules\<close> geometry ok timestamps_contract [OF shape(3)] shape(4) origin show ?thesis
    unfolding zone_contract_def zone_properties_ok_def
    by (auto simp: f(4,5) zone_of_feature_def Let_def split: option.splits)
qed

lemma accept_feature_seen: "accept_feature env raw seen = (a, seen') \<Longrightarrow> set seen \<subseteq> set seen'"
  by (auto simp: accept_feature_def split: option.splits if_splits)

lemma parse_features_contract:
  "parse_features env i raws seen = Some (zs, rs) \<Longrightarrow>
     list_all (zone_contract env) zs \<and> distinct (map nz_external_id zs) \<and> set (map nz_external_id zs) \<inter> set seen = {}
     \<and> accounted env (\<lambda>raw. raw) (zone_of_record env) i raws zs rs \<and> length zs + length rs = length raws"
proof (induction raws arbitrary: i seen zs rs)
  case (Cons raw raws)
  obtain a seen' where a: "accept_feature env raw seen = (a, seen')" by fastforce
  show ?case
  proof (cases a)
    case (Ok z)
    with Cons.prems a obtain zs' where r: "parse_features env (Suc i) raws seen' = Some (zs', rs)" "zs = z # zs'"
      by auto
    note ih = Cons.IH [OF r(1)] and z = accept_feature_Ok [OF a [unfolded Ok]]
    from ih z have "accounted env (\<lambda>raw. raw) (zone_of_record env) i (raw # raws) (z # zs') rs"
      by (intro accounted_accept) blast+
    with ih z show ?thesis by (auto simp: r(2))
  next
    case Caught
    with Cons.prems a obtain rs' where r: "parse_features env (Suc i) raws seen' = Some (zs, rs')"
        "rs = invalid_zone env i raw # rs'" by auto
    note ih = Cons.IH [OF r(1)]
    from ih have "accounted env (\<lambda>raw. raw) (zone_of_record env) i (raw # raws) zs (invalid_zone env i raw # rs')"
      by (intro accounted_reject) (simp_all add: invalid_zone_def reject_def)
    with ih accept_feature_seen [OF a] show ?thesis by (auto simp: r(2))
  next
    case Escapes
    with Cons.prems a show ?thesis by simp
  qed
qed (simp add: accounted_Nil)

text \<open>The records of a zone feed, and what an import makes of them.\<close>

definition zone_feed :: "connector_env \<Rightarrow> 8 word list \<Rightarrow> json list \<Rightarrow> bool" where
  "zone_feed env payload raws \<longleftrightarrow> (\<exists>d. cn_json env payload = Document (JObject d)
     \<and> dict_get d ''type'' = Some (JStr ''FeatureCollection'') \<and> dict_get d ''features'' = Some (JList raws))"

definition feed_refused :: "normalized_import \<Rightarrow> bool" where
  "feed_refused n \<longleftrightarrow> (\<exists>r. n = rejected_feed r \<and> rj_index r = -1)"

lemma parse_zones_cases:
  assumes "parse_zones env payload = Some n"
  obtains (feed) r where "n = rejected_feed r" "rj_index r = -1"
    | (records) raws zs rs where "zone_feed env payload raws" "parse_features env 0 raws [] = Some (zs, rs)"
        "length raws \<le> max_records"
        "n = \<lparr>ni_input_count = length raws, ni_zones = zs, ni_facilities = [], ni_rejected = rs\<rparr>"
  using assms
  by (auto simp: parse_zones_def zone_feed_def reject_def Let_def
      split: decoded.splits json.splits option.splits if_splits)

lemma parse_zones_contract:
  assumes "parse_zones env payload = Some n"
  shows "import_contract env n"
  using assms
proof (cases rule: parse_zones_cases)
  case feed
  then show ?thesis by (simp add: rejected_feed_contract)
next
  case (records raws zs rs)
  from parse_features_contract [OF records(2)] accounted_distinct records(3,4) show ?thesis
    by (auto simp: import_contract_def accepted_count_def)
qed

lemma parse_zones_accounted:
  assumes "parse_zones env payload = Some n"
  shows "feed_refused n \<or> (\<exists>raws. zone_feed env payload raws \<and> ni_input_count n = length raws \<and> ni_facilities n = []
    \<and> accounted env (\<lambda>raw. raw) (zone_of_record env) 0 raws (ni_zones n) (ni_rejected n))"
  using assms
proof (cases rule: parse_zones_cases)
  case (records raws zs rs)
  from parse_features_contract [OF records(2)] records(1,4) show ?thesis by auto
qed (auto simp: feed_refused_def)

section \<open>The facility connector\<close>

lemma required_bounds: "required row key k = Some s \<Longrightarrow> 1 \<le> length s \<and> length s \<le> k"
  by (cases s) (auto simp: required_def bounded_text_def split: if_splits)

lemma float_field_bounds: "float_field env row key a b = Some x \<Longrightarrow> fbetween a x b"
  by (auto simp: float_field_def float_between_def split: bind_splits if_splits)

lemma int_field_bounds: "int_field row key a b = Some n \<Longrightarrow> a \<le> n \<and> n \<le> b"
  by (auto simp: int_field_def int_between_def split: bind_splits if_splits)

lemma optional_int_bounds: "optional_int row key a b = Some (Some n) \<Longrightarrow> a \<le> n \<and> n \<le> b"
  by (auto simp: optional_int_def Let_def dest: int_field_bounds split: if_splits)

lemma optional_float_bounds: "optional_float env row key a b = Some (Some x) \<Longrightarrow> fbetween a x b"
  by (auto simp: optional_float_def Let_def dest: float_field_bounds split: if_splits)

text \<open>The row that an accepted facility came from.\<close>

definition facility_of_record :: "csv_row \<Rightarrow> normalized_facility \<Rightarrow> bool" where
  "facility_of_record row f \<longleftrightarrow> nf_external_id f = field_text row ''external_id'' \<and> nf_name f = field_text row ''name''
     \<and> nf_address f = field_text row ''address'' \<and> nf_navigation_url f = field_text row ''navigation_url''"

lemma required_value: "required row key k = Some s \<Longrightarrow> s = field_text row key"
  by (simp add: required_def bounded_text_def split: if_splits)

lemma facility_of_row_contract:
  assumes "facility_of_row env row = Some f"
  shows "facility_contract env f \<and> facility_of_record row f"
proof
  from assms show "facility_contract env f"
    unfolding facility_of_row_def
    by (auto simp: facility_contract_def dest!: required_bounds float_field_bounds int_field_bounds timestamps_contract
        dest: optional_int_bounds optional_float_bounds split: bind_splits if_splits option.splits)
  from assms show "facility_of_record row f"
    unfolding facility_of_row_def
    by (auto simp: facility_of_record_def dest: required_value split: bind_splits if_splits option.splits)
qed

lemma accept_row_Some:
  "accept_row env row seen = Some f \<Longrightarrow>
     facility_contract env f \<and> facility_of_record row f \<and> nf_external_id f \<notin> set seen"
  by (auto simp: accept_row_def dest: facility_of_row_contract split: bind_splits if_splits)

lemma parse_rows_contract:
  "parse_rows env i rows seen = Some (fs, rs) \<Longrightarrow>
     list_all (facility_contract env) fs \<and> distinct (map nf_external_id fs) \<and> set (map nf_external_id fs) \<inter> set seen = {}
     \<and> accounted env row_json facility_of_record i rows fs rs \<and> length fs + length rs = length rows"
proof (induction rows arbitrary: i seen fs rs)
  case (Cons row rows)
  show ?case
  proof (cases "accept_row env row seen")
    case (Some f)
    with Cons.prems obtain fs' where r: "parse_rows env (Suc i) rows (nf_external_id f # seen) = Some (fs', rs)"
        "fs = f # fs'" by auto
    note ih = Cons.IH [OF r(1)] and f = accept_row_Some [OF Some]
    from ih f have "accounted env row_json facility_of_record i (row # rows) (f # fs') rs"
      by (intro accounted_accept) blast+
    with ih f show ?thesis by (auto simp: r(2))
  next
    case None
    with Cons.prems obtain q rs' where r: "invalid_facility env i row = Some q"
        "parse_rows env (Suc i) rows seen = Some (fs, rs')" "rs = q # rs'" by (auto split: option.splits)
    note ih = Cons.IH [OF r(2)]
    from ih r(1) have "accounted env row_json facility_of_record i (row # rows) fs (q # rs')"
      by (intro accounted_reject) (auto simp: invalid_facility_def reject_def split: if_splits)
    with ih show ?thesis by (auto simp: r(3))
  qed
qed (simp add: accounted_Nil)

definition facility_feed :: "connector_env \<Rightarrow> 8 word list \<Rightarrow> csv_row list \<Rightarrow> bool" where
  "facility_feed env payload rows \<longleftrightarrow> (\<exists>text headers. cn_utf8 env payload = Some text
     \<and> cn_csv env text = Some (headers, Some rows) \<and> set required_fields \<subseteq> set headers)"

lemma parse_facilities_cases:
  assumes "parse_facilities env payload = Some n"
  obtains (feed) r where "n = rejected_feed r" "rj_index r = -1"
    | (records) rows fs rs where "facility_feed env payload rows" "parse_rows env 0 rows [] = Some (fs, rs)"
        "length rows \<le> max_records"
        "n = \<lparr>ni_input_count = length rows, ni_zones = [], ni_facilities = fs, ni_rejected = rs\<rparr>"
proof (cases "cn_utf8 env payload")
  case None
  with assms show ?thesis
    by (intro feed [of "reject env (-1) (JStr (bytes_hex payload)) ''invalid_csv'' ''feed is not UTF-8 CSV''"])
      (simp_all add: parse_facilities_def reject_def)
next
  case (Some body)
  with assms obtain headers read where csv: "cn_csv env body = Some (headers, read)"
    by (auto simp: parse_facilities_def split: option.splits)
  show ?thesis
  proof (cases "set required_fields \<subseteq> set headers")
    case False
    with assms Some csv show ?thesis
      by (intro feed [of "reject env (-1) (JList (map JStr (sort (remdups headers)))) ''missing_columns''
          ''CSV is missing one or more required columns''"]) (simp_all add: parse_facilities_def reject_def)
  next
    case True
    with assms Some csv obtain rows where rows: "read = Some rows"
      by (auto simp: parse_facilities_def split: option.splits)
    show ?thesis
    proof (cases "length rows > max_records")
      case over: True
      with assms Some csv True rows show ?thesis
        by (intro feed [of "reject env (-1) (JInt (int (length rows))) ''invalid_record_count''
            ''CSV must contain at most 5000 records''"]) (simp_all add: parse_facilities_def reject_def)
    next
      case False
      with assms Some csv True rows obtain fs rs where "parse_rows env 0 rows [] = Some (fs, rs)"
        "n = \<lparr>ni_input_count = length rows, ni_zones = [], ni_facilities = fs, ni_rejected = rs\<rparr>"
        by (auto simp: parse_facilities_def)
      moreover have "facility_feed env payload rows" using Some csv True rows by (auto simp: facility_feed_def)
      ultimately show ?thesis using False by (intro records [of rows fs rs]) simp_all
    qed
  qed
qed

lemma parse_facilities_contract:
  assumes "parse_facilities env payload = Some n"
  shows "import_contract env n"
  using assms
proof (cases rule: parse_facilities_cases)
  case feed
  then show ?thesis by (simp add: rejected_feed_contract)
next
  case (records rows fs rs)
  from parse_rows_contract [OF records(2)] accounted_distinct records(3,4) show ?thesis
    by (auto simp: import_contract_def accepted_count_def)
qed

lemma parse_facilities_accounted:
  assumes "parse_facilities env payload = Some n"
  shows "feed_refused n \<or> (\<exists>rows. facility_feed env payload rows \<and> ni_input_count n = length rows \<and> ni_zones n = []
    \<and> accounted env row_json facility_of_record 0 rows (ni_facilities n) (ni_rejected n))"
  using assms
proof (cases rule: parse_facilities_cases)
  case (records rows fs rs)
  from parse_rows_contract [OF records(2)] records(1,4) show ?thesis by auto
qed (auto simp: feed_refused_def)

lemma connector_contract: "connector env kind fmt = Some parse \<Longrightarrow> parse payload = Some n \<Longrightarrow> import_contract env n"
  by (auto simp: connector_def dest: parse_zones_contract parse_facilities_contract
      split: feed_kind.splits data_format.splits)

text \<open>
  C27: Whatever a connector makes of an untrusted feed is well formed. An accepted zone meets every
  bound of its contract: an identifier and a name of 1 to 160 characters, a polygon of closed rings of
  at least four points within WGS84, a score from 0 to 100, a summary of at most 2000 characters, a
  towing cost from 0 to a million cents, an aware observation time and an aware expiry after it, and at
  most 64 temporal rules with a non-empty set of weekdays from 0 to 6 and aware validity. So does an
  accepted facility: bounded identifier, name, address and navigation URL, the URL under https,
  coordinates, scores, incidents, rating, price, capacity and availability in range with no more spaces
  available than there are, and the same lifetime. No identifier is accepted twice. A feed is refused
  as a whole, with one entry under index -1, or it has at most five thousand records and each of them
  is accepted, in order, or quarantined under its own index with its hash.
\<close>

theorem accepted_records_are_well_formed:
  assumes "connector env kind fmt = Some parse" and "parse payload = Some n"
  shows "list_all (zone_contract env) (ni_zones n) \<and> list_all (facility_contract env) (ni_facilities n)
     \<and> distinct (map nz_external_id (ni_zones n)) \<and> distinct (map nf_external_id (ni_facilities n))
     \<and> distinct (map rj_index (ni_rejected n))
     \<and> accepted_count n + length (ni_rejected n) = ni_input_count n \<and> ni_input_count n \<le> 5000
     \<and> (feed_refused n
        \<or> (\<exists>raws. kind = PARKING_ZONES \<and> zone_feed env payload raws \<and> ni_input_count n = length raws \<and> ni_facilities n = []
             \<and> accounted env (\<lambda>raw. raw) (zone_of_record env) 0 raws (ni_zones n) (ni_rejected n))
        \<or> (\<exists>rows. kind = PARKING_FACILITIES \<and> facility_feed env payload rows \<and> ni_input_count n = length rows \<and> ni_zones n = []
             \<and> accounted env row_json facility_of_record 0 rows (ni_facilities n) (ni_rejected n)))"
proof -
  have "feed_refused n
      \<or> (\<exists>raws. kind = PARKING_ZONES \<and> zone_feed env payload raws \<and> ni_input_count n = length raws \<and> ni_facilities n = []
           \<and> accounted env (\<lambda>raw. raw) (zone_of_record env) 0 raws (ni_zones n) (ni_rejected n))
      \<or> (\<exists>rows. kind = PARKING_FACILITIES \<and> facility_feed env payload rows \<and> ni_input_count n = length rows \<and> ni_zones n = []
           \<and> accounted env row_json facility_of_record 0 rows (ni_facilities n) (ni_rejected n))"
    using assms parse_zones_accounted [of env payload n] parse_facilities_accounted [of env payload n]
    by (cases kind; cases fmt) (simp_all add: connector_def)
  with connector_contract [OF assms] show ?thesis by (simp add: import_contract_def max_records_def)
qed

section \<open>Rules are read back as they were written\<close>

definition rule_reads_back :: "iso_codec \<Rightarrow> temporal_rule \<Rightarrow> bool" where
  "rule_reads_back codec r \<longleftrightarrow>
     (\<forall>w \<in> insert (window r) (set (not_applicable_windows r)).
        parse_time codec (time_iso codec (starts_at w)) = Some (starts_at w) \<and>
        parse_time codec (time_iso codec (ends_at w)) = Some (ends_at w))
     \<and> (\<forall>t \<in> insert (valid_from r) (set_option (valid_until r)).
          parse_datetime codec (replace_zulu (datetime_iso codec t)) = Some t)
     \<and> (\<forall>d \<in> set (exception_dates r). parse_date codec (date_iso codec d) = Some d)"

context iso_8601
begin

lemma read_window_back:
  assumes "cn_iso env = codec" "read_window env v = Ok w"
  shows "parse_time codec (time_iso codec (starts_at w)) = Some (starts_at w)
    \<and> parse_time codec (time_iso codec (ends_at w)) = Some (ends_at w)"
  using assms time_back by (auto simp: read_window_def read_time_def and_then_Ok)

lemma connector_rule_reads_back:
  assumes env: "cn_iso env = codec" and run: "connector_rule env v = Ok r"
  shows "rule_reads_back codec r"
proof -
  from run obtain w f days win since until exceptions omitted rid eff tz special where
    p: "read_window env w = Ok win" "read_instant env f = Ok since" "read_until env v = Ok until"
      "read_each ''exception_dates'' (read_day env) v = Ok exceptions"
      "read_each ''not_applicable_windows'' (read_window env) v = Ok omitted"
    and r: "r = \<lparr>rule_id = rid, effect = eff, weekdays = days, window = win, rule_timezone = tz, valid_from = since,
        valid_until = until, exception_dates = exceptions, not_applicable_windows = omitted,
        special_restrictions = special\<rparr>"
    by (auto simp: connector_rule_def and_then_Ok split: if_splits)
  have each: "\<exists>x. g x = Ok y" if "read_each k g v = Ok ys" "y \<in> set ys" for k and g :: "json \<Rightarrow> 'b attempt" and y ys
    using that by (auto simp: read_each_def and_then_Ok dest: attempt_all_source)
  have "parse_datetime codec (replace_zulu (datetime_iso codec t)) = Some t"
    if "t \<in> insert since (set_option until)" for t
    using that p(2,3) datetime_back env
    by (auto simp: read_instant_def read_until_def and_then_Ok Let_def split: if_splits)
  moreover have "parse_date codec (date_iso codec d) = Some d" if "d \<in> set exceptions" for d
    using each [OF p(4) that] date_back env by (auto simp: read_day_def)
  moreover have "parse_time codec (time_iso codec (starts_at x)) = Some (starts_at x)
      \<and> parse_time codec (time_iso codec (ends_at x)) = Some (ends_at x)"
    if "x \<in> insert win (set omitted)" for x
    using that each [OF p(5)] read_window_back [OF env] p(1) by blast
  ultimately show ?thesis by (simp add: rule_reads_back_def r)
qed

lemma read_window_json:
  assumes "cn_iso env = codec" "parse_time codec (time_iso codec (starts_at w)) = Some (starts_at w)"
    "parse_time codec (time_iso codec (ends_at w)) = Some (ends_at w)"
  shows "read_window env (window_json codec w) = Ok w"
  using assms by (simp add: read_window_def window_json_def item_def read_time_def)

lemma effect_of_effect_value [simp]: "effect_of_value (effect_value e) = Some e"
  by (cases e) (simp_all add: effect_of_value_def)

lemma stored_rule_serialized:
  assumes env: "cn_iso env = codec" and r: "rule_reads_back codec r"
  shows "stored_rule env (serialized_rule codec r) = Some r"
proof -
  let ?v = "serialized_rule codec r"
  note b = r [unfolded rule_reads_back_def]
  have items: "item ''window'' ?v = Ok (window_json codec (window r))"
    "item ''weekdays'' ?v = Ok (JList (map JInt (weekdays r)))"
    "item ''valid_from'' ?v = Ok (JStr (datetime_iso codec (valid_from r)))"
    "read_text env ''rule_id'' ?v = Ok (rule_id r)" "read_text env ''timezone'' ?v = Ok (rule_timezone r)"
    "read_effect env ?v = Ok (effect r)"
    by (simp_all add: serialized_rule_def item_def read_text_def read_effect_def)
  have days: "read_weekdays ?v = Ok (weekdays r)"
    by (simp add: read_weekdays_def items attempt_all_map)
  have win: "read_window env (window_json codec (window r)) = Ok (window r)"
    using b by (intro read_window_json env) simp_all
  have since: "read_instant env (JStr (datetime_iso codec (valid_from r))) = Ok (valid_from r)"
    using b by (simp add: read_instant_def env)
  have until: "read_until env ?v = Ok (valid_until r)"
    using b datetime_text by (cases "valid_until r") (simp_all add: read_until_def get_or_def serialized_rule_def read_instant_def env Let_def)
  have exc: "read_each ''exception_dates'' (read_day env) ?v = Ok (exception_dates r)"
    using b by (simp add: read_each_def get_or_def serialized_rule_def attempt_all_map read_day_def env)
  have omit: "read_each ''not_applicable_windows'' (read_window env) ?v = Ok (not_applicable_windows r)"
    using b by (simp add: read_each_def get_or_def serialized_rule_def attempt_all_map read_window_json [OF env])
  have special: "read_each ''special_restrictions'' (\<lambda>x. Ok (str_of (cn_repr env) x)) ?v = Ok (special_restrictions r)"
    by (simp add: read_each_def get_or_def serialized_rule_def attempt_all_map)
  show ?thesis
    by (simp add: stored_rule_def items days win since until exc omit special)
qed

end

section \<open>Each payload is imported once\<close>

definition payload_key :: "import_batch \<Rightarrow> uuid \<times> string" where
  "payload_key b = (ib_source_id b, ib_sha256 b)"

definition one_per_payload :: "import_batch list \<Rightarrow> bool" where
  "one_per_payload bs \<longleftrightarrow> distinct (map payload_key bs)"

definition batch_ok :: "import_batch \<Rightarrow> bool" where
  "batch_ok b \<longleftrightarrow> ib_accepted_count b + ib_rejected_count b = ib_input_count b
     \<and> ib_status b = (if ib_accepted_count b = 0 then IMPORT_REJECTED
         else if ib_rejected_count b = 0 then IMPORT_COMMITTED else IMPORT_PARTIAL)"

locale ingestion_store =
  fixes repo :: "'r ingestion_repository"
    and inv :: "'r \<Rightarrow> bool"
    and stored :: "'r \<Rightarrow> import_batch list"
  assumes digest_law: "inv s \<Longrightarrow> batch_by_digest repo i d s = find (batch_of i d) (stored s)"
    and source_law: "inv s \<Longrightarrow> source_by_id repo i s = Some x \<Longrightarrow> ms_id x = i"
    and add_law: "inv s \<Longrightarrow> inv (add_source repo x s) \<and> stored (add_source repo x s) = stored s"
    and commit_law: "inv s \<Longrightarrow> commit_import repo x b n s = Some s' \<Longrightarrow>
      find (batch_of (ib_source_id b) (ib_sha256 b)) (stored s) = None \<Longrightarrow> one_per_payload (stored s) \<Longrightarrow>
      inv s' \<and> one_per_payload (stored s') \<and> set (stored s') \<subseteq> insert b (set (stored s))
      \<and> b \<in> set (stored s') \<and> source_by_id repo i s' = source_by_id repo i s"
begin

definition sound :: "'r \<Rightarrow> bool" where
  "sound s \<longleftrightarrow> inv s \<and> one_per_payload (stored s) \<and> list_all batch_ok (stored s)"

lemma batch_of_unique:
  assumes "one_per_payload bs" "b \<in> set bs" "batch_of i d b"
  shows "find (batch_of i d) bs = Some b"
proof -
  obtain c where c: "find (batch_of i d) bs = Some c" using assms(2,3) by (metis find_None_iff' not_None_eq)
  then have "c \<in> set bs" "batch_of i d c" by (simp_all add: find_Some_D)
  with assms have "c = b"
    by (intro inj_onD [of payload_key "set bs"]) (auto simp: one_per_payload_def distinct_map batch_of_def payload_key_def)
  with c show ?thesis by simp
qed

text \<open>The answer of an import: a stored batch, or one just committed.\<close>

lemma import_payload_cases:
  assumes sound: "sound s" and svc: "is_repository svc = repo" "is_connector svc = connector cn"
    and run: "import_payload svc i payload new_id received completed s = (Inr b, s')"
  shows "sound s' \<and> b \<in> set (stored s') \<and> batch_of i (is_sha256 svc payload) b
    \<and> (\<forall>j. source_by_id repo j s' = source_by_id repo j s)"
proof -
  from sound have inv: "inv s" and one: "one_per_payload (stored s)" and ok: "list_all batch_ok (stored s)"
    by (simp_all add: sound_def)
  from run svc(1) obtain x where x: "source_by_id repo i s = Some x" "ms_enabled x"
    by (auto simp: import_payload_def split: if_splits option.splits)
  note id = source_law [OF inv x(1)]
  show ?thesis
  proof (cases "batch_by_digest repo i (is_sha256 svc payload) s")
    case (Some c)
    with run svc(1) x have "b = c" "s' = s" by (auto simp: import_payload_def Let_def split: if_splits)
    moreover from Some digest_law [OF inv] have "find (batch_of i (is_sha256 svc payload)) (stored s) = Some c" by simp
    ultimately show ?thesis using sound by (auto dest: find_Some_D)
  next
    case None
    with run svc x have "import_new svc x (is_sha256 svc payload) payload new_id received completed s = (Inr b, s')"
      by (auto simp: import_payload_def Let_def split: if_splits)
    then obtain parse n where n: "connector cn (ms_feed_kind x) (ms_data_format x) = Some parse" "parse payload = Some n"
        "b = new_batch x (is_sha256 svc payload) n new_id received completed" "commit_import repo x b n s = Some s'"
      using svc by (auto simp: import_new_def Let_def split: option.splits)
    have key: "ib_source_id b = i" "ib_sha256 b = is_sha256 svc payload" by (simp_all add: n(3) new_batch_def id)
    have "find (batch_of (ib_source_id b) (ib_sha256 b)) (stored s) = None"
      using None digest_law [OF inv] by (simp add: key)
    note c = commit_law [OF inv n(4) this one]
    have "batch_ok b"
      using connector_contract [OF n(1,2)]
      by (auto simp: n(3) batch_ok_def new_batch_def batch_status_def import_contract_def)
    with c ok have "list_all batch_ok (stored s')" by (auto simp: list_all_iff)
    with c key show ?thesis by (simp add: sound_def batch_of_def)
  qed
qed

lemma import_replays:
  assumes sound: "sound s" and svc: "is_repository svc = repo" "is_connector svc = connector cn"
    and run: "import_payload svc i payload new_id received completed s = (Inr b, s')"
  shows "import_payload svc i payload new_id' received' completed' s' = (Inr b, s')"
proof -
  note c = import_payload_cases [OF assms]
  from run svc(1) obtain x where x: "payload \<noteq> []" "int (length payload) \<le> is_max_upload svc"
      "source_by_id repo i s = Some x" "ms_enabled x"
    by (auto simp: import_payload_def split: if_splits option.splits)
  from c have "batch_by_digest repo i (is_sha256 svc payload) s' = Some b"
    using digest_law batch_of_unique by (auto simp: sound_def)
  with c x svc(1) show ?thesis by (simp add: import_payload_def Let_def)
qed

lemma step_sound:
  assumes "sound (in_repo db)" "is_repository (ie_service env) = repo" "is_connector (ie_service env) = connector cn"
  shows "sound (in_repo (ingestion_step env r db))"
proof (cases r)
  case (CreateSource p c i a now)
  with assms add_law show ?thesis
    by (auto simp: route_create_source_def create_source_def ingestion_transaction_def ingestion_audit_def sound_def
        split: sum.splits option.splits prod.splits)
next
  case (ImportFeed p src up i a rec comp now)
  show ?thesis
  proof (cases "snd (route_import_feed env p src up i a rec comp now db) = db")
    case True
    with assms ImportFeed show ?thesis by simp
  next
    case False
    then obtain b s' where run: "import_payload (ie_service env) src (slice_to (is_max_upload (ie_service env) + 1) up)
        i rec comp (in_repo db) = (Inr b, s')"
        "in_repo (snd (route_import_feed env p src up i a rec comp now db)) = s'"
      by (auto simp: route_import_feed_def ingestion_transaction_def ingestion_audit_def
          split: sum.splits prod.splits)
    from import_payload_cases [OF assms run(1)] run(2) ImportFeed show ?thesis by simp
  qed
qed

lemma history_sound:
  assumes "sound (in_repo db)" "is_repository (ie_service env) = repo" "is_connector (ie_service env) = connector cn"
  shows "sound (in_repo (ingestion_history env rs db))"
  unfolding ingestion_history_def
  using assms(1) by (induction rs arbitrary: db) (simp_all add: step_sound [OF _ assms(2,3)])

end

lemma new_payload: "find (batch_of (ib_source_id b) (ib_sha256 b)) bs = None \<Longrightarrow> payload_key b \<notin> payload_key ` set bs"
  by (force simp: find_None_iff' batch_of_def payload_key_def)

interpretation sql_imports: ingestion_store "sql_ingestion_repository ge" "\<lambda>_. True" mt_batches for ge
proof (unfold_locales, goal_cases)
  case (2 s i x)
  then show ?case by (auto simp: sql_ingestion_repository_def dest: find_Some_D)
next
  case (4 s x b n s' i)
  then have "payload_key b \<notin> payload_key ` set (mt_batches s)"
    by (intro new_payload)
  with 4 show ?case
    by (auto simp: sql_ingestion_repository_def sql_commit_import_def one_per_payload_def
        split: option.splits if_splits)
qed (simp_all add: sql_ingestion_repository_def)

definition inmem_ingestion_ok :: "inmem_ingestion \<Rightarrow> bool" where
  "inmem_ingestion_ok s \<longleftrightarrow> (\<forall>(i, x) \<in> set (ii_sources s). ms_id x = i)"

lemma distinct_values_set:
  "distinct (map f (dict_values d)) \<Longrightarrow> f v \<notin> f ` set (dict_values d) \<Longrightarrow>
     distinct (map f (dict_values (dict_set k v d)))"
proof (induction d)
  case (Cons p d)
  have "f ` snd ` set (dict_set k v d) \<subseteq> insert (f v) (f ` snd ` set d)"
    using set_dict_set_subset [of k v d] by force
  then have "f (snd p) \<notin> f ` snd ` set (dict_set k v d)" using Cons.prems by (auto simp: image_image)
  with Cons show ?case by (cases p) (auto simp: image_image)
qed simp

interpretation inmem_imports: ingestion_store inmem_ingestion_repository inmem_ingestion_ok "\<lambda>s. dict_values (ii_batches s)"
proof (unfold_locales, goal_cases)
  case (2 s i x)
  then show ?case
    by (auto simp: inmem_ingestion_repository_def inmem_ingestion_ok_def dest!: map_of_SomeD)
next
  case (3 s x)
  then show ?case
    using set_dict_set_subset [of "ms_id x" x "ii_sources s"]
    by (fastforce simp: inmem_ingestion_repository_def inmem_ingestion_ok_def)
next
  case (4 s x b n s' i)
  then have "payload_key b \<notin> payload_key ` set (dict_values (ii_batches s))"
    by (intro new_payload)
  then have "one_per_payload (dict_values (dict_set (ib_id b) b (ii_batches s)))"
    using 4(4) unfolding one_per_payload_def by (intro distinct_values_set)
  moreover have "b \<in> set (dict_values (dict_set (ib_id b) b (ii_batches s)))"
    by (rule dict_get_in_values [of _ "ib_id b"]) simp
  moreover have "set (dict_values (dict_set (ib_id b) b (ii_batches s))) \<subseteq> insert b (set (dict_values (ii_batches s)))"
    using set_dict_set_subset [of "ib_id b" b "ii_batches s"] by force
  ultimately show ?case using 4
    by (auto simp: inmem_ingestion_repository_def inmem_ingestion_ok_def simp del: set_map)
qed (simp_all add: inmem_ingestion_repository_def)

section \<open>The tables of the map\<close>

definition zone_key_of :: "'g parking_zone_row \<Rightarrow> uuid option \<times> string option" where
  "zone_key_of r = (pz_source_id r, pz_external_record_id r)"

definition facility_key_of :: "'g parking_facility_row \<Rightarrow> uuid option \<times> string option" where
  "facility_key_of r = (pf_source_id r, pf_external_record_id r)"

text \<open>The unique indexes, and every stored record names a batch of its source.\<close>

definition tables_ok :: "'g municipal_tables \<Rightarrow> bool" where
  "tables_ok t \<longleftrightarrow> distinct (map zone_key_of (mt_zones t)) \<and> distinct (map facility_key_of (mt_facilities t))
     \<and> (\<forall>r \<in> set (mt_zones t). \<exists>b \<in> set (mt_batches t). pz_import_batch_id r = Some (ib_id b)
          \<and> pz_source_id r = Some (ib_source_id b))
     \<and> (\<forall>r \<in> set (mt_facilities t). \<exists>b \<in> set (mt_batches t). pf_import_batch_id r = Some (ib_id b)
          \<and> pf_source_id r = Some (ib_source_id b))
     \<and> (\<forall>q \<in> set (mt_quarantine t). \<exists>b \<in> set (mt_batches t). qr_batch_id q = ib_id b)"

text \<open>An upsert by key keeps the keys and puts the row, up to its identifier, in its place.\<close>

lemma map_replace_keys: "(\<And>x. P x \<Longrightarrow> key (f x) = key x) \<Longrightarrow> map key (map (\<lambda>x. if P x then f x else x) xs) = map key xs"
  by (induction xs) auto

lemma upsert_zone_Some:
  assumes "upsert_zone r rows = Some rows'"
  shows "(distinct (map zone_key_of rows) \<longrightarrow> distinct (map zone_key_of rows'))
    \<and> (\<exists>i. r\<lparr>pz_id := i\<rparr> \<in> set rows')
    \<and> (\<forall>x \<in> set rows'. x \<in> set rows \<or> (\<exists>i. x = r\<lparr>pz_id := i\<rparr>))
    \<and> (\<forall>x \<in> set rows. zone_key_of x \<noteq> zone_key_of r \<longrightarrow> x \<in> set rows')"
proof (cases "\<exists>x \<in> set rows. zone_key_of x = zone_key_of r")
  case True
  let ?f = "\<lambda>x. if zone_key_of x = zone_key_of r then r\<lparr>pz_id := pz_id x\<rparr> else x"
  from True assms have rows': "rows' = map ?f rows"
    by (auto simp: upsert_zone_def Let_def list_ex_iff zone_key_of_def split: if_splits)
  have "map zone_key_of rows' = map zone_key_of rows"
    unfolding rows' by (rule map_replace_keys) (simp add: zone_key_of_def)
  then have "distinct (map zone_key_of rows) \<longrightarrow> distinct (map zone_key_of rows')" by (simp only: simp_thms)
  moreover from True obtain x where "x \<in> set rows" "zone_key_of x = zone_key_of r" by blast
  then have "r\<lparr>pz_id := pz_id x\<rparr> \<in> set rows'" unfolding rows' by force
  moreover have "(\<forall>x \<in> set rows'. x \<in> set rows \<or> (\<exists>i. x = r\<lparr>pz_id := i\<rparr>))
      \<and> (\<forall>x \<in> set rows. zone_key_of x \<noteq> zone_key_of r \<longrightarrow> x \<in> set rows')"
    by (auto simp: rows')
  ultimately show ?thesis by blast
next
  case False
  then have "\<not> list_ex (\<lambda>x. pz_source_id x = pz_source_id r \<and> pz_external_record_id x = pz_external_record_id r) rows"
    by (auto simp: list_ex_iff zone_key_of_def)
  with assms have "rows' = rows @ [r]" by (auto simp: upsert_zone_def Let_def split: if_splits)
  moreover have "r\<lparr>pz_id := pz_id r\<rparr> = r" by simp
  ultimately show ?thesis using False by (auto intro: exI [of _ "pz_id r"])
qed

lemma upsert_facility_Some:
  assumes "upsert_facility r rows = Some rows'"
  shows "(distinct (map facility_key_of rows) \<longrightarrow> distinct (map facility_key_of rows'))
    \<and> (\<forall>x \<in> set rows'. x \<in> set rows \<or> (\<exists>i. x = r\<lparr>pf_id := i\<rparr>)) \<and> facility_constraints r"
proof (cases "\<exists>x \<in> set rows. facility_key_of x = facility_key_of r")
  case True
  let ?f = "\<lambda>x. if facility_key_of x = facility_key_of r then r\<lparr>pf_id := pf_id x\<rparr> else x"
  from True assms have rows': "rows' = map ?f rows"
    by (auto simp: upsert_facility_def Let_def list_ex_iff facility_key_of_def split: if_splits)
  have "map facility_key_of rows' = map facility_key_of rows"
    unfolding rows' by (rule map_replace_keys) (simp add: facility_key_of_def)
  moreover have "\<forall>x \<in> set rows'. x \<in> set rows \<or> (\<exists>i. x = r\<lparr>pf_id := i\<rparr>)" by (auto simp: rows')
  moreover have "facility_constraints r" using assms by (auto simp: upsert_facility_def Let_def split: if_splits)
  ultimately show ?thesis by simp
next
  case False
  then have "\<not> list_ex (\<lambda>x. pf_source_id x = pf_source_id r \<and> pf_external_record_id x = pf_external_record_id r) rows"
    by (auto simp: list_ex_iff facility_key_of_def)
  with assms have "rows' = rows @ [r]" "facility_constraints r"
    by (auto simp: upsert_facility_def Let_def split: if_splits)
  moreover have "r\<lparr>pf_id := pf_id r\<rparr> = r" by simp
  ultimately show ?thesis using False by (auto intro: exI [of _ "pf_id r"])
qed

lemma zone_row_of_sel [simp]:
  "pz_source_id (zone_row_of ge x b z g) = Some (ms_id x)"
  "pz_external_record_id (zone_row_of ge x b z g) = Some (nz_external_id z)"
  "pz_import_batch_id (zone_row_of ge x b z g) = Some (ib_id b)"
  by (simp_all add: zone_row_of_def)

lemma store_zones_Some:
  "store_zones ge x b zs rows = Some rows' \<Longrightarrow>
     (distinct (map zone_key_of rows) \<longrightarrow> distinct (map zone_key_of rows'))
     \<and> (\<forall>r \<in> set rows'. r \<in> set rows \<or> pz_source_id r = Some (ms_id x) \<and> pz_import_batch_id r = Some (ib_id b))
     \<and> (\<forall>r \<in> set rows. zone_key_of r \<notin> (\<lambda>z. (Some (ms_id x), Some (nz_external_id z))) ` set zs \<longrightarrow> r \<in> set rows')"
proof (induction zs arbitrary: rows)
  case (Cons z zs)
  then obtain g rows1 where u: "upsert_zone (zone_row_of ge x b z g) rows = Some rows1"
      "store_zones ge x b zs rows1 = Some rows'"
    by (auto split: option.splits)
  note s = upsert_zone_Some [OF u(1)] and ih = Cons.IH [OF u(2)]
  have key: "zone_key_of (zone_row_of ge x b z g) = (Some (ms_id x), Some (nz_external_id z))"
    by (simp add: zone_key_of_def)
  have "r \<in> set rows \<or> pz_source_id r = Some (ms_id x) \<and> pz_import_batch_id r = Some (ib_id b)"
    if "r \<in> set rows'" for r
    using that s ih by fastforce
  with s ih key show ?case by auto
qed simp

lemma store_zones_stored:
  "store_zones ge x b zs rows = Some rows' \<Longrightarrow> distinct (map nz_external_id zs) \<Longrightarrow> z \<in> set zs \<Longrightarrow>
     \<exists>g i. ge_polygon ge (nz_geometry_geojson z) = Some g \<and> (zone_row_of ge x b z g)\<lparr>pz_id := i\<rparr> \<in> set rows'"
proof (induction zs arbitrary: rows)
  case (Cons y zs)
  then obtain g rows1 where u: "ge_polygon ge (nz_geometry_geojson y) = Some g"
      "upsert_zone (zone_row_of ge x b y g) rows = Some rows1" "store_zones ge x b zs rows1 = Some rows'"
    by (auto split: option.splits)
  show ?case
  proof (cases "z \<in> set zs")
    case True
    with Cons.IH [OF u(3)] Cons.prems show ?thesis by simp
  next
    case False
    with Cons.prems have z: "z = y" by simp
    from upsert_zone_Some [OF u(2)] obtain i where i: "(zone_row_of ge x b y g)\<lparr>pz_id := i\<rparr> \<in> set rows1" by blast
    have "zone_key_of ((zone_row_of ge x b y g)\<lparr>pz_id := i\<rparr>) \<notin>
        (\<lambda>z. (Some (ms_id x), Some (nz_external_id z))) ` set zs"
      using Cons.prems(2) by (auto simp: zone_key_of_def)
    with store_zones_Some [OF u(3)] i u(1) z show ?thesis by blast
  qed
qed simp

lemma facility_row_of_sel [simp]:
  "pf_source_id (facility_row_of ge x b f) = Some (ms_id x)"
  "pf_import_batch_id (facility_row_of ge x b f) = Some (ib_id b)"
  "pf_towing_incidents (facility_row_of ge x b f) = nf_towing_incidents f"
  "pf_provenance (facility_row_of ge x b f) = provenance_value (source_provenance x)"
  by (simp_all add: facility_row_of_def)

lemma store_facilities_Some:
  "store_facilities ge x b fs rows = Some rows' \<Longrightarrow>
     (distinct (map facility_key_of rows) \<longrightarrow> distinct (map facility_key_of rows'))
     \<and> (\<forall>r \<in> set rows'. r \<in> set rows \<or> pf_source_id r = Some (ms_id x) \<and> pf_import_batch_id r = Some (ib_id b)
          \<and> facility_constraints r \<and> (\<exists>f \<in> set fs. pf_towing_incidents r = nf_towing_incidents f)
          \<and> pf_provenance r = provenance_value (source_provenance x))"
proof (induction fs arbitrary: rows)
  case (Cons f fs)
  then obtain rows1 where u: "upsert_facility (facility_row_of ge x b f) rows = Some rows1"
      "store_facilities ge x b fs rows1 = Some rows'"
    by (auto split: option.splits)
  note s = upsert_facility_Some [OF u(1)] and ih = Cons.IH [OF u(2)]
  have new: "pf_source_id r = Some (ms_id x) \<and> pf_import_batch_id r = Some (ib_id b)
      \<and> facility_constraints r \<and> (\<exists>f \<in> set (f # fs). pf_towing_incidents r = nf_towing_incidents f)
      \<and> pf_provenance r = provenance_value (source_provenance x)"
    if "r = (facility_row_of ge x b f)\<lparr>pf_id := i\<rparr>" for r i
    using that s by (simp add: facility_constraints_def)
  have "r \<in> set rows \<or> pf_source_id r = Some (ms_id x) \<and> pf_import_batch_id r = Some (ib_id b)
      \<and> facility_constraints r \<and> (\<exists>f \<in> set (f # fs). pf_towing_incidents r = nf_towing_incidents f)
      \<and> pf_provenance r = provenance_value (source_provenance x)"
    if listed: "r \<in> set rows'" for r
  proof (cases "r \<in> set rows1")
    case True
    with s new show ?thesis by blast
  next
    case False
    with ih listed show ?thesis by (meson list.set_intros(2))
  qed
  with s ih show ?case by blast
qed simp

lemma sql_commit_Some:
  assumes "sql_commit_import ge x b n t = Some t'"
  shows "\<exists>zones facilities. store_zones ge x b (ni_zones n) (mt_zones t) = Some zones
    \<and> store_facilities ge x b (ni_facilities n) (mt_facilities t) = Some facilities
    \<and> t' = t\<lparr>mt_batches := mt_batches t @ [b],
         mt_quarantine := mt_quarantine t @ map (quarantine_row_of ge b) (enumerate 0 (ni_rejected n)),
         mt_zones := zones, mt_facilities := facilities\<rparr>"
  using assms by (auto simp: sql_commit_import_def split: if_splits option.splits)

lemma sql_commit_tables_ok:
  assumes run: "sql_commit_import ge x b n t = Some t'" and id: "ib_source_id b = ms_id x" and ok: "tables_ok t"
  shows "tables_ok t'"
proof -
  from sql_commit_Some [OF run] obtain zones facilities where c:
      "store_zones ge x b (ni_zones n) (mt_zones t) = Some zones"
      "store_facilities ge x b (ni_facilities n) (mt_facilities t) = Some facilities"
      "t' = t\<lparr>mt_batches := mt_batches t @ [b],
         mt_quarantine := mt_quarantine t @ map (quarantine_row_of ge b) (enumerate 0 (ni_rejected n)),
         mt_zones := zones, mt_facilities := facilities\<rparr>" by blast
  note z = store_zones_Some [OF c(1)] and f = store_facilities_Some [OF c(2)]
  have "qr_batch_id (quarantine_row_of ge b y) = ib_id b" for y by (cases y) (simp add: quarantine_row_of_def)
  with ok z f id show ?thesis unfolding tables_ok_def c(3) by fastforce
qed

lemma import_payload_sql:
  assumes svc: "is_repository svc = sql_ingestion_repository ge"
    and run: "import_payload svc i payload new_id received completed t = (Inr b, t')" and ok: "tables_ok t"
  shows "tables_ok t'"
proof -
  from run svc obtain x where x: "find (\<lambda>x. ms_id x = i) (mt_sources t) = Some x"
    by (auto simp: import_payload_def sql_ingestion_repository_def split: if_splits option.splits)
  with run svc consider "t' = t" | n where "sql_commit_import ge x b n t = Some t'" "ib_source_id b = ms_id x"
    by (auto simp: import_payload_def import_new_def sql_ingestion_repository_def Let_def new_batch_def
        split: if_splits option.splits)
  then show ?thesis using ok sql_commit_tables_ok by cases auto
qed

lemma step_tables_ok:
  assumes svc: "is_repository (ie_service env) = sql_ingestion_repository ge" and ok: "tables_ok (in_repo db)"
  shows "tables_ok (in_repo (ingestion_step env r db))"
proof (cases r)
  case (CreateSource p c i a now)
  with ok svc show ?thesis
    by (auto simp: route_create_source_def create_source_def ingestion_transaction_def ingestion_audit_def
        sql_ingestion_repository_def tables_ok_def split: sum.splits option.splits prod.splits)
next
  case (ImportFeed p src up i a rec comp now)
  with ok import_payload_sql [OF svc _ ok] show ?thesis
    by (auto simp: route_import_feed_def ingestion_transaction_def ingestion_audit_def split: sum.splits prod.splits)
qed

lemma history_tables_ok:
  assumes "is_repository (ie_service env) = sql_ingestion_repository ge" "tables_ok (in_repo db)"
  shows "tables_ok (in_repo (ingestion_history env rs db))"
  unfolding ingestion_history_def
  using assms(2) by (induction rs arbitrary: db) (simp_all add: step_tables_ok [OF assms(1)])

definition empty_ingestion :: "'g municipal_tables ingestion_db" where
  "empty_ingestion = \<lparr>in_repo = \<lparr>mt_sources = [], mt_batches = [], mt_quarantine = [], mt_zones = [],
     mt_facilities = []\<rparr>, in_trail = []\<rparr>"

text \<open>
  C26: Imports are idempotent and accounted for. After any history of requests over PostgreSQL there
  is one batch per source and payload, each with counts that add up to its input and the status they
  imply; there is one map row per source and external identifier, and every zone, facility and
  quarantined record names a stored batch of its source. Importing a payload again, whenever, answers
  the batch of the first time and changes no table.
\<close>

theorem imports_are_idempotent:
  assumes "ie_service env = sql_ingestion_service cn ge max_upload sha"
    and "db = ingestion_history env requests empty_ingestion"
    and "import_payload (ie_service env) source payload new_id received completed (in_repo db) = (Inr b, t)"
  shows "distinct (map payload_key (mt_batches t)) \<and> list_all batch_ok (mt_batches t) \<and> b \<in> set (mt_batches t)
    \<and> payload_key b = (source, sha payload) \<and> tables_ok t
    \<and> import_payload (ie_service env) source payload new_id' received' completed' t = (Inr b, t)"
proof -
  have svc: "is_repository (ie_service env) = sql_ingestion_repository ge" "is_connector (ie_service env) = connector cn"
    "is_sha256 (ie_service env) = sha"
    by (simp_all add: assms(1) sql_ingestion_service_def)
  have "sql_imports.sound (in_repo empty_ingestion)"
    by (simp add: sql_imports.sound_def empty_ingestion_def one_per_payload_def)
  note sound = sql_imports.history_sound [OF this svc(1,2), of requests, folded assms(2)]
  have "tables_ok (in_repo (empty_ingestion :: 'a municipal_tables ingestion_db))"
    by (simp add: empty_ingestion_def tables_ok_def)
  note ok = history_tables_ok [OF svc(1) this, of requests, folded assms(2)]
  note s' = sql_imports.import_payload_cases [OF sound svc(1,2) assms(3)]
  with import_payload_sql [OF svc(1) assms(3) ok] sql_imports.import_replays [OF sound svc(1,2) assms(3)]
  show ?thesis
    by (simp add: sql_imports.sound_def one_per_payload_def batch_of_def payload_key_def svc(3))
qed

section \<open>From the feed to the map\<close>

lemma accept_feature_rules:
  assumes "accept_feature env raw seen = (Ok z, seen')" "r \<in> set (nz_temporal_rules z)"
  shows "\<exists>v. connector_rule env v = Ok r"
proof -
  from assms(1) obtain f rules where
      "attempt_all (connector_rule env) (zp_temporal_rules (zf_properties f)) = Ok rules" "z = zone_of_feature env f rules"
    by (auto simp: accept_feature_def and_then_Ok split: option.splits if_splits)
  with assms(2) show ?thesis by (auto simp: zone_of_feature_def Let_def dest: attempt_all_source)
qed

lemma parse_features_rules:
  "parse_features env i raws seen = Some (zs, rs) \<Longrightarrow> z \<in> set zs \<Longrightarrow> r \<in> set (nz_temporal_rules z) \<Longrightarrow>
     \<exists>v. connector_rule env v = Ok r"
proof (induction raws arbitrary: i seen zs rs)
  case (Cons raw raws)
  obtain a seen' where a: "accept_feature env raw seen = (a, seen')" by fastforce
  show ?case
  proof (cases a)
    case (Ok y)
    with Cons.prems a obtain zs' where p: "parse_features env (Suc i) raws seen' = Some (zs', rs)" "zs = y # zs'"
      by auto
    show ?thesis
    proof (cases "z \<in> set zs'")
      case True
      with Cons.IH [OF p(1)] Cons.prems(3) show ?thesis by blast
    next
      case False
      with p(2) Cons.prems(2) have "z = y" by simp
      with accept_feature_rules [OF a [unfolded Ok]] Cons.prems(3) show ?thesis by blast
    qed
  next
    case Caught
    with Cons.prems a obtain rs' where "parse_features env (Suc i) raws seen' = Some (zs, rs')" by auto
    from Cons.IH [OF this Cons.prems(2,3)] show ?thesis .
  next
    case Escapes
    with Cons.prems a show ?thesis by simp
  qed
qed simp

lemma parse_zones_rules:
  assumes "parse_zones env payload = Some n" "z \<in> set (ni_zones n)" "r \<in> set (nz_temporal_rules z)"
  shows "\<exists>v. connector_rule env v = Ok r"
proof -
  from assms(1,2) obtain raws zs rs where "parse_features env 0 raws [] = Some (zs, rs)" "z \<in> set zs"
    by (auto simp: parse_zones_def rejected_feed_def Let_def split: decoded.splits json.splits option.splits if_splits)
  from parse_features_rules [OF this assms(3)] show ?thesis .
qed

lemma zone_type_of_zone_type_value [simp]: "zone_type_of_value (zone_type_value x) = Some x"
  by (cases x) (simp_all add: zone_type_of_value_def)

lemma provenance_of_provenance_value [simp]: "provenance_of_value (provenance_value x) = Some x"
  by (cases x) (simp_all add: provenance_of_value_def)

definition map_zone :: "municipal_source \<Rightarrow> import_batch \<Rightarrow> normalized_zone \<Rightarrow> string \<Rightarrow> uuid \<Rightarrow> parking_zone" where
  "map_zone x b z geojson i =
     \<lparr>z_id = i, z_name = nz_name z, z_type = nz_zone_type z, z_geometry_geojson = geojson,
      z_parking_score = nz_parking_score z, z_provenance = (if ms_official x then OFFICIAL else ESTIMATED),
      z_confidence = Fin (if ms_official x then 1 else 1 / 2), z_restriction_summary = nz_restriction_summary z,
      z_average_towing_cost_cents = nz_average_towing_cost_cents z, z_towing_hotspot = nz_towing_hotspot z,
      z_observed_at = aware_instant (nz_observed_at z), z_expires_at = map_option aware_instant (nz_expires_at z),
      z_source_id = Some (ms_id x), z_import_batch_id = Some (ib_id b), z_jurisdiction = Some (ms_jurisdiction x),
      z_temporal_rules = nz_temporal_rules z, z_temporal_schedule_required = nz_temporal_schedule_required z\<rparr>"

context iso_8601
begin

lemma those_rules_serialized:
  "cn_iso env = codec \<Longrightarrow> \<forall>r \<in> set rs. rule_reads_back codec r \<Longrightarrow>
     those_rules env (map (serialized_rule codec) rs) = Some rs"
  by (induction rs) (simp_all add: stored_rule_serialized)

lemma zone_of_zone_row:
  assumes "cn_iso env = codec" "ge_iso ge = codec" "\<forall>r \<in> set (nz_temporal_rules z). rule_reads_back codec r"
  shows "zone_of_row env as_geojson ((zone_row_of ge x b z g)\<lparr>pz_id := i\<rparr>) = Some (map_zone x b z (as_geojson g) i)"
  using those_rules_serialized [OF assms(1,3)] assms(2)
  by (simp add: zone_of_row_def zone_row_of_def map_zone_def source_provenance_def)

lemma import_reaches_the_map:
  assumes iso: "cn_iso cn = codec" "ge_iso ge = codec"
    and commit: "sql_commit_import ge x b n t = Some t'"
    and n: "parse_zones cn payload = Some n" and z: "z \<in> set (ni_zones n)"
  shows "\<exists>row \<in> set (mt_zones t'). \<exists>g i. ge_polygon ge (nz_geometry_geojson z) = Some g
    \<and> zone_of_row cn as_geojson row = Some (map_zone x b z (as_geojson g) i)"
proof -
  from sql_commit_Some [OF commit] have stored: "store_zones ge x b (ni_zones n) (mt_zones t) = Some (mt_zones t')"
    by auto
  have "distinct (map nz_external_id (ni_zones n))"
    using parse_zones_contract [OF n] by (simp add: import_contract_def)
  from store_zones_stored [OF stored this z] obtain g i where g: "ge_polygon ge (nz_geometry_geojson z) = Some g"
      "(zone_row_of ge x b z g)\<lparr>pz_id := i\<rparr> \<in> set (mt_zones t')" by blast
  have "\<forall>r \<in> set (nz_temporal_rules z). rule_reads_back codec r"
    using parse_zones_rules [OF n z] connector_rule_reads_back [OF iso(1)] by blast
  from zone_of_zone_row [OF iso this] g show ?thesis by blast
qed

end

text \<open>
  C25: What a feed says about a zone is what the parking map reads back. When an import of a new
  payload for a zone source succeeds, every zone of the feed that was not quarantined has a row that
  the parking repository decodes to that zone: the same type, score, summary, validity and temporal
  rules (windows, exceptions, omitted windows and restrictions included), with the source, batch and
  jurisdiction of the import, and official provenance with full confidence exactly for an official
  source. The only assumption is that ISO 8601 texts are read back as they were written.
\<close>

theorem imported_zones_reach_the_map:
  assumes "iso_8601 (cn_iso cn)" and "ge_iso ge = cn_iso cn"
    and "ie_service env = sql_ingestion_service cn ge max_upload sha"
    and "route_import_feed env p src upload new_id audit_id received completed now db = (Inr b, db')"
    and "find (\<lambda>s. ms_id s = src) (mt_sources (in_repo db)) = Some x" and "ms_feed_kind x = PARKING_ZONES"
    and "payload = slice_to (max_upload + 1) upload"
    and "find (batch_of src (sha payload)) (mt_batches (in_repo db)) = None"
    and "parse_zones cn payload = Some n" and "z \<in> set (ni_zones n)"
  shows "\<exists>row \<in> set (mt_zones (in_repo db')). \<exists>g i. ge_polygon ge (nz_geometry_geojson z) = Some g
    \<and> zone_of_row cn as_geojson row = Some (map_zone x b z (as_geojson g) i)"
proof -
  let ?svc = "sql_ingestion_service cn ge max_upload sha"
  from assms(3,4,7) have run: "import_payload ?svc src payload new_id received completed (in_repo db) = (Inr b, in_repo db')"
    by (auto simp: route_import_feed_def ingestion_transaction_def ingestion_audit_def sql_ingestion_service_def
        split: sum.splits prod.splits)
  with assms(5,6,8) have "sql_commit_import ge x b n (in_repo db) = Some (in_repo db')"
    using assms(9)
    by (cases "ms_data_format x")
      (auto simp: import_payload_def import_new_def sql_ingestion_service_def sql_ingestion_repository_def
        connector_def Let_def split: if_splits option.splits)
  from iso_8601.import_reaches_the_map [OF assms(1) refl assms(2) this assms(9,10)] show ?thesis .
qed

end
