(* ===== verification/Ingestion_Examples.thy ===== *)
theory Ingestion_Examples
  imports Ingestion_Safety
begin

text \<open>
  A concrete feed, source and import that meet the hypotheses of the import properties, and the
  ways in which one record fails a whole feed.
\<close>

section \<open>A feed of one zone with one rule\<close>

definition feed_rule :: "(string \<times> json) list" where
  "feed_rule = [(''rule_id'', JStr ''r''), (''effect'', JStr ''PARK''), (''weekdays'', JList [JInt 0, JStr ''4'']),
     (''window'', JObject [(''starts_at'', JStr ''08:00:00''), (''ends_at'', JStr ''18:30:00'')]),
     (''timezone'', JStr ''UTC''), (''valid_from'', JStr ''0001-01-05T00:00:00Z'')]"

definition feed_properties :: zone_properties where
  "feed_properties = \<lparr>zp_external_id = ''z'', zp_name = ''Zone'', zp_zone_type = GENERAL, zp_parking_score = 80,
     zp_restriction_summary = None, zp_average_towing_cost_cents = None, zp_towing_hotspot = False,
     zp_observed_at = Aware 0, zp_expires_at = Some (Aware 5), zp_temporal_schedule_required = False,
     zp_temporal_rules = [feed_rule]\<rparr>"

definition feed_feature :: zone_feature where
  "feed_feature = \<lparr>zf_type = ''Feature'', zf_properties = feed_properties, zf_geometry_type = ''Polygon'',
     zf_coordinates = [[[Fin 0, Fin 0], [Fin 1, Fin 0], [Fin 1, Fin 1], [Fin 0, Fin 0]]]\<rparr>"

definition feed_env :: connector_env where
  "feed_env = \<lparr>cn_json = (\<lambda>_. Document (JObject [(''type'', JStr ''FeatureCollection''), (''features'', JList [JNull, JNull])])),
     cn_shape = (\<lambda>_. Some feed_feature), cn_dumps = (\<lambda>_. ''{}''), cn_hash = (\<lambda>_. ''h''), cn_repr = (\<lambda>_. []),
     cn_iso = utc_codec, cn_utf8 = (\<lambda>_. None), cn_csv = (\<lambda>_. None), cn_float = (\<lambda>_. None),
     cn_url = (\<lambda>_. Some \<lparr>url_scheme = ''https'', url_netloc = ''a.b'', url_username = None, url_password = None,
       url_query = [], url_fragment = []\<rparr>)\<rparr>"

definition read_rule :: temporal_rule where
  "read_rule = \<lparr>rule_id = ''r'', effect = EFF_PARK, weekdays = [0, 4],
     window = \<lparr>starts_at = NaiveTime 28800000000, ends_at = NaiveTime 66600000000\<rparr>, rule_timezone = ''UTC'',
     valid_from = Aware (- 719158 * day), valid_until = None, exception_dates = [], not_applicable_windows = [],
     special_restrictions = []\<rparr>"

lemma feed_digits: "is_digit (CHR ''0'')" "is_digit (CHR ''1'')" "is_digit (CHR ''3'')" "is_digit (CHR ''4'')"
  "is_digit (CHR ''5'')" "is_digit (CHR ''8'')"
  by (simp_all add: is_digit_def)

lemma feed_texts:
  "read_canonical_time ''08:00:00'' = Some (NaiveTime 28800000000)"
  "read_canonical_time ''18:30:00'' = Some (NaiveTime 66600000000)"
  "read_canonical_datetime (replace_zulu ''0001-01-05T00:00:00Z'') = Some (Aware (- 719158 * day))"
  by (simp_all add: read_canonical_time_def read_canonical_datetime_def read_clock_def read_date_def feed_digits
      read_fraction_def replace_zulu_def digits_two digits_four day_of_def valid_date_def month_lengths_def
      epoch_day_def)

lemma py_int_four: "py_int ''4'' = Some 4"
  by (simp add: py_int_def py_strip_def is_space_def unsigned_value_def feed_digits)

lemma feed_rule_read: "connector_rule feed_env feed_rule = Ok read_rule"
  by (simp add: connector_rule_def feed_rule_def read_weekdays_def item_def read_window_def read_time_def
      read_instant_def read_until_def get_or_def read_each_def read_text_def read_effect_def effect_of_value_def
      schedule_ok_def feed_env_def utc_codec_def feed_texts py_int_four read_rule_def Let_def str_of_def)

definition feed_zone :: normalized_zone where
  "feed_zone = zone_of_feature feed_env feed_feature [read_rule]"

definition feed_import :: normalized_import where
  "feed_import = \<lparr>ni_input_count = 2, ni_zones = [feed_zone], ni_facilities = [],
     ni_rejected = [invalid_zone feed_env 1 JNull]\<rparr>"

lemma feed_shape: "cn_shape feed_env raw = Some feed_feature"
  by (simp add: feed_env_def)

lemma feed_validated: "validated_feature feed_env raw = Some feed_feature"
  by (simp add: validated_feature_def feed_shape zone_properties_ok_def feed_feature_def feed_properties_def)

lemma feed_feature_ok: "feature_ok feed_feature seen \<longleftrightarrow> ''z'' \<notin> set seen"
  by (simp add: feature_ok_def feed_feature_def feed_properties_def polygon_ok_def ring_ok_def same_point_def
      coordinate_ok_def timestamps_ok_def)

lemma feed_sel: "zp_temporal_rules (zf_properties feed_feature) = [feed_rule]"
  "zp_external_id (zf_properties feed_feature) = ''z''"
  by (simp_all add: feed_feature_def feed_properties_def)

text \<open>The second feature repeats the identifier of the first and is quarantined.\<close>

lemma feed_parsed: "parse_zones feed_env payload = Some feed_import"
proof -
  have "parse_features feed_env 0 [JNull, JNull] [] = Some ([feed_zone], [invalid_zone feed_env 1 JNull])"
    by (simp add: accept_feature_def feed_validated feed_feature_ok feed_sel feed_rule_read feed_zone_def)
  then show ?thesis by (simp add: parse_zones_def feed_env_def [THEN arg_cong [of _ _ cn_json]] feed_import_def max_records_def)
qed

theorem accepted_records_are_well_formed_witness:
  "distinct (map nz_external_id (ni_zones feed_import)) \<and> accepted_count feed_import + 1 = 2"
proof -
  have "connector feed_env PARKING_ZONES GEOJSON = Some (parse_zones feed_env)" by (simp add: connector_def)
  from accepted_records_are_well_formed [OF this feed_parsed] show ?thesis by (simp add: feed_import_def)
qed

section \<open>Its import\<close>

definition feed_geo :: "unit geo_env" where
  "feed_geo = \<lparr>ge_polygon = (\<lambda>_. Some ()), ge_point = (\<lambda>_ _. ()), ge_uuid5 = (\<lambda>_ _. 3), ge_quarantine_id = of_nat,
     ge_iso = utc_codec\<rparr>"

definition feed_ingestion :: "unit municipal_tables ingestion_env" where
  "feed_ingestion = \<lparr>ie_enabled = True, ie_service = sql_ingestion_service feed_env feed_geo 10 (\<lambda>_. ''d''),
     ie_sha_text = (\<lambda>_. ''h'')\<rparr>"

definition feed_command :: source_command where
  "feed_command = \<lparr>sc_name = ''City'', sc_jurisdiction = ''City'', sc_feed_kind = PARKING_ZONES,
     sc_data_format = GEOJSON, sc_source_url = ''https://a.b'', sc_license_url = Some ''https://a.b'',
     sc_official = True, sc_refresh_interval = 60, sc_stale_after = 60\<rparr>"

definition feed_db :: "unit municipal_tables ingestion_db" where
  "feed_db = ingestion_history feed_ingestion [CreateSource (Inr sample_admin) feed_command 5 6 0] empty_ingestion"

lemma feed_strip: "py_strip ''City'' = ''City''"
  by (simp add: py_strip_def is_space_def)

lemma feed_source: "in_repo feed_db = (in_repo empty_ingestion)\<lparr>mt_sources := [new_source feed_command 5 0]\<rparr>"
proof -
  have "source_refusal (ie_service feed_ingestion) feed_command = None"
    by (simp add: source_refusal_def feed_ingestion_def sql_ingestion_service_def feed_command_def connector_def
        validate_url_def feed_env_def feed_strip)
  then show ?thesis
    by (simp add: feed_db_def ingestion_history_def route_create_source_def ingestion_actor_def create_source_def
        ingestion_transaction_def ingestion_audit_def source_command_ok_def)
      (simp add: feed_ingestion_def sql_ingestion_service_def sql_ingestion_repository_def feed_command_def
        empty_ingestion_def)
qed

lemma feed_imported:
  "\<exists>t. import_payload (ie_service feed_ingestion) 5 [1] 7 1 2 (in_repo feed_db) =
     (Inr (new_batch (new_source feed_command 5 0) ''d'' feed_import 7 1 2), t)"
  by (simp add: import_payload_def import_new_def feed_source feed_ingestion_def sql_ingestion_service_def
      sql_ingestion_repository_def empty_ingestion_def Let_def new_source_def feed_command_def connector_def
      feed_parsed sql_commit_import_def upsert_zone_def feed_import_def feed_geo_def zone_constraints_def zone_row_of_def
      feed_zone_def zone_of_feature_def feed_feature_def feed_properties_def)

theorem imports_are_idempotent_witness:
  "\<exists>b t. import_payload (ie_service feed_ingestion) 5 [1] 7 1 2 (in_repo feed_db) = (Inr b, t)
     \<and> import_payload (ie_service feed_ingestion) 5 [1] 8 3 4 t = (Inr b, t) \<and> ib_status b = IMPORT_PARTIAL"
proof -
  obtain t where run: "import_payload (ie_service feed_ingestion) 5 [1] 7 1 2 (in_repo feed_db) =
     (Inr (new_batch (new_source feed_command 5 0) ''d'' feed_import 7 1 2), t)" using feed_imported by blast
  have "ie_service feed_ingestion = sql_ingestion_service feed_env feed_geo 10 (\<lambda>_. ''d'')"
    by (simp add: feed_ingestion_def)
  note i = imports_are_idempotent [OF this feed_db_def run]
  have "ib_status (new_batch (new_source feed_command 5 0) ''d'' feed_import 7 1 2) = IMPORT_PARTIAL"
    by (simp add: new_batch_def batch_status_def feed_import_def accepted_count_def)
  with run i show ?thesis by blast
qed

theorem imported_zones_reach_the_map_witness:
  "\<exists>db' row g i. snd (route_import_feed feed_ingestion (Inr sample_admin) 5 [1] 7 8 1 2 2 feed_db) = db'
     \<and> row \<in> set (mt_zones (in_repo db')) \<and> zone_of_row feed_env (\<lambda>_. ''{}'') row =
       Some (map_zone (new_source feed_command 5 0) (new_batch (new_source feed_command 5 0) ''d'' feed_import 7 1 2)
         feed_zone ''{}'' i) \<and> ge_polygon feed_geo ''{}'' = Some g"
proof -
  have max: "is_max_upload (ie_service feed_ingestion) = 10"
    by (simp add: feed_ingestion_def sql_ingestion_service_def)
  obtain db' where run: "route_import_feed feed_ingestion (Inr sample_admin) 5 [1] 7 8 1 2 2 feed_db =
      (Inr (new_batch (new_source feed_command 5 0) ''d'' feed_import 7 1 2), db')"
  proof -
    obtain t where t: "import_payload (ie_service feed_ingestion) 5 [1] 7 1 2 (in_repo feed_db) =
      (Inr (new_batch (new_source feed_command 5 0) ''d'' feed_import 7 1 2), t)" using feed_imported by blast
    have "ingestion_actor feed_ingestion (Inr sample_admin) = Inr sample_admin"
      by (simp add: ingestion_actor_def feed_ingestion_def)
    with t that show ?thesis
      by (simp add: route_import_feed_def max ingestion_transaction_def)
  qed
  have svc: "ie_service feed_ingestion = sql_ingestion_service feed_env feed_geo 10 (\<lambda>_. ''d'')"
    by (simp add: feed_ingestion_def)
  have iso: "iso_8601 (cn_iso feed_env)" "ge_iso feed_geo = cn_iso feed_env"
    using utc.iso_8601_axioms by (simp_all add: feed_env_def feed_geo_def)
  have x: "find (\<lambda>s. ms_id s = 5) (mt_sources (in_repo feed_db)) = Some (new_source feed_command 5 0)"
    "ms_feed_kind (new_source feed_command 5 0) = PARKING_ZONES"
    "find (batch_of 5 ((\<lambda>_. ''d'') ([1] :: 8 word list))) (mt_batches (in_repo feed_db)) = None"
    by (simp_all add: feed_source new_source_def feed_command_def empty_ingestion_def)
  have slice: "[1] = slice_to (10 + 1) ([1] :: 8 word list)" by simp
  have z: "feed_zone \<in> set (ni_zones feed_import)" by (simp add: feed_import_def)
  from imported_zones_reach_the_map [OF iso svc run x(1,2) slice x(3) feed_parsed z, of "\<lambda>_. ''{}''"] run
  show ?thesis by (fastforce simp: feed_geo_def)
qed

section \<open>One record that fails a feed\<close>

text \<open>An infinite weekday raises an \<open>OverflowError\<close> that neither the rule reader nor the record loop
  names: the import ends in a server error instead of quarantining the record.\<close>

lemma infinite_weekday_escapes:
  assumes "dict_get v ''weekdays'' = Some (JList (JFloat PInf # rest))"
  shows "connector_rule env v = Escapes"
  using assms by (simp add: connector_rule_def read_weekdays_def item_def)

lemma escaping_record_fails_the_feed:
  assumes "validated_feature env raw = Some f" "feature_ok f seen"
    and "zp_temporal_rules (zf_properties f) = v # vs"
    and "dict_get v ''weekdays'' = Some (JList (JFloat PInf # rest))"
  shows "parse_features env i (raw # raws) seen = None"
  using assms by (simp add: accept_feature_def infinite_weekday_escapes [OF assms(4)])

text \<open>A CSV record that is wrong and has fields beyond the headers cannot be hashed for quarantine,
  so it fails the feed too.\<close>

lemma surplus_fields_fail_the_feed:
  assumes "facility_of_row env row = None" "row_extra row \<noteq> []"
  shows "parse_rows env i (row # rows) seen = None"
  using assms by (simp add: accept_row_def invalid_facility_def)

text \<open>The CSV connector admits a capacity of zero, which the check constraint of the table refuses: the
  whole import is undone and answered with a server error.\<close>

lemma store_zero_capacity:
  "f \<in> set fs \<Longrightarrow> nf_capacity f = Some 0 \<Longrightarrow> store_facilities ge x b fs rows = None"
proof (induction fs arbitrary: rows)
  case (Cons y fs)
  show ?case
  proof (cases "f = y")
    case True
    with Cons.prems(2) show ?thesis
      by (simp add: upsert_facility_def Let_def facility_constraints_def facility_row_of_def)
  next
    case False
    with Cons show ?thesis by (simp split: option.split)
  qed
qed simp

lemma zero_capacity_fails_the_feed:
  assumes "f \<in> set (ni_facilities n)" "nf_capacity f = Some 0"
  shows "sql_commit_import ge x b n t = None"
  by (simp add: sql_commit_import_def store_zero_capacity [OF assms] split: option.split)

text \<open>A zone quarantined for its temporal rules has already reserved its identifier: a later, correct
  record with that identifier is quarantined as a duplicate.\<close>

lemma quarantined_zone_reserves_its_identifier:
  assumes "validated_feature env raw = Some f" "feature_ok f seen"
    and "attempt_all (connector_rule env) (zp_temporal_rules (zf_properties f)) = Caught"
    and "validated_feature env raw' = Some f'"
    and "zp_external_id (zf_properties f') = zp_external_id (zf_properties f)"
    and "parse_features env (Suc (Suc i)) raws (zp_external_id (zf_properties f) # seen) = Some (zs, rs)"
  shows "parse_features env i (raw # raw' # raws) seen =
    Some (zs, invalid_zone env i raw # invalid_zone env (Suc i) raw' # rs)"
  using assms by (simp add: accept_feature_def feature_ok_def)

text \<open>A source URL on which \<open>urlparse\<close> itself raises is a server error, not a refused request.\<close>

lemma unparsable_url_is_a_server_error:
  assumes "is_connector (ie_service env) (sc_feed_kind c) (sc_data_format c) = Some parse" "source_command_ok c"
    and "is_url (ie_service env) (sc_source_url c) = None" "ingestion_actor env p = Inr actor"
  shows "route_create_source env p c i a now db = (Inl (http_exception 500 ''Unexpected server error.''), db)"
  using assms
  by (simp add: route_create_source_def create_source_def source_refusal_def validate_url_def ingestion_transaction_def)

end
