(* ===== verification/Regex.thy ===== *)
theory Regex
  imports Prelude
begin

text \<open>
  The part of Python's \<open>re\<close> module the backend uses. An expression is matched by backtracking:
  \<open>ends\<close> lists every way a match can end, in the order in which the engine tries them, so its head
  is the match that \<open>re\<close> reports. Every repetition of the backend's expressions is over a single
  character class. On expressions without context tests \<open>ends\<close> is related to the language of the
  expression; the lemmas on \<open>re_sub\<close> say which parts of a text survive a substitution.
\<close>

section \<open>Expressions and the matcher\<close>

datatype regex =
    Class "char \<Rightarrow> bool"
  | Repeat "char \<Rightarrow> bool" nat "nat option"
  | Then regex regex
  | Or regex regex
  | Maybe regex
  | Boundary
  | NotAfter "char \<Rightarrow> bool"
  | NotBefore "char \<Rightarrow> bool"

text \<open>A position in a text: the characters before it, nearest first, and those after it.\<close>

type_synonym position = "string \<times> string"

text \<open>\<open>\w\<close>, \<open>\d\<close> and \<open>\s\<close> on Latin-1; \<open>\s\<close> is \<open>is_space\<close> and \<open>\d\<close> is \<open>is_digit\<close>.\<close>

definition is_word :: "char \<Rightarrow> bool" where
  "is_word c = (let n = of_char c :: nat in
     (48 \<le> n \<and> n < 58) \<or> (65 \<le> n \<and> n \<le> 90) \<or> n = 95 \<or> (97 \<le> n \<and> n \<le> 122)
     \<or> n \<in> {170, 178, 179, 181, 185, 186, 188, 189, 190}
     \<or> (192 \<le> n \<and> n \<noteq> 215 \<and> n \<noteq> 247))"

definition is_lower_ascii :: "char \<Rightarrow> bool" where "is_lower_ascii c = (of_char c \<in> {97 .. 122 :: nat})"
definition is_upper_ascii :: "char \<Rightarrow> bool" where "is_upper_ascii c = (of_char c \<in> {65 .. 90 :: nat})"
definition is_letter_ascii :: "char \<Rightarrow> bool" where
  "is_letter_ascii c = (is_lower_ascii c \<or> is_upper_ascii c)"

definition one_of :: "string \<Rightarrow> char \<Rightarrow> bool" where "one_of cs c = (c \<in> set cs)"

definition word_at :: "string \<Rightarrow> bool" where
  "word_at s = (case s of [] \<Rightarrow> False | c # _ \<Rightarrow> is_word c)"

definition holds_at :: "(char \<Rightarrow> bool) \<Rightarrow> string \<Rightarrow> bool" where
  "holds_at p s = (case s of [] \<Rightarrow> False | c # _ \<Rightarrow> p c)"

definition advance :: "nat \<Rightarrow> position \<Rightarrow> position" where
  "advance k x = (rev (take k (snd x)) @ fst x, drop k (snd x))"

definition at_most :: "nat option \<Rightarrow> nat \<Rightarrow> nat" where
  "at_most hi n = (case hi of None \<Rightarrow> n | Some h \<Rightarrow> min h n)"

fun ends :: "regex \<Rightarrow> position \<Rightarrow> position list" where
  "ends (Class p) x = (if holds_at p (snd x) then [advance 1 x] else [])"
| "ends (Repeat p lo hi) x =
     map (\<lambda>k. advance k x) (rev [lo ..< Suc (at_most hi (length (takeWhile p (snd x))))])"
| "ends (Then r q) x = concat (map (ends q) (ends r x))"
| "ends (Or r q) x = ends r x @ ends q x"
| "ends (Maybe r) x = ends r x @ [x]"
| "ends Boundary x = (if word_at (fst x) = word_at (snd x) then [] else [x])"
| "ends (NotAfter p) x = (if holds_at p (fst x) then [] else [x])"
| "ends (NotBefore p) x = (if holds_at p (snd x) then [] else [x])"

definition literal :: "string \<Rightarrow> regex" where
  "literal s = foldr (\<lambda>c r. Then (Class (\<lambda>d. d = c)) r) s (Repeat (\<lambda>_. False) 0 None)"

fun any_of :: "regex list \<Rightarrow> regex" where
  "any_of [] = Class (\<lambda>_. False)"
| "any_of [r] = r"
| "any_of (r # q # rs) = Or r (any_of (q # rs))"

fun seq :: "regex list \<Rightarrow> regex" where
  "seq [] = Repeat (\<lambda>_. False) 0 None"
| "seq [r] = r"
| "seq (r # q # rs) = Then r (seq (q # rs))"

section \<open>The functions of the module\<close>

definition re_fullmatch :: "regex \<Rightarrow> string \<Rightarrow> bool" where
  "re_fullmatch r s = list_ex (\<lambda>e. snd e = []) (ends r ([], s))"

fun search_from :: "regex \<Rightarrow> string \<Rightarrow> string \<Rightarrow> bool" where
  "search_from r past [] = (ends r (past, []) \<noteq> [])"
| "search_from r past (c # cs) = (ends r (past, c # cs) \<noteq> [] \<or> search_from r (c # past) cs)"

definition re_search :: "regex \<Rightarrow> string \<Rightarrow> bool" where
  "re_search r s = search_from r [] s"

text \<open>\<open>re.sub\<close> with a literal replacement: leftmost matches, scanning on behind each of them. After
  an empty match one character is copied.\<close>

function sub_from :: "regex \<Rightarrow> string \<Rightarrow> position \<Rightarrow> string" where
  "sub_from r new (past, future) =
     (case ends r (past, future) of
        [] \<Rightarrow> (case future of [] \<Rightarrow> [] | c # cs \<Rightarrow> c # sub_from r new (c # past, cs))
      | e # _ \<Rightarrow>
          if length (snd e) < length future then new @ sub_from r new e
          else new @ (case future of [] \<Rightarrow> [] | c # cs \<Rightarrow> c # sub_from r new (c # past, cs)))"
  by pat_completeness auto
termination
  by (relation "measure (\<lambda>(r, new, x). length (snd x))") auto

declare sub_from.simps [simp del]

definition re_sub :: "regex \<Rightarrow> string \<Rightarrow> string \<Rightarrow> string" where
  "re_sub r new s = sub_from r new ([], s)"

section \<open>What a match consumes\<close>

lemma holds_at_simps [simp]: "\<not> holds_at p []" "holds_at p (c # cs) = p c"
  by (simp_all add: holds_at_def)

lemma word_at_simps [simp]: "\<not> word_at []" "word_at (c # cs) = is_word c"
  by (simp_all add: word_at_def)

lemma advance_split: "snd x = take k (snd x) @ snd (advance k x)"
  by (simp add: advance_def)

lemma advance_past: "fst (advance k x) = rev (take k (snd x)) @ fst x"
  by (simp add: advance_def)

lemma at_most_le: "at_most hi n \<le> n"
  by (simp add: at_most_def split: option.split)

text \<open>The characters an expression can consume.\<close>

fun letters :: "regex \<Rightarrow> char \<Rightarrow> bool" where
  "letters (Class p) c = p c"
| "letters (Repeat p lo hi) c = p c"
| "letters (Then r q) c = (letters r c \<or> letters q c)"
| "letters (Or r q) c = (letters r c \<or> letters q c)"
| "letters (Maybe r) c = letters r c"
| "letters _ c = False"

text \<open>The language of an expression without context tests.\<close>

fun context_free :: "regex \<Rightarrow> bool" where
  "context_free (Then r q) = (context_free r \<and> context_free q)"
| "context_free (Or r q) = (context_free r \<and> context_free q)"
| "context_free (Maybe r) = context_free r"
| "context_free (Class p) = True"
| "context_free (Repeat p lo hi) = True"
| "context_free _ = False"

fun lang :: "regex \<Rightarrow> string set" where
  "lang (Class p) = {[c] | c. p c}"
| "lang (Repeat p lo hi) =
     {m. list_all p m \<and> lo \<le> length m \<and> (\<forall>h. hi = Some h \<longrightarrow> length m \<le> h)}"
| "lang (Then r q) = {m @ n | m n. m \<in> lang r \<and> n \<in> lang q}"
| "lang (Or r q) = lang r \<union> lang q"
| "lang (Maybe r) = insert [] (lang r)"
| "lang _ = {[]}"

lemma take_of_takeWhile: "k \<le> length (takeWhile p s) \<Longrightarrow> list_all p (take k s)"
  by (induction s arbitrary: k) (auto simp: take_Cons' split: if_splits)

lemma takeWhile_prefix: "list_all p m \<Longrightarrow> length m \<le> length (takeWhile p (m @ s))"
  by (induction m) auto

text \<open>Every end of a match lies behind a word of the language.\<close>

lemma ends_consume:
  "e \<in> set (ends r x) \<Longrightarrow> \<exists>m \<in> lang r. snd x = m @ snd e \<and> fst e = rev m @ fst x"
proof (induction r arbitrary: x e)
  case (Class p)
  then show ?case by (cases "snd x") (auto simp: advance_def split: if_splits)
next
  case (Repeat p lo hi)
  then obtain k where e: "e = advance k x" and k: "lo \<le> k" "k \<le> at_most hi (length (takeWhile p (snd x)))"
    by auto
  let ?m = "take k (snd x)"
  have le: "k \<le> length (takeWhile p (snd x))" using k(2) at_most_le order_trans by blast
  then have len: "length ?m = k" using length_takeWhile_le [of p "snd x"] by simp
  have "h \<ge> k" if "hi = Some h" for h using k(2) that by (simp add: at_most_def)
  then have "?m \<in> lang (Repeat p lo hi)" using take_of_takeWhile [OF le] k(1) len by simp
  then show ?case using e advance_split [of x k] advance_past [of k x] by blast
next
  case (Then r q)
  then obtain d where d: "d \<in> set (ends r x)" and e: "e \<in> set (ends q d)" by auto
  from Then.IH(1) [OF d] obtain m where m: "m \<in> lang r" "snd x = m @ snd d" "fst d = rev m @ fst x" by blast
  from Then.IH(2) [OF e] obtain n where n: "n \<in> lang q" "snd d = n @ snd e" "fst e = rev n @ fst d" by blast
  have "m @ n \<in> lang (Then r q)" using m(1) n(1) by auto
  moreover have "snd x = (m @ n) @ snd e" "fst e = rev (m @ n) @ fst x" using m n by simp_all
  ultimately show ?case by blast
next
  case (Or r q)
  then show ?case by fastforce
next
  case (Maybe r)
  then show ?case by fastforce
qed (auto split: if_splits)

lemma advance_over: "advance (length m) (past, m @ s) = (rev m @ past, s)"
  by (simp add: advance_def)

text \<open>Conversely every word of the language of a context-free expression is among the matches,
  whatever surrounds it.\<close>

lemma ends_complete:
  "context_free r \<Longrightarrow> m \<in> lang r \<Longrightarrow> (rev m @ past, s) \<in> set (ends r (past, m @ s))"
proof (induction r arbitrary: m past s)
  case (Class p)
  then show ?case by (auto simp: advance_def)
next
  case (Repeat p lo hi)
  then have m: "list_all p m" "lo \<le> length m" "\<And>h. hi = Some h \<Longrightarrow> length m \<le> h" by auto
  have "length m \<le> at_most hi (length (takeWhile p (m @ s)))"
    using takeWhile_prefix [OF m(1), of s] m(3) by (simp add: at_most_def split: option.split)
  then have "length m \<in> set (rev [lo ..< Suc (at_most hi (length (takeWhile p (m @ s))))])"
    using m(2) by (simp add: less_Suc_eq_le del: upt_Suc)
  then show ?case using advance_over [of m past s] by force
next
  case (Then r q)
  then obtain a b where ab: "m = a @ b" "a \<in> lang r" "b \<in> lang q" by auto
  have "(rev a @ past, b @ s) \<in> set (ends r (past, a @ b @ s))" using Then ab by simp
  moreover have "(rev b @ rev a @ past, s) \<in> set (ends q (rev a @ past, b @ s))" using Then ab by simp
  ultimately show ?case using ab(1) by auto
qed auto

lemma re_fullmatch_lang: "context_free r \<Longrightarrow> re_fullmatch r s \<longleftrightarrow> s \<in> lang r"
proof
  assume "re_fullmatch r s"
  then obtain e where "e \<in> set (ends r ([], s))" "snd e = []"
    unfolding re_fullmatch_def list_ex_iff by blast
  then show "s \<in> lang r" using ends_consume by fastforce
next
  assume "context_free r" and "s \<in> lang r"
  then show "re_fullmatch r s"
    unfolding re_fullmatch_def list_ex_iff using ends_complete [of r s "[]" "[]"] by force
qed

lemma fullmatch_repeat:
  "re_fullmatch (Repeat p lo (Some hi)) s \<longleftrightarrow> list_all p s \<and> lo \<le> length s \<and> length s \<le> hi"
  by (simp add: re_fullmatch_lang)

lemma lang_letters: "m \<in> lang r \<Longrightarrow> c \<in> set m \<Longrightarrow> letters r c"
  by (induction r arbitrary: m) (fastforce simp: list_all_iff)+

lemma ends_start: "ends r (past, s) \<noteq> [] \<Longrightarrow> \<exists>m n. m \<in> lang r \<and> s = m @ n"
  using ends_consume [of "hd (ends r (past, s))" r "(past, s)"] by fastforce

section \<open>Searching and substituting\<close>

text \<open>An expression that looks at the character before and the one behind the match.\<close>

definition guarded :: "(char \<Rightarrow> bool) \<Rightarrow> regex \<Rightarrow> regex" where
  "guarded d core = Then (NotAfter d) (Then core (NotBefore d))"

lemma ends_guarded:
  "ends (guarded d core) x =
     (if holds_at d (fst x) then [] else filter (\<lambda>e. \<not> holds_at d (snd e)) (ends core x))"
proof -
  have "concat (map (ends (NotBefore d)) es) = filter (\<lambda>e. \<not> holds_at d (snd e)) es" for es
    by (induction es) auto
  then show ?thesis by (simp add: guarded_def)
qed

lemma guarded_never: "ends (guarded (\<lambda>_. False) core) x = ends core x"
proof -
  have "\<not> holds_at (\<lambda>_. False) s" for s by (cases s) simp_all
  then show ?thesis by (simp add: ends_guarded)
qed

lemma guarded_matches:
  assumes "context_free core" "m \<in> lang core" "\<not> holds_at d past" "\<not> holds_at d s"
  shows "ends (guarded d core) (past, m @ s) \<noteq> []"
  using ends_complete [OF assms(1,2), of past s] assms(3,4)
  by (force simp: ends_guarded filter_empty_conv)

lemma guarded_consume:
  assumes "e \<in> set (ends (guarded d core) (past, s))"
  shows "\<exists>m \<in> lang core. s = m @ snd e \<and> fst e = rev m @ past \<and> \<not> holds_at d past \<and> \<not> holds_at d (snd e)"
proof -
  from assms have "e \<in> set (ends core (past, s))" and d: "\<not> holds_at d past" "\<not> holds_at d (snd e)"
    by (auto simp: ends_guarded split: if_splits)
  with ends_consume [of e core "(past, s)"] show ?thesis by auto
qed

text \<open>A word of the language somewhere in a text, with a fitting neighbour on either side.\<close>

definition occurs :: "(char \<Rightarrow> bool) \<Rightarrow> regex \<Rightarrow> string \<Rightarrow> string \<Rightarrow> bool" where
  "occurs d core past s \<longleftrightarrow> (\<exists>a m b. s = a @ m @ b \<and> m \<in> lang core
      \<and> \<not> holds_at d (rev a @ past) \<and> \<not> holds_at d b)"

lemma search_from_occurs:
  "context_free core \<Longrightarrow> search_from (guarded d core) past s \<longleftrightarrow> occurs d core past s"
proof (induction s arbitrary: past)
  case Nil
  have "ends (guarded d core) (past, []) \<noteq> [] \<longleftrightarrow> [] \<in> lang core \<and> \<not> holds_at d past"
    using guarded_matches [OF Nil, of "[]" d past "[]"]
      guarded_consume [of "hd (ends (guarded d core) (past, []))" d core past "[]"] by force
  then show ?case by (auto simp: occurs_def)
next
  case (Cons c cs)
  let ?here = "\<exists>m b. c # cs = m @ b \<and> m \<in> lang core \<and> \<not> holds_at d past \<and> \<not> holds_at d b"
  have "ends (guarded d core) (past, c # cs) \<noteq> [] \<longleftrightarrow> ?here"
    using guarded_matches [OF Cons.prems, of _ d past]
      guarded_consume [of "hd (ends (guarded d core) (past, c # cs))" d core past "c # cs"]
    by (metis list.set_sel(1))
  moreover have "occurs d core past (c # cs) \<longleftrightarrow> ?here \<or> occurs d core (c # past) cs"
  proof
    assume "occurs d core past (c # cs)"
    then obtain a m b where o: "c # cs = a @ m @ b" "m \<in> lang core"
      "\<not> holds_at d (rev a @ past)" "\<not> holds_at d b" unfolding occurs_def by blast
    show "?here \<or> occurs d core (c # past) cs"
    proof (cases a)
      case Nil
      with o show ?thesis by auto
    next
      case (Cons x a')
      with o have "cs = a' @ m @ b" "\<not> holds_at d (rev a' @ c # past)" by auto
      with o show ?thesis unfolding occurs_def by blast
    qed
  next
    assume "?here \<or> occurs d core (c # past) cs"
    then show "occurs d core past (c # cs)"
    proof
      assume ?here
      then obtain m b where o: "c # cs = m @ b" "m \<in> lang core" "\<not> holds_at d past" "\<not> holds_at d b"
        by blast
      then show ?thesis unfolding occurs_def by (intro exI [of _ "[]"] exI [of _ m] exI [of _ b]) simp
    next
      assume "occurs d core (c # past) cs"
      then obtain a m b where o: "cs = a @ m @ b" "m \<in> lang core"
        "\<not> holds_at d (rev a @ c # past)" "\<not> holds_at d b" unfolding occurs_def by blast
      then show ?thesis unfolding occurs_def
        by (intro exI [of _ "c # a"] exI [of _ m] exI [of _ b]) simp
    qed
  qed
  ultimately show ?case using Cons by simp
qed

lemma re_search_occurs: "context_free core \<Longrightarrow> re_search (guarded d core) s \<longleftrightarrow> occurs d core [] s"
  unfolding re_search_def by (rule search_from_occurs)

lemma search_from_cong: "(\<And>x. ends r x = ends q x) \<Longrightarrow> search_from r past s = search_from q past s"
  by (induction s arbitrary: past) simp_all

lemma re_search_lang: "context_free r \<Longrightarrow> re_search r s \<longleftrightarrow> (\<exists>a m b. s = a @ m @ b \<and> m \<in> lang r)"
proof -
  assume "context_free r"
  then have "re_search (guarded (\<lambda>_. False) r) s \<longleftrightarrow> occurs (\<lambda>_. False) r [] s"
    by (rule re_search_occurs)
  moreover have "re_search (guarded (\<lambda>_. False) r) s = re_search r s"
    unfolding re_search_def by (rule search_from_cong) (rule guarded_never)
  moreover have "\<not> holds_at (\<lambda>_. False) x" for x by (cases x) simp_all
  ultimately show ?thesis by (simp add: occurs_def)
qed

lemma sub_from_copy:
  "ends r (past, c # cs) = [] \<Longrightarrow> sub_from r new (past, c # cs) = c # sub_from r new (c # past, cs)"
  by (subst sub_from.simps) simp

lemma sub_from_end: "ends r (past, []) = [] \<Longrightarrow> sub_from r new (past, []) = []"
  by (subst sub_from.simps) simp

lemma sub_from_match:
  "ends r (past, s) = e # es \<Longrightarrow> length (snd e) < length s \<Longrightarrow>
     sub_from r new (past, s) = new @ sub_from r new e"
  by (subst sub_from.simps) simp

lemma sub_from_cong:
  assumes "\<And>x. ends r x = ends q x"
  shows "sub_from r new x = sub_from q new x"
proof (induction "length (snd x)" arbitrary: x rule: less_induct)
  case less
  obtain past future where x: "x = (past, future)" by (cases x)
  have step: "sub_from r new y = sub_from q new y" if "length (snd y) < length future" for y
    using less.hyps [of y] that x by simp
  show ?case
    by (subst x, subst x, subst sub_from.simps, subst sub_from.simps [of q])
       (use assms step in \<open>auto split: list.split\<close>)
qed

lemma sub_class_removes: "sub_from (Class p) [] (past, s) = filter (\<lambda>c. \<not> p c) s"
proof (induction s arbitrary: past)
  case Nil
  show ?case by (simp add: sub_from_end)
next
  case (Cons c cs)
  show ?case
  proof (cases "p c")
    case True
    then have "ends (Class p) (past, c # cs) = [(c # past, cs)]" by (simp add: advance_def)
    from sub_from_match [OF this] Cons.IH True show ?thesis by simp
  next
    case False
    then have "ends (Class p) (past, c # cs) = []" by simp
    from sub_from_copy [OF this] Cons.IH False show ?thesis by simp
  qed
qed

lemma re_sub_class: "re_sub (Class p) [] s = filter (\<lambda>c. \<not> p c) s"
  by (simp add: re_sub_def sub_class_removes)

section \<open>Redaction\<close>

text \<open>A substitution that removes every match: the replacement is fenced by two characters no match
  contains, and a match that could only start in the middle of a forbidden context has a shorter
  match behind its first character.\<close>

locale redaction =
  fixes d :: "char \<Rightarrow> bool" and core :: regex and fence_left fence_right :: char and inner :: string
  assumes context_free_core: "context_free core"
    and nonempty: "[] \<notin> lang core"
    and fence: "\<not> letters core fence_left" "\<not> letters core fence_right" "\<not> d fence_left"
    and inner_clean: "a @ m @ b = fence_left # inner @ [fence_right] \<Longrightarrow> m \<notin> lang core"
    and last_guarded: "m \<in> lang core \<Longrightarrow> d (last m) \<or> (\<forall>c. \<not> d c)"
    and tail_matches: "m \<in> lang core \<Longrightarrow> d c \<Longrightarrow> \<not> d (hd m) \<Longrightarrow> tl m \<in> lang core"
begin

lemma word_nonempty: "m \<in> lang core \<Longrightarrow> m \<noteq> []"
  using nonempty by blast

lemma word_unfenced: "m \<in> lang core \<Longrightarrow> fence_left \<notin> set m \<and> fence_right \<notin> set m"
  using lang_letters fence by blast

abbreviation new :: string where "new \<equiv> fence_left # inner @ [fence_right]"
abbreviation scan :: "position \<Rightarrow> string" where "scan \<equiv> sub_from (guarded d core) new"

text \<open>One step of the scan: the end of the text, a copied character, or a match.\<close>

lemma scan_cases:
  obtains (finish) "future = []" "scan (past, future) = []"
  | (copy) c cs where "future = c # cs" "ends (guarded d core) (past, future) = []"
      "scan (past, future) = c # scan (c # past, cs)"
  | (found) m rest where "m \<in> lang core" "future = m @ rest" "\<not> holds_at d past" "\<not> holds_at d rest"
      "scan (past, future) = new @ scan (rev m @ past, rest)" "length rest < length future"
proof (cases "ends (guarded d core) (past, future)")
  case Nil
  then show ?thesis
    using that(1,2) sub_from_end sub_from_copy by (cases future) (blast, metis)
next
  case (Cons e es)
  then obtain m where m: "m \<in> lang core" "future = m @ snd e" "fst e = rev m @ past"
      "\<not> holds_at d past" "\<not> holds_at d (snd e)"
    using guarded_consume [of e d core past future] by auto
  then have "length (snd e) < length future" using word_nonempty by simp
  with m Cons show ?thesis using that(3) [of m "snd e"] sub_from_match [OF Cons] by (metis prod.collapse)
qed

text \<open>Output before the next replacement is input.\<close>

lemma output_is_input:
  assumes "scan (past, future) = m @ b" "m \<noteq> []" "fence_left \<notin> set m" "\<not> holds_at d b"
    and "d (last m) \<or> (\<forall>c. \<not> d c)"
  shows "\<exists>r. future = m @ r \<and> \<not> holds_at d r"
  using assms
proof (induction "length future" arbitrary: past future m rule: less_induct)
  case less
  show ?case
  proof (cases past future rule: scan_cases)
    case finish
    with less.prems show ?thesis by simp
  next
    case (copy c cs)
    with less.prems(1,2) obtain m' where m: "m = c # m'" and out: "scan (c # past, cs) = m' @ b"
      by (cases m) auto
    show ?thesis
    proof (cases m')
      case (Cons x xs)
      with less.hyps [of cs "c # past" m'] out m copy(1) less.prems show ?thesis by auto
    next
      case Nil
      have "\<not> holds_at d cs"
      proof (cases "d c")
        case False
        with less.prems(5) m Nil have "\<forall>x. \<not> d x" by simp
        then show ?thesis by (cases cs) auto
      next
        case True
        show ?thesis
        proof (cases "c # past" cs rule: scan_cases)
          case (copy c' cs')
          with out Nil less.prems(4) show ?thesis by auto
        next
          case (found m'' rest)
          with True show ?thesis by simp
        qed simp
      qed
      with m Nil copy(1) show ?thesis by auto
    qed
  next
    case (found m' rest)
    with less.prems show ?thesis by (cases m) auto
  qed
qed

lemma not_across: 
  assumes "a @ m @ b = new @ rest" "m \<in> lang core"
  shows "\<exists>a'. a = new @ a' \<and> a' @ m @ b = rest"
proof -
  from assms(1) obtain u where "a = new @ u \<and> u @ m @ b = rest \<or> a @ u = new \<and> m @ b = u @ rest"
    using append_eq_append_conv2 [of a "m @ b" new rest] by blast
  then show ?thesis
  proof
    assume u: "a @ u = new \<and> m @ b = u @ rest"
    then obtain v where "m = u @ v \<and> v @ b = rest \<or> m @ v = u \<and> b = v @ rest"
      using append_eq_append_conv2 [of m b u rest] by blast
    then show ?thesis
    proof
      assume v: "m = u @ v \<and> v @ b = rest"
      show ?thesis
      proof (cases "u = []")
        case True
        with u v show ?thesis by (intro exI [of _ "[]"]) simp
      next
        case False
        with u have "last u = fence_right" by (metis last_appendR last_snoc append_Cons)
        with False v have "fence_right \<in> set m" by (metis Un_iff last_in_set set_append)
        with word_unfenced [OF assms(2)] show ?thesis by blast
      qed
    next
      assume "m @ v = u \<and> b = v @ rest"
      with u have "a @ m @ v = new" by simp
      with inner_clean assms(2) show ?thesis by blast
    qed
  qed blast
qed

text \<open>No match survives: \<open>q\<close> is the output written so far, nearest character first.\<close>

lemma scan_clean:
  assumes "holds_at d q = holds_at d past \<or> \<not> holds_at d future"
    and "scan (past, future) = a @ m @ b" "m \<in> lang core"
    and "\<not> holds_at d (rev a @ q)" "\<not> holds_at d b"
  shows False
  using assms
proof (induction "length future" arbitrary: past future q a m rule: less_induct)
  case less
  have m: "m \<noteq> []" "fence_left \<notin> set m" using word_nonempty word_unfenced less.prems(3) by blast+
  show ?case
  proof (cases past future rule: scan_cases)
    case finish
    with less.prems m show ?thesis by simp
  next
    case (copy c cs)
    show ?thesis
    proof (cases a)
      case (Cons x a')
      with copy less.prems show ?thesis
        by (intro less.hyps [of cs "c # q" "c # past" a' m]) auto
    next
      case Nil
      from output_is_input [OF less.prems(2) [unfolded Nil append_Nil] m less.prems(5)
          last_guarded [OF less.prems(3)]]
      obtain r where r: "future = m @ r" "\<not> holds_at d r" by blast
      show ?thesis
      proof (cases "holds_at d past")
        case False
        with guarded_matches [OF context_free_core less.prems(3) _ r(2), of past] r(1) copy(2)
        show ?thesis by simp
      next
        case True
        with less.prems(1,4) Nil have "\<not> holds_at d future" by simp
        with copy(1) have c: "\<not> d c" by simp
        have hd: "m = c # tl m" using r(1) copy(1) m(1) by (cases m) auto
        have "\<exists>x. d x" using True by (cases past) auto
        with tail_matches [OF less.prems(3)] c hd have tl: "tl m \<in> lang core" by (metis list.sel(1))
        have "c # scan (c # past, cs) = m @ b" using copy(3) less.prems(2) Nil by simp
        then have "scan (c # past, cs) = [] @ tl m @ b" using hd by (metis append_Cons append_Nil list.inject)
        then show ?thesis
          using less.hyps [of cs "c # q" "c # past" "[]" "tl m"] tl c copy(1) less.prems(5) by simp
      qed
    qed
  next
    case (found m' rest)
    then obtain a' where a': "a = new @ a'" "a' @ m @ b = scan (rev m' @ past, rest)"
      using not_across [of a m b "scan (rev m' @ past, rest)"] less.prems(2,3) by force
    have ctx: "\<not> holds_at d (rev a' @ rev new @ q)" using less.prems(4) a'(1) by simp
    show ?thesis
      by (rule less.hyps [OF found(6) _ a'(2) [symmetric] less.prems(3) ctx less.prems(5)])
        (use found(4) in simp)
  qed
qed

theorem substitution_is_clean: "\<not> re_search (guarded d core) (re_sub (guarded d core) new s)"
proof
  assume "re_search (guarded d core) (re_sub (guarded d core) new s)"
  then have "occurs d core [] (scan ([], s))"
    unfolding re_search_occurs [OF context_free_core] re_sub_def .
  then obtain a m b where "scan ([], s) = a @ m @ b" "m \<in> lang core"
      "\<not> holds_at d (rev a @ [])" "\<not> holds_at d b" unfolding occurs_def by blast
  then show False using scan_clean [of "[]" "[]" s a m b] by simp
qed

text \<open>A part of the output without the fence characters is a part of the replacement or of the
  input.\<close>

lemma output_parts:
  assumes "scan (past, future) = a @ m @ b" "m \<noteq> []" "fence_left \<notin> set m" "fence_right \<notin> set m"
  shows "(\<exists>x y. new = x @ m @ y) \<or> (\<exists>x y. future = x @ m @ y)"
  using assms
proof (induction "length future" arbitrary: past future a rule: less_induct)
  case less
  have prefix: "\<exists>y. future = m @ y" if "scan (past, future) = m @ y" "fence_left \<notin> set m" 
    for past future m y
    using that
  proof (induction "length future" arbitrary: past future m rule: less_induct)
    case less
    show ?case
    proof (cases past future rule: scan_cases)
      case (copy c cs)
      with less.prems less.hyps [of cs "c # past" "tl m"] show ?thesis
        by (cases m) (auto simp: list.set_sel)
    next
      case (found m' rest)
      with less.prems show ?thesis by (cases m) auto
    qed (use less.prems in auto)
  qed
  show ?case
  proof (cases past future rule: scan_cases)
    case finish
    with less.prems show ?thesis by simp
  next
    case (copy c cs)
    show ?thesis
    proof (cases a)
      case Nil
      with prefix [of past future m b] less.prems show ?thesis by (metis append_Nil)
    next
      case (Cons x a')
      with copy(3) less.prems(1) have "scan (c # past, cs) = a' @ m @ b" by auto
      with less.hyps [of cs "c # past" a'] copy(1) less.prems(2-)
      show ?thesis by (metis append_Cons length_Cons lessI)
    qed
  next
    case (found m' rest)
    let ?rest = "scan (rev m' @ past, rest)"
    from less.prems(1) found(5) have eq: "a @ m @ b = new @ ?rest" by simp
    then consider (behind) u where "a = new @ u" "u @ m @ b = ?rest"
      | (before) u where "a @ u = new" "m @ b = u @ ?rest"
      using append_eq_append_conv2 [of a "m @ b" new ?rest] by blast
    then show ?thesis
    proof cases
      case behind
      with less.hyps [of rest "rev m' @ past" u] found(2,6) less.prems(2-)
      show ?thesis by (metis append.assoc)
    next
      case before
      from before(2) consider (short) v where "m @ v = u" | (long) v where "m = u @ v" "v @ b = ?rest"
        using append_eq_append_conv2 [of m b u ?rest] by blast
      then show ?thesis
      proof cases
        case short
        with before(1) show ?thesis by (metis append.assoc)
      next
        case long
        show ?thesis
        proof (cases "u = []")
          case True
          with long less.hyps [of rest "rev m' @ past" "[]"] found(2,6) less.prems(2-)
          show ?thesis by (metis append.assoc append_Nil)
        next
          case False
          with before(1) have "last u = fence_right" by (metis last_appendR last_snoc append_Cons)
          with False long(1) less.prems(4) show ?thesis by (metis Un_iff last_in_set set_append)
        qed
      qed
    qed
  qed
qed

end

end
