(* ===== verification/Sign_Scanner.thy ===== *)
theory Sign_Scanner
  imports Regex Json Identity_Http
begin

text \<open>
  The sign scanner (\<open>app/modules/sign_scanner/\<close> and the endpoint of
  \<open>app/presentation/api/routes/sign_scanner.py\<close>): decoding an upload, the words kept of an OCR run,
  the redaction of e-mail addresses and telephone numbers, the reading of the text and the response.
  Pillow and Tesseract are parameters.
\<close>

section \<open>Arithmetic of confidences\<close>

text \<open>The sum and the quotient of floats, without rounding.\<close>

fun fadd :: "pyfloat \<Rightarrow> pyfloat \<Rightarrow> pyfloat" where
  "fadd (Fin a) (Fin b) = Fin (a + b)"
| "fadd NaN _ = NaN"
| "fadd _ NaN = NaN"
| "fadd PInf NInf = NaN"
| "fadd NInf PInf = NaN"
| "fadd PInf _ = PInf"
| "fadd _ PInf = PInf"
| "fadd NInf _ = NInf"
| "fadd _ NInf = NInf"

fun fscale :: "pyfloat \<Rightarrow> rat \<Rightarrow> pyfloat" where
  "fscale (Fin a) k = Fin (a / k)"
| "fscale x k = x"

section \<open>The OCR adapter\<close>

record ocr_result =
  oc_text :: string
  oc_confidence :: pyfloat
  oc_language :: string
  oc_provider_version :: string

definition looks_spanish :: "string \<Rightarrow> bool" where
  "looks_spanish text = list_ex (\<lambda>w. str_in w (casefold text))
     [''estacionar'', ''remolque'', ''permiso'', ''excepto'']"

text \<open>\<open>zip(..., strict=True)\<close> raises \<open>ValueError\<close> on columns of different length.\<close>

definition kept_words :: "(string \<times> pyfloat) list \<Rightarrow> (string \<times> pyfloat) list" where
  "kept_words rows = map (\<lambda>(w, c). (w, fscale c 100))
     (filter (\<lambda>(w, c). w \<noteq> [] \<and> fle (Fin 0) c) (map (\<lambda>(t, c). (py_strip t, c)) rows))"

definition mean_confidence :: "pyfloat list \<Rightarrow> pyfloat" where
  "mean_confidence cs =
     (if cs = [] then Fin 0 else fscale (foldl fadd (Fin 0) cs) (of_nat (length cs)))"

definition ocr_extract :: "('image \<Rightarrow> string list \<times> pyfloat list) \<Rightarrow> 'image \<Rightarrow> ocr_result option" where
  "ocr_extract image_to_data picture =
     (case image_to_data picture of (texts, confidences) \<Rightarrow>
        if length texts \<noteq> length confidences then None
        else let kept = kept_words (zip texts confidences); combined = py_join '' '' (map fst kept)
             in Some \<lparr>oc_text = combined, oc_confidence = mean_confidence (map snd kept),
                  oc_language = (if looks_spanish combined then ''es'' else ''en''),
                  oc_provider_version = ''tesseract-5-eng-spa''\<rparr>)"

section \<open>Redaction\<close>

definition email_word :: "char \<Rightarrow> bool" where "email_word c = (is_word c \<or> one_of ''.+-'' c)"
definition domain_word :: "char \<Rightarrow> bool" where "domain_word c = (is_word c \<or> one_of ''.-'' c)"

definition email_pattern :: regex where
  "email_pattern = seq [Repeat email_word 1 None, Class (one_of ''@''), Repeat domain_word 1 None,
     Class (one_of ''.''), Repeat is_letter_ascii 2 None]"

definition phone_separator :: "char \<Rightarrow> bool" where
  "phone_separator c = (one_of ''-.'' c \<or> is_space c)"

definition phone_core :: regex where
  "phone_core = seq
     [Maybe (seq [Maybe (Class (one_of ''+'')), Class (one_of ''1''), Maybe (Class phone_separator)]),
      Maybe (Class (one_of ''('')), Repeat is_digit 3 (Some 3), Maybe (Class (one_of '')'')),
      Class phone_separator, Repeat is_digit 3 (Some 3), Class phone_separator,
      Repeat is_digit 4 (Some 4)]"

definition phone_pattern :: regex where
  "phone_pattern = seq [NotAfter is_digit, phone_core, NotBefore is_digit]"

definition redact_pii :: "string \<Rightarrow> string" where
  "redact_pii text =
     (let redacted = re_sub email_pattern ''[EMAIL REDACTED]'' text
      in re_sub phone_pattern ''[PHONE REDACTED]'' redacted)"

section \<open>Reading the text\<close>

text \<open>\<open>\b(a|b|...)\b\<close>.\<close>

definition whole_words :: "string list \<Rightarrow> regex" where
  "whole_words ws = seq [Boundary, any_of (map literal ws), Boundary]"

definition no_parking_pattern :: regex where
  "no_parking_pattern = whole_words [''no parking'', ''no estacionar'', ''no estacionamiento'']"

definition tow_pattern :: regex where
  "tow_pattern = whole_words [''tow away'', ''tow-away'', ''remolque'', ''gr'' @ [CHR 0xFA] @ ''a'']"

definition resident_pattern :: regex where
  "resident_pattern = whole_words [''resident'', ''residents'', ''residente'', ''permiso'']"

definition loading_pattern :: regex where
  "loading_pattern = whole_words [''loading'', ''carga'', ''commercial vehicles'']"

definition day_pattern :: regex where
  "day_pattern = whole_words [''mon'', ''tue'', ''wed'', ''thu'', ''fri'', ''sat'', ''sun'', ''lunes'',
     ''martes'', ''mi'' @ [CHR 0xE9] @ ''rcoles'', ''jueves'', ''viernes'']"

definition hours_pattern :: regex where
  "hours_pattern = seq [Boundary, Repeat is_digit 1 (Some 2),
     Maybe (seq [Class (one_of '':''), Repeat is_digit 2 (Some 2)]), Repeat is_space 0 None,
     any_of [literal ''am'', literal ''pm''], Boundary]"

definition sign_rules :: "(regex \<times> string \<times> int option) list" where
  "sign_rules =
     [(no_parking_pattern, ''Parking is prohibited.'', Some 100),
      (tow_pattern, ''Vehicles may be towed.'', Some 95),
      (resident_pattern, ''A resident or parking permit may be required.'', Some 80),
      (loading_pattern, ''The space may be restricted to loading or commercial use.'', Some 75),
      (day_pattern, ''The restriction applies only on specified days; verify the sign.'', None),
      (hours_pattern, ''The restriction applies during specified hours; verify the sign.'', None)]"

definition unread_summary :: string where
  "unread_summary = ''The sign could not be interpreted confidently. Read it directly before parking.''"

definition normalized_text :: "string \<Rightarrow> string" where
  "normalized_text text = py_join '' '' (split_ws (casefold text))"

text \<open>The first rule sets the risk to 100, the later ones raise it to their level at least; all of it
  is the maximum of 50 and the levels of the rules that fire.\<close>

definition interpret_sign :: "string \<Rightarrow> string \<times> string list \<times> int" where
  "interpret_sign text =
     (let fired = filter (\<lambda>(r, _). re_search r (normalized_text text)) sign_rules;
          restrictions = map (\<lambda>(_, m, _). m) fired;
          risk = foldl (\<lambda>k (_, _, l). case l of None \<Rightarrow> k | Some v \<Rightarrow> max k v) 50 fired
      in if restrictions = [] then (unread_summary, [], 70)
         else (py_join '' '' restrictions, restrictions, risk))"

section \<open>The service\<close>

definition max_image_bytes :: nat where "max_image_bytes = 10 * 1024 * 1024"
definition max_image_pixels :: nat where "max_image_pixels = 24000000"

datatype sign_error = InvalidSignImageError string | SignCrash

text \<open>Opening and verifying a picture, opening it again for its size, transposing and converting it;
  \<open>Caught\<close> stands for \<open>UnidentifiedImageError\<close> and \<open>OSError\<close>, \<open>Escapes\<close> for any other exception of
  Pillow (\<open>DecompressionBombError\<close>, \<open>SyntaxError\<close>).\<close>

record 'image pillow =
  pl_verify :: "8 word list \<Rightarrow> unit attempt"
  pl_size :: "8 word list \<Rightarrow> (nat \<times> nat) attempt"
  pl_rgb :: "8 word list \<Rightarrow> 'image attempt"

fun sign_failure :: "'a attempt \<Rightarrow> sign_error + 'a" where
  "sign_failure (Ok x) = Inr x"
| "sign_failure Caught = Inl (InvalidSignImageError ''unsupported or corrupt image'')"
| "sign_failure Escapes = Inl SignCrash"

definition decode_image :: "'image pillow \<Rightarrow> 8 word list \<Rightarrow> sign_error + 'image" where
  "decode_image pl body =
     (case sign_failure (and_then (pl_verify pl body) (\<lambda>_. pl_size pl body)) of
        Inl e \<Rightarrow> Inl e
      | Inr (width, height) \<Rightarrow>
          if width * height > max_image_pixels
          then Inl (InvalidSignImageError ''decoded image is too large'')
          else sign_failure (pl_rgb pl body))"

record sign_scan_result =
  ss_detected_text :: string
  ss_redacted_text :: string
  ss_language :: string
  ss_summary :: string
  ss_restrictions :: "string list"
  ss_towing_risk_score :: int
  ss_confidence :: pyfloat
  ss_requires_human_review :: bool
  ss_provider_version :: string

text \<open>\<open>ocr\<close> is the provider; \<open>None\<close> is an exception it raises.\<close>

definition scan_sign :: "'image pillow \<Rightarrow> ('image \<Rightarrow> ocr_result option) \<Rightarrow> 8 word list \<Rightarrow>
     sign_error + sign_scan_result" where
  "scan_sign pl ocr body =
     (if body = [] \<or> length body > max_image_bytes
      then Inl (InvalidSignImageError ''image must be between 1 byte and 10 MB'')
      else case decode_image pl body of
        Inl e \<Rightarrow> Inl e
      | Inr picture \<Rightarrow>
          (case ocr picture of
             None \<Rightarrow> Inl SignCrash
           | Some found \<Rightarrow>
               let redacted = redact_pii (oc_text found);
                   confidence = fmin (fmax (oc_confidence found) (Fin 0)) (Fin 1)
               in case interpret_sign redacted of (summary, restrictions, risk) \<Rightarrow>
                 Inr \<lparr>ss_detected_text = oc_text found, ss_redacted_text = redacted,
                      ss_language = oc_language found, ss_summary = summary,
                      ss_restrictions = restrictions, ss_towing_risk_score = risk,
                      ss_confidence = confidence,
                      ss_requires_human_review = (flt confidence (Fin (75/100)) \<or> restrictions = []),
                      ss_provider_version = oc_provider_version found\<rparr>))"

section \<open>The endpoint\<close>

definition allowed_sign_types :: "string list" where
  "allowed_sign_types = [''image/jpeg'', ''image/png'', ''image/webp'']"

definition route_scan_sign ::
  "'image pillow \<Rightarrow> ('image \<Rightarrow> string list \<times> pyfloat list) \<Rightarrow> http_error + user \<Rightarrow> string option \<Rightarrow> 8 word list \<Rightarrow>
     http_error + sign_scan_result" where
  "route_scan_sign pl image_to_data found media_type upload =
     (case found of
        Inl e \<Rightarrow> Inl e
      | Inr _ \<Rightarrow>
          if media_type \<notin> Some ` set allowed_sign_types
          then Inl (http_exception 415 ''unsupported image type'')
          else (case scan_sign pl (ocr_extract image_to_data) (take (max_image_bytes + 1) upload) of
                  Inl (InvalidSignImageError m) \<Rightarrow> Inl (http_exception 422 m)
                | Inl SignCrash \<Rightarrow> Inl (http_exception 500 ''Unexpected server error.'')
                | Inr r \<Rightarrow> Inr r))"

section \<open>Redaction is complete\<close>

lemma letters_email: "letters email_pattern c \<Longrightarrow> email_word c \<or> c = CHR ''@''"
  by (auto simp: email_pattern_def email_word_def domain_word_def one_of_def is_letter_ascii_def
      is_lower_ascii_def is_upper_ascii_def is_word_def Let_def)

lemma email_has_at: "m \<in> lang email_pattern \<Longrightarrow> CHR ''@'' \<in> set m"
  by (auto simp: email_pattern_def one_of_def)

lemma email_nonempty: "[] \<notin> lang email_pattern"
  using email_has_at [of "[]"] by auto

lemma context_free_email: "context_free email_pattern"
  by (simp add: email_pattern_def)

lemma email_guarded: "ends email_pattern x = ends (guarded (\<lambda>_. False) email_pattern) x"
  by (simp only: guarded_never)

definition phone_prefix :: "string set" where
  "phone_prefix = {[]} \<union> {p @ ''1'' @ s | p s. p \<in> {[], ''+''} \<and> (s = [] \<or> (\<exists>c. s = [c] \<and> phone_separator c))}"

definition phone_rest :: "string set" where
  "phone_rest = {d @ p @ [s] @ e @ [t] @ f | d p s e t f. list_all is_digit d \<and> length d = 3
     \<and> p \<in> {[], '')''} \<and> phone_separator s \<and> list_all is_digit e \<and> length e = 3
     \<and> phone_separator t \<and> list_all is_digit f \<and> length f = 4}"

lemma lang_phone: "m \<in> lang phone_core \<longleftrightarrow> (\<exists>a p r. m = a @ p @ r \<and> a \<in> phone_prefix
     \<and> p \<in> {[], ''(''} \<and> r \<in> phone_rest)"
proof -
  have pre: "lang (Maybe (seq [Maybe (Class (one_of ''+'')), Class (one_of ''1''), Maybe (Class phone_separator)]))
      = phone_prefix"
    by (auto simp: phone_prefix_def one_of_def)
  have rest: "lang (seq [Repeat is_digit 3 (Some 3), Maybe (Class (one_of '')'')),
      Class phone_separator, Repeat is_digit 3 (Some 3), Class phone_separator,
      Repeat is_digit 4 (Some 4)]) = phone_rest"
    by (auto simp: phone_rest_def one_of_def) (metis append_Cons append_Nil eq_iff)+
  show ?thesis
    unfolding phone_core_def seq.simps lang.simps(3) using pre rest
    by (auto simp: one_of_def)
qed

lemma phone_rest_ends: "r \<in> phone_rest \<Longrightarrow> r \<noteq> [] \<and> is_digit (hd r) \<and> is_digit (last r)"
proof -
  assume "r \<in> phone_rest"
  then obtain d p s e t f where r: "r = d @ p @ [s] @ e @ [t] @ f"
    and d: "list_all is_digit d" "length d = 3" and f: "list_all is_digit f" "length f = 4"
    unfolding phone_rest_def by blast
  have "d \<noteq> []" "f \<noteq> []" using d f by auto
  with d(1) f(1) have "is_digit (hd d)" "is_digit (last f)" by (simp_all add: list_all_iff)
  with \<open>d \<noteq> []\<close> \<open>f \<noteq> []\<close> r show ?thesis by simp
qed

lemma phone_last: "m \<in> lang phone_core \<Longrightarrow> m \<noteq> [] \<and> is_digit (last m)"
  unfolding lang_phone using phone_rest_ends by fastforce

lemma one_is_digit [simp]: "is_digit (CHR ''1'')"
  by (simp add: is_digit_def)

lemma phone_tail:
  assumes m: "m \<in> lang phone_core" and hd: "\<not> is_digit (hd m)"
  shows "tl m \<in> lang phone_core"
proof -
  from m obtain a p r where m: "m = a @ p @ r" and a: "a \<in> phone_prefix" and p: "p \<in> {[], ''(''}"
    and r: "r \<in> phone_rest" unfolding lang_phone by blast
  from a consider (none) "a = []" | (one) s where "a = ''1'' @ s" "s = [] \<or> (\<exists>c. s = [c] \<and> phone_separator c)"
    | (plus) s where "a = ''+1'' @ s" "s = [] \<or> (\<exists>c. s = [c] \<and> phone_separator c)"
    unfolding phone_prefix_def by auto
  then show ?thesis
  proof cases
    case none
    with p m hd phone_rest_ends [OF r] have "p = ''(''" by auto
    with m none have "tl m = [] @ [] @ r" by simp
    with r show ?thesis unfolding lang_phone phone_prefix_def by blast
  next
    case one
    with m hd show ?thesis by simp
  next
    case plus
    then have "tl m = (''1'' @ s) @ p @ r" using m by simp
    moreover have "''1'' @ s \<in> phone_prefix" using plus(2) unfolding phone_prefix_def by fastforce
    ultimately show ?thesis using p r unfolding lang_phone by blast
  qed
qed

lemma context_free_phone: "context_free phone_core"
  by (simp add: phone_core_def)

lemma letters_phone: "letters phone_core c \<Longrightarrow> is_digit c \<or> phone_separator c \<or> c \<in> {CHR ''+'', CHR ''('', CHR '')''}"
  by (auto simp: phone_core_def one_of_def)

lemma fence_chars [simp]: "\<not> is_digit (CHR ''['')" "\<not> is_digit (CHR '']'')" "\<not> phone_separator (CHR ''['')"
    "\<not> phone_separator (CHR '']'')" "\<not> email_word (CHR ''['')" "\<not> email_word (CHR '']'')"
  by (simp_all add: is_digit_def phone_separator_def one_of_def is_space_def email_word_def is_word_def)

interpretation email: redaction "\<lambda>_. False" email_pattern "CHR ''[''" "CHR '']''" "''EMAIL REDACTED''"
proof
  show "m \<notin> lang email_pattern" if "a @ m @ b = CHR ''['' # ''EMAIL REDACTED'' @ [CHR '']'']" for a m b
  proof
    assume "m \<in> lang email_pattern"
    then have "CHR ''@'' \<in> set (a @ m @ b)" using email_has_at by simp
    then show False unfolding that by simp
  qed
  show "\<not> letters email_pattern (CHR ''['')" "\<not> letters email_pattern (CHR '']'')"
    using letters_email by fastforce+
qed (use context_free_email email_nonempty in simp_all)

interpretation phone: redaction is_digit phone_core "CHR ''[''" "CHR '']''" "''PHONE REDACTED''"
proof
  show "m \<notin> lang phone_core" if "a @ m @ b = CHR ''['' # ''PHONE REDACTED'' @ [CHR '']'']" for a m b
  proof
    assume "m \<in> lang phone_core"
    then have "\<exists>c \<in> set (a @ m @ b). is_digit c" using phone_last [of m] last_in_set by fastforce
    then show False unfolding that by (simp add: is_digit_def)
  qed
  show "\<not> letters phone_core (CHR ''['')" "\<not> letters phone_core (CHR '']'')"
    using letters_phone by fastforce+
  show "[] \<notin> lang phone_core" using phone_last by blast
qed (use context_free_phone phone_last phone_tail in simp_all)

lemma phone_pattern_guarded: "phone_pattern = guarded is_digit phone_core"
  by (simp add: phone_pattern_def guarded_def)

lemma emails_removed: "\<not> re_search email_pattern (re_sub email_pattern ''[EMAIL REDACTED]'' s)"
proof -
  have "re_sub email_pattern ''[EMAIL REDACTED]'' s
      = re_sub (guarded (\<lambda>_. False) email_pattern) email.new s"
    unfolding re_sub_def by (simp add: sub_from_cong [OF email_guarded])
  moreover have "re_search email_pattern t = re_search (guarded (\<lambda>_. False) email_pattern) t" for t
    unfolding re_search_def by (rule search_from_cong) (rule email_guarded)
  ultimately show ?thesis using email.substitution_is_clean by simp
qed

text \<open>Removing telephone numbers brings back no address.\<close>

lemma emails_stay_removed:
  assumes "\<not> re_search email_pattern s"
  shows "\<not> re_search email_pattern (re_sub phone_pattern ''[PHONE REDACTED]'' s)"
proof
  assume "re_search email_pattern (re_sub phone_pattern ''[PHONE REDACTED]'' s)"
  then obtain a m b where out: "phone.scan ([], s) = a @ m @ b" and m: "m \<in> lang email_pattern"
    unfolding re_search_lang [OF context_free_email] re_sub_def phone_pattern_guarded by auto
  have "m \<noteq> []" using m email_nonempty by blast
  moreover have "CHR ''['' \<notin> set m" "CHR '']'' \<notin> set m" using email.word_unfenced [OF m] by blast+
  ultimately consider x y where "phone.new = x @ m @ y" | x y where "s = x @ m @ y"
    using phone.output_parts [OF out] by blast
  then show False
  proof cases
    case 1
    then have "CHR ''@'' \<in> set phone.new" using email_has_at [OF m] by simp
    then show False by simp
  next
    case 2
    with m assms show False unfolding re_search_lang [OF context_free_email] by blast
  qed
qed

text \<open>
  C28: the text that the scanner marks as redacted contains no e-mail address and no telephone number
  as its two patterns describe them, wherever they stand and whatever surrounds them: neither the
  replacements nor the parts left over after a replacement form a new match.
\<close>

theorem redaction_is_complete:
  "\<not> re_search email_pattern (redact_pii text) \<and> \<not> re_search phone_pattern (redact_pii text)"
proof -
  let ?t = "re_sub email_pattern ''[EMAIL REDACTED]'' text"
  have r: "redact_pii text = re_sub phone_pattern ''[PHONE REDACTED]'' ?t" by (simp add: redact_pii_def)
  have "\<not> re_search (guarded is_digit phone_core) (re_sub (guarded is_digit phone_core) phone.new ?t)"
    by (rule phone.substitution_is_clean)
  then have "\<not> re_search phone_pattern (redact_pii text)"
    unfolding r phone_pattern_guarded by simp
  then show ?thesis using emails_stay_removed [OF emails_removed] r by metis
qed

section \<open>What a scan reports\<close>

lemma fle_zero_cases: "fle (Fin 0) c \<longleftrightarrow> (\<exists>r \<ge> 0. c = Fin r) \<or> c = PInf"
  by (cases c) (auto simp: fle_def)

lemma fadd_nonneg: "fle (Fin 0) a \<Longrightarrow> fle (Fin 0) b \<Longrightarrow> fle (Fin 0) (fadd a b)"
  by (auto simp: fle_zero_cases)

lemma fscale_nonneg: "fle (Fin 0) a \<Longrightarrow> 0 < k \<Longrightarrow> fle (Fin 0) (fscale a k)"
  by (auto simp: fle_zero_cases)

lemma foldl_fadd_nonneg:
  "\<forall>c \<in> set cs. fle (Fin 0) c \<Longrightarrow> fle (Fin 0) a \<Longrightarrow> fle (Fin 0) (foldl fadd a cs)"
  by (induction cs arbitrary: a) (auto intro: fadd_nonneg)

lemma mean_confidence_nonneg: "\<forall>c \<in> set cs. fle (Fin 0) c \<Longrightarrow> fle (Fin 0) (mean_confidence cs)"
  by (auto simp: mean_confidence_def intro!: fscale_nonneg foldl_fadd_nonneg)

lemma kept_confidence: "c \<in> snd ` set (kept_words rows) \<Longrightarrow> fle (Fin 0) c"
  by (auto simp: kept_words_def intro!: fscale_nonneg)

lemma ocr_confidence: "ocr_extract d p = Some r \<Longrightarrow> fle (Fin 0) (oc_confidence r)"
proof -
  assume "ocr_extract d p = Some r"
  then obtain rows where "oc_confidence r = mean_confidence (map snd (kept_words rows))"
    by (auto simp: ocr_extract_def Let_def split: prod.splits if_splits)
  moreover have "\<forall>c \<in> set (map snd (kept_words rows)). fle (Fin 0) c"
    using kept_confidence [of _ rows] by simp
  ultimately show ?thesis using mean_confidence_nonneg by metis
qed

lemma clamp_nonneg: "fle (Fin 0) c \<Longrightarrow> fbetween 0 (fmin (fmax c (Fin 0)) (Fin 1)) 1"
  by (auto simp: fle_zero_cases fmin_def fmax_def)

lemma sign_rule_levels: "x \<in> set sign_rules \<Longrightarrow> snd (snd x) = Some v \<Longrightarrow> 75 \<le> v \<and> v \<le> 100"
  by (auto simp: sign_rules_def)

lemma risk_fold_bounds:
  assumes "\<forall>x \<in> set fired. \<forall>v. snd (snd x) = Some v \<longrightarrow> v \<le> 100" and "50 \<le> k" and "k \<le> (100::int)"
  shows "50 \<le> foldl (\<lambda>k (_, _, l). case l of None \<Rightarrow> k | Some v \<Rightarrow> max k v) k fired
    \<and> foldl (\<lambda>k (_, _, l). case l of None \<Rightarrow> k | Some v \<Rightarrow> max k v) k fired \<le> 100"
  using assms
proof (induction fired arbitrary: k)
  case (Cons x fired)
  obtain r m l where x: "x = (r, m, l)" by (cases x) auto
  have "50 \<le> (case l of None \<Rightarrow> k | Some v \<Rightarrow> max k v) \<and> (case l of None \<Rightarrow> k | Some v \<Rightarrow> max k v) \<le> 100"
    using Cons.prems x by (cases l) auto
  with Cons x show ?case by simp
qed simp

lemma interpret_bounds: "interpret_sign t = (s, rs, k) \<Longrightarrow> 50 \<le> k \<and> k \<le> 100"
proof -
  assume i: "interpret_sign t = (s, rs, k)"
  let ?fired = "filter (\<lambda>(r, _). re_search r (normalized_text t)) sign_rules"
  have "\<forall>x \<in> set ?fired. \<forall>v. snd (snd x) = Some v \<longrightarrow> v \<le> 100" using sign_rule_levels by fastforce
  from risk_fold_bounds [OF this, of 50] i show ?thesis
    by (auto simp: interpret_sign_def Let_def split: if_splits)
qed

lemma interpret_nothing: "interpret_sign t = (s, rs, k) \<Longrightarrow> rs = [] \<longleftrightarrow> s = unread_summary \<and> rs = [] \<and> k = 70"
  by (auto simp: interpret_sign_def Let_def split: if_splits)

lemma scan_sign_result:
  assumes "scan_sign pl ocr body = Inr r"
  obtains picture found where "decode_image pl body = Inr picture" "ocr picture = Some found"
    "ss_redacted_text r = redact_pii (oc_text found)" "ss_detected_text r = oc_text found"
    "interpret_sign (redact_pii (oc_text found)) = (ss_summary r, ss_restrictions r, ss_towing_risk_score r)"
    "ss_confidence r = fmin (fmax (oc_confidence found) (Fin 0)) (Fin 1)"
    "ss_requires_human_review r \<longleftrightarrow> flt (ss_confidence r) (Fin (75/100)) \<or> ss_restrictions r = []"
    "body \<noteq> []" "length body \<le> max_image_bytes"
  using assms unfolding scan_sign_def
  by (auto simp: Let_def split: if_splits sum.splits option.splits prod.splits)

lemma no_parking_read: "re_search no_parking_pattern (normalized_text t) \<Longrightarrow> interpret_sign t = (s, rs, k) \<Longrightarrow> k = 100"
proof -
  assume fires: "re_search no_parking_pattern (normalized_text t)" and i: "interpret_sign t = (s, rs, k)"
  let ?P = "\<lambda>(r, _). re_search r (normalized_text t)"
  let ?f = "\<lambda>k (_, _, l). case l of None \<Rightarrow> k | Some v \<Rightarrow> max k (v::int)"
  let ?later = "filter ?P (tl sign_rules)"
  have "filter ?P sign_rules = hd sign_rules # ?later" using fires by (simp add: sign_rules_def)
  then have "k = foldl ?f 100 ?later" using i
    by (auto simp: interpret_sign_def Let_def sign_rules_def split: if_splits)
  moreover have "foldl ?f 100 fired = 100" if "set fired \<subseteq> set sign_rules" for fired
    using that
  proof (induction fired)
    case (Cons x fired)
    have "?f 100 x = 100"
      using Cons.prems sign_rule_levels [of x] by (cases x) (fastforce split: option.split)
    with Cons show ?case by simp
  qed simp
  moreover have "set ?later \<subseteq> set sign_rules" by (auto simp: sign_rules_def)
  ultimately show "k = 100" by blast
qed

text \<open>
  An answer of the scanner is conservative: it needs an authenticated user, an allowed media type
  and an upload of 1 byte to 10 MB; the risk is between 50 and 100 and is 100 when the redacted text
  forbids parking; the confidence is a number from 0 to 1; the review flag is only withheld when a
  restriction was recognised with confidence 0.75 or more, and a text in which nothing is recognised
  gets the fixed answer with risk 70.
\<close>

lemma sign_scan_is_conservative:
  assumes "route_scan_sign pl data found media upload = Inr r"
  shows "(\<exists>u. found = Inr u) \<and> media \<in> Some ` set allowed_sign_types
    \<and> upload \<noteq> [] \<and> length upload \<le> max_image_bytes
    \<and> 50 \<le> ss_towing_risk_score r \<and> ss_towing_risk_score r \<le> 100
    \<and> (re_search no_parking_pattern (normalized_text (ss_redacted_text r)) \<longrightarrow> ss_towing_risk_score r = 100)
    \<and> fbetween 0 (ss_confidence r) 1
    \<and> (\<not> ss_requires_human_review r \<longrightarrow> ss_restrictions r \<noteq> [] \<and> fle (Fin (75/100)) (ss_confidence r))
    \<and> (ss_restrictions r = [] \<longrightarrow> ss_summary r = unread_summary \<and> ss_towing_risk_score r = 70)"
proof -
  from assms have user: "\<exists>u. found = Inr u" and media: "media \<in> Some ` set allowed_sign_types"
    and scan: "scan_sign pl (ocr_extract data) (take (max_image_bytes + 1) upload) = Inr r"
    by (auto simp: route_scan_sign_def split: sum.splits if_splits sign_error.splits)
  from scan_sign_result [OF scan] obtain picture ocr where
    ocr: "ocr_extract data picture = Some ocr" and red: "ss_redacted_text r = redact_pii (oc_text ocr)"
    and i: "interpret_sign (redact_pii (oc_text ocr)) = (ss_summary r, ss_restrictions r, ss_towing_risk_score r)"
    and c: "ss_confidence r = fmin (fmax (oc_confidence ocr) (Fin 0)) (Fin 1)"
    and review: "ss_requires_human_review r \<longleftrightarrow> flt (ss_confidence r) (Fin (75/100)) \<or> ss_restrictions r = []"
    and body: "take (max_image_bytes + 1) upload \<noteq> []" "length (take (max_image_bytes + 1) upload) \<le> max_image_bytes"
    by blast
  have unit: "fbetween 0 (ss_confidence r) 1" unfolding c by (rule clamp_nonneg [OF ocr_confidence [OF ocr]])
  then obtain q where q: "ss_confidence r = Fin q" using fbetween_finite by blast
  have sure: "\<not> flt (ss_confidence r) (Fin (75/100)) \<longrightarrow> fle (Fin (75/100)) (ss_confidence r)"
    unfolding q by simp
  have size: "upload \<noteq> []" "length upload \<le> max_image_bytes" using body by auto
  show ?thesis
    using user media size interpret_bounds [OF i] no_parking_read [OF _ i] unit review sure
      interpret_nothing [OF i] unfolding red by metis
qed

definition sample_pillow :: "unit pillow" where
  "sample_pillow = \<lparr>pl_verify = (\<lambda>_. Ok ()), pl_size = (\<lambda>_. Ok (640, 480)), pl_rgb = (\<lambda>_. Ok ())\<rparr>"

definition sample_ocr :: "unit \<Rightarrow> string list \<times> pyfloat list" where
  "sample_ocr _ = ([''NO'', ''PARKING'', '' '', ''a@b.co''], [Fin 96, Fin 90, Fin (-1), Fin 84])"

definition sample_scan :: sign_scan_result where
  "sample_scan = \<lparr>ss_detected_text = ''NO PARKING a@b.co'',
     ss_redacted_text = ''NO PARKING [EMAIL REDACTED]'', ss_language = ''en'',
     ss_summary = ''Parking is prohibited.'', ss_restrictions = [''Parking is prohibited.''],
     ss_towing_risk_score = 100, ss_confidence = Fin (9/10), ss_requires_human_review = False,
     ss_provider_version = ''tesseract-5-eng-spa''\<rparr>"

lemma sample_reading: "interpret_sign ''NO PARKING [EMAIL REDACTED]''
    = (''Parking is prohibited.'', [''Parking is prohibited.''], 100)"
  by code_simp

lemma sample_redaction: "redact_pii ''NO PARKING a@b.co'' = ''NO PARKING [EMAIL REDACTED]''"
  by code_simp

lemma sample_words: "ocr_extract sample_ocr () = Some \<lparr>oc_text = ''NO PARKING a@b.co'',
    oc_confidence = Fin (9/10), oc_language = ''en'', oc_provider_version = ''tesseract-5-eng-spa''\<rparr>"
  by code_simp

lemma sample_route: "route_scan_sign sample_pillow sample_ocr (Inr u) (Some ''image/png'') [1] = Inr sample_scan"
  by (simp add: route_scan_sign_def allowed_sign_types_def scan_sign_def decode_image_def sample_pillow_def
      max_image_bytes_def max_image_pixels_def sample_words sample_redaction sample_reading Let_def
      sample_scan_def fmin_def fmax_def)

lemma sign_scan_is_conservative_witness:
  "50 \<le> ss_towing_risk_score sample_scan \<and> ss_towing_risk_score sample_scan \<le> 100
    \<and> fbetween 0 (ss_confidence sample_scan) 1"
  using sign_scan_is_conservative [OF sample_route] by blast

text \<open>The response also carries the text before redaction.\<close>

lemma detected_text_is_unredacted:
  "route_scan_sign sample_pillow sample_ocr (Inr u) (Some ''image/png'') [1] = Inr sample_scan
   \<and> re_search email_pattern (ss_detected_text sample_scan)"
proof -
  have "re_search email_pattern ''NO PARKING a@b.co''" by code_simp
  then show ?thesis using sample_route [of u] by (simp add: sample_scan_def)
qed

end
