(* ===== verification/Parking_Assistant.thy ===== *)
theory Parking_Assistant
  imports Parking_Source Identity_Http
begin

text \<open>
  The parking assistant (\<open>app/modules/parking_ai/\<close> and
  \<open>app/presentation/api/routes/parking_ai.py\<close>): the deterministic rules, the baseline prediction
  they outrank, the recognition of the question and the answer. The assistant reads the zones
  through the same map service as the parking decision.
\<close>

section \<open>Assessments\<close>

datatype Recommendation = REC_PARK | REC_CAUTION | REC_DO_NOT_PARK

datatype AssistantIntent = PARKING_LEGALITY | SIGN_MEANING | RESIDENT_PERMIT | INTENT_TOWING_RISK
  | TOWING_COST | NEAREST_SAFE_PARKING

record assessment_context =
  ac_base_score :: "int option"
  ac_provenance :: "provenance option"
  ac_source_confidence :: "pyfloat option"
  ac_zone_type :: "zone_type option"
  ac_towing_hotspot :: bool
  ac_restriction_summary :: "string option"
  ac_average_towing_cost_cents :: "int option"
  ac_has_resident_permit :: bool

record parking_assessment =
  pa_score :: int
  pa_risk_level :: RiskLevel
  pa_recommendation :: Recommendation
  pa_provenance :: provenance
  pa_confidence :: pyfloat
  pa_reasons :: "string list"
  pa_restriction_summary :: "string option"
  pa_average_towing_cost_cents :: "int option"
  pa_ruleset_version :: string
  pa_prediction_version :: "string option"
  pa_requires_human_review :: bool

definition recommendation :: "int \<Rightarrow> Recommendation" where
  "recommendation score =
     (if score \<ge> 75 then REC_PARK else if score \<ge> 55 then REC_CAUTION else REC_DO_NOT_PARK)"

definition build_assessment ::
  "int \<Rightarrow> provenance \<Rightarrow> pyfloat \<Rightarrow> string list \<Rightarrow> string option \<Rightarrow> int option \<Rightarrow> string \<Rightarrow> string option \<Rightarrow>
     parking_error + parking_assessment" where
  "build_assessment score prov confidence rs summary cost ruleset prediction =
     (let bounded_score = min (max score 0) 100 in
      case risk_level bounded_score of
        Inl e \<Rightarrow> Inl e
      | Inr level \<Rightarrow> Inr
          \<lparr>pa_score = bounded_score, pa_risk_level = level,
           pa_recommendation = recommendation bounded_score, pa_provenance = prov,
           pa_confidence = fmin (fmax confidence (Fin 0)) (Fin 1), pa_reasons = rs,
           pa_restriction_summary = summary, pa_average_towing_cost_cents = cost,
           pa_ruleset_version = ruleset, pa_prediction_version = prediction,
           pa_requires_human_review = (flt confidence (Fin (1/2)) \<or> prov = ESTIMATED)\<rparr>)"

section \<open>Deterministic rules\<close>

definition ruleset_version :: string where "ruleset_version = ''parking-rules-2026-07-01''"

text \<open>\<open>context.provenance or Provenance.ESTIMATED\<close>, and \<open>context.source_confidence or 0.5\<close>, where a
  confidence of zero counts as absent.\<close>

definition context_provenance :: "assessment_context \<Rightarrow> provenance" where
  "context_provenance c = (case ac_provenance c of None \<Rightarrow> ESTIMATED | Some p \<Rightarrow> p)"

definition context_confidence :: "assessment_context \<Rightarrow> pyfloat" where
  "context_confidence c =
     (case ac_source_confidence c of
        None \<Rightarrow> Fin (1/2)
      | Some x \<Rightarrow> if feq x (Fin 0) then Fin (1/2) else x)"

definition ruled :: "assessment_context \<Rightarrow> int \<Rightarrow> string list \<Rightarrow> parking_error + parking_assessment" where
  "ruled c score rs = build_assessment score (context_provenance c) (context_confidence c) rs
     (ac_restriction_summary c) (ac_average_towing_cost_cents c) ruleset_version None"

definition official_stop :: "assessment_context \<Rightarrow> string \<Rightarrow> parking_error + parking_assessment" where
  "official_stop c reason = ruled c 0 [reason]"

definition evidence_score :: "assessment_context \<Rightarrow> int \<Rightarrow> int \<times> string list" where
  "evidence_score c base =
     (let s0 = base; r0 = [''The score starts from the best available zone evidence.''];
          (s1, r1) = (if ac_towing_hotspot c
            then (min s0 20, r0 @ [''This location is a known towing hotspot.'']) else (s0, r0));
          (s2, r2) = (if ac_zone_type c = Some ZT_TOWING_HOTSPOT
            then (min s1 20, r1 @ [''The zone is classified as a towing hotspot.'']) else (s1, r1));
          r3 = (if ac_zone_type c = Some RESIDENT_ONLY \<and> ac_has_resident_permit c
            then r2 @ [''A resident permit was provided; posted conditions still apply.''] else r2)
      in (s2, r3))"

definition evaluate_rules :: "assessment_context \<Rightarrow> (parking_error + parking_assessment) option" where
  "evaluate_rules c =
     (if ac_zone_type c = Some PRIVATE_PROPERTY
      then Some (official_stop c ''Private property requires explicit owner permission.'')
      else if ac_zone_type c = Some RESIDENT_ONLY \<and> \<not> ac_has_resident_permit c
      then Some (ruled c 10 [''A resident permit is required and none was provided.''])
      else case ac_base_score c of
        None \<Rightarrow> None
      | Some base \<Rightarrow> (case evidence_score c base of (score, rs) \<Rightarrow> Some (ruled c score rs)))"

section \<open>The baseline prediction\<close>

definition baseline_version :: string where "baseline_version = ''parking-baseline-1.0.0''"

definition predict :: "assessment_context \<Rightarrow> parking_error + parking_assessment" where
  "predict c =
     (let first = ''No verified zone covers this location; this is a conservative estimate.'';
          (score, rs) = (if ac_towing_hotspot c
            then (20, [first, ''Historical signals indicate elevated towing activity.''])
            else (50, [first]))
      in build_assessment score AI_PREDICTION (Fin (35/100)) rs (ac_restriction_summary c)
           (ac_average_towing_cost_cents c) ruleset_version (Some baseline_version))"

section \<open>The service\<close>

definition assistant_context :: "parking_zone option \<Rightarrow> bool \<Rightarrow> assessment_context" where
  "assistant_context found has_resident_permit =
     (case found of
        None \<Rightarrow> \<lparr>ac_base_score = None, ac_provenance = None, ac_source_confidence = None,
          ac_zone_type = None, ac_towing_hotspot = False, ac_restriction_summary = None,
          ac_average_towing_cost_cents = None, ac_has_resident_permit = False\<rparr>
      | Some z \<Rightarrow> \<lparr>ac_base_score = Some (z_parking_score z), ac_provenance = Some (z_provenance z),
          ac_source_confidence = Some (z_confidence z), ac_zone_type = Some (z_type z),
          ac_towing_hotspot = z_towing_hotspot z, ac_restriction_summary = z_restriction_summary z,
          ac_average_towing_cost_cents = z_average_towing_cost_cents z,
          ac_has_resident_permit = has_resident_permit\<rparr>)"

definition assess :: "zone_repository \<Rightarrow> pyfloat \<Rightarrow> pyfloat \<Rightarrow> bool \<Rightarrow> parking_error + parking_assessment" where
  "assess zones longitude latitude has_resident_permit =
     (case map_decision zones longitude latitude of
        Inl e \<Rightarrow> Inl e
      | Inr found \<Rightarrow>
          let c = assistant_context found has_resident_permit
          in (case evaluate_rules c of Some r \<Rightarrow> r | None \<Rightarrow> predict c))"

section \<open>Questions and answers\<close>

definition mentions :: "string \<Rightarrow> string list \<Rightarrow> bool" where
  "mentions text terms = list_ex (\<lambda>t. str_in t text) terms"

definition interpret_intent :: "string \<Rightarrow> AssistantIntent" where
  "interpret_intent question =
     (let normalized = py_join '' '' (split_ws (casefold question)) in
      if mentions normalized [''nearest'', ''nearby'', ''closest'', ''cerca''] then NEAREST_SAFE_PARKING
      else if mentions normalized [''cost'', ''fee'', ''price'', ''costo'', ''tarifa''] then TOWING_COST
      else if mentions normalized [''resident'', ''permit'', ''residente'', ''permiso''] then RESIDENT_PERMIT
      else if mentions normalized [''sign'', ''letrero'', ''se'' @ [CHR 0xF1] @ ''al''] then SIGN_MEANING
      else if mentions normalized [''tow'', ''towing'', ''remolque'', ''gr'' @ [CHR 0xFA] @ ''a'', ''risk'']
      then INTENT_TOWING_RISK
      else PARKING_LEGALITY)"

fun legality_answer :: "Recommendation \<Rightarrow> string" where
  "legality_answer REC_PARK = ''The available evidence indicates that parking is likely permitted.''"
| "legality_answer REC_CAUTION = ''Use caution and read every posted sign before parking.''"
| "legality_answer REC_DO_NOT_PARK = ''Do not park here based on the available evidence.''"

fun answer_for :: "AssistantIntent \<Rightarrow> parking_assessment \<Rightarrow> string" where
  "answer_for NEAREST_SAFE_PARKING a =
     ''Open Safer parking nearby to compare verified options ranked by safety, '' @
     ''walking distance, price, towing history, ratings, and availability.''"
| "answer_for TOWING_COST a =
     (case pa_average_towing_cost_cents a of
        None \<Rightarrow> ''No verified towing-cost estimate is available for this location.''
      | Some cents \<Rightarrow> ''The current estimated towing cost is $'' @ fmt_fixed 2 (of_int cents / 100)
          @ ''; confirm official fees.'')"
| "answer_for SIGN_MEANING a = str_or (pa_restriction_summary a)
     (''No verified sign interpretation is attached to this location. Scan the sign '' @
      ''or read it directly before parking.'')"
| "answer_for RESIDENT_PERMIT a =
     (if pa_recommendation a = REC_DO_NOT_PARK
      then ''The available evidence does not support parking here without valid permission.''
      else str_or (pa_restriction_summary a)
        ''No verified resident-only restriction is attached to this location.'')"
| "answer_for INTENT_TOWING_RISK a =
     ''The parking score is '' @ int_str (pa_score a) @ ''/100 with risk level '' @
     replace_char (CHR ''_'') (CHR '' '') (risk_value (pa_risk_level a)) @ ''.''"
| "answer_for PARKING_LEGALITY a = legality_answer (pa_recommendation a)"

section \<open>The endpoint\<close>

record assistant_request =
  ar_question :: string
  ar_latitude :: pyfloat
  ar_longitude :: pyfloat
  ar_has_resident_permit :: bool

definition assistant_request_ok :: "assistant_request \<Rightarrow> bool" where
  "assistant_request_ok q \<longleftrightarrow> 2 \<le> length (ar_question q) \<and> length (ar_question q) \<le> 500
     \<and> fbetween (-90) (ar_latitude q) 90 \<and> fbetween (-180) (ar_longitude q) 180"

record assistant_response =
  as_answer :: string
  as_intent :: AssistantIntent
  as_assessment :: parking_assessment

text \<open>The bounds of \<open>ParkingAssistantResponse\<close>; a response outside them is a server error.\<close>

definition assistant_response_ok :: "assistant_response \<Rightarrow> bool" where
  "assistant_response_ok r \<longleftrightarrow> 0 \<le> pa_score (as_assessment r) \<and> pa_score (as_assessment r) \<le> 100
     \<and> fbetween 0 (pa_confidence (as_assessment r)) 1"

definition assistant_response_of :: "parking_assessment \<Rightarrow> AssistantIntent \<Rightarrow> assistant_response" where
  "assistant_response_of a i = \<lparr>as_answer = answer_for i a, as_intent = i, as_assessment = a\<rparr>"

definition parking_assistant ::
  "zone_repository \<Rightarrow> http_error + user \<Rightarrow> assistant_request \<Rightarrow> http_error + assistant_response" where
  "parking_assistant zones found q =
     (case found of
        Inl e \<Rightarrow> Inl e
      | Inr _ \<Rightarrow>
          if \<not> assistant_request_ok q then Inl (http_exception 422 ''Invalid request.'')
          else (case assess zones (ar_longitude q) (ar_latitude q) (ar_has_resident_permit q) of
                  Inl _ \<Rightarrow> Inl (http_exception 500 ''Unexpected server error.'')
                | Inr a \<Rightarrow>
                    let r = assistant_response_of a (interpret_intent (ar_question q))
                    in if assistant_response_ok r then Inr r
                       else Inl (http_exception 500 ''Unexpected server error.'')))"

section \<open>Lemmas\<close>

lemma build_assessment_Inr:
  "\<exists>level. risk_level (min (max score 0) 100) = Inr level \<and>
     build_assessment score prov c rs summary cost ruleset prediction = Inr
       \<lparr>pa_score = min (max score 0) 100, pa_risk_level = level,
        pa_recommendation = recommendation (min (max score 0) 100), pa_provenance = prov,
        pa_confidence = fmin (fmax c (Fin 0)) (Fin 1), pa_reasons = rs,
        pa_restriction_summary = summary, pa_average_towing_cost_cents = cost,
        pa_ruleset_version = ruleset, pa_prediction_version = prediction,
        pa_requires_human_review = (flt c (Fin (1/2)) \<or> prov = ESTIMATED)\<rparr>"
proof -
  obtain level where "risk_level (min (max score 0) 100) = Inr level"
    using risk_level_total [of "min (max score 0) 100"] by auto
  then show ?thesis by (simp add: build_assessment_def Let_def)
qed

lemma built_sel:
  assumes "build_assessment score prov c rs summary cost ruleset prediction = Inr a"
  shows "pa_score a = min (max score 0) 100" "pa_recommendation a = recommendation (min (max score 0) 100)"
    "pa_provenance a = prov" "pa_confidence a = fmin (fmax c (Fin 0)) (Fin 1)"
    "pa_prediction_version a = prediction" "pa_reasons a = rs"
    "pa_requires_human_review a \<longleftrightarrow> flt c (Fin (1/2)) \<or> prov = ESTIMATED"
  using assms build_assessment_Inr [of score prov c rs summary cost ruleset prediction] by auto

text \<open>A zone in which the rules forbid parking whatever its score.\<close>

definition hard_stop :: "parking_zone \<Rightarrow> bool \<Rightarrow> bool" where
  "hard_stop z permit \<longleftrightarrow> z_type z = PRIVATE_PROPERTY \<or> (z_type z = RESIDENT_ONLY \<and> \<not> permit)
     \<or> z_towing_hotspot z \<or> z_type z = ZT_TOWING_HOTSPOT"

definition ruled_score :: "parking_zone \<Rightarrow> bool \<Rightarrow> int" where
  "ruled_score z permit =
     (if z_type z = PRIVATE_PROPERTY then 0
      else if z_type z = RESIDENT_ONLY \<and> \<not> permit then 10
      else if hard_stop z permit then min (z_parking_score z) 20 else z_parking_score z)"

lemma assess_zone:
  assumes "coordinates_ok lon lat" and "at_location zones lon lat False = Some z"
  shows "\<exists>rs. rs \<noteq> [] \<and> assess zones lon lat permit =
     ruled (assistant_context (Some z) permit) (ruled_score z permit) rs"
proof -
  have "\<exists>rs. rs \<noteq> [] \<and> evaluate_rules (assistant_context (Some z) permit) =
      Some (ruled (assistant_context (Some z) permit) (ruled_score z permit) rs)"
    by (auto simp: evaluate_rules_def assistant_context_def evidence_score_def Let_def official_stop_def
        ruled_score_def hard_stop_def split: prod.splits if_splits)
  with assms show ?thesis by (auto simp: assess_def map_decision_def)
qed

lemma assess_no_zone:
  assumes "coordinates_ok lon lat" and "at_location zones lon lat False = None"
  shows "assess zones lon lat permit = predict (assistant_context None permit)"
  using assms by (simp add: assess_def map_decision_def evaluate_rules_def assistant_context_def)

lemma assess_cases:
  assumes "assess zones lon lat permit = Inr a"
  obtains (covered) z where "coordinates_ok lon lat" "at_location zones lon lat False = Some z"
      "pa_score a = min (max (ruled_score z permit) 0) 100"
      "pa_recommendation a = recommendation (pa_score a)" "pa_provenance a = z_provenance z"
      "pa_prediction_version a = None" "pa_reasons a \<noteq> []"
      "pa_confidence a = fmin (fmax (context_confidence (assistant_context (Some z) permit)) (Fin 0)) (Fin 1)"
      "pa_requires_human_review a \<longleftrightarrow>
         flt (context_confidence (assistant_context (Some z) permit)) (Fin (1/2)) \<or> z_provenance z = ESTIMATED"
  | (uncovered) "coordinates_ok lon lat" "at_location zones lon lat False = None" "pa_score a = 50"
      "pa_recommendation a = REC_DO_NOT_PARK" "pa_provenance a = AI_PREDICTION"
      "pa_confidence a = Fin (35/100)" "pa_requires_human_review a" "pa_reasons a \<noteq> []"
      "pa_prediction_version a = Some baseline_version"
proof -
  have ok: "coordinates_ok lon lat" using assms by (auto simp: assess_def map_decision_def split: if_splits)
  show ?thesis
  proof (cases "at_location zones lon lat False")
    case None
    then have p: "predict (assistant_context None permit) = Inr a" using assess_no_zone [OF ok] assms by simp
    then have b: "build_assessment 50 AI_PREDICTION (Fin (35/100))
        [''No verified zone covers this location; this is a conservative estimate.''] None None ruleset_version
        (Some baseline_version) = Inr a"
      by (simp add: predict_def assistant_context_def Let_def)
    show ?thesis
      by (rule that(2) [OF ok None]) (simp_all add: built_sel [OF b] recommendation_def fmin_def fmax_def)
  next
    case (Some z)
    obtain rs where rs: "rs \<noteq> []"
      and b: "ruled (assistant_context (Some z) permit) (ruled_score z permit) rs = Inr a"
      using assess_zone [OF ok Some] assms by metis
    have p: "context_provenance (assistant_context (Some z) permit) = z_provenance z"
      by (simp add: context_provenance_def assistant_context_def)
    show ?thesis
      by (rule that(1) [OF ok Some]) (simp_all add: built_sel [OF b [unfolded ruled_def]] p rs)
  qed
qed

lemma assess_returns: "coordinates_ok lon lat \<Longrightarrow> \<exists>a. assess zones lon lat permit = Inr a"
proof -
  assume ok: "coordinates_ok lon lat"
  show ?thesis
  proof (cases "at_location zones lon lat False")
    case None
    then show ?thesis
      using assess_no_zone [OF ok] build_assessment_Inr by (simp add: predict_def Let_def) metis
  next
    case (Some z)
    then show ?thesis using assess_zone [OF ok] build_assessment_Inr unfolding ruled_def by metis
  qed
qed

lemma recommendation_iff:
  "recommendation s = REC_PARK \<longleftrightarrow> 75 \<le> s" "recommendation s = REC_DO_NOT_PARK \<longleftrightarrow> s < 55"
  by (simp_all add: recommendation_def)

lemma assistant_answer:
  assumes "parking_assistant zones found q = Inr r"
  shows "(\<exists>u. found = Inr u) \<and> assistant_request_ok q \<and> as_intent r = interpret_intent (ar_question q)
    \<and> as_answer r = answer_for (as_intent r) (as_assessment r)
    \<and> assess zones (ar_longitude q) (ar_latitude q) (ar_has_resident_permit q) = Inr (as_assessment r)
    \<and> assistant_response_ok r"
  using assms unfolding parking_assistant_def
  by (auto simp: Let_def assistant_response_of_def split: sum.splits if_splits)

section \<open>Properties\<close>

text \<open>
  C29: the rules of the assistant outrank its prediction and are conservative. An answered question
  over a covered location carries the provenance of the zone and no prediction, recommends parking
  only from score 75 and never where a hard stop applies, which caps the score at 20 and forbids
  parking; an uncovered location gets the fixed estimate with score 50, confidence 0.35 and the
  review flag, which does not recommend parking.
\<close>

theorem assistant_is_conservative:
  assumes "parking_assistant zones found q = Inr r"
  shows "case at_location zones (ar_longitude q) (ar_latitude q) False of
      None \<Rightarrow> pa_score (as_assessment r) = 50 \<and> pa_recommendation (as_assessment r) = REC_DO_NOT_PARK
        \<and> pa_provenance (as_assessment r) = AI_PREDICTION \<and> pa_confidence (as_assessment r) = Fin (35/100)
        \<and> pa_requires_human_review (as_assessment r)
    | Some z \<Rightarrow> pa_prediction_version (as_assessment r) = None
        \<and> pa_provenance (as_assessment r) = z_provenance z
        \<and> (pa_recommendation (as_assessment r) = REC_PARK \<longrightarrow> 75 \<le> z_parking_score z)
        \<and> (hard_stop z (ar_has_resident_permit q) \<longrightarrow> pa_score (as_assessment r) \<le> 20
             \<and> pa_recommendation (as_assessment r) = REC_DO_NOT_PARK)"
proof -
  have a: "assess zones (ar_longitude q) (ar_latitude q) (ar_has_resident_permit q) = Inr (as_assessment r)"
    using assistant_answer [OF assms] by blast
  show ?thesis
  proof (cases rule: assess_cases [OF a])
    case (1 z)
    then show ?thesis
      by (auto simp: recommendation_iff ruled_score_def hard_stop_def)
  next
    case 2
    then show ?thesis by simp
  qed
qed

definition sample_driver :: user where
  "sample_driver = \<lparr>user_id = 7, email = ''a@b'', password_hash = [], user_role = USER, is_active = True,
     is_verified = True, user_created_at = 0, mfa_secret = None, mfa_enabled = False\<rparr>"

definition sample_question :: assistant_request where
  "sample_question = \<lparr>ar_question = ''Can I park here?'', ar_latitude = Fin 2, ar_longitude = Fin 1,
     ar_has_resident_permit = False\<rparr>"

lemma sample_zone_at [simp]: "at_location sample_repository lon lat e = Some sample_zone"
  by (simp add: sample_repository_def)

lemma sample_assessed:
  assumes "\<exists>u. found = Inr u"
  shows "\<exists>r. parking_assistant sample_repository found sample_question = Inr r"
proof -
  from assms obtain u where u: "found = Inr u" by blast
  have ok: "assistant_request_ok sample_question" by (simp add: assistant_request_ok_def sample_question_def)
  have co: "coordinates_ok (Fin 1) (Fin 2)" by (simp add: coordinates_ok_def)
  obtain a where a: "assess sample_repository (Fin 1) (Fin 2) False = Inr a"
    using assess_returns [OF co] by metis
  have "0 \<le> pa_score a \<and> pa_score a \<le> 100 \<and> fbetween 0 (pa_confidence a) 1"
    using a by (rule assess_cases)
      (auto simp: context_confidence_def assistant_context_def sample_zone_def fmin_def fmax_def)
  then have "assistant_response_ok (assistant_response_of a i)" for i
    by (simp add: assistant_response_ok_def assistant_response_of_def)
  then show ?thesis
    using u ok a by (simp add: parking_assistant_def sample_question_def Let_def)
qed

theorem assistant_is_conservative_witness:
  "\<exists>r. parking_assistant sample_repository (Inr sample_driver) sample_question = Inr r
     \<and> pa_prediction_version (as_assessment r) = None \<and> pa_provenance (as_assessment r) = OFFICIAL"
proof -
  obtain r where r: "parking_assistant sample_repository (Inr sample_driver) sample_question = Inr r"
    using sample_assessed by blast
  from assistant_is_conservative [OF r] show ?thesis using r by (auto simp: sample_zone_def)
qed

text \<open>
  C30: the assistant against the parking decision, over a zone without a schedule. The decision is
  indeterminate exactly if the evidence is not official or its confidence is below 0.9, which the
  assistant does not ask. Where the decision is determinate, the assistant recommends parking exactly if
  it is \<open>PARK\<close>, forbids parking whenever it does, and urges caution only where it does, so that below
  score 55 the assistant is the stricter of the two. Whatever the evidence, the assistant recommends
  parking exactly from score 75 where no hard stop applies, also where the decision is indeterminate.
\<close>

theorem assistant_agrees_with_static_decision:
  assumes "at_location zones lon lat False = Some z"
    and "z_temporal_rules z = []" and "\<not> z_temporal_schedule_required z"
    and "assess zones lon lat permit = Inr a"
    and "evaluate_at tzdb zones lon lat permit t = Inr d"
  shows "(outcome d = OUT_INDETERMINATE \<longleftrightarrow> z_provenance z \<noteq> OFFICIAL \<or> flt (z_confidence z) (Fin (9/10)))
    \<and> (outcome d \<noteq> OUT_INDETERMINATE \<longrightarrow>
         (pa_recommendation a = REC_PARK \<longleftrightarrow> outcome d = OUT_PARK)
       \<and> (outcome d = OUT_DO_NOT_PARK \<longrightarrow> pa_recommendation a = REC_DO_NOT_PARK)
       \<and> (pa_recommendation a = REC_CAUTION \<longrightarrow> outcome d = OUT_CAUTION))
    \<and> (pa_recommendation a = REC_PARK \<longleftrightarrow> \<not> hard_stop z permit \<and> 75 \<le> z_parking_score z)"
  using assms(4)
proof (cases rule: assess_cases)
  case (covered z')
  then have z: "z' = z" using assms(1) by simp
  have none: "temporal_decision tzdb z t = Inr None" using assms(2,3) by (simp add: temporal_decision_def)
  have d: "d = (if z_provenance z \<noteq> OFFICIAL \<or> flt (z_confidence z) (Fin (9/10))
      then indeterminate CS_UNVERIFIABLE_SOURCE RC_UNVERIFIABLE_SOURCE
        ''Parking evidence for this location is not verified for a decision.'' t (Some z)
      else from_verified_zone z permit t)"
    using assms(5) unfolding evaluate_at_def map_decision_def
    by (auto simp: covered(1) assms(1) none split: if_splits)
  have r: "pa_recommendation a = recommendation (min (max (ruled_score z permit) 0) 100)"
    using covered(3,4) z by simp
  have park: "pa_recommendation a = REC_PARK \<longleftrightarrow> \<not> hard_stop z permit \<and> 75 \<le> z_parking_score z"
    unfolding r by (auto simp: recommendation_iff ruled_score_def hard_stop_def)
  have out: "outcome d = OUT_INDETERMINATE \<longleftrightarrow> z_provenance z \<noteq> OFFICIAL \<or> flt (z_confidence z) (Fin (9/10))"
    unfolding d by simp
  have static: "(pa_recommendation a = REC_PARK \<longleftrightarrow> outcome d = OUT_PARK)
      \<and> (outcome d = OUT_DO_NOT_PARK \<longrightarrow> pa_recommendation a = REC_DO_NOT_PARK)
      \<and> (pa_recommendation a = REC_CAUTION \<longrightarrow> outcome d = OUT_CAUTION)" if "outcome d \<noteq> OUT_INDETERMINATE"
  proof -
    have d: "d = from_verified_zone z permit t" using that out d by simp
    show ?thesis unfolding d r
      by (auto simp: from_verified_zone_def recommendation_def ruled_score_def hard_stop_def)
  qed
  from out static park show ?thesis by blast
next
  case uncovered
  with assms(1) show ?thesis by simp
qed

lemma sample_static_decision:
  "evaluate_at utc_only sample_repository (Fin 1) (Fin 2) False 5 =
     Inr (from_verified_zone sample_zone False 5)"
  by (simp add: evaluate_at_def map_decision_def coordinates_ok_def temporal_decision_def sample_zone_def)

definition community_zone :: parking_zone where
  "community_zone = sample_zone\<lparr>z_provenance := COMMUNITY_VERIFIED, z_parking_score := 90\<rparr>"

definition community_repository :: zone_repository where
  "community_repository = sample_repository\<lparr>at_location := (\<lambda>_ _ _. Some community_zone)\<rparr>"

lemma community_zone_at [simp]: "at_location community_repository lon lat e = Some community_zone"
  by (simp add: community_repository_def)

text \<open>Over a community report of score 90 the assistant recommends parking where the decision is
  indeterminate.\<close>

theorem assistant_agrees_with_static_decision_witness:
  "(\<exists>a. assess sample_repository (Fin 1) (Fin 2) False = Inr a \<and> pa_recommendation a = REC_PARK)
   \<and> (\<exists>a d. assess community_repository (Fin 1) (Fin 2) False = Inr a \<and> pa_recommendation a = REC_PARK
        \<and> evaluate_at utc_only community_repository (Fin 1) (Fin 2) False 5 = Inr d \<and> outcome d = OUT_INDETERMINATE)"
proof
  have ok: "coordinates_ok (Fin 1) (Fin 2)" by (simp add: coordinates_ok_def)
  have plain: "z_temporal_rules sample_zone = []" "\<not> z_temporal_schedule_required sample_zone"
    "z_temporal_rules community_zone = []" "\<not> z_temporal_schedule_required community_zone"
    by (simp_all add: sample_zone_def community_zone_def)
  obtain a where a: "assess sample_repository (Fin 1) (Fin 2) False = Inr a" using assess_returns [OF ok] by blast
  have "outcome (from_verified_zone sample_zone False 5) = OUT_PARK"
    by (simp add: from_verified_zone_def sample_zone_def)
  with assistant_agrees_with_static_decision [OF sample_zone_at plain(1,2) a sample_static_decision] a
  show "\<exists>a. assess sample_repository (Fin 1) (Fin 2) False = Inr a \<and> pa_recommendation a = REC_PARK" by simp
  obtain b where b: "assess community_repository (Fin 1) (Fin 2) False = Inr b" using assess_returns [OF ok] by blast
  obtain d where d: "evaluate_at utc_only community_repository (Fin 1) (Fin 2) False 5 = Inr d"
    by (simp add: evaluate_at_def map_decision_def ok community_zone_def sample_zone_def)
  have "z_provenance community_zone \<noteq> OFFICIAL" "75 \<le> z_parking_score community_zone" "\<not> hard_stop community_zone False"
    by (simp_all add: community_zone_def sample_zone_def hard_stop_def)
  with assistant_agrees_with_static_decision [OF community_zone_at plain(3,4) b d] b d
  show "\<exists>a d. assess community_repository (Fin 1) (Fin 2) False = Inr a \<and> pa_recommendation a = REC_PARK
      \<and> evaluate_at utc_only community_repository (Fin 1) (Fin 2) False 5 = Inr d \<and> outcome d = OUT_INDETERMINATE"
    by blast
qed

section \<open>What the assistant does not see\<close>

text \<open>The temporal rules of a zone: during an active \<open>DO_NOT_PARK\<close> rule the decision forbids parking
  while the assistant recommends it.\<close>

lemma assistant_ignores_schedules:
  assumes "coordinates_ok lon lat" and "at_location zones lon lat False = Some z"
    and "z_provenance z = OFFICIAL" and "\<not> flt (z_confidence z) (Fin (9/10))"
    and "\<not> hard_stop z permit" and "75 \<le> z_parking_score z"
    and "z_temporal_rules z = [rule]" and "rule_active tzdb t rule" and "effect rule = EFF_DO_NOT_PARK"
  shows "\<exists>a d. assess zones lon lat permit = Inr a \<and> pa_recommendation a = REC_PARK
    \<and> evaluate_at tzdb zones lon lat permit t = Inr d \<and> outcome d = OUT_DO_NOT_PARK"
proof -
  obtain a where a: "assess zones lon lat permit = Inr a" using assess_returns [OF assms(1)] by blast
  from a have "pa_recommendation a = REC_PARK"
    using assms(2,5,6) by (cases rule: assess_cases) (auto simp: recommendation_iff ruled_score_def hard_stop_def)
  moreover have "active_rules tzdb z t [rule] [] = Inr [rule]"
    using assms(8) by (rule active_rule_listed)
  ultimately show ?thesis
    using a assms by (simp add: evaluate_at_def map_decision_def temporal_decision_def outcome_of_value_def)
qed

text \<open>A confidence of zero: it is replaced by one half, and the review flag is not set.\<close>

lemma zero_confidence_becomes_half:
  assumes "coordinates_ok lon lat" and "at_location zones lon lat False = Some z"
    and "z_confidence z = Fin 0" and "z_provenance z \<noteq> ESTIMATED"
  shows "\<exists>a. assess zones lon lat permit = Inr a \<and> pa_confidence a = Fin (1/2) \<and> \<not> pa_requires_human_review a"
proof -
  obtain a where a: "assess zones lon lat permit = Inr a" using assess_returns [OF assms(1)] by blast
  then show ?thesis
    by (rule assess_cases)
       (use a assms in \<open>auto simp: context_confidence_def assistant_context_def fmin_def fmax_def\<close>)
qed

end
