(* ===== verification/Recommendations.thy ===== *)
theory Recommendations
  imports Ingestion_Examples "HOL-Library.Product_Lexorder"
begin

text \<open>
  Nearby parking (\<open>app/modules/recommendations/\<close> and
  \<open>app/presentation/api/routes/recommendations.py\<close>): the candidates of the two repositories, the
  weighted ranking, the price ceiling and the endpoint. The arithmetic of doubles is a record of
  rounded operations, distances on the earth are parameters. The facility table is the one the
  municipal imports write.
\<close>

section \<open>Rounded arithmetic\<close>

text \<open>The four operations on finite doubles.\<close>

record float_ops =
  fo_add :: "rat \<Rightarrow> rat \<Rightarrow> rat"
  fo_sub :: "rat \<Rightarrow> rat \<Rightarrow> rat"
  fo_mul :: "rat \<Rightarrow> rat \<Rightarrow> rat"
  fo_div :: "rat \<Rightarrow> rat \<Rightarrow> rat"

text \<open>IEEE 754 rounds the exact result to a nearest double, so every operation is monotone, and a
  result that is a double is returned as it is.\<close>

definition ieee_ops :: "float_ops \<Rightarrow> bool" where
  "ieee_ops fo \<longleftrightarrow>
     (\<forall>a a' b b'. a \<le> a' \<longrightarrow> b \<le> b' \<longrightarrow> fo_add fo a b \<le> fo_add fo a' b')
     \<and> (\<forall>a b b'. b \<le> b' \<longrightarrow> fo_sub fo a b' \<le> fo_sub fo a b)
     \<and> (\<forall>a a' k. 0 \<le> k \<longrightarrow> a \<le> a' \<longrightarrow> fo_mul fo a k \<le> fo_mul fo a' k)
     \<and> (\<forall>a a' k. 0 < k \<longrightarrow> a \<le> a' \<longrightarrow> fo_div fo a k \<le> fo_div fo a' k)
     \<and> fo_mul fo 0 100 = 0 \<and> fo_mul fo 1 100 = 100"

definition exact_ops :: float_ops where
  "exact_ops = \<lparr>fo_add = (+), fo_sub = (-), fo_mul = (*), fo_div = (/)\<rparr>"

text \<open>The operations on all floats, by a positive constant where there is a product or quotient.\<close>

fun fl_add :: "float_ops \<Rightarrow> pyfloat \<Rightarrow> pyfloat \<Rightarrow> pyfloat" where
  "fl_add fo (Fin a) (Fin b) = Fin (fo_add fo a b)"
| "fl_add fo NaN y = NaN"
| "fl_add fo x NaN = NaN"
| "fl_add fo PInf NInf = NaN"
| "fl_add fo NInf PInf = NaN"
| "fl_add fo PInf y = PInf"
| "fl_add fo x PInf = PInf"
| "fl_add fo NInf y = NInf"
| "fl_add fo x NInf = NInf"

fun fl_one_minus :: "float_ops \<Rightarrow> pyfloat \<Rightarrow> pyfloat" where
  "fl_one_minus fo (Fin a) = Fin (fo_sub fo 1 a)"
| "fl_one_minus fo PInf = NInf"
| "fl_one_minus fo NInf = PInf"
| "fl_one_minus fo NaN = NaN"

fun fl_mul :: "float_ops \<Rightarrow> pyfloat \<Rightarrow> rat \<Rightarrow> pyfloat" where
  "fl_mul fo (Fin a) k = Fin (fo_mul fo a k)"
| "fl_mul fo x k = x"

fun fl_div :: "float_ops \<Rightarrow> pyfloat \<Rightarrow> rat \<Rightarrow> pyfloat" where
  "fl_div fo (Fin a) k = Fin (fo_div fo a k)"
| "fl_div fo x k = x"

text \<open>\<open>round\<close> raises on the special values.\<close>

fun py_round :: "pyfloat \<Rightarrow> int option" where
  "py_round (Fin r) = Some (round_half_even r)"
| "py_round _ = None"

section \<open>Facilities\<close>

record parking_facility =
  fc_id :: uuid
  fc_name :: string
  fc_address :: string
  fc_latitude :: pyfloat
  fc_longitude :: pyfloat
  fc_hourly_price_cents :: "int option"
  fc_safety_score :: int
  fc_towing_incidents :: pyfloat
  fc_rating :: "pyfloat option"
  fc_available_spaces :: "int option"
  fc_capacity :: "int option"
  fc_navigation_url :: string
  fc_provenance :: provenance
  fc_confidence :: pyfloat
  fc_observed_at :: instant
  fc_expires_at :: "instant option"

record parking_candidate =
  cd_facility :: parking_facility
  cd_walking_distance :: rat

record parking_recommendation =
  rc_facility :: parking_facility
  rc_walking_distance :: int
  rc_ranking_score :: int
  rc_reasons :: "string list"

text \<open>\<open>nearby\<close> of the port; \<open>None\<close> is an exception.\<close>

type_synonym facility_repository =
  "pyfloat \<Rightarrow> pyfloat \<Rightarrow> int \<Rightarrow> int \<Rightarrow> parking_candidate list option"

section \<open>Repositories\<close>

definition facility_current :: "instant \<Rightarrow> instant option \<Rightarrow> bool" where
  "facility_current now expires = (case expires of None \<Rightarrow> True | Some e \<Rightarrow> e > now)"

text \<open>\<open>_distance\<close> is a trigonometric formula over doubles: the parameter \<open>metres\<close>.\<close>

definition inmem_nearby ::
  "(pyfloat \<Rightarrow> pyfloat \<Rightarrow> parking_facility \<Rightarrow> rat) \<Rightarrow> parking_facility list \<Rightarrow> instant \<Rightarrow> facility_repository" where
  "inmem_nearby metres facilities now longitude latitude radius limit =
     (let candidates = map (\<lambda>f. \<lparr>cd_facility = f, cd_walking_distance = metres latitude longitude f\<rparr>)
            (filter (\<lambda>f. facility_current now (fc_expires_at f)) facilities)
      in Some (slice_to limit (sort_key cd_walking_distance
            (filter (\<lambda>c. cd_walking_distance c \<le> of_int radius) candidates))))"

record 'g facility_geo =
  fg_distance :: "'g \<Rightarrow> pyfloat \<Rightarrow> pyfloat \<Rightarrow> rat"
  fg_within :: "'g \<Rightarrow> pyfloat \<Rightarrow> pyfloat \<Rightarrow> int \<Rightarrow> bool"
  fg_latitude :: "'g \<Rightarrow> pyfloat"
  fg_longitude :: "'g \<Rightarrow> pyfloat"

definition candidate_of_row ::
  "'g facility_geo \<Rightarrow> 'g parking_facility_row \<Rightarrow> rat \<Rightarrow> parking_candidate option" where
  "candidate_of_row geo r metres =
     (case provenance_of_value (pf_provenance r) of
        None \<Rightarrow> None
      | Some prov \<Rightarrow> Some \<lparr>cd_facility =
          \<lparr>fc_id = pf_id r, fc_name = pf_name r, fc_address = pf_address r,
           fc_latitude = fg_latitude geo (pf_location r), fc_longitude = fg_longitude geo (pf_location r),
           fc_hourly_price_cents = pf_hourly_price_cents r, fc_safety_score = pf_safety_score r,
           fc_towing_incidents = pf_towing_incidents r, fc_rating = pf_rating r,
           fc_available_spaces = pf_available_spaces r, fc_capacity = pf_capacity r,
           fc_navigation_url = pf_navigation_url r, fc_provenance = prov, fc_confidence = pf_confidence r,
           fc_observed_at = pf_observed_at r, fc_expires_at = pf_expires_at r\<rparr>,
          cd_walking_distance = metres\<rparr>)"

definition sql_nearby ::
  "'g facility_geo \<Rightarrow> 'g parking_facility_row list \<Rightarrow> instant \<Rightarrow> facility_repository" where
  "sql_nearby geo rows now longitude latitude radius limit =
     (let metres = (\<lambda>r. fg_distance geo (pf_location r) longitude latitude);
          selected = slice_to limit (sort_key metres
            (filter (\<lambda>r. fg_within geo (pf_location r) longitude latitude radius
                         \<and> facility_current now (pf_expires_at r)) rows))
      in those (map (\<lambda>r. candidate_of_row geo r (metres r)) selected))"

section \<open>Ranking\<close>

text \<open>\<open>max_hourly_price_cents or 5000\<close>: a cap of zero counts as none.\<close>

definition price_reference :: "int option \<Rightarrow> int" where
  "price_reference cap = (case cap of None \<Rightarrow> 5000 | Some c \<Rightarrow> if c = 0 then 5000 else c)"

definition at_least_zero :: "pyfloat \<Rightarrow> pyfloat" where "at_least_zero x = fmax (Fin 0) x"

definition distance_part :: "float_ops \<Rightarrow> rat \<Rightarrow> int \<Rightarrow> pyfloat" where
  "distance_part fo metres radius = at_least_zero (fl_one_minus fo (fl_div fo (Fin metres) (of_int radius)))"

definition price_part :: "float_ops \<Rightarrow> int option \<Rightarrow> int option \<Rightarrow> pyfloat" where
  "price_part fo price cap =
     (case price of
        None \<Rightarrow> Fin (1/2)
      | Some p \<Rightarrow> at_least_zero (fl_one_minus fo
          (fl_div fo (Fin (of_int p)) (of_int (max (price_reference cap) 1)))))"

definition towing_part :: "float_ops \<Rightarrow> pyfloat \<Rightarrow> pyfloat" where
  "towing_part fo incidents = at_least_zero (fl_one_minus fo (fl_div fo incidents 50))"

definition rating_part :: "float_ops \<Rightarrow> pyfloat option \<Rightarrow> pyfloat" where
  "rating_part fo rating = (case rating of None \<Rightarrow> Fin (1/2) | Some r \<Rightarrow> fl_div fo r 5)"

definition availability_part :: "float_ops \<Rightarrow> int option \<Rightarrow> int option \<Rightarrow> pyfloat" where
  "availability_part fo available capacity =
     (case (available, capacity) of
        (Some a, Some c) \<Rightarrow> if c > 0 then fl_div fo (Fin (of_int a)) (of_int c) else Fin (1/2)
      | _ \<Rightarrow> Fin (1/2))"

definition unit_clamp :: "pyfloat \<Rightarrow> pyfloat" where "unit_clamp x = fmin (fmax x (Fin 0)) (Fin 1)"

definition weighted_score :: "float_ops \<Rightarrow> parking_candidate \<Rightarrow> int \<Rightarrow> int option \<Rightarrow> pyfloat" where
  "weighted_score fo c radius cap =
     (let f = cd_facility c;
          safety = fl_div fo (Fin (of_int (fc_safety_score f))) 100;
          distance = distance_part fo (cd_walking_distance c) radius;
          price = price_part fo (fc_hourly_price_cents f) cap;
          towing = towing_part fo (fc_towing_incidents f);
          rating = rating_part fo (fc_rating f);
          availability = availability_part fo (fc_available_spaces f) (fc_capacity f)
      in fl_add fo (fl_add fo (fl_add fo (fl_add fo (fl_add fo
           (fl_mul fo safety (40/100)) (fl_mul fo distance (20/100)))
           (fl_mul fo price (15/100))) (fl_mul fo towing (15/100)))
           (fl_mul fo rating (5/100))) (fl_mul fo (unit_clamp availability) (5/100)))"

definition price_reason :: "int option \<Rightarrow> string" where
  "price_reason price =
     (case price of
        None \<Rightarrow> ''Current price is not verified; confirm before parking.''
      | Some p \<Rightarrow> if p = 0 then ''Listed as free parking.''
          else ''Listed at $'' @ fmt_fixed 2 (of_int p / 100) @ '' per hour.'')"

definition towing_reason :: "pyfloat \<Rightarrow> string list" where
  "towing_reason incidents =
     (if fle incidents (Fin 5) then [''Low historical towing frequency.'']
      else if fle (Fin 25) incidents then [''Elevated historical towing frequency.''] else [])"

definition rank_candidate ::
  "float_ops \<Rightarrow> int \<Rightarrow> int option \<Rightarrow> parking_candidate \<Rightarrow> parking_recommendation option" where
  "rank_candidate fo radius cap c =
     (let f = cd_facility c; metres = round_half_even (cd_walking_distance c) in
      case py_round (fl_mul fo (unit_clamp (weighted_score fo c radius cap)) 100) of
        None \<Rightarrow> None
      | Some score \<Rightarrow> Some
          \<lparr>rc_facility = f, rc_walking_distance = metres, rc_ranking_score = score,
           rc_reasons = [''Safety score '' @ int_str (fc_safety_score f) @ ''/100.'',
               ''About '' @ int_str metres @ '' meters away.'',
               price_reason (fc_hourly_price_cents f)] @ towing_reason (fc_towing_incidents f)\<rparr>)"

definition ranking_key :: "parking_recommendation \<Rightarrow> int \<times> int \<times> string" where
  "ranking_key r = (- rc_ranking_score r, rc_walking_distance r, fc_name (rc_facility r))"

definition within_ceiling :: "int option \<Rightarrow> parking_candidate \<Rightarrow> bool" where
  "within_ceiling cap c =
     (case cap of
        None \<Rightarrow> True
      | Some m \<Rightarrow> (case fc_hourly_price_cents (cd_facility c) of None \<Rightarrow> False | Some p \<Rightarrow> p \<le> m))"

definition nearby_recommendations ::
  "float_ops \<Rightarrow> facility_repository \<Rightarrow> pyfloat \<Rightarrow> pyfloat \<Rightarrow> int \<Rightarrow> int option \<Rightarrow> int \<Rightarrow>
     parking_recommendation list option" where
  "nearby_recommendations fo repo longitude latitude radius cap limit =
     (case repo longitude latitude radius (min (max (limit * 5) 20) 100) of
        None \<Rightarrow> None
      | Some candidates \<Rightarrow>
          (case those (map (rank_candidate fo radius cap) (filter (within_ceiling cap) candidates)) of
             None \<Rightarrow> None
           | Some ranked \<Rightarrow> Some (slice_to limit (sort_key ranking_key ranked))))"

section \<open>The endpoint\<close>

record recommendation_request =
  rq_latitude :: pyfloat
  rq_longitude :: pyfloat
  rq_radius :: int
  rq_ceiling :: "int option"
  rq_limit :: int

definition recommendation_request_ok :: "recommendation_request \<Rightarrow> bool" where
  "recommendation_request_ok q \<longleftrightarrow> fbetween (-90) (rq_latitude q) 90 \<and> fbetween (-180) (rq_longitude q) 180
     \<and> 100 \<le> rq_radius q \<and> rq_radius q \<le> 5000
     \<and> (case rq_ceiling q of None \<Rightarrow> True | Some c \<Rightarrow> 0 \<le> c \<and> c \<le> 100000)
     \<and> 1 \<le> rq_limit q \<and> rq_limit q \<le> 20"

definition recommendation_response_ok :: "parking_recommendation \<Rightarrow> bool" where
  "recommendation_response_ok r \<longleftrightarrow> (let f = rc_facility r in
     0 \<le> fc_safety_score f \<and> fc_safety_score f \<le> 100 \<and> fle (Fin 0) (fc_towing_incidents f)
     \<and> (case fc_rating f of None \<Rightarrow> True | Some x \<Rightarrow> fbetween 0 x 5)
     \<and> fbetween 0 (fc_confidence f) 1 \<and> 0 \<le> rc_ranking_score r \<and> rc_ranking_score r \<le> 100)"

definition route_nearby ::
  "float_ops \<Rightarrow> facility_repository \<Rightarrow> http_error + user \<Rightarrow> recommendation_request \<Rightarrow>
     http_error + parking_recommendation list" where
  "route_nearby fo repo found q =
     (case found of
        Inl e \<Rightarrow> Inl e
      | Inr _ \<Rightarrow>
          if \<not> recommendation_request_ok q then Inl (http_exception 422 ''Invalid request.'')
          else (case nearby_recommendations fo repo (rq_longitude q) (rq_latitude q) (rq_radius q)
                       (rq_ceiling q) (rq_limit q) of
                  None \<Rightarrow> Inl (http_exception 500 ''Unexpected server error.'')
                | Some rs \<Rightarrow> if list_all recommendation_response_ok rs then Inr rs
                    else Inl (http_exception 500 ''Unexpected server error.'')))"

section \<open>Monotonicity of the ranking\<close>

lemma ieee_opsD:
  assumes "ieee_ops fo"
  shows "a \<le> a' \<Longrightarrow> b \<le> b' \<Longrightarrow> fo_add fo a b \<le> fo_add fo a' b'"
    and "b \<le> b' \<Longrightarrow> fo_sub fo x b' \<le> fo_sub fo x b"
    and "0 \<le> k \<Longrightarrow> a \<le> a' \<Longrightarrow> fo_mul fo a k \<le> fo_mul fo a' k"
    and "0 < k \<Longrightarrow> a \<le> a' \<Longrightarrow> fo_div fo a k \<le> fo_div fo a' k"
    and "fo_mul fo 0 100 = 0" and "fo_mul fo 1 100 = 100"
  using assms unfolding ieee_ops_def by blast+

lemma exact_ops_ieee: "ieee_ops exact_ops"
  by (simp add: ieee_ops_def exact_ops_def mult_right_mono divide_right_mono)

lemma at_least_zero_Fin [simp]: "at_least_zero (Fin a) = Fin (max 0 a)" "at_least_zero NInf = Fin 0"
    "at_least_zero NaN = Fin 0"
  by (auto simp: at_least_zero_def fmax_def)

lemma unit_clamp_Fin [simp]: "unit_clamp (Fin a) = Fin (min (max a 0) 1)"
  by (auto simp: unit_clamp_def fmin_def fmax_def)

lemma round_half_even_mono: "a \<le> b \<Longrightarrow> round_half_even a \<le> round_half_even b"
proof -
  assume ab: "a \<le> b"
  then have f: "\<lfloor>a\<rfloor> \<le> \<lfloor>b\<rfloor>" by (rule floor_mono)
  show ?thesis
  proof (cases "\<lfloor>a\<rfloor> = \<lfloor>b\<rfloor>")
    case True
    with ab show ?thesis by (auto simp: round_half_even_def Let_def)
  next
    case False
    with f have lt: "\<lfloor>a\<rfloor> + 1 \<le> \<lfloor>b\<rfloor>" by simp
    have "round_half_even a \<le> \<lfloor>a\<rfloor> + 1" "\<lfloor>b\<rfloor> \<le> round_half_even b"
      by (auto simp: round_half_even_def Let_def)
    with lt show ?thesis by linarith
  qed
qed

text \<open>What the check constraints leave to the ranking.\<close>

definition facility_ok :: "parking_facility \<Rightarrow> bool" where
  "facility_ok f \<longleftrightarrow> 0 \<le> fc_safety_score f \<and> fc_safety_score f \<le> 100
     \<and> (fle (Fin 0) (fc_towing_incidents f) \<or> fc_towing_incidents f = NaN)
     \<and> (case fc_rating f of None \<Rightarrow> True | Some x \<Rightarrow> fbetween 0 x 5)
     \<and> fbetween 0 (fc_confidence f) 1"

text \<open>The six parts of the score as numbers, and their weighted sum.\<close>

definition parts :: "float_ops \<Rightarrow> parking_candidate \<Rightarrow> int \<Rightarrow> int option \<Rightarrow> rat list" where
  "parts fo c radius cap = map finite_value
     [fl_div fo (Fin (of_int (fc_safety_score (cd_facility c)))) 100,
      distance_part fo (cd_walking_distance c) radius, price_part fo (fc_hourly_price_cents (cd_facility c)) cap,
      towing_part fo (fc_towing_incidents (cd_facility c)), rating_part fo (fc_rating (cd_facility c)),
      unit_clamp (availability_part fo (fc_available_spaces (cd_facility c)) (fc_capacity (cd_facility c)))]"

fun weigh :: "float_ops \<Rightarrow> rat list \<Rightarrow> rat" where
  "weigh fo [s, d, p, t, r, a] =
     fo_add fo (fo_add fo (fo_add fo (fo_add fo (fo_add fo (fo_mul fo s (40/100)) (fo_mul fo d (20/100)))
       (fo_mul fo p (15/100))) (fo_mul fo t (15/100))) (fo_mul fo r (5/100))) (fo_mul fo a (5/100))"
| "weigh fo _ = 0"

lemma towing_part_Fin:
  "fle (Fin 0) x \<or> x = NaN \<Longrightarrow> \<exists>q. towing_part fo x = Fin q"
  by (cases x) (auto simp: towing_part_def fle_def)

lemma rating_part_Fin:
  assumes "case r of None \<Rightarrow> True | Some x \<Rightarrow> fbetween 0 x 5"
  shows "\<exists>q. rating_part fo r = Fin q"
proof (cases r)
  case (Some x)
  with assms obtain q where "x = Fin q" using fbetween_finite [of 0 x 5] by auto
  with Some show ?thesis by (simp add: rating_part_def)
qed (auto simp: rating_part_def intro: exI [of _ "1/2"])

lemma availability_part_Fin: "\<exists>q. availability_part fo a k = Fin q"
proof (cases "\<exists>x y. a = Some x \<and> k = Some y \<and> y > 0")
  case False
  then have "availability_part fo a k = Fin (1/2)"
    by (auto simp: availability_part_def split: option.split)
  then show ?thesis by blast
qed (auto simp: availability_part_def)

lemma price_part_Fin: "\<exists>q. price_part fo p cap = Fin q"
proof (cases p)
  case None
  then have "price_part fo p cap = Fin (1/2)" by (simp add: price_part_def)
  then show ?thesis by blast
qed (simp add: price_part_def)

lemma weighted_score_Fin:
  assumes "facility_ok (cd_facility c)"
  shows "weighted_score fo c radius cap = Fin (weigh fo (parts fo c radius cap))"
proof -
  obtain t where t: "towing_part fo (fc_towing_incidents (cd_facility c)) = Fin t"
    using assms towing_part_Fin unfolding facility_ok_def by blast
  obtain r where r: "rating_part fo (fc_rating (cd_facility c)) = Fin r"
    using assms rating_part_Fin unfolding facility_ok_def by blast
  obtain a where a: "unit_clamp (availability_part fo (fc_available_spaces (cd_facility c))
      (fc_capacity (cd_facility c))) = Fin a"
    using availability_part_Fin unit_clamp_Fin by metis
  obtain p where p: "price_part fo (fc_hourly_price_cents (cd_facility c)) cap = Fin p"
    using price_part_Fin by blast
  obtain d where d: "distance_part fo (cd_walking_distance c) radius = Fin d"
    by (simp add: distance_part_def)
  show ?thesis unfolding weighted_score_def Let_def parts_def a p d t r by simp
qed

lemma weigh_mono:
  assumes "ieee_ops fo" and "list_all2 (\<le>) xs ys" and "length xs = 6"
  shows "weigh fo xs \<le> weigh fo ys"
proof -
  from assms(3) obtain s d p t r a where xs: "xs = [s, d, p, t, r, a]"
    by (auto simp: length_Suc_conv eval_nat_numeral)
  with assms(2) obtain s' d' p' t' r' a' where ys: "ys = [s', d', p', t', r', a']"
    and le: "s \<le> s'" "d \<le> d'" "p \<le> p'" "t \<le> t'" "r \<le> r'" "a \<le> a'"
    by (auto simp: list_all2_Cons1)
  show ?thesis unfolding xs ys weigh.simps
    by (intro ieee_opsD(1,3) [OF assms(1)] le) simp_all
qed

definition optional_le :: "('a \<Rightarrow> 'a \<Rightarrow> bool) \<Rightarrow> 'a option \<Rightarrow> 'a option \<Rightarrow> bool" where
  "optional_le le x y = (case (x, y) of (Some a, Some b) \<Rightarrow> le a b | (None, None) \<Rightarrow> True | _ \<Rightarrow> False)"

text \<open>\<open>c\<close> is at least as good as \<open>c'\<close> in every respect the ranking looks at.\<close>

definition no_worse :: "parking_candidate \<Rightarrow> parking_candidate \<Rightarrow> bool" where
  "no_worse c c' \<longleftrightarrow> (let f = cd_facility c; f' = cd_facility c' in
     fc_safety_score f' \<le> fc_safety_score f \<and> cd_walking_distance c \<le> cd_walking_distance c'
     \<and> optional_le (\<le>) (fc_hourly_price_cents f) (fc_hourly_price_cents f')
     \<and> fle (fc_towing_incidents f) (fc_towing_incidents f')
     \<and> optional_le fle (fc_rating f') (fc_rating f)
     \<and> fc_capacity f = fc_capacity f' \<and> optional_le (\<le>) (fc_available_spaces f') (fc_available_spaces f))"

lemma optional_le_cases:
  assumes "optional_le le x y"
  obtains "x = None" "y = None" | a b where "x = Some a" "y = Some b" "le a b"
  using assms by (auto simp: optional_le_def split: option.splits)

lemma price_part_mono:
  assumes "ieee_ops fo" and "optional_le (\<le>) p p'"
  shows "finite_value (price_part fo p' cap) \<le> finite_value (price_part fo p cap)"
  using assms(2)
proof (cases rule: optional_le_cases)
  case (2 a b)
  let ?k = "of_int (max (price_reference cap) 1) :: rat"
  have "fo_div fo (of_int a) ?k \<le> fo_div fo (of_int b) ?k"
    by (rule ieee_opsD(4) [OF assms(1)]) (use 2(3) in simp_all)
  from ieee_opsD(2) [OF assms(1) this, of 1]
  show ?thesis by (simp add: price_part_def 2 max.coboundedI2)
qed simp

lemma towing_part_mono:
  assumes "ieee_ops fo" and "fle x y" and "fle (Fin 0) x \<or> x = NaN"
  shows "finite_value (towing_part fo y) \<le> finite_value (towing_part fo x)"
proof (cases x)
  case (Fin a)
  show ?thesis
  proof (cases y)
    case (Fin b)
    with assms(2) \<open>x = Fin a\<close> have "fo_div fo a 50 \<le> fo_div fo b 50"
      by (intro ieee_opsD(4) [OF assms(1)]) simp_all
    from ieee_opsD(2) [OF assms(1) this, of 1] show ?thesis
      by (simp add: towing_part_def \<open>x = Fin a\<close> Fin max.coboundedI2)
  qed (use assms \<open>x = Fin a\<close> in \<open>auto simp: towing_part_def fle_def\<close>)
qed (use assms in \<open>cases y; auto simp: towing_part_def fle_def\<close>)+

lemma rating_part_mono:
  assumes "ieee_ops fo" and "optional_le fle r' r" and "\<forall>x. r = Some x \<longrightarrow> fbetween 0 x 5"
    and "\<forall>x. r' = Some x \<longrightarrow> fbetween 0 x 5"
  shows "finite_value (rating_part fo r') \<le> finite_value (rating_part fo r)"
  using assms(2)
proof (cases rule: optional_le_cases)
  case (2 a b)
  obtain qa where qa: "a = Fin qa" using assms(4) 2(1) fbetween_finite [of 0 a 5] by auto
  obtain qb where qb: "b = Fin qb" using assms(3) 2(2) fbetween_finite [of 0 b 5] by auto
  note q = qa qb
  from 2(3) have "fo_div fo qa 5 \<le> fo_div fo qb 5" unfolding q by (intro ieee_opsD(4) [OF assms(1)]) simp_all
  then show ?thesis by (simp add: rating_part_def 2 q)
qed simp

lemma availability_part_mono:
  assumes "ieee_ops fo" and "optional_le (\<le>) a' a"
  shows "finite_value (unit_clamp (availability_part fo a' cap')) \<le> finite_value (unit_clamp (availability_part fo a cap'))"
  using assms(2)
proof (cases rule: optional_le_cases)
  case (2 x y)
  show ?thesis
  proof (cases cap')
    case (Some k)
    show ?thesis
    proof (cases "k > 0")
      case True
      have "fo_div fo (of_int x) (of_int k) \<le> fo_div fo (of_int y) (of_int k)"
        by (rule ieee_opsD(4) [OF assms(1)]) (use True 2(3) in simp_all)
      then show ?thesis by (auto simp: availability_part_def 2 Some True min_def max_def)
    qed (simp add: availability_part_def 2 Some)
  qed (simp add: availability_part_def 2)
qed simp

lemma parts_mono:
  assumes fo: "ieee_ops fo" and better: "no_worse c c'" and radius: "0 < radius"
    and ok: "facility_ok (cd_facility c)" "facility_ok (cd_facility c')"
  shows "list_all2 (\<le>) (parts fo c' radius cap) (parts fo c radius cap)"
proof -
  note b = better [unfolded no_worse_def Let_def]
  have s: "fo_div fo (of_int (fc_safety_score (cd_facility c'))) 100
      \<le> fo_div fo (of_int (fc_safety_score (cd_facility c))) 100"
    by (rule ieee_opsD(4) [OF fo]) (use b in simp_all)
  have "fo_div fo (cd_walking_distance c) (of_int radius) \<le> fo_div fo (cd_walking_distance c') (of_int radius)"
    by (rule ieee_opsD(4) [OF fo]) (use b radius in simp_all)
  from ieee_opsD(2) [OF fo this, of 1]
  have d: "finite_value (distance_part fo (cd_walking_distance c') radius)
      \<le> finite_value (distance_part fo (cd_walking_distance c) radius)"
    by (simp add: distance_part_def max.coboundedI2)
  have r: "finite_value (rating_part fo (fc_rating (cd_facility c')))
      \<le> finite_value (rating_part fo (fc_rating (cd_facility c)))"
    by (rule rating_part_mono [OF fo]) (use b ok in \<open>auto simp: facility_ok_def\<close>)
  have t: "finite_value (towing_part fo (fc_towing_incidents (cd_facility c')))
      \<le> finite_value (towing_part fo (fc_towing_incidents (cd_facility c)))"
    by (rule towing_part_mono [OF fo]) (use b ok in \<open>auto simp: facility_ok_def\<close>)
  have "fc_capacity (cd_facility c') = fc_capacity (cd_facility c)" using b by simp
  then show ?thesis
    using s d r t price_part_mono [OF fo, of _ _ cap] availability_part_mono [OF fo] b
    by (simp add: parts_def)
qed

lemma rank_candidate_ok:
  assumes "facility_ok (cd_facility c)"
  shows "\<exists>r. rank_candidate fo radius cap c = Some r \<and> rc_facility r = cd_facility c
     \<and> rc_walking_distance r = round_half_even (cd_walking_distance c)
     \<and> rc_ranking_score r = round_half_even (fo_mul fo (min (max (weigh fo (parts fo c radius cap)) 0) 1) 100)"
  by (simp add: rank_candidate_def Let_def weighted_score_Fin [OF assms])

lemma ranking_score_bounds:
  assumes "ieee_ops fo" and "facility_ok (cd_facility c)" and "rank_candidate fo radius cap c = Some r"
  shows "0 \<le> rc_ranking_score r \<and> rc_ranking_score r \<le> 100"
proof -
  let ?w = "min (max (weigh fo (parts fo c radius cap)) 0) 1"
  have "fo_mul fo 0 100 \<le> fo_mul fo ?w 100" "fo_mul fo ?w 100 \<le> fo_mul fo 1 100"
    by (rule ieee_opsD(3) [OF assms(1)]; simp)+
  then have "of_int 0 \<le> fo_mul fo ?w 100" "fo_mul fo ?w 100 \<le> of_int 100"
    by (simp_all add: ieee_opsD(5,6) [OF assms(1)])
  from round_half_even_bounds [OF this] show ?thesis
    using rank_candidate_ok [OF assms(2), of fo radius cap] assms(3) by auto
qed

text \<open>
  C32: the ranking is monotone. Of two facilities within the constraints of the table, one that is at
  least as safe, as near, as cheap, as rarely towed at, as well rated and, with the same capacity,
  as available never gets the lower ranking score, for any arithmetic that rounds monotonically.
\<close>

theorem ranking_is_monotone:
  assumes "ieee_ops fo" and "no_worse c c'" and "0 < radius"
    and "facility_ok (cd_facility c)" and "facility_ok (cd_facility c')"
  shows "\<exists>r r'. rank_candidate fo radius cap c = Some r \<and> rank_candidate fo radius cap c' = Some r'
    \<and> rc_ranking_score r' \<le> rc_ranking_score r
    \<and> 0 \<le> rc_ranking_score r' \<and> rc_ranking_score r \<le> 100"
proof -
  obtain r where r: "rank_candidate fo radius cap c = Some r"
    and s: "rc_ranking_score r = round_half_even (fo_mul fo (min (max (weigh fo (parts fo c radius cap)) 0) 1) 100)"
    using rank_candidate_ok [OF assms(4)] by blast
  obtain r' where r': "rank_candidate fo radius cap c' = Some r'"
    and s': "rc_ranking_score r' = round_half_even (fo_mul fo (min (max (weigh fo (parts fo c' radius cap)) 0) 1) 100)"
    using rank_candidate_ok [OF assms(5)] by blast
  have "weigh fo (parts fo c' radius cap) \<le> weigh fo (parts fo c radius cap)"
    by (rule weigh_mono [OF assms(1) parts_mono [OF assms(1,2,3,4,5)]]) (simp add: parts_def)
  then have "min (max (weigh fo (parts fo c' radius cap)) 0) 1 \<le> min (max (weigh fo (parts fo c radius cap)) 0) 1"
    by (auto simp: min_def max_def)
  from round_half_even_mono [OF ieee_opsD(3) [OF assms(1) _ this, of 100]]
  have "rc_ranking_score r' \<le> rc_ranking_score r" unfolding s s' by simp
  with ranking_score_bounds [OF assms(1,4) r] ranking_score_bounds [OF assms(1,5) r'] r r'
  show ?thesis by blast
qed

definition sample_facility :: parking_facility where
  "sample_facility = \<lparr>fc_id = 1, fc_name = ''Garage'', fc_address = ''Main 1'', fc_latitude = Fin 2,
     fc_longitude = Fin 1, fc_hourly_price_cents = Some 300, fc_safety_score = 90,
     fc_towing_incidents = Fin 2, fc_rating = Some (Fin 4), fc_available_spaces = Some 20,
     fc_capacity = Some 100, fc_navigation_url = ''https://x'', fc_provenance = OFFICIAL,
     fc_confidence = Fin 1, fc_observed_at = 0, fc_expires_at = None\<rparr>"

lemma sample_facility_ok: "facility_ok sample_facility" "facility_ok (sample_facility\<lparr>fc_safety_score := 40\<rparr>)"
  by (simp_all add: facility_ok_def sample_facility_def)

theorem ranking_is_monotone_witness:
  "\<exists>r r'. rank_candidate exact_ops 1500 None \<lparr>cd_facility = sample_facility, cd_walking_distance = 200\<rparr> = Some r
    \<and> rank_candidate exact_ops 1500 None
        \<lparr>cd_facility = sample_facility\<lparr>fc_safety_score := 40\<rparr>, cd_walking_distance = 200\<rparr> = Some r'
    \<and> rc_ranking_score r' \<le> rc_ranking_score r \<and> 0 \<le> rc_ranking_score r' \<and> rc_ranking_score r \<le> 100"
  by (rule ranking_is_monotone [OF exact_ops_ieee])
     (simp_all add: sample_facility_ok, simp add: no_worse_def Let_def sample_facility_def optional_le_def)

section \<open>The candidates of a repository\<close>

text \<open>The port: at most \<open>n\<close> of the eligible candidates, and the nearest ones: a candidate is left out
  only when \<open>n\<close> facilities of the table (\<open>crowd\<close> counts them) are eligible and no farther away.\<close>

locale facility_source =
  fixes repo :: facility_repository
    and eligible :: "pyfloat \<Rightarrow> pyfloat \<Rightarrow> int \<Rightarrow> parking_candidate \<Rightarrow> bool"
    and crowd :: "pyfloat \<Rightarrow> pyfloat \<Rightarrow> int \<Rightarrow> rat \<Rightarrow> nat"
  assumes served: "repo lon lat radius n = Some cs \<Longrightarrow> 0 \<le> n \<Longrightarrow> c \<in> set cs \<Longrightarrow> eligible lon lat radius c"
    and complete: "repo lon lat radius n = Some cs \<Longrightarrow> 0 \<le> n \<Longrightarrow> eligible lon lat radius c \<Longrightarrow>
      c \<in> set cs \<or> nat n \<le> crowd lon lat radius (cd_walking_distance c)"
begin

lemma ranked_result:
  assumes result: "nearby_recommendations fo repo lon lat radius cap limit = Some rs" and limit: "1 \<le> limit"
  shows "int (length rs) \<le> limit \<and> sorted (map ranking_key rs)
    \<and> (\<forall>r \<in> set rs. \<exists>c. eligible lon lat radius c \<and> within_ceiling cap c \<and> rank_candidate fo radius cap c = Some r)
    \<and> (\<forall>c r. eligible lon lat radius c \<longrightarrow> within_ceiling cap c \<longrightarrow> rank_candidate fo radius cap c = Some r \<longrightarrow>
         r \<in> set rs \<or> (int (length rs) = limit \<and> (\<forall>x \<in> set rs. ranking_key x \<le> ranking_key r))
         \<or> nat (min (max (limit * 5) 20) 100) \<le> crowd lon lat radius (cd_walking_distance c))"
proof -
  let ?n = "min (max (limit * 5) 20) 100"
  let ?rank = "rank_candidate fo radius cap"
  obtain cs ranked where cs: "repo lon lat radius ?n = Some cs"
    and some: "those (map ?rank (filter (within_ceiling cap) cs)) = Some ranked"
    and rs: "rs = slice_to limit (sort_key ranking_key ranked)"
    using result unfolding nearby_recommendations_def by (auto split: option.splits)
  have ranked: "map ?rank (filter (within_ceiling cap) cs) = map Some ranked"
    by (rule iffD1 [OF those_Some some])
  have n: "0 \<le> ?n" by simp
  have rs': "rs = take (nat limit) (sort_key ranking_key ranked)" unfolding rs using limit by simp
  have len: "int (length rs) \<le> limit" unfolding rs' using limit by simp
  have sorted: "sorted (map ranking_key rs)" unfolding rs' by (rule sorted_map_take) simp
  have from_ranked: "\<exists>c \<in> set cs. within_ceiling cap c \<and> ?rank c = Some r" if "r \<in> set ranked" for r
  proof -
    from that have "Some r \<in> set (map ?rank (filter (within_ceiling cap) cs))" unfolding ranked by simp
    then show ?thesis by force
  qed
  have sound: "\<exists>c. eligible lon lat radius c \<and> within_ceiling cap c \<and> ?rank c = Some r" if "r \<in> set rs" for r
  proof -
    have "r \<in> set ranked" using that unfolding rs' by (auto dest: in_set_takeD)
    from from_ranked [OF this] served [OF cs n] show ?thesis by blast
  qed
  have all: "r \<in> set rs \<or> (int (length rs) = limit \<and> (\<forall>x \<in> set rs. ranking_key x \<le> ranking_key r))
         \<or> nat ?n \<le> crowd lon lat radius (cd_walking_distance c)"
    if c: "eligible lon lat radius c" "within_ceiling cap c" "?rank c = Some r" for c r
  proof (cases "c \<in> set cs")
    case True
    with c have "Some r \<in> set (map ?rank (filter (within_ceiling cap) cs))" by force
    then have "r \<in> set ranked" unfolding ranked by auto
    from take_sort_complete [OF this, of "nat limit" ranking_key] show ?thesis
      using limit unfolding rs' by auto
  next
    case False
    with complete [OF cs n c(1)] show ?thesis by blast
  qed
  from len sorted sound all show ?thesis by blast
qed

end

definition sql_eligible ::
  "'g facility_geo \<Rightarrow> 'g parking_facility_row list \<Rightarrow> instant \<Rightarrow> pyfloat \<Rightarrow> pyfloat \<Rightarrow> int \<Rightarrow> parking_candidate \<Rightarrow> bool" where
  "sql_eligible geo rows now lon lat radius c \<longleftrightarrow> (\<exists>r \<in> set rows. fg_within geo (pf_location r) lon lat radius
     \<and> facility_current now (pf_expires_at r)
     \<and> candidate_of_row geo r (fg_distance geo (pf_location r) lon lat) = Some c)"

lemma candidate_of_row_distance: "candidate_of_row geo r m = Some c \<Longrightarrow> cd_walking_distance c = m"
  by (auto simp: candidate_of_row_def split: option.splits)

text \<open>The rows of the table that meet the request at no more than the given distance.\<close>

definition sql_crowd ::
  "'g facility_geo \<Rightarrow> 'g parking_facility_row list \<Rightarrow> instant \<Rightarrow> pyfloat \<Rightarrow> pyfloat \<Rightarrow> int \<Rightarrow> rat \<Rightarrow> nat" where
  "sql_crowd geo rows now lon lat radius d = length (filter (\<lambda>r. fg_distance geo (pf_location r) lon lat \<le> d)
     (filter (\<lambda>r. fg_within geo (pf_location r) lon lat radius \<and> facility_current now (pf_expires_at r)) rows))"

lemma full_page_crowds:
  assumes "length (take n (sort_key f xs)) = n" and "\<forall>y \<in> set (take n (sort_key f xs)). f y \<le> d"
  shows "n \<le> length (filter (\<lambda>y. f y \<le> d) xs)"
proof -
  let ?ys = "sort_key f xs"
  have "n = length (filter (\<lambda>y. f y \<le> d) (take n ?ys))" using assms by simp
  also have "\<dots> \<le> length (filter (\<lambda>y. f y \<le> d) (take n ?ys @ drop n ?ys))" by (simp only: filter_append length_append)
  also have "\<dots> = length (filter (\<lambda>y. f y \<le> d) ?ys)" by simp
  also have "\<dots> = length (filter (\<lambda>y. f y \<le> d) xs)" by (simp add: filter_sort)
  finally show ?thesis .
qed

interpretation sql_facilities: facility_source "sql_nearby geo rows now" "sql_eligible geo rows now"
    "sql_crowd geo rows now"
  for geo rows now
proof
  fix lon lat radius n cs c
  assume res: "sql_nearby geo rows now lon lat radius n = Some cs" and n: "0 \<le> n"
  let ?m = "\<lambda>r. fg_distance geo (pf_location r) lon lat"
  let ?e = "filter (\<lambda>r. fg_within geo (pf_location r) lon lat radius \<and> facility_current now (pf_expires_at r)) rows"
  let ?sel = "take (nat n) (sort_key ?m ?e)"
  have sel: "map (\<lambda>r. candidate_of_row geo r (?m r)) ?sel = map Some cs"
    using those_Some res n unfolding sql_nearby_def Let_def slice_to_nonneg [OF n] by blast
  have origin: "\<exists>r \<in> set ?sel. candidate_of_row geo r (?m r) = Some x" if "x \<in> set cs" for x
  proof -
    from that have "Some x \<in> set (map (\<lambda>r. candidate_of_row geo r (?m r)) ?sel)" unfolding sel by simp
    then show ?thesis by force
  qed
  have sub: "set ?sel \<subseteq> set ?e" by (auto dest: in_set_takeD)
  show "sql_eligible geo rows now lon lat radius c" if "c \<in> set cs"
    using origin [OF that] sub unfolding sql_eligible_def by auto
  show "c \<in> set cs \<or> nat n \<le> sql_crowd geo rows now lon lat radius (cd_walking_distance c)"
    if e: "sql_eligible geo rows now lon lat radius c"
  proof -
    from e obtain r where r: "r \<in> set ?e" "candidate_of_row geo r (?m r) = Some c"
      unfolding sql_eligible_def by auto
    from take_sort_complete [OF r(1), of "nat n" ?m] show ?thesis
    proof
      assume "r \<in> set ?sel"
      then have "Some c \<in> set (map (\<lambda>r. candidate_of_row geo r (?m r)) ?sel)" using r(2) by force
      then show ?thesis unfolding sel by auto
    next
      assume full: "length ?sel = nat n \<and> (\<forall>y \<in> set ?sel. ?m y \<le> ?m r)"
      then have "nat n \<le> length (filter (\<lambda>y. ?m y \<le> ?m r) ?e)" by (intro full_page_crowds) blast+
      then show ?thesis unfolding sql_crowd_def candidate_of_row_distance [OF r(2)] by blast
    qed
  qed
qed

definition inmem_eligible ::
  "(pyfloat \<Rightarrow> pyfloat \<Rightarrow> parking_facility \<Rightarrow> rat) \<Rightarrow> parking_facility list \<Rightarrow> instant \<Rightarrow> pyfloat \<Rightarrow> pyfloat \<Rightarrow>
     int \<Rightarrow> parking_candidate \<Rightarrow> bool" where
  "inmem_eligible metres facilities now lon lat radius c \<longleftrightarrow> cd_facility c \<in> set facilities
     \<and> facility_current now (fc_expires_at (cd_facility c))
     \<and> cd_walking_distance c = metres lat lon (cd_facility c) \<and> cd_walking_distance c \<le> of_int radius"

definition inmem_crowd ::
  "(pyfloat \<Rightarrow> pyfloat \<Rightarrow> parking_facility \<Rightarrow> rat) \<Rightarrow> parking_facility list \<Rightarrow> instant \<Rightarrow> pyfloat \<Rightarrow> pyfloat \<Rightarrow>
     int \<Rightarrow> rat \<Rightarrow> nat" where
  "inmem_crowd metres facilities now lon lat radius d = length (filter (\<lambda>c. cd_walking_distance c \<le> d)
     (filter (\<lambda>c. cd_walking_distance c \<le> of_int radius)
       (map (\<lambda>f. \<lparr>cd_facility = f, cd_walking_distance = metres lat lon f\<rparr>)
         (filter (\<lambda>f. facility_current now (fc_expires_at f)) facilities))))"

interpretation inmem_facilities: facility_source "inmem_nearby metres facilities now"
    "inmem_eligible metres facilities now" "inmem_crowd metres facilities now"
  for metres facilities now
proof
  fix lon lat radius n cs c
  assume res: "inmem_nearby metres facilities now lon lat radius n = Some cs" and n: "0 \<le> n"
  let ?all = "map (\<lambda>f. \<lparr>cd_facility = f, cd_walking_distance = metres lat lon f\<rparr>)
      (filter (\<lambda>f. facility_current now (fc_expires_at f)) facilities)"
  let ?e = "filter (\<lambda>c. cd_walking_distance c \<le> of_int radius) ?all"
  have cs: "cs = take (nat n) (sort_key cd_walking_distance ?e)"
    using res n unfolding inmem_nearby_def Let_def by simp
  have e: "c \<in> set ?e \<longleftrightarrow> inmem_eligible metres facilities now lon lat radius c" for c
    by (cases c) (auto simp: inmem_eligible_def image_iff)
  show "inmem_eligible metres facilities now lon lat radius c" if "c \<in> set cs"
    using that e unfolding cs by (metis in_set_takeD set_sort)
  show "c \<in> set cs \<or> nat n \<le> inmem_crowd metres facilities now lon lat radius (cd_walking_distance c)"
    if "inmem_eligible metres facilities now lon lat radius c"
    using take_sort_complete [of c ?e "nat n" cd_walking_distance] that e
      full_page_crowds [of "nat n" cd_walking_distance ?e "cd_walking_distance c"]
    unfolding cs inmem_crowd_def by blast
qed

section \<open>Answers of the endpoint\<close>

lemma candidate_of_row_ok:
  "facility_constraints r \<Longrightarrow> candidate_of_row geo r m = Some c \<Longrightarrow> facility_ok (cd_facility c)"
  by (auto simp: candidate_of_row_def facility_constraints_def facility_ok_def split: option.splits)

lemma sql_eligible_ok:
  "\<forall>r \<in> set rows. facility_constraints r \<Longrightarrow> sql_eligible geo rows now lon lat radius c \<Longrightarrow> facility_ok (cd_facility c)"
  unfolding sql_eligible_def using candidate_of_row_ok by blast

lemma sql_nearby_total:
  assumes "\<forall>r \<in> set rows. provenance_of_value (pf_provenance r) \<noteq> None" and "0 \<le> n"
  shows "\<exists>cs. sql_nearby geo rows now lon lat radius n = Some cs"
  using assms unfolding sql_nearby_def Let_def
  by (intro those_total) (auto simp: candidate_of_row_def dest!: in_set_takeD split: option.splits)

lemma nearby_total:
  assumes "\<forall>r \<in> set rows. provenance_of_value (pf_provenance r) \<noteq> None"
    and "\<forall>r \<in> set rows. facility_constraints r"
  shows "\<exists>rs. nearby_recommendations fo (sql_nearby geo rows now) lon lat radius cap limit = Some rs"
proof -
  let ?n = "min (max (limit * 5) 20) 100"
  obtain cs where cs: "sql_nearby geo rows now lon lat radius ?n = Some cs"
    using sql_nearby_total [OF assms(1), of ?n geo now lon lat radius] by (auto simp: le_max_iff_disj)
  have "\<forall>x \<in> set (map (rank_candidate fo radius cap) (filter (within_ceiling cap) cs)). x \<noteq> None"
    using sql_facilities.served [OF cs] sql_eligible_ok [OF assms(2)] rank_candidate_ok by fastforce
  from those_total [OF this] show ?thesis by (auto simp: nearby_recommendations_def cs)
qed

lemma route_nearby_Inr:
  assumes "route_nearby fo repo found q = Inr rs"
  shows "(\<exists>u. found = Inr u) \<and> recommendation_request_ok q \<and> list_all recommendation_response_ok rs
    \<and> nearby_recommendations fo repo (rq_longitude q) (rq_latitude q) (rq_radius q) (rq_ceiling q) (rq_limit q) = Some rs"
  using assms unfolding route_nearby_def by (auto split: sum.splits option.splits if_splits)

section \<open>The facility table\<close>

text \<open>What every row of the table satisfies that the municipal imports have written.\<close>

definition facility_row_ok :: "'g parking_facility_row \<Rightarrow> bool" where
  "facility_row_ok r \<longleftrightarrow> facility_constraints r \<and> fbetween 0 (pf_towing_incidents r) 1000
     \<and> (\<exists>p. pf_provenance r = provenance_value p)"

definition facilities_ok :: "'g municipal_tables \<Rightarrow> bool" where
  "facilities_ok t \<longleftrightarrow> (\<forall>r \<in> set (mt_facilities t). facility_row_ok r)"

lemma commit_facilities_ok:
  assumes "sql_commit_import ge x b n t = Some t'" and "import_contract env n"
    and "facilities_ok t"
  shows "facilities_ok t'"
  unfolding facilities_ok_def
proof
  fix r assume "r \<in> set (mt_facilities t')"
  with sql_commit_Some [OF assms(1)] obtain facilities where
    stored: "store_facilities ge x b (ni_facilities n) (mt_facilities t) = Some facilities" and r: "r \<in> set facilities"
    by auto
  have fs: "fbetween 0 (nf_towing_incidents f) 1000" if "f \<in> set (ni_facilities n)" for f
    using assms(2) that by (auto simp: import_contract_def list_all_iff facility_contract_def)
  from store_facilities_Some [OF stored] r have "r \<in> set (mt_facilities t) \<or> facility_constraints r
      \<and> (\<exists>f \<in> set (ni_facilities n). pf_towing_incidents r = nf_towing_incidents f)
      \<and> pf_provenance r = provenance_value (source_provenance x)" by blast
  with assms(3) fs show "facility_row_ok r" unfolding facilities_ok_def facility_row_ok_def by auto
qed

lemma import_payload_facilities_ok:
  assumes svc: "is_repository svc = sql_ingestion_repository ge" "is_connector svc = connector cn"
    and run: "import_payload svc i payload new_id received completed t = (Inr b, t')"
    and ok: "facilities_ok t"
  shows "facilities_ok t'"
proof -
  from run svc consider "t' = t" | x n where "sql_commit_import ge x b n t = Some t'" "import_contract cn n"
    by (auto simp: import_payload_def import_new_def sql_ingestion_repository_def Let_def
        dest: connector_contract split: if_splits option.splits)
  then show ?thesis
  proof cases
    case 1
    with ok show ?thesis by simp
  next
    case (2 x n)
    show ?thesis by (rule commit_facilities_ok [OF 2 ok])
  qed
qed

lemma step_facilities_ok:
  assumes svc: "is_repository (ie_service env) = sql_ingestion_repository ge" "is_connector (ie_service env) = connector cn"
    and ok: "facilities_ok (in_repo db)"
  shows "facilities_ok (in_repo (ingestion_step env q db))"
proof (cases q)
  case (CreateSource p c i a now)
  with ok svc(1) show ?thesis unfolding facilities_ok_def
    by (auto simp: route_create_source_def create_source_def ingestion_transaction_def ingestion_audit_def
        sql_ingestion_repository_def split: sum.splits option.splits prod.splits)
next
  case (ImportFeed p src up i a rec comp now)
  note keeps = import_payload_facilities_ok [OF svc _ ok]
  from ImportFeed ok show ?thesis
    by (auto dest: keeps simp: route_import_feed_def ingestion_transaction_def ingestion_audit_def split: sum.splits prod.splits)
qed

lemma imported_facilities_ok:
  assumes "ie_service env = sql_ingestion_service cn ge max_upload sha"
  shows "facilities_ok (in_repo (ingestion_history env requests empty_ingestion))"
proof -
  have svc: "is_repository (ie_service env) = sql_ingestion_repository ge" "is_connector (ie_service env) = connector cn"
    by (simp_all add: assms sql_ingestion_service_def)
  have "facilities_ok (in_repo (foldl (\<lambda>d q. ingestion_step env q d) db requests))"
    if "facilities_ok (in_repo db)" for db
    using that by (induction requests arbitrary: db) (simp_all add: step_facilities_ok [OF svc])
  from this [of empty_ingestion] show ?thesis
    unfolding ingestion_history_def by (simp add: empty_ingestion_def facilities_ok_def)
qed

text \<open>
  C31: over the facilities of any history of municipal imports every valid request of an authenticated user is
  answered, and the answer is a ranking: at most \<open>limit\<close> facilities, ordered by score, distance and
  name, each a stored facility that is current, within the radius and, under a ceiling, listed with
  a price not above it. A stored facility that meets the request is only left out when the list is
  full of facilities ranked no lower, or when the table holds as many current facilities within the
  radius and no farther away as the query fetches (five times the limit, at least 20, at most 100).
\<close>

theorem recommendations_are_ranked:
  assumes "ieee_ops fo" and "recommendation_request_ok q"
    and "ie_service env = sql_ingestion_service cn ge max_upload sha"
    and "rows = mt_facilities (in_repo (ingestion_history env requests empty_ingestion))"
  shows "\<exists>rs. route_nearby fo (sql_nearby geo rows now) (Inr u) q = Inr rs
    \<and> int (length rs) \<le> rq_limit q \<and> sorted (map ranking_key rs)
    \<and> (\<forall>r \<in> set rs. 0 \<le> rc_ranking_score r \<and> rc_ranking_score r \<le> 100
         \<and> (\<exists>c. sql_eligible geo rows now (rq_longitude q) (rq_latitude q) (rq_radius q) c
              \<and> within_ceiling (rq_ceiling q) c \<and> rc_facility r = cd_facility c
              \<and> rank_candidate fo (rq_radius q) (rq_ceiling q) c = Some r))
    \<and> (\<forall>c r. sql_eligible geo rows now (rq_longitude q) (rq_latitude q) (rq_radius q) c \<longrightarrow>
         within_ceiling (rq_ceiling q) c \<longrightarrow> rank_candidate fo (rq_radius q) (rq_ceiling q) c = Some r \<longrightarrow>
         r \<in> set rs \<or> (int (length rs) = rq_limit q \<and> (\<forall>x \<in> set rs. ranking_key x \<le> ranking_key r))
         \<or> nat (min (max (rq_limit q * 5) 20) 100)
             \<le> sql_crowd geo rows now (rq_longitude q) (rq_latitude q) (rq_radius q) (cd_walking_distance c))"
proof -
  have ok: "facility_row_ok r" if "r \<in> set rows" for r
    using imported_facilities_ok [OF assms(3), of requests] that unfolding assms(4) facilities_ok_def by blast
  have con: "\<forall>r \<in> set rows. facility_constraints r" using ok unfolding facility_row_ok_def by blast
  have prov: "\<forall>r \<in> set rows. provenance_of_value (pf_provenance r) \<noteq> None"
    using ok unfolding facility_row_ok_def by force
  have tow: "pf_towing_incidents r \<noteq> NaN" if "r \<in> set rows" for r
    using ok [OF that] fbetween_finite [of 0 "pf_towing_incidents r" 1000] unfolding facility_row_ok_def by auto
  obtain rs where rs: "nearby_recommendations fo (sql_nearby geo rows now) (rq_longitude q) (rq_latitude q)
      (rq_radius q) (rq_ceiling q) (rq_limit q) = Some rs"
    using nearby_total [OF prov con] by blast
  have limit: "1 \<le> rq_limit q" using assms(2) by (simp add: recommendation_request_ok_def)
  note ranked = sql_facilities.ranked_result [OF rs limit]
  have each: "0 \<le> rc_ranking_score r \<and> rc_ranking_score r \<le> 100 \<and> recommendation_response_ok r
      \<and> (\<exists>c. sql_eligible geo rows now (rq_longitude q) (rq_latitude q) (rq_radius q) c
           \<and> within_ceiling (rq_ceiling q) c \<and> rc_facility r = cd_facility c
           \<and> rank_candidate fo (rq_radius q) (rq_ceiling q) c = Some r)" if r: "r \<in> set rs" for r
  proof -
    from ranked r obtain c where c: "sql_eligible geo rows now (rq_longitude q) (rq_latitude q) (rq_radius q) c"
      "within_ceiling (rq_ceiling q) c" "rank_candidate fo (rq_radius q) (rq_ceiling q) c = Some r" by blast
    have ok: "facility_ok (cd_facility c)" by (rule sql_eligible_ok [OF con c(1)])
    have f: "rc_facility r = cd_facility c" using rank_candidate_ok [OF ok, of fo "rq_radius q" "rq_ceiling q"] c(3) by auto
    have b: "0 \<le> rc_ranking_score r \<and> rc_ranking_score r \<le> 100"
      by (rule ranking_score_bounds [OF assms(1) ok c(3)])
    show ?thesis
    proof (intro conjI)
      have "fc_towing_incidents (cd_facility c) \<noteq> NaN"
        using c(1) tow unfolding sql_eligible_def by (auto simp: candidate_of_row_def split: option.splits)
      with ok b show "recommendation_response_ok r"
        unfolding recommendation_response_ok_def Let_def f facility_ok_def by blast
    qed (use b c f in blast)+
  qed
  have "list_all recommendation_response_ok rs" using each by (simp add: list_all_iff)
  then have "route_nearby fo (sql_nearby geo rows now) (Inr u) q = Inr rs"
    using assms(2) rs by (simp add: route_nearby_def)
  with ranked each show ?thesis by blast
qed

section \<open>A feed of one facility\<close>

definition garage_row :: csv_row where
  "garage_row = \<lparr>row_fields = [(''external_id'', Some ''g''), (''name'', Some ''Garage''), (''address'', Some ''Main 1''),
     (''latitude'', Some ''4''), (''longitude'', Some ''4''), (''safety_score'', Some ''4''),
     (''towing_incidents_per_1000'', Some ''4''), (''navigation_url'', Some ''https://a.b''),
     (''observed_at'', Some ''0001-01-05T00:00:00Z'')], row_extra = []\<rparr>"

definition garage_env :: connector_env where
  "garage_env = feed_env\<lparr>cn_utf8 := (\<lambda>_. Some []), cn_csv := (\<lambda>_. Some (required_fields, Some [garage_row])),
     cn_float := (\<lambda>_. Some (Fin 4))\<rparr>"

definition garage :: normalized_facility where
  "garage = \<lparr>nf_external_id = ''g'', nf_name = ''Garage'', nf_address = ''Main 1'', nf_latitude = Fin 4,
     nf_longitude = Fin 4, nf_hourly_price_cents = None, nf_safety_score = 4, nf_towing_incidents = Fin 4,
     nf_rating = None, nf_available_spaces = None, nf_capacity = None, nf_navigation_url = ''https://a.b'',
     nf_observed_at = Aware (- 719158 * day), nf_expires_at = None\<rparr>"

lemma garage_fields:
  "field_text garage_row ''external_id'' = ''g''" "field_text garage_row ''name'' = ''Garage''"
  "field_text garage_row ''address'' = ''Main 1''" "field_text garage_row ''latitude'' = ''4''"
  "field_text garage_row ''longitude'' = ''4''" "field_text garage_row ''safety_score'' = ''4''"
  "field_text garage_row ''towing_incidents_per_1000'' = ''4''"
  "field_text garage_row ''navigation_url'' = ''https://a.b''"
  "field_text garage_row ''observed_at'' = ''0001-01-05T00:00:00Z''" "field_text garage_row ''expires_at'' = []"
  "field_text garage_row ''hourly_price_cents'' = []" "field_text garage_row ''rating'' = []"
  "field_text garage_row ''capacity'' = []" "field_text garage_row ''available_spaces'' = []"
  by (simp_all add: field_text_def garage_row_def py_strip_def is_space_def)

lemma garage_read: "facility_of_row garage_env garage_row = Some garage"
  by (simp add: facility_of_row_def required_def garage_fields bounded_text_def float_field_def int_field_def
      float_between_def int_between_def py_int_four datetime_field_def optional_int_def optional_float_def
      garage_env_def feed_env_def utc_codec_def feed_texts timestamps_ok_def garage_def Let_def)

definition garage_ingestion :: "unit municipal_tables ingestion_env" where
  "garage_ingestion = \<lparr>ie_enabled = True, ie_service = sql_ingestion_service garage_env feed_geo 10 (\<lambda>_. ''d''),
     ie_sha_text = (\<lambda>_. ''h'')\<rparr>"

definition garage_command :: source_command where
  "garage_command = feed_command\<lparr>sc_feed_kind := PARKING_FACILITIES, sc_data_format := CSV\<rparr>"

definition garage_import :: normalized_import where
  "garage_import = \<lparr>ni_input_count = 1, ni_zones = [], ni_facilities = [garage], ni_rejected = []\<rparr>"

definition garage_requests :: "ingestion_request list" where
  "garage_requests = [CreateSource (Inr sample_admin) garage_command 5 6 0,
     ImportFeed (Inr sample_admin) 5 [1] 7 8 1 2 2]"

lemma garage_parsed: "parse_facilities garage_env payload = Some garage_import"
proof -
  have "accept_row garage_env garage_row [] = Some garage" by (simp add: accept_row_def garage_read)
  then show ?thesis
    by (simp add: parse_facilities_def garage_env_def [THEN arg_cong [of _ _ cn_utf8]]
        garage_env_def [THEN arg_cong [of _ _ cn_csv]] garage_import_def max_records_def)
qed

lemma garage_source:
  "in_repo (ingestion_step garage_ingestion (CreateSource (Inr sample_admin) garage_command 5 6 0) empty_ingestion) =
     (in_repo empty_ingestion)\<lparr>mt_sources := [new_source garage_command 5 0]\<rparr>"
proof -
  have "source_refusal (ie_service garage_ingestion) garage_command = None"
    by (simp add: source_refusal_def garage_ingestion_def sql_ingestion_service_def garage_command_def feed_command_def
        connector_def validate_url_def garage_env_def feed_env_def feed_strip)
  then show ?thesis
    by (simp add: route_create_source_def ingestion_actor_def create_source_def ingestion_transaction_def
        ingestion_audit_def source_command_ok_def)
      (simp add: garage_ingestion_def sql_ingestion_service_def sql_ingestion_repository_def garage_command_def
        feed_command_def empty_ingestion_def)
qed

lemma garage_imported:
  assumes "t = (in_repo empty_ingestion)\<lparr>mt_sources := [new_source garage_command 5 0]\<rparr>"
  shows "\<exists>b t'. import_payload (ie_service garage_ingestion) 5 [1] 7 1 2 t = (Inr b, t') \<and> length (mt_facilities t') = 1"
  by (simp add: assms import_payload_def import_new_def garage_ingestion_def sql_ingestion_service_def
      sql_ingestion_repository_def empty_ingestion_def Let_def new_source_def garage_command_def feed_command_def
      connector_def garage_parsed sql_commit_import_def upsert_facility_def garage_import_def feed_geo_def
      facility_constraints_def facility_row_of_def garage_def)

lemma garage_stored:
  "length (mt_facilities (in_repo (ingestion_history garage_ingestion garage_requests empty_ingestion))) = 1"
proof -
  let ?db = "ingestion_step garage_ingestion (CreateSource (Inr sample_admin) garage_command 5 6 0) empty_ingestion"
  obtain b t' where i: "import_payload (ie_service garage_ingestion) 5 [1] 7 1 2 (in_repo ?db) = (Inr b, t')"
    and n: "length (mt_facilities t') = 1" using garage_imported [OF garage_source] by blast
  have max: "is_max_upload (ie_service garage_ingestion) = 10"
    by (simp add: garage_ingestion_def sql_ingestion_service_def)
  have "ingestion_actor garage_ingestion (Inr sample_admin) = Inr sample_admin"
    by (simp add: ingestion_actor_def garage_ingestion_def)
  with i have "in_repo (ingestion_step garage_ingestion (ImportFeed (Inr sample_admin) 5 [1] 7 8 1 2 2) ?db) = t'"
    by (simp add: route_import_feed_def max ingestion_transaction_def ingestion_audit_def)
  with n show ?thesis by (simp add: ingestion_history_def garage_requests_def)
qed

definition nearby_geo :: "unit facility_geo" where
  "nearby_geo = \<lparr>fg_distance = (\<lambda>_ _ _. 200), fg_within = (\<lambda>_ _ _ _. True), fg_latitude = (\<lambda>_. Fin 4),
     fg_longitude = (\<lambda>_. Fin 4)\<rparr>"

definition nearby_request :: recommendation_request where
  "nearby_request = \<lparr>rq_latitude = Fin 4, rq_longitude = Fin 4, rq_radius = 1500, rq_ceiling = None, rq_limit = 5\<rparr>"

theorem recommendations_are_ranked_witness:
  "\<exists>rows rs. rows = mt_facilities (in_repo (ingestion_history garage_ingestion garage_requests empty_ingestion))
    \<and> length rows = 1
    \<and> route_nearby exact_ops (sql_nearby nearby_geo rows 3) (Inr sample_admin) nearby_request = Inr rs
    \<and> int (length rs) \<le> 5 \<and> sorted (map ranking_key rs)"
proof -
  have q: "recommendation_request_ok nearby_request"
    by (simp add: recommendation_request_ok_def nearby_request_def fbetween_def fle_def)
  have limit: "rq_limit nearby_request = 5" by (simp add: nearby_request_def)
  have svc: "ie_service garage_ingestion = sql_ingestion_service garage_env feed_geo 10 (\<lambda>_. ''d'')"
    by (simp add: garage_ingestion_def)
  from recommendations_are_ranked [OF exact_ops_ieee q svc refl, of nearby_geo garage_requests 3 sample_admin]
  show ?thesis using garage_stored limit by auto
qed

end
