(* ===== verification/Parking_Http.thy ===== *)
theory Parking_Http
  imports Parking_Source Ingestion_Examples
begin

text \<open>
  The endpoints of the parking map and of the parking decision
  (\<open>app/presentation/api/routes/parking.py\<close>) with the bounds of their contracts
  (\<open>app/modules/parking/schemas.py\<close>). A response that its contract refuses, like every other
  exception the route does not name, is a server error. \<open>json.loads\<close> is a parameter.
\<close>

section \<open>Zones of the map\<close>

record zone_view =
  zv_id :: string
  zv_name :: string
  zv_zone_type :: zone_type
  zv_geometry :: "(string \<times> json) list"
  zv_parking_score :: int
  zv_risk_level :: RiskLevel
  zv_provenance :: provenance
  zv_confidence :: pyfloat
  zv_restriction_summary :: "string option"
  zv_average_towing_cost_cents :: "int option"
  zv_towing_hotspot :: bool
  zv_observed_at :: instant
  zv_expires_at :: "instant option"

definition zone_view_ok :: "zone_view \<Rightarrow> bool" where
  "zone_view_ok v \<longleftrightarrow> 0 \<le> zv_parking_score v \<and> zv_parking_score v \<le> 100 \<and> fbetween 0 (zv_confidence v) 1
     \<and> (case zv_average_towing_cost_cents v of None \<Rightarrow> True | Some c \<Rightarrow> 0 \<le> c)"

definition zone_response :: "(string \<Rightarrow> json option) \<Rightarrow> parking_zone \<Rightarrow> zone_view option" where
  "zone_response loads z =
     (case (loads (z_geometry_geojson z), risk_level (z_parking_score z)) of
        (Some (JObject g), Inr level) \<Rightarrow>
          let v = \<lparr>zv_id = uuid_str (z_id z), zv_name = z_name z, zv_zone_type = z_type z, zv_geometry = g,
             zv_parking_score = z_parking_score z, zv_risk_level = level, zv_provenance = z_provenance z,
             zv_confidence = z_confidence z, zv_restriction_summary = z_restriction_summary z,
             zv_average_towing_cost_cents = z_average_towing_cost_cents z,
             zv_towing_hotspot = z_towing_hotspot z, zv_observed_at = z_observed_at z,
             zv_expires_at = z_expires_at z\<rparr>
          in if zone_view_ok v then Some v else None
      | _ \<Rightarrow> None)"

definition server_error :: http_error where
  "server_error = http_exception 500 ''Unexpected server error.''"

record viewport_query =
  vq_west :: pyfloat
  vq_south :: pyfloat
  vq_east :: pyfloat
  vq_north :: pyfloat
  vq_limit :: int

definition viewport_query_ok :: "viewport_query \<Rightarrow> bool" where
  "viewport_query_ok q \<longleftrightarrow> fbetween (-180) (vq_west q) 180 \<and> fbetween (-90) (vq_south q) 90
     \<and> fbetween (-180) (vq_east q) 180 \<and> fbetween (-90) (vq_north q) 90 \<and> 1 \<le> vq_limit q \<and> vq_limit q \<le> 1000"

definition route_viewport ::
  "(string \<Rightarrow> json option) \<Rightarrow> zone_repository \<Rightarrow> http_error + user \<Rightarrow> viewport_query \<Rightarrow>
     http_error + zone_view list" where
  "route_viewport loads zones found q =
     (case found of
        Inl e \<Rightarrow> Inl e
      | Inr _ \<Rightarrow>
          if \<not> viewport_query_ok q then Inl (http_exception 422 ''Invalid request.'')
          else (case viewport zones (vq_west q) (vq_south q) (vq_east q) (vq_north q) (vq_limit q) of
                  Inl (InvalidViewportError m) \<Rightarrow> Inl (http_exception 422 m)
                | Inl _ \<Rightarrow> Inl server_error
                | Inr listed \<Rightarrow>
                    (case those (map (zone_response loads) listed) of
                       None \<Rightarrow> Inl server_error
                     | Some views \<Rightarrow> Inr views)))"

record legacy_decision =
  ld_covered :: bool
  ld_message :: string
  ld_zone :: "zone_view option"

text \<open>The deprecated query names no exception at all.\<close>

definition route_legacy_decision ::
  "(string \<Rightarrow> json option) \<Rightarrow> zone_repository \<Rightarrow> http_error + user \<Rightarrow> pyfloat \<Rightarrow> pyfloat \<Rightarrow>
     http_error + legacy_decision" where
  "route_legacy_decision loads zones found latitude longitude =
     (case found of
        Inl e \<Rightarrow> Inl e
      | Inr _ \<Rightarrow>
          if \<not> (fbetween (-90) latitude 90 \<and> fbetween (-180) longitude 180)
          then Inl (http_exception 422 ''Invalid request.'')
          else (case map_decision zones longitude latitude of
                  Inl _ \<Rightarrow> Inl server_error
                | Inr None \<Rightarrow> Inr \<lparr>ld_covered = False,
                    ld_message = ''No verified parking intelligence covers this location. Read all signs.'',
                    ld_zone = None\<rparr>
                | Inr (Some z) \<Rightarrow>
                    (case zone_response loads z of
                       None \<Rightarrow> Inl server_error
                     | Some v \<Rightarrow> Inr \<lparr>ld_covered = True,
                         ld_message = ''Parking intelligence found for this location.'', ld_zone = Some v\<rparr>)))"

section \<open>The parking decision\<close>

text \<open>\<open>ParkingTemporalRuleResponse\<close> repeats the fields of the rule under its own bounds.\<close>

definition rule_response_ok :: "temporal_rule \<Rightarrow> bool" where
  "rule_response_ok r \<longleftrightarrow> 1 \<le> length (rule_id r) \<and> length (rule_id r) \<le> 160
     \<and> 1 \<le> length (weekdays r) \<and> length (weekdays r) \<le> 7
     \<and> 1 \<le> length (rule_timezone r) \<and> length (rule_timezone r) \<le> 64
     \<and> length (exception_dates r) \<le> 366 \<and> length (not_applicable_windows r) \<le> 24
     \<and> length (special_restrictions r) \<le> 16"

record decision_evidence =
  de_zone_id :: string
  de_zone_type :: zone_type
  de_provenance :: provenance
  de_confidence :: pyfloat
  de_observed_at :: instant
  de_expires_at :: "instant option"
  de_source_id :: "string option"
  de_import_batch_id :: "string option"
  de_restriction_summary :: "string option"
  de_jurisdiction :: "string option"
  de_decision_rule_id :: "string option"
  de_temporal_rules :: "temporal_rule list"

definition at_most_chars :: "nat \<Rightarrow> string option \<Rightarrow> bool" where
  "at_most_chars n s = (case s of None \<Rightarrow> True | Some t \<Rightarrow> length t \<le> n)"

definition decision_evidence_ok :: "decision_evidence \<Rightarrow> bool" where
  "decision_evidence_ok e \<longleftrightarrow> fbetween 0 (de_confidence e) 1 \<and> at_most_chars 160 (de_jurisdiction e)
     \<and> at_most_chars 160 (de_decision_rule_id e) \<and> list_all rule_response_ok (de_temporal_rules e)"

definition evidence_of :: "parking_decision \<Rightarrow> parking_zone \<Rightarrow> decision_evidence" where
  "evidence_of d z =
     \<lparr>de_zone_id = uuid_str (z_id z), de_zone_type = z_type z, de_provenance = z_provenance z,
      de_confidence = z_confidence z, de_observed_at = z_observed_at z, de_expires_at = z_expires_at z,
      de_source_id = map_option uuid_str (z_source_id z),
      de_import_batch_id = map_option uuid_str (z_import_batch_id z),
      de_restriction_summary = z_restriction_summary z, de_jurisdiction = z_jurisdiction z,
      de_decision_rule_id = decision_rule_id d, de_temporal_rules = z_temporal_rules z\<rparr>"

record decision_view =
  dv_outcome :: decision_outcome
  dv_coverage_status :: coverage_status
  dv_reasons :: "decision_reason list"
  dv_evidence :: "decision_evidence option"
  dv_evaluated_at :: instant

definition decision_view_ok :: "decision_view \<Rightarrow> bool" where
  "decision_view_ok v \<longleftrightarrow> 1 \<le> length (dv_reasons v) \<and> length (dv_reasons v) \<le> 8
     \<and> list_all (\<lambda>r. 1 \<le> length (reason_message r) \<and> length (reason_message r) \<le> 160) (dv_reasons v)
     \<and> (case dv_evidence v of None \<Rightarrow> True | Some e \<Rightarrow> decision_evidence_ok e)"

definition decision_response :: "parking_decision \<Rightarrow> decision_view option" where
  "decision_response d =
     (let v = \<lparr>dv_outcome = outcome d, dv_coverage_status = coverage d, dv_reasons = reasons d,
        dv_evidence = map_option (evidence_of d) (decision_zone d), dv_evaluated_at = evaluated_at d\<rparr>
      in if decision_view_ok v then Some v else None)"

record decision_query =
  dq_latitude :: pyfloat
  dq_longitude :: pyfloat
  dq_accuracy :: pyfloat
  dq_located_at :: pydatetime
  dq_consent :: bool
  dq_permit :: bool

definition decision_query_ok :: "decision_query \<Rightarrow> bool" where
  "decision_query_ok q \<longleftrightarrow> fbetween (-90) (dq_latitude q) 90 \<and> fbetween (-180) (dq_longitude q) 180
     \<and> fbetween 0 (dq_accuracy q) 10000"

definition route_evaluate ::
  "(string \<Rightarrow> tz_lookup) \<Rightarrow> zone_repository \<Rightarrow> http_error + user \<Rightarrow> decision_query \<Rightarrow> instant \<Rightarrow>
     http_error + decision_view" where
  "route_evaluate tzdb zones found q clock =
     (case found of
        Inl e \<Rightarrow> Inl e
      | Inr _ \<Rightarrow>
          if \<not> decision_query_ok q then Inl (http_exception 422 ''Invalid request.'')
          else (case evaluate tzdb zones (dq_longitude q) (dq_latitude q) (dq_accuracy q) (dq_located_at q)
                       (dq_consent q) (dq_permit q) None clock of
                  Inl _ \<Rightarrow> Inl server_error
                | Inr d \<Rightarrow> (case decision_response d of None \<Rightarrow> Inl server_error | Some v \<Rightarrow> Inr v)))"

section \<open>The shape of a decision\<close>

definition reason_ok :: "decision_reason \<Rightarrow> bool" where
  "reason_ok r \<longleftrightarrow> 1 \<le> length (reason_message r) \<and> length (reason_message r) \<le> 160"

text \<open>One printable reason, the zone it speaks of, and no rule but one of that zone.\<close>

definition shaped :: "parking_decision \<Rightarrow> bool" where
  "shaped d \<longleftrightarrow> length (reasons d) = 1 \<and> list_all reason_ok (reasons d)
     \<and> (case decision_rule_id d of None \<Rightarrow> True
        | Some i \<Rightarrow> \<exists>z r. decision_zone d = Some z \<and> r \<in> set (z_temporal_rules z) \<and> i = rule_id r)"

lemma shaped_indeterminate:
  "1 \<le> length m \<Longrightarrow> length m \<le> 160 \<Longrightarrow> shaped (indeterminate c k m t z)"
  by (simp add: shaped_def indeterminate_def reason_ok_def)

lemma shaped_verified:
  "1 \<le> length m \<Longrightarrow> length m \<le> 160 \<Longrightarrow> (\<And>i. rule = Some i \<Longrightarrow> \<exists>r \<in> set (z_temporal_rules z). i = rule_id r) \<Longrightarrow>
     shaped (verified out k m z t rule)"
  by (auto simp: shaped_def verified_def reason_ok_def split: option.splits)

lemma shaped_static: "shaped (from_verified_zone z permit t)"
  unfolding from_verified_zone_def by (auto intro!: shaped_verified)

lemma shaped_early: "active_rules tzdb z t rs acc = Inl (Inr d) \<Longrightarrow> shaped d"
  by (induction rs arbitrary: acc) (auto intro: shaped_indeterminate split: tz_lookup.splits if_splits option.splits bool.splits)

lemma effect_outcome_determinate [simp]: "effect_outcome e \<noteq> OUT_INDETERMINATE"
  by (cases e) simp_all

lemma shaped_temporal:
  assumes "temporal_decision tzdb z t = Inr (Some d)"
  shows "shaped d \<and> decision_zone d = Some z"
proof (cases "outcome d = OUT_INDETERMINATE")
  case True
  have zone: "active_rules tzdb z t rs acc = Inl (Inr d) \<Longrightarrow> decision_zone d = Some z" for rs acc
    by (induction rs arbitrary: acc) (auto split: tz_lookup.splits if_splits option.splits bool.splits)
  from assms True show ?thesis
    by (auto simp: temporal_decision_def dest: shaped_early zone intro: shaped_indeterminate
        split: if_splits sum.splits option.splits)
next
  case False
  from temporal_decision_verified [OF assms this] obtain r where
    r: "first_max (\<lambda>r. effect_priority (effect r)) (filter (rule_active tzdb t) (z_temporal_rules z)) = Some r"
    and d: "d = verified (effect_outcome (effect r)) OFFICIAL_RESTRICTION
      ''Official current parking schedule applies.'' z t (Some (rule_id r))" by blast
  have "r \<in> set (z_temporal_rules z)" using first_max_in [OF r] by simp
  then show ?thesis unfolding d by (auto intro!: shaped_verified)
qed

lemma shaped_evaluate_at:
  assumes "evaluate_at tzdb zones lon lat permit t = Inr d"
  shows "shaped d \<and> (\<forall>z. decision_zone d = Some z \<longrightarrow> (\<exists>inc. at_location zones lon lat inc = Some z))"
  using assms unfolding evaluate_at_def map_decision_def map_expired_decision_def
  by (auto split: if_splits option.splits sum.splits
      dest!: shaped_temporal intro: shaped_indeterminate shaped_static)

lemma shaped_evaluate:
  assumes "evaluate tzdb zones lon lat accuracy located consent permit now clock = Inr d"
  shows "shaped d \<and> (\<forall>z. decision_zone d = Some z \<longrightarrow> (\<exists>inc. at_location zones lon lat inc = Some z))"
  using assms unfolding evaluate_def Let_def
  by (auto split: if_splits pydatetime.splits option.splits dest: shaped_evaluate_at intro: shaped_indeterminate)

section \<open>Evidence that can be published\<close>

text \<open>A zone within the bounds of the response, whose schedule the evaluation can read: no key that the
  time zone database refuses as malformed, no window with a UTC offset. The importer checks neither.\<close>

definition zone_publishable :: "(string \<Rightarrow> tz_lookup) \<Rightarrow> parking_zone \<Rightarrow> bool" where
  "zone_publishable tzdb z \<longleftrightarrow> fbetween 0 (z_confidence z) 1 \<and> at_most_chars 160 (z_jurisdiction z)
     \<and> (\<forall>r \<in> set (z_temporal_rules z). rule_response_ok r \<and> tzdb (rule_timezone r) \<noteq> TzInvalidKey
          \<and> schedule_naive r)"

lemma shaped_response:
  assumes "shaped d" and "\<And>x. decision_zone d = Some x \<Longrightarrow> zone_publishable tzdb x"
  shows "\<exists>v. decision_response d = Some v"
proof -
  have "length (reasons d) = 1" "list_all reason_ok (reasons d)"
    using assms(1) unfolding shaped_def by blast+
  moreover have "decision_evidence_ok (evidence_of d x)" if x: "decision_zone d = Some x" for x
  proof -
    have rules: "list_all rule_response_ok (z_temporal_rules x)"
      using assms(2) [OF x] unfolding zone_publishable_def by (simp add: list_all_iff)
    then have "at_most_chars 160 (decision_rule_id d)"
      using assms(1) x unfolding shaped_def at_most_chars_def
      by (auto simp: list_all_iff rule_response_ok_def split: option.splits)
    with rules assms(2) [OF x] show ?thesis
      unfolding decision_evidence_ok_def zone_publishable_def evidence_of_def by simp
  qed
  ultimately show ?thesis
    unfolding decision_response_def decision_view_ok_def Let_def reason_ok_def by (auto split: option.splits)
qed

lemma sql_row_of_location:
  "at_location (sql_zone_repository covers intersects rows now) lon lat inc = Some z \<Longrightarrow>
     \<exists>g. (g, z) \<in> set rows \<and> covers g lon lat"
  by (auto simp: sql_zone_repository_def dest: sql_at_location_Some)

text \<open>
  C34: every authenticated request within the bounds of the query is answered, with the decision of the
  service and its evidence unchanged, over a table whose zones can be published: each has a confidence
  from 0 to 1 and a jurisdiction of at most 160 characters, and each of its rules fits the response
  contract, names a well-formed time zone key (known to the database or not) and has windows without a
  UTC offset.
\<close>

theorem evaluation_is_answered:
  assumes "decision_query_ok q" and "\<forall>(g, z) \<in> set rows. zone_publishable tzdb z"
  shows "\<exists>v d. route_evaluate tzdb (sql_zone_repository covers intersects rows now) (Inr u) q clock = Inr v
    \<and> evaluate tzdb (sql_zone_repository covers intersects rows now) (dq_longitude q) (dq_latitude q)
        (dq_accuracy q) (dq_located_at q) (dq_consent q) (dq_permit q) None clock = Inr d
    \<and> dv_outcome v = outcome d \<and> dv_coverage_status v = coverage d \<and> dv_reasons v = reasons d
    \<and> length (dv_reasons v) = 1 \<and> dv_evidence v = map_option (evidence_of d) (decision_zone d)"
proof -
  let ?repo = "sql_zone_repository covers intersects rows now"
  have pub: "zone_publishable tzdb z" if "at_location ?repo lon lat inc = Some z" for lon lat inc z
    using sql_row_of_location [OF that] assms(2) by blast
  have "coordinates_ok (dq_longitude q) (dq_latitude q)"
    using assms(1) by (simp add: decision_query_ok_def coordinates_ok_def)
  from evaluate_returns [OF this, of None ?repo tzdb] obtain d where
    d: "evaluate tzdb ?repo (dq_longitude q) (dq_latitude q) (dq_accuracy q) (dq_located_at q)
      (dq_consent q) (dq_permit q) None clock = Inr d"
    using pub unfolding zone_publishable_def by fastforce
  note shape = shaped_evaluate [OF d]
  then have "\<And>x. decision_zone d = Some x \<Longrightarrow> zone_publishable tzdb x" using pub by blast
  with shape shaped_response obtain v where v: "decision_response d = Some v" by blast
  have "length (reasons d) = 1" using shape unfolding shaped_def by blast
  with v d assms(1) show ?thesis
    by (auto simp: route_evaluate_def decision_response_def Let_def split: if_splits)
qed

text \<open>
  The premises on the schedule matter: a rule whose time zone key is malformed, or whose window
  carries a UTC offset and is compared at all, makes the request a server error.
\<close>

lemma malformed_key_is_a_server_error:
  assumes "decision_query_ok q" and "dq_consent q" and "\<not> flt (Fin 20) (dq_accuracy q)"
    and "dq_located_at q = Aware loc" and "\<bar>clock - loc\<bar> \<le> 2 * minute"
    and "at_location zones (dq_longitude q) (dq_latitude q) False = Some z"
    and "z_provenance z = OFFICIAL" and "\<not> flt (z_confidence z) (Fin (9/10))"
    and "z_temporal_rules z = r # rs" and "tzdb (rule_timezone r) = TzInvalidKey"
  shows "route_evaluate tzdb zones (Inr u) q clock = Inl server_error"
  using assms
  by (simp add: route_evaluate_def evaluate_def evaluate_at_def map_decision_def temporal_decision_def Let_def
      coordinates_ok_def decision_query_ok_def maximum_accuracy_meters_def maximum_location_age_def)

lemma offset_window_is_a_server_error:
  assumes "decision_query_ok q" and "dq_consent q" and "\<not> flt (Fin 20) (dq_accuracy q)"
    and "dq_located_at q = Aware loc" and "\<bar>clock - loc\<bar> \<le> 2 * minute"
    and "at_location zones (dq_longitude q) (dq_latitude q) False = Some z"
    and "z_provenance z = OFFICIAL" and "\<not> flt (z_confidence z) (Fin (9/10))"
    and "z_temporal_rules z = r # rs" and "tzdb (rule_timezone r) = TzFound off" and "\<not> rule_invalid r"
    and "valid_until r = Some until" and "clock < aware_instant until" and "aware_instant (valid_from r) \<le> clock"
    and "local_weekday (local_wall off clock) \<in> set (weekdays r)"
    and "local_date (local_wall off clock) \<notin> set (exception_dates r)"
    and "\<not> window_naive (window r)"
  shows "route_evaluate tzdb zones (Inr u) q clock = Inl server_error"
proof -
  have "in_window (local_time (local_wall off clock)) (starts_at (window r)) (ends_at (window r)) = None"
    using assms(17) by (intro in_window_aware) (simp add: window_naive_def)
  then have "rule_applies r clock (local_wall off clock) = None"
    using assms(12-16) by (simp add: rule_applies_def)
  then have "temporal_decision tzdb z clock = Inl ParkingTypeError"
    using assms(9-11) by (simp add: temporal_decision_def)
  with assms(1-8) show ?thesis
    by (simp add: route_evaluate_def evaluate_def evaluate_at_def map_decision_def Let_def
      coordinates_ok_def decision_query_ok_def maximum_accuracy_meters_def maximum_location_age_def)
qed

text \<open>
  C33: an answer other than \<open>INDETERMINATE\<close> is given only to an authenticated user who
  consented, for a location accurate to 20 metres and at most two minutes old; it carries the
  evidence of a current official zone of the table that covers the point, of confidence at least
  0.9, and no current zone that covers the point comes before it.
\<close>

theorem answers_carry_official_evidence:
  assumes "route_evaluate tzdb (sql_zone_repository covers intersects rows now) found q clock = Inr v"
    and "dv_outcome v \<noteq> OUT_INDETERMINATE"
  shows "(\<exists>u. found = Inr u) \<and> dq_consent q \<and> fbetween 0 (dq_accuracy q) 20
    \<and> (\<exists>loc. dq_located_at q = Aware loc \<and> \<bar>clock - loc\<bar> \<le> 2 * minute)
    \<and> (\<exists>g z e. (g, z) \<in> set rows \<and> covers g (dq_longitude q) (dq_latitude q) \<and> zone_current now z
         \<and> dv_evidence v = Some e \<and> de_zone_id e = uuid_str (z_id z) \<and> de_provenance e = OFFICIAL
         \<and> fbetween (9/10) (de_confidence e) 1
         \<and> (\<forall>(g', z') \<in> set rows. covers g' (dq_longitude q) (dq_latitude q) \<longrightarrow> zone_current now z' \<longrightarrow>
              zone_key z \<le> zone_key z'))"
proof -
  let ?repo = "sql_zone_repository covers intersects rows now"
  from assms(1) obtain u d where u: "found = Inr u" and q: "decision_query_ok q"
    and d: "evaluate tzdb ?repo (dq_longitude q) (dq_latitude q) (dq_accuracy q) (dq_located_at q)
      (dq_consent q) (dq_permit q) None clock = Inr d" and v: "decision_response d = Some v"
    unfolding route_evaluate_def by (auto split: sum.splits if_splits option.splits)
  have out: "outcome d \<noteq> OUT_INDETERMINATE" and evidence: "dv_evidence v = map_option (evidence_of d) (decision_zone d)"
    and ok: "\<And>e. dv_evidence v = Some e \<Longrightarrow> decision_evidence_ok e"
    using v assms(2) unfolding decision_response_def Let_def decision_view_ok_def by (auto split: if_splits)
  note closed = decision_fail_closed [OF d out]
  from closed obtain z where z: "at_location ?repo (dq_longitude q) (dq_latitude q) False = Some z"
    "decision_zone d = Some z" "z_provenance z = OFFICIAL" "\<not> flt (z_confidence z) (Fin (9/10))" by blast
  from sql_at_location_Some z(1) obtain g where row: "(g, z) \<in> set rows" "covers g (dq_longitude q) (dq_latitude q)"
      "zone_current now z" and first: "\<forall>(g', z') \<in> set rows. covers g' (dq_longitude q) (dq_latitude q) \<and>
      (False \<or> zone_current now z') \<longrightarrow> zone_key z \<le> zone_key z'"
    unfolding sql_zone_repository_def zone_repository.simps by blast
  have "fbetween 0 (z_confidence z) 1"
    using ok evidence z(2) unfolding decision_evidence_ok_def evidence_of_def by simp
  with z(4) have conf: "fbetween (9/10) (z_confidence z) 1"
    by (auto dest!: fbetween_finite)
  have acc: "fbetween 0 (dq_accuracy q) 20"
    using q closed unfolding decision_query_ok_def by (auto dest!: fbetween_finite)
  from closed have consent: "dq_consent q"
    and fresh: "\<exists>loc. dq_located_at q = Aware loc \<and> \<bar>clock - loc\<bar> \<le> 2 * minute" by auto
  have e: "dv_evidence v = Some (evidence_of d z)" using evidence z(2) by simp
  have first': "\<forall>(g', z') \<in> set rows. covers g' (dq_longitude q) (dq_latitude q) \<longrightarrow> zone_current now z' \<longrightarrow>
      zone_key z \<le> zone_key z'" using first by blast
  have "\<exists>e. dv_evidence v = Some e \<and> de_zone_id e = uuid_str (z_id z) \<and> de_provenance e = OFFICIAL
      \<and> fbetween (9/10) (de_confidence e) 1"
    unfolding e using conf z(3) by (simp add: evidence_of_def)
  with u consent acc fresh row first' show ?thesis by blast
qed

section \<open>The viewport\<close>

lemma zone_response_score: "zone_response loads z = Some v \<Longrightarrow> zv_parking_score v = z_parking_score z"
  by (auto simp: zone_response_def Let_def split: option.splits json.splits sum.splits if_splits)

lemma viewport_rows:
  assumes "zs = sql_in_viewport intersects now rows w s e n limit" and "1 \<le> limit"
  shows "sorted (map z_parking_score zs) \<and> int (length zs) \<le> limit
    \<and> (\<forall>z \<in> set zs. \<exists>g. (g, z) \<in> set rows \<and> intersects g w s e n \<and> zone_current now z)
    \<and> (\<forall>(g, z) \<in> set rows. intersects g w s e n \<longrightarrow> zone_current now z \<longrightarrow>
         z \<in> set zs \<or> (int (length zs) = limit \<and> (\<forall>x \<in> set zs. z_parking_score x \<le> z_parking_score z)))"
proof -
  let ?c = "map snd (filter (\<lambda>(g, z). intersects g w s e n \<and> zone_current now z) rows)"
  have zs: "zs = take (nat limit) (sort_key z_parking_score ?c)"
    using assms by (simp add: sql_in_viewport_def)
  have bound: "int (length zs) \<le> limit" unfolding zs using assms(2) by simp
  have sorted: "sorted (map z_parking_score zs)" unfolding zs by (rule sorted_map_take) simp
  have sound: "\<exists>g. (g, z) \<in> set rows \<and> intersects g w s e n \<and> zone_current now z" if "z \<in> set zs" for z
    using that unfolding zs by (auto dest!: in_set_takeD) blast
  have complete: "z \<in> set zs \<or> (int (length zs) = limit \<and> (\<forall>x \<in> set zs. z_parking_score x \<le> z_parking_score z))"
    if "(g, z) \<in> set rows" "intersects g w s e n" "zone_current now z" for g z
  proof -
    have "z \<in> set ?c" using that by force
    from take_sort_complete [OF this, of "nat limit" z_parking_score] show ?thesis
      using assms(2) unfolding zs by auto
  qed
  from bound sorted sound complete show ?thesis by blast
qed

text \<open>
  C35: a viewport answer goes to an authenticated user and lists current zones of the table that
  intersect the viewport, worst score first and at most as many as asked for; a current zone that
  intersects it is left out only where the list is full of zones that score no better.
\<close>

theorem viewport_lists_the_worst_current_zones:
  assumes "route_viewport loads (sql_zone_repository covers intersects rows now) found q = Inr vs"
  shows "(\<exists>u. found = Inr u) \<and> sorted (map zv_parking_score vs) \<and> int (length vs) \<le> vq_limit q
    \<and> (\<forall>v \<in> set vs. \<exists>g z. (g, z) \<in> set rows \<and> zone_response loads z = Some v \<and> zone_current now z
         \<and> intersects g (vq_west q) (vq_south q) (vq_east q) (vq_north q))
    \<and> (\<forall>(g, z) \<in> set rows. intersects g (vq_west q) (vq_south q) (vq_east q) (vq_north q) \<longrightarrow> zone_current now z \<longrightarrow>
         (\<exists>v \<in> set vs. zone_response loads z = Some v)
         \<or> (int (length vs) = vq_limit q \<and> (\<forall>v \<in> set vs. zv_parking_score v \<le> z_parking_score z)))"
proof -
  from assms obtain u zs where u: "found = Inr u" and q: "viewport_query_ok q"
    and zs: "viewport (sql_zone_repository covers intersects rows now) (vq_west q) (vq_south q) (vq_east q)
      (vq_north q) (vq_limit q) = Inr zs" and vs: "those (map (zone_response loads) zs) = Some vs"
    unfolding route_viewport_def by (auto split: sum.splits if_splits option.splits parking_error.splits)
  have limit: "1 \<le> vq_limit q" "vq_limit q \<le> 1000" using q by (simp_all add: viewport_query_ok_def)
  then have zs': "zs = sql_in_viewport intersects now rows (vq_west q) (vq_south q) (vq_east q) (vq_north q) (vq_limit q)"
    using zs by (auto simp: viewport_def sql_zone_repository_def split: if_splits)
  note rows = viewport_rows [OF zs' limit(1)]
  have vs': "map (zone_response loads) zs = map Some vs" using vs by (simp only: those_Some)
  have len: "length vs = length zs" using arg_cong [OF vs', of length] by simp
  have each: "zone_response loads (zs ! k) = Some (vs ! k)" if "k < length zs" for k
    using arg_cong [OF vs', of "\<lambda>xs. xs ! k"] that len by simp
  have scores: "map zv_parking_score vs = map z_parking_score zs"
    by (rule nth_equalityI) (simp_all add: len zone_response_score [OF each])
  have from_view: "\<exists>z \<in> set zs. zone_response loads z = Some v" if "v \<in> set vs" for v
    using that each len by (metis in_set_conv_nth)
  have to_view: "\<exists>v \<in> set vs. zone_response loads z = Some v" if "z \<in> set zs" for z
    using that each len by (metis in_set_conv_nth)
  have below: "\<forall>v \<in> set vs. zv_parking_score v \<le> k" if "\<forall>x \<in> set zs. z_parking_score x \<le> k" for k
    using from_view that zone_response_score by metis
  show ?thesis
  proof (intro conjI ballI)
    show "sorted (map zv_parking_score vs)" unfolding scores using rows by blast
    show "\<exists>g z. (g, z) \<in> set rows \<and> zone_response loads z = Some v \<and> zone_current now z
         \<and> intersects g (vq_west q) (vq_south q) (vq_east q) (vq_north q)" if "v \<in> set vs" for v
      using from_view [OF that] rows by blast
    show "case x of (g, z) \<Rightarrow> intersects g (vq_west q) (vq_south q) (vq_east q) (vq_north q) \<longrightarrow> zone_current now z \<longrightarrow>
         (\<exists>v \<in> set vs. zone_response loads z = Some v)
         \<or> (int (length vs) = vq_limit q \<and> (\<forall>v \<in> set vs. zv_parking_score v \<le> z_parking_score z))"
      if "x \<in> set rows" for x
      using rows that to_view below unfolding len by (cases x) blast
  qed (use u rows len in auto)
qed

section \<open>Instances\<close>

definition sample_query :: decision_query where
  "sample_query = \<lparr>dq_latitude = Fin 2, dq_longitude = Fin 1, dq_accuracy = Fin 5, dq_located_at = Aware 0,
     dq_consent = True, dq_permit = False\<rparr>"

lemma sample_publishable: "zone_publishable utc_only sample_zone"
  by (simp add: zone_publishable_def sample_zone_def at_most_chars_def)

lemma sample_row_zones: "\<forall>(g, z) \<in> set sample_rows. zone_publishable utc_only z"
  using sample_publishable by (simp add: zone_publishable_def)

theorem evaluation_is_answered_witness:
  "\<exists>v. route_evaluate utc_only (sql_zone_repository (\<lambda>_ _ _. True) (\<lambda>_ _ _ _ _. True) sample_rows 0)
     (Inr sample_admin) sample_query minute = Inr v \<and> length (dv_reasons v) = 1"
proof -
  have "decision_query_ok sample_query" by (simp add: decision_query_ok_def sample_query_def)
  from evaluation_is_answered [OF this sample_row_zones] show ?thesis by blast
qed

lemma verified_response:
  assumes "decision_evidence_ok (evidence_of (verified out k m z t r) z)" "1 \<le> length m" "length m \<le> 160"
  shows "decision_response (verified out k m z t r) =
    Some \<lparr>dv_outcome = out, dv_coverage_status = VERIFIED_COVERAGE,
      dv_reasons = [\<lparr>reason_code = k, reason_message = m\<rparr>],
      dv_evidence = Some (evidence_of (verified out k m z t r) z), dv_evaluated_at = t\<rparr>"
proof -
  have "reasons (verified out k m z t r) = [\<lparr>reason_code = k, reason_message = m\<rparr>]" by (simp add: verified_def)
  with assms show ?thesis by (simp add: decision_response_def decision_view_ok_def)
qed

lemma sample_answer:
  "route_evaluate utc_only (sql_zone_repository (\<lambda>_ _ _. True) (\<lambda>_ _ _ _ _. True) sample_rows 0)
     (Inr sample_admin) sample_query minute =
   Inr \<lparr>dv_outcome = OUT_PARK, dv_coverage_status = VERIFIED_COVERAGE,
     dv_reasons = [\<lparr>reason_code = OFFICIAL_RESTRICTION,
       reason_message = ''Official parking evidence is current for this location.''\<rparr>],
     dv_evidence = Some (evidence_of (from_verified_zone sample_zone False minute) sample_zone), dv_evaluated_at = minute\<rparr>"
proof -
  let ?d = "from_verified_zone sample_zone False minute"
  have at: "at_location (sql_zone_repository (\<lambda>_ _ _. True) (\<lambda>_ _ _ _ _. True) sample_rows 0) (Fin 1) (Fin 2) False =
      Some sample_zone" by (simp add: sql_zone_repository_def sample_sql_at_location)
  have "temporal_decision utc_only sample_zone minute = Inr None" "z_provenance sample_zone = OFFICIAL"
    "z_confidence sample_zone = Fin (95/100)" by (simp_all add: temporal_decision_def sample_zone_def)
  then have "evaluate_at utc_only (sql_zone_repository (\<lambda>_ _ _. True) (\<lambda>_ _ _ _ _. True) sample_rows 0) (Fin 1) (Fin 2)
      False minute = Inr ?d"
    by (simp add: evaluate_at_def map_decision_def coordinates_ok_def at)
  then have "evaluate utc_only (sql_zone_repository (\<lambda>_ _ _. True) (\<lambda>_ _ _ _ _. True) sample_rows 0) (Fin 1) (Fin 2)
      (Fin 5) (Aware 0) True False None minute = Inr ?d"
    by (simp add: evaluate_def Let_def maximum_accuracy_meters_def maximum_location_age_def)
  then have d: "evaluate utc_only (sql_zone_repository (\<lambda>_ _ _. True) (\<lambda>_ _ _ _ _. True) sample_rows 0)
      (dq_longitude sample_query) (dq_latitude sample_query) (dq_accuracy sample_query) (dq_located_at sample_query)
      (dq_consent sample_query) (dq_permit sample_query) None minute = Inr ?d" by (simp add: sample_query_def)
  have park: "?d = verified OUT_PARK OFFICIAL_RESTRICTION
      ''Official parking evidence is current for this location.'' sample_zone minute None"
    by (simp add: from_verified_zone_def sample_zone_def)
  have "decision_evidence_ok (evidence_of ?d sample_zone)"
    unfolding park by (simp add: decision_evidence_ok_def evidence_of_def sample_zone_def at_most_chars_def verified_def)
  then have "decision_response ?d = Some \<lparr>dv_outcome = OUT_PARK, dv_coverage_status = VERIFIED_COVERAGE,
     dv_reasons = [\<lparr>reason_code = OFFICIAL_RESTRICTION,
       reason_message = ''Official parking evidence is current for this location.''\<rparr>],
     dv_evidence = Some (evidence_of ?d sample_zone), dv_evaluated_at = minute\<rparr>"
    unfolding park by (rule verified_response) simp_all
  moreover have "decision_query_ok sample_query" by (simp add: decision_query_ok_def sample_query_def)
  ultimately show ?thesis unfolding route_evaluate_def d by simp
qed

theorem answers_carry_official_evidence_witness:
  "\<exists>z (e :: decision_evidence). z \<in> snd ` set sample_rows \<and> de_zone_id e = uuid_str (z_id z) \<and> de_provenance e = OFFICIAL"
proof -
  have "OUT_PARK \<noteq> OUT_INDETERMINATE" by simp
  from answers_carry_official_evidence [OF sample_answer, unfolded decision_view.simps, OF this] obtain g z
    and e :: decision_evidence where "(g, z) \<in> set sample_rows" "de_zone_id e = uuid_str (z_id z)" "de_provenance e = OFFICIAL"
    by blast
  then show ?thesis by (metis image_eqI snd_conv)
qed

definition sample_viewport :: viewport_query where
  "sample_viewport = \<lparr>vq_west = Fin 0, vq_south = Fin 0, vq_east = Fin 1, vq_north = Fin 1, vq_limit = 1\<rparr>"

lemma sample_viewport_answer:
  "\<exists>vs. route_viewport (\<lambda>_. Some (JObject [])) (sql_zone_repository (\<lambda>_ _ _. True) (\<lambda>_ _ _ _ _. True) sample_rows 0)
     (Inr sample_admin) sample_viewport = Inr vs"
proof -
  have "sql_in_viewport (\<lambda>_ _ _ _ _. True) 0 sample_rows (Fin 0) (Fin 0) (Fin 1) (Fin 1) 1 =
      [sample_zone\<lparr>z_provenance := ESTIMATED, z_parking_score := 5\<rparr>]"
    by (simp add: sql_in_viewport_def sample_zone_def zone_current_def)
  then show ?thesis
    by (simp add: route_viewport_def viewport_query_ok_def sample_viewport_def viewport_def viewport_ok_def
        sql_zone_repository_def zone_response_def risk_level_def zone_view_ok_def Let_def)
      (simp add: sample_zone_def)
qed

theorem viewport_lists_the_worst_current_zones_witness:
  "\<exists>vs. route_viewport (\<lambda>_. Some (JObject [])) (sql_zone_repository (\<lambda>_ _ _. True) (\<lambda>_ _ _ _ _. True) sample_rows 0)
     (Inr sample_admin) sample_viewport = Inr vs \<and> sorted (map zv_parking_score vs) \<and> int (length vs) \<le> 1"
proof -
  obtain vs where vs: "route_viewport (\<lambda>_. Some (JObject []))
      (sql_zone_repository (\<lambda>_ _ _. True) (\<lambda>_ _ _ _ _. True) sample_rows 0) (Inr sample_admin) sample_viewport = Inr vs"
    using sample_viewport_answer by blast
  have "vq_limit sample_viewport = 1" by (simp add: sample_viewport_def)
  with vs viewport_lists_the_worst_current_zones [OF vs] show ?thesis by auto
qed

section \<open>Imported schedules that cannot be answered\<close>

text \<open>The connector has no bound on the texts and lists of a rule, the response has: wherever the zone
  decides, a request that reaches it is answered with a server error.\<close>

lemma connector_accepts_an_empty_rule_id:
  "\<exists>r. connector_rule feed_env ((''rule_id'', JStr []) # tl feed_rule) = Ok r \<and> \<not> rule_response_ok r"
  by (simp add: connector_rule_def feed_rule_def read_weekdays_def item_def read_window_def read_time_def
      read_instant_def read_until_def get_or_def read_each_def read_text_def read_effect_def effect_of_value_def
      schedule_ok_def feed_env_def utc_codec_def feed_texts py_int_four Let_def str_of_def rule_response_ok_def)

lemma oversized_schedule_is_a_server_error:
  assumes "decision_query_ok q" "dq_consent q" "\<not> flt (Fin 20) (dq_accuracy q)"
    and "dq_located_at q = Aware loc" "\<bar>clock - loc\<bar> \<le> 2 * minute"
    and "at_location zones (dq_longitude q) (dq_latitude q) False = Some z"
    and "r \<in> set (z_temporal_rules z)" "\<not> rule_response_ok r"
  shows "route_evaluate tzdb zones (Inr u) q clock = Inl server_error"
proof (cases "evaluate tzdb zones (dq_longitude q) (dq_latitude q) (dq_accuracy q) (dq_located_at q) (dq_consent q)
    (dq_permit q) None clock")
  case (Inl e)
  with assms(1) show ?thesis by (simp add: route_evaluate_def)
next
  case (Inr d)
  with assms have "evaluate_at tzdb zones (dq_longitude q) (dq_latitude q) (dq_permit q) clock = Inr d"
    by (auto simp: evaluate_def Let_def maximum_accuracy_meters_def maximum_location_age_def split: if_splits)
  with assms(6) have "decision_zone d = Some z"
    unfolding evaluate_at_def map_decision_def
    by (auto split: if_splits option.splits sum.splits dest: shaped_temporal)
  moreover have "\<not> decision_evidence_ok (evidence_of d z)"
    using assms(7,8) by (auto simp: decision_evidence_ok_def evidence_of_def list_all_iff)
  ultimately have "decision_response d = None"
    by (simp add: decision_response_def decision_view_ok_def Let_def)
  with Inr assms(1) show ?thesis by (simp add: route_evaluate_def)
qed

end
