(* ===== verification/Telemetry.thy ===== *)
theory Telemetry
  imports Analytics Regex
begin

text \<open>
  Request telemetry: trace contexts and spans (\<open>observability/tracing.py\<close>), the runtime that
  counts requests (\<open>observability/runtime.py\<close>) and the transport middleware around every request
  (\<open>shared/http_security.py\<close>) with its identifiers, response headers and access log. Random
  identifiers, clocks and the injected tracer are parameters. Header values are byte strings, a
  \<open>char\<close> being a byte.
\<close>

section \<open>Trace contexts\<close>

record TraceContext =
  tc_trace_id :: string
  tc_span_id :: string
  tc_sampled :: bool
  tc_parent :: "string option"

definition sampled_flag :: "bool \<Rightarrow> string" where "sampled_flag b = (if b then ''01'' else ''00'')"

definition traceparent :: "TraceContext \<Rightarrow> string" where
  "traceparent c = ''00-'' @ tc_trace_id c @ ''-'' @ tc_span_id c @ ''-'' @ sampled_flag (tc_sampled c)"

definition parent_traceparent :: "TraceContext \<Rightarrow> string option" where
  "parent_traceparent c =
     map_option (\<lambda>p. ''00-'' @ tc_trace_id c @ ''-'' @ p @ ''-'' @ sampled_flag (tc_sampled c)) (tc_parent c)"

definition is_lower_hex :: "char \<Rightarrow> bool" where "is_lower_hex = one_of ''0123456789abcdef''"

definition trace_id_pattern :: regex where "trace_id_pattern = Repeat is_lower_hex 32 (Some 32)"
definition span_id_pattern :: regex where "span_id_pattern = Repeat is_lower_hex 16 (Some 16)"

definition traceparent_pattern :: regex where
  "traceparent_pattern = seq [literal ''00-'', trace_id_pattern, literal ''-'', span_id_pattern, literal ''-'',
     any_of [literal ''00'', literal ''01'']]"

text \<open>The groups of a match are at fixed places. \<open>fresh_trace\<close> and \<open>fresh_span\<close> are the random
  identifiers.\<close>

definition trace_context :: "string option \<Rightarrow> string \<Rightarrow> string \<Rightarrow> TraceContext" where
  "trace_context header fresh_trace fresh_span =
     (let root = \<lparr>tc_trace_id = fresh_trace, tc_span_id = fresh_span, tc_sampled = True, tc_parent = None\<rparr> in
      case header of
        None \<Rightarrow> root
      | Some h \<Rightarrow>
          let s = casefold (py_strip h); trace = take 32 (drop 3 s); parent = take 16 (drop 36 s) in
          if h \<noteq> [] \<and> re_fullmatch traceparent_pattern s
             \<and> trace \<noteq> replicate 32 (CHR ''0'') \<and> parent \<noteq> replicate 16 (CHR ''0'')
          then \<lparr>tc_trace_id = trace, tc_span_id = fresh_span, tc_sampled = (drop 53 s = ''01''), tc_parent = Some parent\<rparr>
          else root)"

section \<open>Spans\<close>

record span_record =
  sp_name :: string
  sp_context :: TraceContext
  sp_started_at :: instant
  sp_ended_at :: instant
  sp_status :: string
  sp_attributes :: "(string \<times> scalar) list"
  sp_error_type :: "string option"

text \<open>\<open>InMemoryTracing._record\<close>.\<close>

definition record_span :: "nat \<Rightarrow> span_record \<Rightarrow> span_record list \<Rightarrow> span_record list" where
  "record_span max_spans sp spans =
     (let ss = spans @ [sp] in if length ss > max_spans then drop (length ss - max_spans) ss else ss)"

text \<open>The injected tracer: what \<open>start_span\<close> and the attributes give, \<open>None\<close> where one of them raises.
  What becomes of its spans is outside the program.\<close>

record otel_span =
  ot_trace_id :: string
  ot_span_id :: string
  ot_sampled :: bool

type_synonym otel_tracer = "string \<Rightarrow> string option \<Rightarrow> (string \<times> scalar) list \<Rightarrow> otel_span option"

datatype tracing_kind = MemoryTracing nat | DisabledTracing | UnavailableTracing
  | OpenTelemetryTracing otel_tracer

definition tracing_ready :: "tracing_kind \<Rightarrow> bool" where
  "tracing_ready k = (case k of UnavailableTracing \<Rightarrow> False | _ \<Rightarrow> True)"

datatype span =
    MemorySpan string TraceContext "(string \<times> scalar) list" instant bool
  | DisabledSpan TraceContext
  | OpenTelemetrySpan TraceContext

fun span_context :: "span \<Rightarrow> TraceContext" where
  "span_context (MemorySpan name c attributes started ended) = c"
| "span_context (DisabledSpan c) = c"
| "span_context (OpenTelemetrySpan c) = c"

text \<open>\<open>_OpenTelemetrySpan\<close> refuses malformed identifiers; every failure leaves a disabled span.\<close>

definition start_span ::
  "tracing_kind \<Rightarrow> string \<Rightarrow> TraceContext \<Rightarrow> (string \<times> scalar) list \<Rightarrow> instant \<Rightarrow> span" where
  "start_span k name c attributes now =
     (case k of
        MemoryTracing _ \<Rightarrow> MemorySpan name c attributes now False
      | OpenTelemetryTracing tracer \<Rightarrow>
          (case tracer name (parent_traceparent c) attributes of
             None \<Rightarrow> DisabledSpan c
           | Some s \<Rightarrow>
               if re_fullmatch trace_id_pattern (ot_trace_id s) \<and> re_fullmatch span_id_pattern (ot_span_id s)
               then OpenTelemetrySpan \<lparr>tc_trace_id = ot_trace_id s, tc_span_id = ot_span_id s,
                 tc_sampled = ot_sampled s, tc_parent = tc_parent c\<rparr>
               else DisabledSpan c)
      | _ \<Rightarrow> DisabledSpan c)"

fun end_span ::
  "tracing_kind \<Rightarrow> span \<Rightarrow> string \<Rightarrow> string option \<Rightarrow> instant \<Rightarrow> span_record list \<Rightarrow> span \<times> span_record list" where
  "end_span (MemoryTracing n) (MemorySpan name c attributes started ended) status error now spans =
     (if ended then (MemorySpan name c attributes started ended, spans)
      else (MemorySpan name c attributes started True,
        record_span n \<lparr>sp_name = name, sp_context = c, sp_started_at = started, sp_ended_at = now,
          sp_status = status, sp_attributes = attributes, sp_error_type = error\<rparr> spans))"
| "end_span k sp status error now spans = (sp, spans)"

text \<open>\<open>log_integration_failure\<close> of \<open>redaction.py\<close>: the classification of a failure and the request
  it belongs to, without its text.\<close>

record integration_log =
  il_provider :: string
  il_operation :: string
  il_error_type :: string
  il_request_id :: string
  il_correlation_id :: string
  il_trace_id :: string

definition integration_log_entry ::
  "string \<Rightarrow> string \<Rightarrow> string \<Rightarrow> string \<Rightarrow> string \<Rightarrow> string \<Rightarrow> integration_log" where
  "integration_log_entry provider operation error_type rid cid tid =
     \<lparr>il_provider = take 40 provider, il_operation = take 60 operation, il_error_type = take 80 error_type,
      il_request_id = rid, il_correlation_id = cid, il_trace_id = tid\<rparr>"

section \<open>The runtime\<close>

datatype metric_name = REQUESTS | ERRORS | LATENCY | AUTHENTICATIONS | MUNICIPAL_IMPORTS | SIGN_ANALYSES
  | PARKING_SCORE_QUERIES | COMMUNITY_EVENTS | BILLING_VERIFICATIONS | INTEGRATION_FAILURES
  | ANALYTICS_ACCEPTED | ANALYTICS_REJECTED

fun metric_value :: "metric_name \<Rightarrow> string" where
  "metric_value REQUESTS = ''http_requests_total''"
| "metric_value ERRORS = ''http_errors_total''"
| "metric_value LATENCY = ''http_request_duration_ms''"
| "metric_value AUTHENTICATIONS = ''authentications_total''"
| "metric_value MUNICIPAL_IMPORTS = ''municipal_imports_total''"
| "metric_value SIGN_ANALYSES = ''sign_analyses_total''"
| "metric_value PARKING_SCORE_QUERIES = ''parking_score_queries_total''"
| "metric_value COMMUNITY_EVENTS = ''community_events_total''"
| "metric_value BILLING_VERIFICATIONS = ''billing_verifications_total''"
| "metric_value INTEGRATION_FAILURES = ''integration_failures_total''"
| "metric_value ANALYTICS_ACCEPTED = ''product_analytics_events_total''"
| "metric_value ANALYTICS_REJECTED = ''product_analytics_rejections_total''"

definition category_metrics :: "(string \<times> metric_name) list" where
  "category_metrics = [(''authentication'', AUTHENTICATIONS), (''municipal_import'', MUNICIPAL_IMPORTS),
     (''sign_analysis'', SIGN_ANALYSES), (''parking_score'', PARKING_SCORE_QUERIES),
     (''community'', COMMUNITY_EVENTS), (''billing'', BILLING_VERIFICATIONS)]"

datatype metrics_kind = MemoryMetrics | DisabledMetrics | UnavailableMetrics

definition metrics_ready :: "metrics_kind \<Rightarrow> bool" where "metrics_ready k \<longleftrightarrow> k \<noteq> UnavailableMetrics"

definition count_metric :: "metrics_kind \<Rightarrow> metric_name \<Rightarrow> (string \<times> string) list \<Rightarrow> metrics \<Rightarrow> metrics" where
  "count_metric k name labels m = (if k = MemoryMetrics then increment (metric_value name) labels m else m)"

definition observe_metric ::
  "metrics_kind \<Rightarrow> metric_name \<Rightarrow> pyfloat \<Rightarrow> (string \<times> string) list \<Rightarrow> metrics \<Rightarrow> metrics" where
  "observe_metric k name x labels m = (if k = MemoryMetrics then observe (metric_value name) x labels m else m)"

definition analytics_ready :: "product_analytics \<Rightarrow> bool" where
  "analytics_ready pa \<longleftrightarrow> pa_provider pa \<noteq> UnavailableProvider"

record observability_runtime =
  rt_metrics :: metrics_kind
  rt_tracing :: tracing_kind
  rt_analytics :: product_analytics
  rt_service_name :: string

definition runtime_ready :: "observability_runtime \<Rightarrow> bool" where
  "runtime_ready rt \<longleftrightarrow> metrics_ready (rt_metrics rt) \<and> tracing_ready (rt_tracing rt) \<and> analytics_ready (rt_analytics rt)"

record request_observation =
  ro_method :: string
  ro_category :: string
  ro_status_code :: int
  ro_duration_ms :: pyfloat

definition outcome_class :: "int \<Rightarrow> string" where "outcome_class code = int_str (code div 100) @ ''xx''"

definition observe_request :: "observability_runtime \<Rightarrow> request_observation \<Rightarrow> metrics \<Rightarrow> metrics" where
  "observe_request rt ob m =
     (let k = rt_metrics rt; out = outcome_class (ro_status_code ob);
          labels = [(''category'', ro_category ob), (''method'', ro_method ob), (''outcome'', out)];
          m1 = count_metric k REQUESTS labels m;
          m2 = observe_metric k LATENCY (ro_duration_ms ob) labels m1;
          m3 = (if ro_status_code ob \<ge> 500 then count_metric k ERRORS labels m2 else m2)
      in case map_of category_metrics (ro_category ob) of
           None \<Rightarrow> m3
         | Some metric \<Rightarrow> count_metric k metric [(''outcome'', out)] m3)"

definition start_request_span ::
  "observability_runtime \<Rightarrow> TraceContext \<Rightarrow> (string \<times> scalar) list \<Rightarrow> instant \<Rightarrow> span" where
  "start_request_span rt c attributes now =
     start_span (rt_tracing rt) ''http.server.request'' c ((''service.name'', StrS (rt_service_name rt)) # attributes) now"

definition integration_failure :: "observability_runtime \<Rightarrow> string \<Rightarrow> metrics \<Rightarrow> metrics" where
  "integration_failure rt provider m =
     count_metric (rt_metrics rt) INTEGRATION_FAILURES [(''provider'', take 40 provider)] m"

text \<open>\<open>build_observability_runtime\<close>, from the settings it reads.\<close>

definition build_runtime ::
  "string \<Rightarrow> string \<Rightarrow> string \<Rightarrow> (provider_kind \<Rightarrow> product_analytics) \<Rightarrow> otel_tracer option \<Rightarrow>
     provider_kind option \<Rightarrow> observability_runtime" where
  "build_runtime observability_provider analytics_provider service_name analytics tracer injected =
     (let (m, t) =
        (if observability_provider = ''memory'' then (MemoryMetrics, MemoryTracing 1000)
         else if observability_provider = ''disabled'' then (DisabledMetrics, DisabledTracing)
         else case tracer of
                None \<Rightarrow> (UnavailableMetrics, UnavailableTracing)
              | Some f \<Rightarrow> (MemoryMetrics, OpenTelemetryTracing f));
        p = (case injected of
               Some p \<Rightarrow> p
             | None \<Rightarrow> if analytics_provider = ''memory'' then InMemoryProvider 10000
                 else if analytics_provider = ''external'' then UnavailableProvider
                 else DisabledProvider)
      in \<lparr>rt_metrics = m, rt_tracing = t, rt_analytics = analytics p, rt_service_name = service_name\<rparr>)"

section \<open>The middleware\<close>

definition ends_with :: "string \<Rightarrow> string \<Rightarrow> bool" where "ends_with p s = starts_with (rev p) (rev s)"

definition request_category :: "string \<Rightarrow> string \<Rightarrow> string" where
  "request_category path method =
     (if method = ''POST'' \<and> path \<in> {''/api/v1/auth/login'', ''/api/v1/auth/refresh'', ''/api/v1/auth/mfa/verify''}
      then ''authentication''
      else if method = ''POST'' \<and> ends_with ''/imports'' path then ''municipal_import''
      else if method = ''POST'' \<and> path = ''/api/v1/signs/scan'' then ''sign_analysis''
      else if starts_with ''/api/v1/parking/'' path \<or> path = ''/api/v1/ai/parking-assistant'' then ''parking_score''
      else if method \<noteq> ''GET'' \<and> starts_with ''/api/v1/reports'' path then ''community''
      else if method = ''POST'' \<and> path = ''/api/v1/billing/purchases/verify'' then ''billing''
      else if starts_with ''/api/v1/health/'' path then ''health''
      else ''other'')"

record http_request =
  hr_method :: string
  hr_path :: string
  hr_headers :: "(string \<times> string) list"

definition lower_byte :: "char \<Rightarrow> char" where
  "lower_byte c = (if of_char c \<in> {65 .. 90 :: nat} then char_of (of_char c + 32 :: nat) else c)"

definition decode_ascii :: "string \<Rightarrow> string" where
  "decode_ascii = filter (\<lambda>c. of_char c < (128 :: nat))"

text \<open>\<open>_header\<close>: the first header of that name that is not empty.\<close>

definition request_header :: "(string \<times> string) list \<Rightarrow> string \<Rightarrow> string option" where
  "request_header headers name =
     map_option (\<lambda>(k, v). decode_ascii (take 256 v))
       (find (\<lambda>(k, v). map lower_byte k = name \<and> v \<noteq> []) headers)"

definition safe_id_char :: "char \<Rightarrow> bool" where
  "safe_id_char c = (is_letter_ascii c \<or> is_digit c \<or> one_of ''._:-'' c)"

definition safe_id :: regex where "safe_id = Repeat safe_id_char 1 (Some 128)"

definition header_id :: "(string \<times> string) list \<Rightarrow> string \<Rightarrow> string option" where
  "header_id headers name =
     (case request_header headers name of
        None \<Rightarrow> None
      | Some v \<Rightarrow> if re_fullmatch safe_id (take 128 v) then Some (take 128 v) else None)"

definition request_id :: "(string \<times> string) list \<Rightarrow> uuid \<Rightarrow> string" where
  "request_id headers fresh = (case header_id headers ''x-request-id'' of Some i \<Rightarrow> i | None \<Rightarrow> uuid_str fresh)"

text \<open>Response headers by lower-case name, each with its values; assignment leaves one value.\<close>

type_synonym response_headers = "string \<Rightarrow> string list"

definition set_header :: "string \<Rightarrow> string \<Rightarrow> response_headers \<Rightarrow> response_headers" where
  "set_header name v h = h(name := [v])"

definition content_policy :: string where
  "content_policy = ''default-src '' @ [CHR 0x27] @ ''none'' @ [CHR 0x27] @ ''; frame-ancestors ''
     @ [CHR 0x27] @ ''none'' @ [CHR 0x27]"

definition secured_headers ::
  "bool \<Rightarrow> string \<Rightarrow> string \<Rightarrow> TraceContext \<Rightarrow> response_headers \<Rightarrow> response_headers" where
  "secured_headers production rid cid c h =
     (let h1 = set_header ''x-content-type-options'' ''nosniff'' h;
          h2 = set_header ''x-frame-options'' ''DENY'' h1;
          h3 = set_header ''referrer-policy'' ''no-referrer'' h2;
          h4 = set_header ''permissions-policy'' ''camera=(), microphone=(), geolocation=()'' h3;
          h5 = set_header ''content-security-policy'' content_policy h4;
          h6 = set_header ''x-request-id'' rid h5;
          h7 = set_header ''x-correlation-id'' cid h6;
          h8 = set_header ''traceparent'' (traceparent c) h7
      in if production
         then set_header ''strict-transport-security'' ''max-age=31536000; includeSubDomains'' h8
         else h8)"

text \<open>The request state the application sees, and what it does: the response it starts, if any, and
  whether it then raises.\<close>

record request_state =
  rs_request_id :: string
  rs_correlation_id :: string
  rs_trace_id :: string

record app_result =
  ar_started :: "(int \<times> response_headers) option"
  ar_raised :: bool

record access_log =
  al_service :: string
  al_request_id :: string
  al_correlation_id :: string
  al_trace_id :: string
  al_method :: string
  al_category :: string
  al_status_code :: int
  al_duration_ms :: pyfloat

record telemetry =
  tl_metrics :: metrics
  tl_spans :: "span_record list"
  tl_log :: "access_log list"

text \<open>What the outside supplies to one request: random identifiers and clock readings.\<close>

record ambient =
  am_uuid :: uuid
  am_trace :: string
  am_span :: string
  am_started_at :: instant
  am_ended_at :: instant
  am_duration_ms :: pyfloat

definition observed ::
  "observability_runtime option \<Rightarrow> span option \<Rightarrow> request_observation \<Rightarrow> instant \<Rightarrow> telemetry \<Rightarrow> telemetry" where
  "observed runtime sp ob now t =
     (let status = (if ro_status_code ob \<ge> 500 then ''error'' else ''ok'') in
      case runtime of
        None \<Rightarrow> t
      | Some rt \<Rightarrow>
          t\<lparr>tl_metrics := observe_request rt ob (tl_metrics t),
            tl_spans := (case sp of None \<Rightarrow> tl_spans t
              | Some s \<Rightarrow> snd (end_span (rt_tracing rt) s status None now (tl_spans t)))\<rparr>)"

definition handle_request ::
  "bool \<Rightarrow> observability_runtime option \<Rightarrow> (request_state \<Rightarrow> app_result) \<Rightarrow> http_request \<Rightarrow> ambient \<Rightarrow>
     telemetry \<Rightarrow> app_result \<times> telemetry" where
  "handle_request production runtime app q am t =
     (let rid = request_id (hr_headers q) (am_uuid am);
          cid = (case header_id (hr_headers q) ''x-correlation-id'' of Some i \<Rightarrow> i | None \<Rightarrow> rid);
          c0 = trace_context (request_header (hr_headers q) ''traceparent'') (am_trace am) (am_span am);
          category = request_category (hr_path q) (hr_method q);
          sp = map_option (\<lambda>rt. start_request_span rt c0
                 [(''http.request.method'', StrS (hr_method q)), (''parkshield.request.category'', StrS category)]
                 (am_started_at am)) runtime;
          c = (case sp of None \<Rightarrow> c0 | Some s \<Rightarrow> span_context s);
          r = app \<lparr>rs_request_id = rid, rs_correlation_id = cid, rs_trace_id = tc_trace_id c\<rparr>;
          status = (case ar_started r of None \<Rightarrow> 500 | Some (code, h) \<Rightarrow> code);
          ob = \<lparr>ro_method = hr_method q, ro_category = category, ro_status_code = status,
            ro_duration_ms = am_duration_ms am\<rparr>;
          t' = observed runtime sp ob (am_ended_at am) t;
          entry = \<lparr>al_service = (case runtime of Some rt \<Rightarrow> rt_service_name rt | None \<Rightarrow> ''parkshield-api''),
            al_request_id = rid, al_correlation_id = cid, al_trace_id = tc_trace_id c, al_method = hr_method q,
            al_category = category, al_status_code = status, al_duration_ms = am_duration_ms am\<rparr>
      in (r\<lparr>ar_started := map_option (\<lambda>(code, h). (code, secured_headers production rid cid c h)) (ar_started r)\<rparr>,
          t'\<lparr>tl_log := tl_log t' @ [entry]\<rparr>))"

section \<open>Identifiers\<close>

lemma lang_repeat: "re_fullmatch (Repeat p lo hi) s \<longleftrightarrow>
    list_all p s \<and> lo \<le> length s \<and> (\<forall>h. hi = Some h \<longrightarrow> length s \<le> h)"
  by (simp add: re_fullmatch_lang)

lemma list_all_False: "list_all (\<lambda>_. False) xs \<longleftrightarrow> xs = []"
  by (cases xs) simp_all

lemma lang_literal: "lang (literal s) = {s}"
  by (induction s) (auto simp: literal_def list_all_False)

lemma lang_ThenI: "m \<in> lang r \<Longrightarrow> n \<in> lang q \<Longrightarrow> m @ n \<in> lang (Then r q)"
  by auto

lemma context_free_literal: "context_free (literal s)"
  by (induction s) (auto simp: literal_def)

lemma hex_digit: "n < 16 \<Longrightarrow> is_lower_hex (digit_char n)"
proof -
  assume "n < 16"
  then have "n \<in> set [0..<16]" by simp
  moreover have "list_all (\<lambda>n. is_lower_hex (digit_char n)) [0..<16]" by code_simp
  ultimately show ?thesis unfolding list_all_iff by blast
qed

lemma hex_fixed_lower: "list_all is_lower_hex (hex_fixed k n)"
  by (induction k arbitrary: n) (simp_all add: hex_digit)

lemma lower_hex_safe: "is_lower_hex c \<Longrightarrow> safe_id_char c"
proof -
  assume "is_lower_hex c"
  moreover have "list_all safe_id_char ''0123456789abcdef''" by code_simp
  ultimately show ?thesis by (simp add: is_lower_hex_def one_of_def list_all_iff) blast
qed

lemma uuid_str_safe: "re_fullmatch safe_id (uuid_str u)"
proof -
  have "list_all safe_id_char (uuid_hex u)"
    using hex_fixed_lower lower_hex_safe by (simp add: uuid_hex_def list_all_iff)
  moreover have "safe_id_char (CHR ''-'')" by (simp add: safe_id_char_def one_of_def)
  ultimately have "list_all safe_id_char (uuid_str u)"
    by (auto simp: uuid_str_def Let_def list_all_iff dest: in_set_takeD in_set_dropD)
  then show ?thesis by (simp add: safe_id_def lang_repeat length_uuid_str)
qed

lemma header_id_safe: "header_id hs name = Some i \<Longrightarrow> re_fullmatch safe_id i"
  by (auto simp: header_id_def split: option.splits if_splits)

lemma request_id_safe: "re_fullmatch safe_id (request_id hs u)"
  by (simp add: request_id_def uuid_str_safe header_id_safe split: option.split)

section \<open>Reading a trace context back\<close>

definition trace_id_ok :: "string \<Rightarrow> bool" where
  "trace_id_ok s \<longleftrightarrow> length s = 32 \<and> list_all is_lower_hex s \<and> s \<noteq> replicate 32 (CHR ''0'')"

definition span_id_ok :: "string \<Rightarrow> bool" where
  "span_id_ok s \<longleftrightarrow> length s = 16 \<and> list_all is_lower_hex s \<and> s \<noteq> replicate 16 (CHR ''0'')"

lemma lower_hex_plain: "is_lower_hex c \<Longrightarrow> fold_char c = [c] \<and> \<not> is_space c"
proof -
  assume "is_lower_hex c"
  moreover have "list_all (\<lambda>c. fold_char c = [c] \<and> \<not> is_space c) ''0123456789abcdef''" by code_simp
  ultimately show ?thesis by (simp add: is_lower_hex_def one_of_def list_all_iff) blast
qed

lemma casefold_plain: "list_all (\<lambda>c. fold_char c = [c]) s \<Longrightarrow> casefold s = s"
  unfolding casefold_def by (induction s) auto

lemma traceparent_plain:
  assumes "list_all is_lower_hex (tc_trace_id c)" "list_all is_lower_hex (tc_span_id c)"
  shows "casefold (py_strip (traceparent c)) = traceparent c"
proof -
  have "list_all (\<lambda>x. fold_char x = [x]) (traceparent c)"
    using assms lower_hex_plain
    by (auto simp: traceparent_def sampled_flag_def list_all_iff fold_char_def)
  moreover have "py_strip (traceparent c) = traceparent c"
    by (rule py_strip_plain) (simp_all add: traceparent_def sampled_flag_def is_space_def)
  ultimately show ?thesis by (simp add: casefold_plain)
qed

lemma traceparent_matches:
  assumes "length (tc_trace_id c) = 32" "length (tc_span_id c) = 16"
    and "list_all is_lower_hex (tc_trace_id c)" "list_all is_lower_hex (tc_span_id c)"
  shows "re_fullmatch traceparent_pattern (traceparent c)"
proof -
  have cf: "context_free traceparent_pattern"
    by (simp add: traceparent_pattern_def trace_id_pattern_def span_id_pattern_def context_free_literal)
  have "sampled_flag (tc_sampled c) \<in> lang (any_of [literal ''00'', literal ''01''])"
    by (simp add: sampled_flag_def lang_literal)
  moreover have "tc_trace_id c \<in> lang trace_id_pattern" "tc_span_id c \<in> lang span_id_pattern"
    using assms by (simp_all add: trace_id_pattern_def span_id_pattern_def)
  ultimately have "traceparent c \<in> lang traceparent_pattern"
    unfolding traceparent_pattern_def traceparent_def seq.simps
    by (intro lang_ThenI) (simp_all only: lang_literal singleton_iff)
  then show ?thesis by (simp add: re_fullmatch_lang [OF cf])
qed

text \<open>
  C36: a trace continues from service to service. The header that one context writes, whatever its
  capitals and surrounding white space are, is read as the same trace with the same sampling
  decision, a new span and the writing span as its parent.
\<close>

theorem trace_context_continues:
  assumes "trace_id_ok (tc_trace_id c)" and "span_id_ok (tc_span_id c)" and "casefold (py_strip h) = traceparent c"
  shows "trace_context (Some h) fresh_trace fresh_span =
    \<lparr>tc_trace_id = tc_trace_id c, tc_span_id = fresh_span, tc_sampled = tc_sampled c, tc_parent = Some (tc_span_id c)\<rparr>"
proof -
  have ids: "length (tc_trace_id c) = 32" "length (tc_span_id c) = 16"
    "list_all is_lower_hex (tc_trace_id c)" "list_all is_lower_hex (tc_span_id c)"
    using assms(1,2) by (simp_all add: trace_id_ok_def span_id_ok_def)
  have h: "h \<noteq> []" using assms(3) by (auto simp: traceparent_def py_strip_def casefold_def)
  have parts: "take 32 (drop 3 (traceparent c)) = tc_trace_id c" "take 16 (drop 36 (traceparent c)) = tc_span_id c"
    "drop 53 (traceparent c) = sampled_flag (tc_sampled c)"
    using ids by (simp_all add: traceparent_def)
  show ?thesis
    using assms(1,2) h traceparent_matches [OF ids]
    by (simp add: trace_context_def Let_def assms(3) parts trace_id_ok_def span_id_ok_def sampled_flag_def)
qed

theorem trace_context_continues_witness:
  "trace_context (Some ('' 00-'' @ replicate 32 (CHR ''A'') @ ''-'' @ replicate 16 (CHR ''1'') @ ''-01''))
     [] ''s'' = \<lparr>tc_trace_id = replicate 32 (CHR ''a''), tc_span_id = ''s'', tc_sampled = True,
       tc_parent = Some (replicate 16 (CHR ''1''))\<rparr>"
proof -
  let ?c = "\<lparr>tc_trace_id = replicate 32 (CHR ''a''), tc_span_id = replicate 16 (CHR ''1''), tc_sampled = True,
     tc_parent = None\<rparr>"
  have "trace_id_ok (tc_trace_id ?c)" "span_id_ok (tc_span_id ?c)"
    by (simp_all add: trace_id_ok_def span_id_ok_def is_lower_hex_def one_of_def list_all_iff)
  moreover have "casefold (py_strip ('' 00-'' @ replicate 32 (CHR ''A'') @ ''-'' @ replicate 16 (CHR ''1'') @ ''-01''))
      = traceparent ?c" by code_simp
  ultimately show ?thesis using trace_context_continues [of ?c _ "[]" "''s''"] by simp
qed

section \<open>Responses\<close>

text \<open>The headers of every response.\<close>

definition hardened :: "bool \<Rightarrow> response_headers \<Rightarrow> bool" where
  "hardened production h \<longleftrightarrow> h ''x-content-type-options'' = [''nosniff''] \<and> h ''x-frame-options'' = [''DENY'']
     \<and> h ''referrer-policy'' = [''no-referrer''] \<and> h ''content-security-policy'' = [content_policy]
     \<and> h ''permissions-policy'' = [''camera=(), microphone=(), geolocation=()'']
     \<and> (production \<longrightarrow> h ''strict-transport-security'' = [''max-age=31536000; includeSubDomains''])"

lemma secured_headers_hardened: "hardened production (secured_headers production rid cid c h)"
  by (simp add: hardened_def secured_headers_def set_header_def Let_def)

lemma secured_headers_ids:
  "secured_headers production rid cid c h ''x-request-id'' = [rid]"
  "secured_headers production rid cid c h ''x-correlation-id'' = [cid]"
  "secured_headers production rid cid c h ''traceparent'' = [traceparent c]"
  by (simp_all add: secured_headers_def set_header_def Let_def)

definition ids_ok :: "TraceContext \<Rightarrow> bool" where
  "ids_ok c \<longleftrightarrow> length (tc_trace_id c) = 32 \<and> list_all is_lower_hex (tc_trace_id c)
     \<and> length (tc_span_id c) = 16 \<and> list_all is_lower_hex (tc_span_id c)"

lemma trace_context_ids:
  assumes "ids_ok \<lparr>tc_trace_id = ft, tc_span_id = fs, tc_sampled = True, tc_parent = None\<rparr>"
  shows "ids_ok (trace_context h ft fs)"
proof -
  have "length (take 32 (drop 3 s)) = 32 \<and> list_all is_lower_hex (take 32 (drop 3 s))"
    if m: "re_fullmatch traceparent_pattern s" for s
  proof -
    have cf: "context_free traceparent_pattern"
      by (simp add: traceparent_pattern_def trace_id_pattern_def span_id_pattern_def context_free_literal)
    from m have "s \<in> lang traceparent_pattern" by (simp add: re_fullmatch_lang [OF cf])
    then obtain t r where s: "s = ''00-'' @ t @ r" and t: "t \<in> lang trace_id_pattern"
      unfolding traceparent_pattern_def seq.simps lang.simps lang_literal by fastforce
    from t have "length t = 32" "list_all is_lower_hex t" by (auto simp: trace_id_pattern_def)
    then show ?thesis unfolding s by simp
  qed
  with assms show ?thesis by (simp add: trace_context_def ids_ok_def Let_def split: option.split)
qed

lemma start_span_ids: "ids_ok c \<Longrightarrow> ids_ok (span_context (start_span k name c attributes now))"
  by (auto simp: start_span_def ids_ok_def trace_id_pattern_def span_id_pattern_def lang_repeat
      split: tracing_kind.split option.split)

text \<open>
  C37: every response that starts passes through the middleware with its protective headers, a
  single request identifier and a single correlation identifier of at most 128 harmless
  characters, the ones the application saw, and a well-formed trace header; a status and the other
  headers of the application are left alone.
\<close>

theorem responses_are_hardened:
  assumes "handle_request production runtime app q am t = (r, t')" and "ar_started r = Some (code, h)"
    and "ids_ok \<lparr>tc_trace_id = am_trace am, tc_span_id = am_span am, tc_sampled = True, tc_parent = None\<rparr>"
  shows "hardened production h \<and> (\<exists>st h0 c. app st = r\<lparr>ar_started := Some (code, h0)\<rparr>
    \<and> h ''x-request-id'' = [rs_request_id st] \<and> re_fullmatch safe_id (rs_request_id st)
    \<and> h ''x-correlation-id'' = [rs_correlation_id st] \<and> re_fullmatch safe_id (rs_correlation_id st)
    \<and> h ''traceparent'' = [traceparent c] \<and> re_fullmatch traceparent_pattern (traceparent c)
    \<and> tc_trace_id c = rs_trace_id st
    \<and> (\<forall>name. name \<notin> {''x-content-type-options'', ''x-frame-options'', ''referrer-policy'', ''permissions-policy'',
         ''content-security-policy'', ''x-request-id'', ''x-correlation-id'', ''traceparent'',
         ''strict-transport-security''} \<longrightarrow> h name = h0 name))"
proof -
  let ?rid = "request_id (hr_headers q) (am_uuid am)"
  let ?cid = "case header_id (hr_headers q) ''x-correlation-id'' of Some i \<Rightarrow> i | None \<Rightarrow> ?rid"
  define c0 where "c0 = trace_context (request_header (hr_headers q) ''traceparent'') (am_trace am) (am_span am)"
  define c where "c = (case runtime of None \<Rightarrow> c0 | Some rt \<Rightarrow> span_context (start_request_span rt c0
      [(''http.request.method'', StrS (hr_method q)),
       (''parkshield.request.category'', StrS (request_category (hr_path q) (hr_method q)))] (am_started_at am)))"
  let ?st = "\<lparr>rs_request_id = ?rid, rs_correlation_id = ?cid, rs_trace_id = tc_trace_id c\<rparr>"
  have "fst (handle_request production runtime app q am t) = (app ?st)\<lparr>ar_started :=
      map_option (\<lambda>(code, h). (code, secured_headers production ?rid ?cid c h)) (ar_started (app ?st))\<rparr>"
    by (cases runtime) (simp_all add: handle_request_def Let_def c_def c0_def)
  with assms(1) have r: "r = (app ?st)\<lparr>ar_started :=
      map_option (\<lambda>(code, h). (code, secured_headers production ?rid ?cid c h)) (ar_started (app ?st))\<rparr>" by simp
  with assms(2) obtain h0 where h0: "ar_started (app ?st) = Some (code, h0)"
    and h: "h = secured_headers production ?rid ?cid c h0" by (auto split: prod.splits)
  have "ids_ok c0" unfolding c0_def by (rule trace_context_ids [OF assms(3)])
  then have "ids_ok c" unfolding c_def start_request_span_def by (auto intro: start_span_ids split: option.split)
  then have tp: "re_fullmatch traceparent_pattern (traceparent c)"
    using traceparent_matches unfolding ids_ok_def by blast
  have app: "app ?st = r\<lparr>ar_started := Some (code, h0)\<rparr>" using h0 r by simp
  have cid: "re_fullmatch safe_id ?cid"
    using header_id_safe request_id_safe by (auto split: option.split)
  have rest: "\<forall>name. name \<notin> {''x-content-type-options'', ''x-frame-options'', ''referrer-policy'', ''permissions-policy'',
         ''content-security-policy'', ''x-request-id'', ''x-correlation-id'', ''traceparent'',
         ''strict-transport-security''} \<longrightarrow> h name = h0 name"
    unfolding h by (auto simp: secured_headers_def set_header_def Let_def)
  have "hardened production h" unfolding h by (rule secured_headers_hardened)
  moreover have "h ''x-request-id'' = [rs_request_id ?st]" "h ''x-correlation-id'' = [rs_correlation_id ?st]"
    "h ''traceparent'' = [traceparent c]" unfolding h by (simp_all only: secured_headers_ids request_state.simps)
  moreover have "re_fullmatch safe_id (rs_request_id ?st)" "re_fullmatch safe_id (rs_correlation_id ?st)"
    "tc_trace_id c = rs_trace_id ?st" using request_id_safe cid by (simp_all only: request_state.simps)
  ultimately show ?thesis using app tp rest by blast
qed

definition sample_ambient :: ambient where
  "sample_ambient = \<lparr>am_uuid = 5, am_trace = replicate 32 (CHR ''a''), am_span = replicate 16 (CHR ''b''),
     am_started_at = 0, am_ended_at = 1, am_duration_ms = Fin 1\<rparr>"

definition sample_request :: http_request where
  "sample_request = \<lparr>hr_method = ''GET'', hr_path = ''/api/v1/health/live'', hr_headers = [(''X-Request-ID'', ''abc'')]\<rparr>"

definition sample_app :: "request_state \<Rightarrow> app_result" where
  "sample_app st = \<lparr>ar_started = Some (200, (\<lambda>_. [])), ar_raised = False\<rparr>"

definition no_telemetry :: telemetry where
  "no_telemetry = \<lparr>tl_metrics = \<lparr>counters = [], observations = []\<rparr>, tl_spans = [], tl_log = []\<rparr>"

theorem responses_are_hardened_witness:
  "\<exists>h. ar_started (fst (handle_request True None sample_app sample_request sample_ambient no_telemetry)) = Some (200, h)
     \<and> h ''x-frame-options'' = [''DENY'']
     \<and> h ''strict-transport-security'' = [''max-age=31536000; includeSubDomains'']"
proof -
  obtain r t' where run: "handle_request True None sample_app sample_request sample_ambient no_telemetry = (r, t')"
    by fastforce
  obtain h where h: "ar_started r = Some (200, h)"
    using arg_cong [OF run, of fst] by (auto simp: handle_request_def Let_def sample_app_def)
  have "ids_ok \<lparr>tc_trace_id = am_trace sample_ambient, tc_span_id = am_span sample_ambient, tc_sampled = True,
      tc_parent = None\<rparr>"
    by (simp add: ids_ok_def sample_ambient_def is_lower_hex_def one_of_def list_all_iff)
  from responses_are_hardened [OF run h this] have "hardened True h" by blast
  with h run show ?thesis by (simp add: hardened_def)
qed

text \<open>An exception that leaves the application before a response starts passes the middleware as it
  came: no header is added to whatever answers it further out.\<close>

lemma unstarted_response_is_bare:
  assumes "\<And>st. ar_started (app st) = None"
  shows "ar_started (fst (handle_request production runtime app q am t)) = None"
  using assms by (simp add: handle_request_def Let_def)

section \<open>Accounting\<close>

definition counter_total :: "string \<Rightarrow> metrics \<Rightarrow> int" where
  "counter_total name m = sum_list (map snd (filter (\<lambda>e. fst (fst e) = name) (counters m)))"

definition observation_total :: "string \<Rightarrow> metrics \<Rightarrow> nat" where
  "observation_total name m = sum_list (map (length \<circ> snd) (filter (\<lambda>e. fst (fst e) = name) (observations m)))"

lemma sum_dict_set:
  fixes f :: "'v \<Rightarrow> 'a :: comm_monoid_add"
  assumes "dict_ok d" and "\<And>old. dict_get d k = Some old \<Longrightarrow> f v = f old + b" and "dict_get d k = None \<Longrightarrow> f v = b"
  shows "sum_list (map (f \<circ> snd) (filter (\<lambda>e. P (fst e)) (dict_set k v d))) =
    sum_list (map (f \<circ> snd) (filter (\<lambda>e. P (fst e)) d)) + (if P k then b else 0)"
  using assms
proof (induction d)
  case (Cons e d)
  obtain k' w where e: "e = (k', w)" by fastforce
  show ?case
  proof (cases "k' = k")
    case True
    with Cons.prems(2) [of w] show ?thesis by (simp add: e ac_simps)
  next
    case False
    with Cons.prems have "dict_ok d" "\<And>old. dict_get d k = Some old \<Longrightarrow> f v = f old + b"
      "dict_get d k = None \<Longrightarrow> f v = b" by (simp_all add: e)
    from Cons.IH [OF this] False show ?thesis by (simp add: e ac_simps)
  qed
qed simp

definition metrics_ok :: "metrics \<Rightarrow> bool" where
  "metrics_ok m \<longleftrightarrow> dict_ok (counters m) \<and> dict_ok (observations m)"

lemma increment_ok: "metrics_ok m \<Longrightarrow> metrics_ok (increment name labels m)"
  by (simp add: metrics_ok_def increment_def Let_def)

lemma observe_ok: "metrics_ok m \<Longrightarrow> metrics_ok (observe name x labels m)"
  by (simp add: metrics_ok_def observe_def Let_def)

lemma counter_total_increment:
  assumes "metrics_ok m"
  shows "counter_total n (increment name labels m) = counter_total n m + (if n = name then 1 else 0)"
proof -
  let ?k = "(name, label_key labels)"
  have "sum_list (map (id \<circ> snd) (filter (\<lambda>e. fst (fst e) = n)
        (dict_set ?k ((case dict_get (counters m) ?k of None \<Rightarrow> 0 | Some c \<Rightarrow> c) + 1) (counters m)))) =
      sum_list (map (id \<circ> snd) (filter (\<lambda>e. fst (fst e) = n) (counters m))) + (if fst ?k = n then 1 else 0)"
    using assms by (intro sum_dict_set [where P = "\<lambda>k. fst k = n"]) (auto simp: metrics_ok_def)
  then show ?thesis by (auto simp: counter_total_def increment_def Let_def)
qed

lemma counter_total_observe [simp]: "counter_total n (observe name x labels m) = counter_total n m"
  by (simp add: counter_total_def observe_def Let_def)

lemma observation_total_increment [simp]: "observation_total n (increment name labels m) = observation_total n m"
  by (simp add: observation_total_def increment_def Let_def)

lemma observation_total_observe:
  assumes "metrics_ok m"
  shows "observation_total n (observe name x labels m) = observation_total n m + (if n = name then 1 else 0)"
proof -
  let ?k = "(name, label_key labels)"
  have "sum_list (map (length \<circ> snd) (filter (\<lambda>e. fst (fst e) = n)
        (dict_set ?k ((case dict_get (observations m) ?k of None \<Rightarrow> [] | Some xs \<Rightarrow> xs) @ [x]) (observations m)))) =
      sum_list (map (length \<circ> snd) (filter (\<lambda>e. fst (fst e) = n) (observations m))) + (if fst ?k = n then 1 else 0)"
    using assms by (intro sum_dict_set [where P = "\<lambda>k. fst k = n"]) (auto simp: metrics_ok_def)
  then show ?thesis by (auto simp: observation_total_def observe_def Let_def)
qed

text \<open>What one observed request adds.\<close>

lemma category_metric_other:
  "map_of category_metrics c = Some k \<Longrightarrow> metric_value k \<noteq> metric_value REQUESTS \<and> metric_value k \<noteq> metric_value ERRORS"
  by (auto simp: category_metrics_def split: if_splits)

lemma observe_request_totals:
  assumes "metrics_ok m" and "rt_metrics rt = MemoryMetrics"
  shows "metrics_ok (observe_request rt ob m)
    \<and> counter_total (metric_value REQUESTS) (observe_request rt ob m) = counter_total (metric_value REQUESTS) m + 1
    \<and> counter_total (metric_value ERRORS) (observe_request rt ob m) =
        counter_total (metric_value ERRORS) m + (if ro_status_code ob \<ge> 500 then 1 else 0)
    \<and> observation_total (metric_value LATENCY) (observe_request rt ob m) = observation_total (metric_value LATENCY) m + 1"
proof -
  note ok = increment_ok observe_ok
  note totals = counter_total_increment observation_total_observe
  show ?thesis
  proof (cases "map_of category_metrics (ro_category ob)")
    case None
    with assms show ?thesis
      by (simp add: observe_request_def Let_def count_metric_def observe_metric_def ok totals)
  next
    case (Some k)
    with assms category_metric_other [OF Some] show ?thesis
      by (auto simp add: observe_request_def Let_def count_metric_def observe_metric_def ok totals)
  qed
qed

lemma record_span_length: "length (record_span n s ss) = min n (length ss + 1)"
  by (simp add: record_span_def Let_def) arith

definition handle_requests ::
  "bool \<Rightarrow> observability_runtime option \<Rightarrow> ((request_state \<Rightarrow> app_result) \<times> http_request \<times> ambient) list \<Rightarrow>
     telemetry \<Rightarrow> telemetry" where
  "handle_requests production runtime rs t =
     foldl (\<lambda>t (app, q, am). snd (handle_request production runtime app q am t)) t rs"

text \<open>What the application does with each request of a series, and when that is a failure: it starts
  a response with a status of at least 500, or none at all, which is how an exception leaves it.\<close>

definition app_outcome ::
  "bool \<Rightarrow> observability_runtime option \<Rightarrow> (request_state \<Rightarrow> app_result) \<times> http_request \<times> ambient \<Rightarrow> app_result" where
  "app_outcome production runtime r =
     (case r of (app, q, am) \<Rightarrow> fst (handle_request production runtime app q am no_telemetry))"

definition server_failed :: "app_result \<Rightarrow> bool" where
  "server_failed r \<longleftrightarrow> (case ar_started r of None \<Rightarrow> True | Some (code, h) \<Rightarrow> code \<ge> 500)"

definition final_status :: "app_result \<Rightarrow> int" where
  "final_status r = (case ar_started r of None \<Rightarrow> 500 | Some (code, h) \<Rightarrow> code)"

lemma server_failed_iff: "server_failed r \<longleftrightarrow> final_status r \<ge> 500"
  by (simp add: server_failed_def final_status_def split: option.split)

text \<open>The application's result, and so the outcome, do not depend on the telemetry collected before.\<close>

lemma app_outcome_any: "fst (handle_request production runtime app q am t) = app_outcome production runtime (app, q, am)"
  by (simp add: app_outcome_def handle_request_def Let_def)

definition accounted :: "nat \<Rightarrow> telemetry \<Rightarrow> bool" where
  "accounted n t \<longleftrightarrow> metrics_ok (tl_metrics t)
     \<and> counter_total (metric_value REQUESTS) (tl_metrics t) = int (length (tl_log t))
     \<and> counter_total (metric_value ERRORS) (tl_metrics t) = int (length (filter (\<lambda>l. al_status_code l \<ge> 500) (tl_log t)))
     \<and> observation_total (metric_value LATENCY) (tl_metrics t) = length (tl_log t)
     \<and> length (tl_spans t) = min n (length (tl_log t))"

lemma handle_request_accounted:
  assumes "rt_metrics rt = MemoryMetrics" "rt_tracing rt = MemoryTracing n" "accounted n t"
  shows "accounted n (snd (handle_request production (Some rt) app q am t))
    \<and> map al_status_code (tl_log (snd (handle_request production (Some rt) app q am t))) =
        map al_status_code (tl_log t) @ [final_status (app_outcome production (Some rt) (app, q, am))]"
proof -
  define category where "category = request_category (hr_path q) (hr_method q)"
  define rid where "rid = request_id (hr_headers q) (am_uuid am)"
  define cid where "cid = (case header_id (hr_headers q) ''x-correlation-id'' of Some i \<Rightarrow> i | None \<Rightarrow> rid)"
  define sp where "sp = start_request_span rt
      (trace_context (request_header (hr_headers q) ''traceparent'') (am_trace am) (am_span am))
      [(''http.request.method'', StrS (hr_method q)), (''parkshield.request.category'', StrS category)] (am_started_at am)"
  define code where "code = (case ar_started (app \<lparr>rs_request_id = rid, rs_correlation_id = cid,
      rs_trace_id = tc_trace_id (span_context sp)\<rparr>) of None \<Rightarrow> 500 | Some (code, h) \<Rightarrow> code)"
  define ob where "ob = \<lparr>ro_method = hr_method q, ro_category = category, ro_status_code = code,
      ro_duration_ms = am_duration_ms am\<rparr>"
  define e where "e = \<lparr>al_service = rt_service_name rt, al_request_id = rid, al_correlation_id = cid,
      al_trace_id = tc_trace_id (span_context sp), al_method = hr_method q, al_category = category,
      al_status_code = code, al_duration_ms = am_duration_ms am\<rparr>"
  define status where "status = (if ro_status_code ob \<ge> 500 then ''error'' else ''ok'')"
  have t': "snd (handle_request production (Some rt) app q am t) =
      t\<lparr>tl_metrics := observe_request rt ob (tl_metrics t),
         tl_spans := snd (end_span (rt_tracing rt) sp status None (am_ended_at am) (tl_spans t)),
         tl_log := tl_log t @ [e]\<rparr>"
    unfolding handle_request_def Let_def observed_def status_def ob_def e_def code_def sp_def cid_def rid_def category_def
    by simp
  have e: "al_status_code e = ro_status_code ob" by (simp add: e_def ob_def)
  have sp: "\<exists>name c attributes started. sp = MemorySpan name c attributes started False"
    by (simp add: sp_def start_request_span_def start_span_def assms(2))
  from sp have spans: "length (snd (end_span (rt_tracing rt) sp status None (am_ended_at am) (tl_spans t))) =
      min n (length (tl_spans t) + 1)"
    by (auto simp: assms(2) record_span_length)
  note totals = observe_request_totals [OF _ assms(1), of "tl_metrics t" ob]
  have "accounted n (snd (handle_request production (Some rt) app q am t))"
    using assms(3) totals spans e unfolding t' accounted_def by auto
  moreover have "al_status_code e = final_status (app_outcome production (Some rt) (app, q, am))"
    unfolding e_def code_def app_outcome_def final_status_def handle_request_def Let_def sp_def cid_def rid_def
      category_def by (simp split: option.split prod.split)
  ultimately show ?thesis unfolding t' by simp
qed

text \<open>
  C38: the in-memory telemetry accounts for every request, whatever the application does with it.
  After any sequence of requests there is one log line with the status of the response, one counted
  request and one recorded duration for each; the counted errors are exactly the requests that the
  application answered with a status of at least 500 or left with an exception before a response
  had started, which are logged as 500; and the spans are the last \<open>n\<close> of them.
\<close>

theorem every_request_is_accounted_for:
  assumes "rt_metrics rt = MemoryMetrics" and "rt_tracing rt = MemoryTracing n"
    and "t = handle_requests production (Some rt) requests no_telemetry"
  shows "map al_status_code (tl_log t) = map (final_status \<circ> app_outcome production (Some rt)) requests
    \<and> counter_total (metric_value REQUESTS) (tl_metrics t) = int (length requests)
    \<and> counter_total (metric_value ERRORS) (tl_metrics t) =
        int (length (filter (server_failed \<circ> app_outcome production (Some rt)) requests))
    \<and> observation_total (metric_value LATENCY) (tl_metrics t) = length requests
    \<and> length (tl_spans t) = min n (length requests)"
proof -
  have "accounted n (handle_requests production (Some rt) rs t0)
      \<and> map al_status_code (tl_log (handle_requests production (Some rt) rs t0)) =
          map al_status_code (tl_log t0) @ map (final_status \<circ> app_outcome production (Some rt)) rs"
    if "accounted n t0" for rs t0
    using that
  proof (induction rs arbitrary: t0)
    case (Cons r rs)
    obtain app q am where r: "r = (app, q, am)" by (cases r)
    from handle_request_accounted [OF assms(1,2) Cons.prems, of production app q am]
    show ?case using Cons.IH by (simp add: handle_requests_def r)
  qed (simp add: handle_requests_def)
  moreover have "accounted n no_telemetry"
    by (simp add: accounted_def no_telemetry_def metrics_ok_def counter_total_def observation_total_def)
  ultimately have a: "accounted n t"
    and log: "map al_status_code (tl_log t) = map (final_status \<circ> app_outcome production (Some rt)) requests"
    unfolding assms(3) by (simp_all add: no_telemetry_def)
  have len: "length (tl_log t) = length requests" using arg_cong [OF log, of length] by simp
  have "length (filter (\<lambda>l. al_status_code l \<ge> 500) (tl_log t)) =
      length (filter (\<lambda>s. s \<ge> 500) (map al_status_code (tl_log t)))" by (simp add: filter_map comp_def)
  also have "\<dots> = length (filter (server_failed \<circ> app_outcome production (Some rt)) requests)"
    unfolding log by (simp add: filter_map comp_def server_failed_iff)
  finally show ?thesis using a log len unfolding accounted_def by simp
qed

definition sample_runtime :: observability_runtime where
  "sample_runtime = \<lparr>rt_metrics = MemoryMetrics, rt_tracing = MemoryTracing 1,
     rt_analytics = \<lparr>pa_provider = DisabledProvider, pa_subject = uuid_str, pa_retention = 1, pa_enabled = False\<rparr>,
     rt_service_name = ''api''\<rparr>"

definition raising_app :: "request_state \<Rightarrow> app_result" where
  "raising_app st = \<lparr>ar_started = None, ar_raised = True\<rparr>"

theorem every_request_is_accounted_for_witness:
  "\<exists>t. t = handle_requests True (Some sample_runtime)
       [(sample_app, sample_request, sample_ambient), (raising_app, sample_request, sample_ambient)] no_telemetry
     \<and> counter_total ''http_requests_total'' (tl_metrics t) = 2 \<and> length (tl_spans t) = 1
     \<and> last (map al_status_code (tl_log t)) = 500"
proof -
  have rt: "rt_metrics sample_runtime = MemoryMetrics" "rt_tracing sample_runtime = MemoryTracing 1"
    by (simp_all add: sample_runtime_def)
  have "final_status (app_outcome True (Some sample_runtime) (raising_app, sample_request, sample_ambient)) = 500"
    by (simp add: app_outcome_def final_status_def handle_request_def Let_def raising_app_def)
  with every_request_is_accounted_for [OF rt refl, of True
      "[(sample_app, sample_request, sample_ambient), (raising_app, sample_request, sample_ambient)]"]
  show ?thesis by simp
qed

text \<open>Telemetry sees a path only through its category.\<close>

lemma telemetry_sees_only_the_category:
  assumes "hr_method q = hr_method q'" "hr_headers q = hr_headers q'"
    and "request_category (hr_path q) (hr_method q) = request_category (hr_path q') (hr_method q')"
  shows "handle_request production runtime app q am t = handle_request production runtime app q' am t"
  using assms by (simp add: handle_request_def)

end
