(* ===== verification/Http_Errors.thy ===== *)
theory Http_Errors
  imports Telemetry Admin
begin

text \<open>
  The error contract of the API (\<open>app/presentation/api/errors.py\<close>): the catalogue of codes, the
  versioned envelope with its bounds and the handlers that turn exceptions into it. A handler that
  raises is itself answered by the handler of unhandled exceptions.
\<close>

section \<open>The envelope\<close>

datatype error_code = INVALID_REQUEST | AUTHENTICATION_REQUIRED | AUTHENTICATION_FAILED | SESSION_INVALID
  | AUTHORIZATION_DENIED | RESOURCE_NOT_FOUND | CONFLICT | VALIDATION_FAILED | RATE_LIMITED
  | UNSUPPORTED_MEDIA_TYPE | PAYLOAD_TOO_LARGE | SERVICE_UNAVAILABLE | INTERNAL_ERROR
  | NO_VERIFIED_COVERAGE | STALE_DATA | LOCATION_PRECISION_INSUFFICIENT | DECISION_INDETERMINATE

datatype detail_code = MISSING_FIELD | INVALID_FIELD

record error_detail =
  ed_field :: string
  ed_code :: detail_code

definition field_char :: "char \<Rightarrow> bool" where
  "field_char c = (is_letter_ascii c \<or> is_digit c \<or> one_of ''_.[]-'' c)"

definition field_pattern :: regex where "field_pattern = Repeat field_char 1 None"

definition error_detail_ok :: "error_detail \<Rightarrow> bool" where
  "error_detail_ok d \<longleftrightarrow> 1 \<le> length (ed_field d) \<and> length (ed_field d) \<le> 128
     \<and> re_fullmatch field_pattern (ed_field d)"

record error_response =
  er_version :: string
  er_code :: error_code
  er_message :: string
  er_correlation_id :: string
  er_details :: "error_detail list option"

definition error_contract_version :: string where "error_contract_version = ''1''"

definition error_response_ok :: "error_response \<Rightarrow> bool" where
  "error_response_ok r \<longleftrightarrow> er_version r = error_contract_version
     \<and> 1 \<le> length (er_message r) \<and> length (er_message r) \<le> 160
     \<and> 1 \<le> length (er_correlation_id r) \<and> length (er_correlation_id r) \<le> 128
     \<and> (case er_details r of None \<Rightarrow> True | Some ds \<Rightarrow> list_all error_detail_ok ds)"

section \<open>Codes\<close>

definition status_codes :: "(nat \<times> error_code \<times> string) list" where
  "status_codes =
     [(400, INVALID_REQUEST, ''Invalid request.''),
      (401, AUTHENTICATION_REQUIRED, ''Authentication is required.''),
      (403, AUTHORIZATION_DENIED, ''Access is denied.''),
      (404, RESOURCE_NOT_FOUND, ''Resource not found.''),
      (409, CONFLICT, ''Request conflicts with current state.''),
      (413, PAYLOAD_TOO_LARGE, ''Payload is too large.''),
      (415, UNSUPPORTED_MEDIA_TYPE, ''Unsupported media type.''),
      (422, VALIDATION_FAILED, ''Invalid request.''),
      (429, RATE_LIMITED, ''Too many requests.''),
      (503, SERVICE_UNAVAILABLE, ''Service is temporarily unavailable.'')]"

definition authentication_code :: "string \<Rightarrow> error_code \<times> string" where
  "authentication_code path =
     (if path = ''/api/v1/auth/login'' then (AUTHENTICATION_FAILED, ''Authentication failed.'')
      else if path \<in> {''/api/v1/auth/refresh'', ''/api/v1/auth/logout''}
      then (SESSION_INVALID, ''Session is invalid or expired.'')
      else (AUTHENTICATION_REQUIRED, ''Authentication is required.''))"

definition error_for_status :: "string \<Rightarrow> nat \<Rightarrow> error_code \<times> string" where
  "error_for_status path code =
     (if code = 401 then authentication_code path
      else case map_of status_codes code of
             None \<Rightarrow> (INTERNAL_ERROR, ''Unexpected server error.'')
           | Some x \<Rightarrow> x)"

section \<open>Handlers\<close>

text \<open>\<open>state_id\<close> is the identifier the middleware left in the state of the request.\<close>

definition correlation_id :: "string option \<Rightarrow> uuid \<Rightarrow> string" where
  "correlation_id state_id fresh =
     (case state_id of None \<Rightarrow> uuid_str fresh | Some i \<Rightarrow> if i = [] then uuid_str fresh else i)"

record json_response =
  jr_status :: nat
  jr_body :: error_response
  jr_retry_after :: "string option"

text \<open>\<open>None\<close> is the \<open>ValidationError\<close> of the envelope.\<close>

definition respond ::
  "string option \<Rightarrow> uuid \<Rightarrow> nat \<Rightarrow> error_code \<times> string \<Rightarrow> error_detail list \<Rightarrow> string option \<Rightarrow>
     json_response option" where
  "respond state_id fresh code what details retry =
     (let body = \<lparr>er_version = error_contract_version, er_code = fst what, er_message = snd what,
        er_correlation_id = correlation_id state_id fresh,
        er_details = (if details = [] then None else Some details)\<rparr>
      in if error_response_ok body
         then Some \<lparr>jr_status = code, jr_body = body, jr_retry_after = retry\<rparr> else None)"

definition safe_headers :: "string option \<Rightarrow> string option" where
  "safe_headers retry =
     (case retry of None \<Rightarrow> None | Some s \<Rightarrow> if s \<noteq> [] \<and> list_all py_isdigit s then Some s else None)"

definition http_exception_handler ::
  "string \<Rightarrow> string option \<Rightarrow> uuid \<Rightarrow> http_error \<Rightarrow> json_response option" where
  "http_exception_handler path state_id fresh e =
     respond state_id fresh (status_code e) (error_for_status path (status_code e)) [] (safe_headers (retry_after e))"

text \<open>An error of the validation library: the path to the value and the type of the error.\<close>

datatype loc_item = LocName string | LocIndex int

fun loc_text :: "loc_item \<Rightarrow> string" where
  "loc_text (LocName s) = s"
| "loc_text (LocIndex i) = int_str i"

record validation_issue =
  vi_loc :: "loc_item list"
  vi_type :: string

definition issue_field :: "validation_issue \<Rightarrow> string" where
  "issue_field e =
     (let field = py_join ''.'' (map loc_text (filter (\<lambda>i. i \<notin> LocName ` {''body'', ''query'', ''path''}) (vi_loc e)))
      in if field = [] then ''request'' else field)"

definition issue_detail :: "validation_issue \<Rightarrow> error_detail option" where
  "issue_detail e =
     (let d = \<lparr>ed_field = take 128 (issue_field e),
        ed_code = (if vi_type e = ''missing'' then MISSING_FIELD else INVALID_FIELD)\<rparr>
      in if error_detail_ok d then Some d else None)"

definition validation_details :: "validation_issue list \<Rightarrow> error_detail list option" where
  "validation_details es = map_option (take 20) (those (map issue_detail es))"

definition validation_exception_handler ::
  "string option \<Rightarrow> uuid \<Rightarrow> validation_issue list \<Rightarrow> json_response option" where
  "validation_exception_handler state_id fresh es =
     (case validation_details es of
        None \<Rightarrow> None
      | Some ds \<Rightarrow> respond state_id fresh 422 (VALIDATION_FAILED, ''Invalid request.'') ds None)"

definition unhandled_exception_handler :: "string option \<Rightarrow> uuid \<Rightarrow> json_response option" where
  "unhandled_exception_handler state_id fresh =
     respond state_id fresh 500 (INTERNAL_ERROR, ''Unexpected server error.'') [] None"

text \<open>What reaches the framework, and which handler \<open>create_app\<close> has registered for it.\<close>

datatype api_exception = HttpError http_error | InvalidRequest "validation_issue list" | Unhandled

definition answer :: "string \<Rightarrow> string option \<Rightarrow> uuid \<Rightarrow> api_exception \<Rightarrow> json_response option" where
  "answer path state_id fresh e =
     (case (case e of
              HttpError h \<Rightarrow> http_exception_handler path state_id fresh h
            | InvalidRequest es \<Rightarrow> validation_exception_handler state_id fresh es
            | Unhandled \<Rightarrow> None) of
        Some r \<Rightarrow> Some r
      | None \<Rightarrow> unhandled_exception_handler state_id fresh)"

section \<open>Lemmas\<close>

lemma catalogue_messages:
  "1 \<le> length (snd (error_for_status path code)) \<and> length (snd (error_for_status path code)) \<le> 160"
  by (simp add: error_for_status_def authentication_code_def status_codes_def split: option.split)

definition state_id_ok :: "string option \<Rightarrow> bool" where
  "state_id_ok i \<longleftrightarrow> (case i of None \<Rightarrow> True | Some s \<Rightarrow> length s \<le> 128)"

lemma correlation_id_bounds:
  "state_id_ok i \<Longrightarrow> 1 \<le> length (correlation_id i fresh) \<and> length (correlation_id i fresh) \<le> 128"
  using length_uuid_str [of fresh] by (auto simp: state_id_ok_def correlation_id_def Suc_le_eq split: option.split)

lemma respond_Some:
  assumes "state_id_ok i" "1 \<le> length (snd what)" "length (snd what) \<le> 160" "list_all error_detail_ok ds"
  shows "respond i fresh code what ds retry = Some \<lparr>jr_status = code,
    jr_body = \<lparr>er_version = error_contract_version, er_code = fst what, er_message = snd what,
      er_correlation_id = correlation_id i fresh, er_details = (if ds = [] then None else Some ds)\<rparr>,
    jr_retry_after = retry\<rparr>"
  using assms correlation_id_bounds [OF assms(1), of fresh]
  by (simp add: respond_def Let_def error_response_ok_def split: option.split)

lemma respond_ok: "respond i fresh code what ds retry = Some r \<Longrightarrow> error_response_ok (jr_body r)"
  by (auto simp: respond_def Let_def split: if_splits)

lemma validation_details_ok:
  assumes "validation_details es = Some ds"
  shows "list_all error_detail_ok ds \<and> length ds \<le> 20"
proof -
  obtain zs where zs: "map issue_detail es = map Some zs" "ds = take 20 zs"
    using assms unfolding validation_details_def by (auto simp: those_Some)
  have "error_detail_ok d" if "d \<in> set zs" for d
  proof -
    have "Some d \<in> set (map issue_detail es)" unfolding zs(1) using that by simp
    then show ?thesis by (auto simp: issue_detail_def Let_def split: if_splits)
  qed
  then show ?thesis using zs(2) by (auto simp: list_all_iff dest: in_set_takeD)
qed

lemma issue_field_nonempty: "issue_field e \<noteq> []"
  by (simp add: issue_field_def Let_def)

text \<open>A location the envelope can name: only its first 128 characters are looked at.\<close>

definition issue_nameable :: "validation_issue \<Rightarrow> bool" where
  "issue_nameable e \<longleftrightarrow> list_all field_char (take 128 (issue_field e))"

lemma issue_detail_Some_iff: "(\<exists>d. issue_detail e = Some d) \<longleftrightarrow> issue_nameable e"
  using issue_field_nonempty [of e]
  by (auto simp: issue_detail_def Let_def error_detail_ok_def field_pattern_def lang_repeat issue_nameable_def Suc_le_eq)

lemma validation_details_Some_iff: "(\<exists>ds. validation_details es = Some ds) \<longleftrightarrow> list_all issue_nameable es"
proof -
  have "(\<exists>zs. those (map issue_detail es) = Some zs) \<longleftrightarrow> (\<forall>e \<in> set es. issue_detail e \<noteq> None)"
  proof
    assume "\<exists>zs. those (map issue_detail es) = Some zs"
    then obtain zs where zs: "map issue_detail es = map Some zs" by (auto simp: those_Some)
    show "\<forall>e \<in> set es. issue_detail e \<noteq> None"
    proof
      fix e assume "e \<in> set es"
      then have "issue_detail e \<in> set (map Some zs)" unfolding zs [symmetric] by simp
      then show "issue_detail e \<noteq> None" by auto
    qed
  qed (rule those_total, simp)
  then show ?thesis
    using issue_detail_Some_iff by (auto simp: validation_details_def list_all_iff)
qed

section \<open>Properties\<close>

text \<open>
  C39: every exception is answered with a valid envelope that carries the correlation identifier of
  the request. A raised HTTP error keeps its status, and two errors with the same status and retry
  header are answered alike, whatever text the code raised them with. Everything else is answered
  422 or 500.
\<close>

theorem errors_follow_the_contract:
  assumes "state_id_ok state_id"
  shows "\<exists>r. answer path state_id fresh e = Some r \<and> error_response_ok (jr_body r)
    \<and> er_correlation_id (jr_body r) = correlation_id state_id fresh
    \<and> (case e of
         HttpError h \<Rightarrow> jr_status r = status_code h
           \<and> (er_code (jr_body r), er_message (jr_body r)) = error_for_status path (status_code h)
           \<and> er_details (jr_body r) = None
           \<and> (\<forall>h'. status_code h' = status_code h \<longrightarrow> retry_after h' = retry_after h \<longrightarrow>
                answer path state_id fresh (HttpError h') = Some r)
       | InvalidRequest es \<Rightarrow> jr_status r \<in> {422, 500}
           \<and> (\<forall>ds. er_details (jr_body r) = Some ds \<longrightarrow> length ds \<le> 20)
       | Unhandled \<Rightarrow> jr_status r = 500 \<and> er_code (jr_body r) = INTERNAL_ERROR)"
proof -
  note some = respond_Some [OF assms]
  have fallback: "unhandled_exception_handler state_id fresh = Some \<lparr>jr_status = 500,
    jr_body = \<lparr>er_version = error_contract_version, er_code = INTERNAL_ERROR, er_message = ''Unexpected server error.'',
      er_correlation_id = correlation_id state_id fresh, er_details = None\<rparr>, jr_retry_after = None\<rparr>"
    unfolding unhandled_exception_handler_def by (subst some) simp_all
  have ok: "error_response_ok (jr_body r)" if "answer path state_id fresh e = Some r" for r
    using that by (auto simp: answer_def http_exception_handler_def validation_exception_handler_def
        unhandled_exception_handler_def dest: respond_ok split: option.splits api_exception.splits)
  show ?thesis
  proof (cases e)
    case (HttpError h)
    have "http_exception_handler path state_id fresh h' = Some \<lparr>jr_status = status_code h',
        jr_body = \<lparr>er_version = error_contract_version, er_code = fst (error_for_status path (status_code h')),
          er_message = snd (error_for_status path (status_code h')),
          er_correlation_id = correlation_id state_id fresh, er_details = None\<rparr>,
        jr_retry_after = safe_headers (retry_after h')\<rparr>" for h'
      unfolding http_exception_handler_def using catalogue_messages by (subst some) simp_all
    then have a: "answer path state_id fresh (HttpError h') = Some \<lparr>jr_status = status_code h',
        jr_body = \<lparr>er_version = error_contract_version, er_code = fst (error_for_status path (status_code h')),
          er_message = snd (error_for_status path (status_code h')),
          er_correlation_id = correlation_id state_id fresh, er_details = None\<rparr>,
        jr_retry_after = safe_headers (retry_after h')\<rparr>" for h'
      by (simp add: answer_def)
    show ?thesis using ok a unfolding HttpError by auto
  next
    case (InvalidRequest es)
    show ?thesis
    proof (cases "validation_details es")
      case None
      then have "answer path state_id fresh e = unhandled_exception_handler state_id fresh"
        by (simp add: answer_def InvalidRequest validation_exception_handler_def)
      with ok fallback show ?thesis by (simp add: InvalidRequest)
    next
      case (Some ds)
      note d = validation_details_ok [OF Some]
      have "validation_exception_handler state_id fresh es = Some \<lparr>jr_status = 422,
          jr_body = \<lparr>er_version = error_contract_version, er_code = VALIDATION_FAILED, er_message = ''Invalid request.'',
            er_correlation_id = correlation_id state_id fresh, er_details = (if ds = [] then None else Some ds)\<rparr>,
          jr_retry_after = None\<rparr>"
        unfolding validation_exception_handler_def Some option.case using d by (subst some) simp_all
      then have "answer path state_id fresh e = Some \<lparr>jr_status = 422,
          jr_body = \<lparr>er_version = error_contract_version, er_code = VALIDATION_FAILED, er_message = ''Invalid request.'',
            er_correlation_id = correlation_id state_id fresh, er_details = (if ds = [] then None else Some ds)\<rparr>,
          jr_retry_after = None\<rparr>"
        by (simp add: answer_def InvalidRequest)
      with ok d show ?thesis by (auto simp: InvalidRequest)
    qed
  next
    case Unhandled
    with ok fallback show ?thesis by (simp add: answer_def)
  qed
qed

theorem errors_follow_the_contract_witness:
  "\<exists>r. answer ''/api/v1/auth/login'' (Some ''abc'') 5 (HttpError (http_exception 401 ''no such user'')) = Some r
     \<and> er_code (jr_body r) = AUTHENTICATION_FAILED
     \<and> answer ''/api/v1/auth/login'' (Some ''abc'') 5 (HttpError (http_exception 401 ''wrong password'')) = Some r"
proof -
  have "state_id_ok (Some ''abc'')" by (simp add: state_id_ok_def)
  from errors_follow_the_contract [OF this, of "''/api/v1/auth/login''" 5 "HttpError (http_exception 401 ''no such user'')"]
  show ?thesis by (auto simp: http_exception_def error_for_status_def authentication_code_def)
qed

text \<open>What a reported detail says: the cut location and whether a value was missing.\<close>

lemma issue_detail_Some: "issue_detail e = Some d \<Longrightarrow>
    ed_field d = take 128 (issue_field e) \<and> (ed_code d = MISSING_FIELD \<longleftrightarrow> vi_type e = ''missing'')"
  by (auto simp: issue_detail_def Let_def split: if_splits)

lemma validation_details_fields:
  assumes "validation_details es = Some ds"
  shows "map ed_field ds = map (\<lambda>e. take 128 (issue_field e)) (take 20 es)"
    and "map (\<lambda>d. ed_code d = MISSING_FIELD) ds = map (\<lambda>e. vi_type e = ''missing'') (take 20 es)"
proof -
  obtain zs where zs: "map issue_detail es = map Some zs" "ds = take 20 zs"
    using assms unfolding validation_details_def by (auto simp: those_Some)
  have "list_all2 (\<lambda>e d. issue_detail e = Some d) es zs"
    using zs(1) by (induction zs arbitrary: es) (auto simp: list_all2_Cons2)
  then have l: "list_all2 (\<lambda>e d. issue_detail e = Some d) (take 20 es) ds"
    unfolding zs(2) by (rule list_all2_takeI)
  show "map ed_field ds = map (\<lambda>e. take 128 (issue_field e)) (take 20 es)"
    using l by (induction rule: list_all2_induct) (auto dest: issue_detail_Some)
  show "map (\<lambda>d. ed_code d = MISSING_FIELD) ds = map (\<lambda>e. vi_type e = ''missing'') (take 20 es)"
    using l by (induction rule: list_all2_induct) (auto dest: issue_detail_Some)
qed

text \<open>
  C40: an invalid request is answered 422 when the first 128 characters of every reported location
  are ones the envelope admits, and otherwise, as for a blank in the name of an unexpected field,
  500 with the code of a server error. The 422 answer lists the first twenty locations in their
  order, each cut to 128 characters, and marks the missing ones.
\<close>

theorem invalid_requests_are_422_iff_nameable:
  assumes "state_id_ok state_id"
  shows "\<exists>r. answer path state_id fresh (InvalidRequest es) = Some r
    \<and> (if list_all issue_nameable es
       then jr_status r = 422 \<and> er_code (jr_body r) = VALIDATION_FAILED
         \<and> (\<exists>ds. er_details (jr_body r) = (if ds = [] then None else Some ds)
              \<and> map ed_field ds = map (\<lambda>e. take 128 (issue_field e)) (take 20 es)
              \<and> map (\<lambda>d. ed_code d = MISSING_FIELD) ds = map (\<lambda>e. vi_type e = ''missing'') (take 20 es))
       else jr_status r = 500 \<and> er_code (jr_body r) = INTERNAL_ERROR \<and> er_details (jr_body r) = None)"
proof (cases "validation_details es")
  case None
  with validation_details_Some_iff [of es] have "\<not> list_all issue_nameable es" by auto
  moreover have "answer path state_id fresh (InvalidRequest es) = unhandled_exception_handler state_id fresh"
    by (simp add: answer_def validation_exception_handler_def None)
  moreover have "\<exists>r. unhandled_exception_handler state_id fresh = Some r \<and> jr_status r = 500
      \<and> er_code (jr_body r) = INTERNAL_ERROR \<and> er_details (jr_body r) = None"
    unfolding unhandled_exception_handler_def by (subst respond_Some [OF assms]) simp_all
  ultimately show ?thesis by simp
next
  case (Some ds)
  with validation_details_Some_iff [of es] have nameable: "list_all issue_nameable es" by auto
  have "list_all error_detail_ok ds" using validation_details_ok [OF Some] by blast
  from respond_Some [OF assms _ _ this, of "(VALIDATION_FAILED, ''Invalid request.'')"]
  have "\<exists>r. answer path state_id fresh (InvalidRequest es) = Some r \<and> jr_status r = 422
      \<and> er_code (jr_body r) = VALIDATION_FAILED \<and> er_details (jr_body r) = (if ds = [] then None else Some ds)"
    by (simp add: answer_def validation_exception_handler_def Some)
  with nameable validation_details_fields [OF Some] show ?thesis by auto
qed

theorem invalid_requests_are_422_iff_nameable_witness:
  "(\<exists>r. answer ''/'' None 5 (InvalidRequest
       [\<lparr>vi_loc = [LocName ''body'', LocName ''a b''], vi_type = ''extra_forbidden''\<rparr>]) = Some r \<and> jr_status r = 500)
   \<and> (\<exists>r. answer ''/'' None 5 (InvalidRequest
       [\<lparr>vi_loc = [LocName ''body'', LocName ''a'', LocIndex 3], vi_type = ''missing''\<rparr>]) = Some r \<and> jr_status r = 422)"
proof -
  let ?e = "\<lparr>vi_loc = [LocName ''body'', LocName ''a b''], vi_type = ''extra_forbidden''\<rparr>"
  let ?f = "\<lparr>vi_loc = [LocName ''body'', LocName ''a'', LocIndex 3], vi_type = ''missing''\<rparr>"
  have "\<not> issue_nameable ?e" "issue_nameable ?f" by code_simp+
  moreover have "state_id_ok None" by (simp add: state_id_ok_def)
  ultimately show ?thesis
    using invalid_requests_are_422_iff_nameable [of None "''/''" 5 "[?e]"]
      invalid_requests_are_422_iff_nameable [of None "''/''" 5 "[?f]"] by auto
qed

text \<open>A status outside the catalogue keeps its number under the code of a server error.\<close>

lemma uncatalogued_status_is_an_internal_error: "error_for_status path 405 = (INTERNAL_ERROR, ''Unexpected server error.'')"
  by (simp add: error_for_status_def status_codes_def)

end
