(* ===== verification/Recovery.thy ===== *)
theory Recovery
  imports Identity_Http Ingestion_Connectors Regex
begin

text \<open>
  Towing recovery: \<open>modules/recovery\<close> (normalisation of vehicle identifiers, the client of the
  municipal gateway, the validation of its records) and \<open>routes/recovery.py\<close>. The gateway is a
  parameter: the endpoint, the token and the identifiers give a failure that \<open>httpx\<close> reports, another
  exception, or a decoded body.
\<close>

section \<open>Records\<close>

record tow_record =
  tw_company :: string
  tw_storage_location :: string
  tw_phone_number :: string
  tw_business_hours :: string
  tw_required_documents :: "string list"
  tw_estimated_fees_cents :: "int option"
  tw_payment_methods :: "string list"
  tw_navigation_url :: string
  tw_provenance :: provenance
  tw_confidence :: pyfloat
  tw_last_verified_at :: pydatetime

record recovery_result =
  rr_found :: bool
  rr_message :: string
  rr_record :: "tow_record option"

datatype recovery_error = InvalidVehicleIdentifier string | RecoveryProviderUnavailable | UncaughtError

type_synonym tow_lookup = "string \<Rightarrow> string \<Rightarrow> string option \<Rightarrow> tow_record option attempt"

section \<open>TowingRecoveryService\<close>

definition state_pattern :: regex where
  "state_pattern = Repeat is_upper_ascii 2 (Some 2)"

definition plate_char :: "char \<Rightarrow> bool" where
  "plate_char c = (is_upper_ascii c \<or> is_digit c)"

definition plate_pattern :: regex where
  "plate_pattern = Repeat plate_char 2 (Some 12)"

definition vin_char :: "char \<Rightarrow> bool" where
  "vin_char c = (plate_char c \<and> \<not> one_of ''IOQ'' c)"

definition vin_pattern :: regex where
  "vin_pattern = Repeat vin_char 6 (Some 6)"

definition plate_separator :: regex where
  "plate_separator = Class (one_of '' -'')"

definition normalized_state :: "string \<Rightarrow> string" where
  "normalized_state s = py_upper (py_strip s)"

definition normalized_plate :: "string \<Rightarrow> string" where
  "normalized_plate s = re_sub plate_separator '''' (py_upper (py_strip s))"

definition normalized_vin :: "string option \<Rightarrow> string option" where
  "normalized_vin v =
     (case v of None \<Rightarrow> None | Some s \<Rightarrow> if s = [] then None else Some (py_upper (py_strip s)))"

definition not_found_message :: string where
  "not_found_message = ''No verified tow record was found. Recheck the vehicle details and contact '' @
     ''the local non-emergency authority before paying any third party.''"

definition found_message :: string where
  "found_message = ''A verified towing record was found. Confirm fees directly before travel.''"

definition recovery_lookup ::
  "tow_lookup \<Rightarrow> string \<Rightarrow> string \<Rightarrow> string option \<Rightarrow> recovery_error + recovery_result" where
  "recovery_lookup provider st plate vin =
     (let s = normalized_state st; p = normalized_plate plate; v = normalized_vin vin
      in if \<not> re_fullmatch state_pattern s
         then Inl (InvalidVehicleIdentifier ''state must be a two-letter code'')
         else if \<not> re_fullmatch plate_pattern p
         then Inl (InvalidVehicleIdentifier ''license plate format is invalid'')
         else if (case v of None \<Rightarrow> False | Some w \<Rightarrow> w \<noteq> [] \<and> \<not> re_fullmatch vin_pattern w)
         then Inl (InvalidVehicleIdentifier ''VIN suffix format is invalid'')
         else (case provider s p v of
                 Caught \<Rightarrow> Inl RecoveryProviderUnavailable
               | Escapes \<Rightarrow> Inl UncaughtError
               | Ok None \<Rightarrow> Inr \<lparr>rr_found = False, rr_message = not_found_message, rr_record = None\<rparr>
               | Ok (Some r) \<Rightarrow> Inr \<lparr>rr_found = True, rr_message = found_message, rr_record = Some r\<rparr>))"

section \<open>Floats from documents\<close>

text \<open>\<open>float(value)\<close>: an integer is rounded to 53 significant bits, half to even, and one that
  rounds to \<open>2 ^ 1024\<close> or more raises \<open>OverflowError\<close>, which is neither a \<open>ValueError\<close> nor a
  \<open>TypeError\<close>. The reading of texts is a parameter.\<close>

fun bit_length :: "nat \<Rightarrow> nat" where
  "bit_length n = (if n = 0 then 0 else Suc (bit_length (n div 2)))"

declare bit_length.simps [simp del]

definition float_of_int :: "int \<Rightarrow> pyfloat attempt" where
  "float_of_int n =
     (let unit = 2 ^ (bit_length (nat \<bar>n\<bar>) - 53);
          value = round_half_even (of_int n / of_int unit) * unit
      in if \<bar>value\<bar> \<ge> 2 ^ 1024 then Escapes else Ok (Fin (of_int value)))"

fun float_of_json :: "(string \<Rightarrow> pyfloat option) \<Rightarrow> json \<Rightarrow> pyfloat attempt" where
  "float_of_json parse (JInt n) = float_of_int n"
| "float_of_json parse (JBool b) = Ok (Fin (if b then 1 else 0))"
| "float_of_json parse (JFloat x) = Ok x"
| "float_of_json parse (JStr s) = caught_if_none (parse s)"
| "float_of_json parse _ = Caught"

section \<open>HttpTowLookupProvider\<close>

record tow_env =
  te_float :: "string \<Rightarrow> pyfloat option"
  te_repr :: "json \<Rightarrow> string"
  te_iso :: iso_codec

datatype gateway_reply = Failed | Raised | Answered decoded

definition tow_string :: "string \<Rightarrow> (string \<times> json) list \<Rightarrow> string attempt" where
  "tow_string k d = and_then (item k d) (\<lambda>v.
     case v of JStr s \<Rightarrow> if py_strip s = [] then Caught else Ok (py_strip s) | _ \<Rightarrow> Caught)"

definition tow_strings :: "tow_env \<Rightarrow> string \<Rightarrow> (string \<times> json) list \<Rightarrow> string list attempt" where
  "tow_strings env k d = and_then (item k d) (\<lambda>v.
     case v of
       JList items \<Rightarrow>
         if items = [] then Caught
         else let texts = filter (\<lambda>s. s \<noteq> []) (map (\<lambda>x. py_strip (str_of (te_repr env) x)) items)
              in if texts = [] then Caught else Ok texts
     | _ \<Rightarrow> Caught)"

definition tow_confidence :: "tow_env \<Rightarrow> (string \<times> json) list \<Rightarrow> pyfloat attempt" where
  "tow_confidence env d = and_then (item ''confidence'' d) (\<lambda>v. and_then (float_of_json (te_float env) v) (\<lambda>c.
     if \<not> fbetween 0 c 1 then Caught else Ok c))"

definition tow_fees :: "(string \<times> json) list \<Rightarrow> int option attempt" where
  "tow_fees d = (let v = get_or ''estimated_fees_cents'' JNull d
     in if v = JNull then Ok None
        else and_then (int_of_json v) (\<lambda>n. if n < 0 then Caught else Ok (Some n)))"

definition provenance_of_value :: "string \<Rightarrow> provenance option" where
  "provenance_of_value s =
     find (\<lambda>p. provenance_value p = s) [OFFICIAL, COMMUNITY_VERIFIED, AI_PREDICTION, ESTIMATED]"

definition tow_record_of :: "tow_env \<Rightarrow> (string \<times> json) list \<Rightarrow> tow_record attempt" where
  "tow_record_of env d =
     and_then (tow_string ''navigation_url'' d) (\<lambda>url.
     if \<not> starts_with ''https://'' url then Caught
     else
     and_then (tow_confidence env d) (\<lambda>c. and_then (tow_fees d) (\<lambda>fees.
     and_then (tow_string ''tow_company'' d) (\<lambda>company.
     and_then (tow_string ''storage_location'' d) (\<lambda>storage.
     and_then (tow_string ''phone_number'' d) (\<lambda>phone.
     and_then (tow_string ''business_hours'' d) (\<lambda>hours.
     and_then (tow_strings env ''required_documents'' d) (\<lambda>documents.
     and_then (tow_strings env ''payment_methods'' d) (\<lambda>payments.
     and_then (item ''provenance'' d) (\<lambda>pv.
     and_then (caught_if_none (provenance_of_value (str_of (te_repr env) pv))) (\<lambda>prov.
     and_then (item ''last_verified_at'' d) (\<lambda>tv.
     and_then (caught_if_none (parse_datetime (te_iso env) (str_of (te_repr env) tv))) (\<lambda>verified.
       Ok \<lparr>tw_company = company, tw_storage_location = storage, tw_phone_number = phone,
           tw_business_hours = hours, tw_required_documents = documents, tw_estimated_fees_cents = fees,
           tw_payment_methods = payments, tw_navigation_url = url, tw_provenance = prov,
           tw_confidence = c, tw_last_verified_at = verified\<rparr>)))))))))))))"

definition read_reply :: "tow_env \<Rightarrow> json \<Rightarrow> tow_record option attempt" where
  "read_reply env payload =
     (case payload of
        JObject d \<Rightarrow>
          if dict_get d ''found'' \<noteq> Some (JBool True) then Ok None
          else (case dict_get d ''record'' of
                  Some (JObject r) \<Rightarrow> and_then (tow_record_of env r) (\<lambda>t. Ok (Some t))
                | _ \<Rightarrow> Caught)
      | _ \<Rightarrow> Ok None)"

definition http_tow_lookup :: "tow_env \<Rightarrow> (string \<Rightarrow> string \<Rightarrow> string option \<Rightarrow> gateway_reply) \<Rightarrow> tow_lookup" where
  "http_tow_lookup env post st plate vin =
     (case post st plate vin of
        Failed \<Rightarrow> Caught
      | Raised \<Rightarrow> Escapes
      | Answered Undecodable \<Rightarrow> Caught
      | Answered DecodeRaises \<Rightarrow> Escapes
      | Answered (Document payload) \<Rightarrow> read_reply env payload)"

definition disabled_tow_lookup :: tow_lookup where
  "disabled_tow_lookup st plate vin = Ok None"

section \<open>The handler\<close>

type_synonym tow_gateway = "string \<Rightarrow> string \<Rightarrow> string \<Rightarrow> string \<Rightarrow> string option \<Rightarrow> gateway_reply"

definition towing_recovery_service ::
  "tow_env \<Rightarrow> tow_gateway \<Rightarrow> string option \<Rightarrow> string option \<Rightarrow> tow_lookup" where
  "towing_recovery_service env gateway url token =
     (case (url, token) of
        (Some u, Some t) \<Rightarrow> if u \<noteq> [] \<and> t \<noteq> [] then http_tow_lookup env (gateway u t) else disabled_tow_lookup
      | _ \<Rightarrow> disabled_tow_lookup)"

text \<open>\<open>TowLookupRequest\<close>: bounds on what was sent, then the trimmed values.\<close>

definition tow_request :: "string \<Rightarrow> string \<Rightarrow> string option \<Rightarrow> (string \<times> string \<times> string option) option" where
  "tow_request st plate vin =
     (if length st = 2 \<and> 2 \<le> length plate \<and> length plate \<le> 16
         \<and> (case vin of None \<Rightarrow> True | Some v \<Rightarrow> length v = 6)
      then Some (py_strip st, py_strip plate, map_option py_strip vin) else None)"

record tow_lookup_response =
  tl_found :: bool
  tl_message :: string
  tl_record :: "tow_record option"
  tl_privacy_notice :: string
  tl_cache_control :: string

definition tow_response :: "recovery_result \<Rightarrow> tow_lookup_response" where
  "tow_response r =
     \<lparr>tl_found = rr_found r, tl_message = rr_message r, tl_record = rr_record r,
      tl_privacy_notice = ''Vehicle identifiers are forwarded for this lookup and are not retained.'',
      tl_cache_control = ''private, no-store''\<rparr>"

definition route_tow_lookup ::
  "tow_lookup \<Rightarrow> http_error + user \<Rightarrow> string \<Rightarrow> string \<Rightarrow> string option \<Rightarrow> http_error + tow_lookup_response" where
  "route_tow_lookup provider found st plate vin =
     (case found of
        Inl e \<Rightarrow> Inl e
      | Inr _ \<Rightarrow>
          (case tow_request st plate vin of
             None \<Rightarrow> Inl (http_exception 422 ''Invalid request.'')
           | Some (s, p, v) \<Rightarrow>
               (case recovery_lookup provider s p v of
                  Inl (InvalidVehicleIdentifier m) \<Rightarrow> Inl (http_exception 422 m)
                | Inl RecoveryProviderUnavailable \<Rightarrow>
                    Inl (http_exception 503 ''towing lookup is temporarily unavailable'')
                | Inl UncaughtError \<Rightarrow> Inl (http_exception 500 ''Unexpected server error.'')
                | Inr r \<Rightarrow> Inr (tow_response r))))"

section \<open>Identifiers\<close>

text \<open>What is asked of the gateway for a request, and the requests for which it is asked.\<close>

definition asked :: "string \<Rightarrow> string \<Rightarrow> string option \<Rightarrow> string \<times> string \<times> string option" where
  "asked st plate vin =
     (py_upper (py_strip st), filter (\<lambda>c. \<not> one_of '' -'' c) (py_upper (py_strip plate)),
      normalized_vin (map_option py_strip vin))"

definition identifiers_ok :: "string \<Rightarrow> string \<Rightarrow> string option \<Rightarrow> bool" where
  "identifiers_ok st plate vin \<longleftrightarrow>
     (case asked st plate vin of (s, p, v) \<Rightarrow>
        list_all is_upper_ascii s \<and> length s = 2
        \<and> list_all plate_char p \<and> 2 \<le> length p \<and> length p \<le> 12
        \<and> (case v of None \<Rightarrow> True | Some w \<Rightarrow> list_all vin_char w \<and> length w = 6))"

lemma normalized_plate_filter:
  "normalized_plate s = filter (\<lambda>c. \<not> one_of '' -'' c) (py_upper (py_strip s))"
  by (simp add: normalized_plate_def plate_separator_def re_sub_class)

lemma asked_normalized:
  "(normalized_state (py_strip st), normalized_plate (py_strip plate), normalized_vin (map_option py_strip vin))
     = asked st plate vin"
  by (simp add: asked_def normalized_state_def normalized_plate_filter)

lemma py_upper_empty: "py_upper s = [] \<longleftrightarrow> s = []"
  by (cases s) (simp_all add: py_upper_def upper_char_def Let_def)

lemma vin_nonempty: "normalized_vin (map_option py_strip vin) = Some w \<Longrightarrow> w \<noteq> []"
  by (auto simp: normalized_vin_def py_upper_empty split: option.splits if_splits)

lemma vin_refused:
  "(case normalized_vin (map_option py_strip vin) of None \<Rightarrow> False
    | Some w \<Rightarrow> w \<noteq> [] \<and> \<not> re_fullmatch vin_pattern w)
   \<longleftrightarrow> \<not> (case normalized_vin (map_option py_strip vin) of None \<Rightarrow> True
          | Some w \<Rightarrow> list_all vin_char w \<and> length w = 6)"
  using vin_nonempty [of vin] by (auto simp: vin_pattern_def fullmatch_repeat split: option.split)

lemma lookup_trimmed:
  "recovery_lookup provider (py_strip st) (py_strip plate) (map_option py_strip vin) =
     (case asked st plate vin of (s, p, v) \<Rightarrow>
        if \<not> (list_all is_upper_ascii s \<and> length s = 2)
        then Inl (InvalidVehicleIdentifier ''state must be a two-letter code'')
        else if \<not> (list_all plate_char p \<and> 2 \<le> length p \<and> length p \<le> 12)
        then Inl (InvalidVehicleIdentifier ''license plate format is invalid'')
        else if \<not> (case v of None \<Rightarrow> True | Some w \<Rightarrow> list_all vin_char w \<and> length w = 6)
        then Inl (InvalidVehicleIdentifier ''VIN suffix format is invalid'')
        else (case provider s p v of
                 Caught \<Rightarrow> Inl RecoveryProviderUnavailable
               | Escapes \<Rightarrow> Inl UncaughtError
               | Ok None \<Rightarrow> Inr \<lparr>rr_found = False, rr_message = not_found_message, rr_record = None\<rparr>
               | Ok (Some r) \<Rightarrow> Inr \<lparr>rr_found = True, rr_message = found_message, rr_record = Some r\<rparr>))"
proof -
  have st: "re_fullmatch state_pattern s \<longleftrightarrow> list_all is_upper_ascii s \<and> length s = 2" for s
    by (auto simp: state_pattern_def fullmatch_repeat)
  have plate: "re_fullmatch plate_pattern s \<longleftrightarrow> list_all plate_char s \<and> 2 \<le> length s \<and> length s \<le> 12" for s
    by (simp add: plate_pattern_def fullmatch_repeat)
  show ?thesis
    unfolding recovery_lookup_def Let_def st plate vin_refused asked_normalized [symmetric] prod.case ..
qed

section \<open>Records\<close>

definition tow_record_ok :: "tow_record \<Rightarrow> bool" where
  "tow_record_ok t \<longleftrightarrow>
     starts_with ''https://'' (tw_navigation_url t) \<and> fbetween 0 (tw_confidence t) 1
     \<and> (case tw_estimated_fees_cents t of None \<Rightarrow> True | Some n \<Rightarrow> 0 \<le> n)
     \<and> list_all (\<lambda>s. s \<noteq> [] \<and> py_strip s = s)
         ([tw_company t, tw_storage_location t, tw_phone_number t, tw_business_hours t]
          @ tw_required_documents t @ tw_payment_methods t)
     \<and> tw_required_documents t \<noteq> [] \<and> tw_payment_methods t \<noteq> []"

lemma and_then_OkE: "and_then a f = Ok y \<Longrightarrow> (\<And>x. a = Ok x \<Longrightarrow> f x = Ok y \<Longrightarrow> P) \<Longrightarrow> P"
  by (auto simp: and_then_Ok)

lemma unless_OkE: "(if b then Caught else a) = Ok y \<Longrightarrow> (\<not> b \<Longrightarrow> a = Ok y \<Longrightarrow> P) \<Longrightarrow> P"
  by (simp split: if_splits)

lemma case_JStr_Ok: "(case v of JStr s \<Rightarrow> f s | _ \<Rightarrow> Caught) = Ok y \<longleftrightarrow> (\<exists>s. v = JStr s \<and> f s = Ok y)"
  by (cases v) simp_all

lemma case_JList_Ok: "(case v of JList s \<Rightarrow> f s | _ \<Rightarrow> Caught) = Ok y \<longleftrightarrow> (\<exists>s. v = JList s \<and> f s = Ok y)"
  by (cases v) simp_all

lemma tow_string_Ok:
  assumes "tow_string k d = Ok s"
  shows "\<exists>raw. dict_get d k = Some (JStr raw) \<and> s = py_strip raw" and "s \<noteq> [] \<and> py_strip s = s"
  using assms by (auto simp: tow_string_def item_def and_then_Ok case_JStr_Ok split: if_splits)

lemma tow_strings_Ok:
  assumes "tow_strings env k d = Ok ss"
  shows "list_all (\<lambda>s. s \<noteq> [] \<and> py_strip s = s) ss" and "ss \<noteq> []"
  using assms
  by (auto simp: tow_strings_def item_def and_then_Ok case_JList_Ok Let_def list_all_iff split: if_splits)

lemma tow_confidence_Ok: "tow_confidence env d = Ok c \<Longrightarrow> fbetween 0 c 1"
  by (auto simp: tow_confidence_def and_then_Ok split: if_splits)

lemma tow_fees_Ok: "tow_fees d = Ok f \<Longrightarrow> (case f of None \<Rightarrow> True | Some n \<Rightarrow> 0 \<le> n)"
  by (auto simp: tow_fees_def and_then_Ok Let_def split: if_splits option.split)

lemma tow_record_of_Ok:
  assumes "tow_record_of env d = Ok t"
  shows "tow_record_ok t \<and> tow_string ''tow_company'' d = Ok (tw_company t)
    \<and> tow_string ''storage_location'' d = Ok (tw_storage_location t)
    \<and> tow_string ''phone_number'' d = Ok (tw_phone_number t)
    \<and> tow_string ''navigation_url'' d = Ok (tw_navigation_url t)
    \<and> tow_fees d = Ok (tw_estimated_fees_cents t)"
  using assms unfolding tow_record_of_def
  apply (elim and_then_OkE unless_OkE)
  apply (simp only: attempt.inject)
  apply hypsubst
  apply (simp add: tow_record_ok_def)
  apply (intro conjI)
  apply (simp_all only: tow_confidence_Ok tow_strings_Ok tow_fees_Ok not_False_eq_True)
  apply (erule tow_string_Ok(2) [THEN conjunct1] tow_string_Ok(2) [THEN conjunct2])+
  done

lemma read_reply_found:
  assumes "read_reply env payload = Ok (Some t)"
  shows "\<exists>d e. payload = JObject d \<and> dict_get d ''found'' = Some (JBool True)
    \<and> dict_get d ''record'' = Some (JObject e) \<and> tow_record_of env e = Ok t"
  using assms by (auto simp: read_reply_def and_then_Ok split: json.splits if_splits option.splits)

section \<open>Numbers\<close>

lemma bit_length_le: "n < 2 ^ k \<Longrightarrow> bit_length n \<le> k"
proof (induction k arbitrary: n)
  case (Suc k)
  then have "n div 2 < 2 ^ k" by simp
  from Suc.IH [OF this] show ?case by (subst bit_length.simps) simp
qed (simp add: bit_length.simps)

lemma float_of_int_small: "\<bar>n\<bar> < 2 ^ 1023 \<Longrightarrow> float_of_int n \<noteq> Escapes"
proof -
  assume n: "\<bar>n\<bar> < 2 ^ 1023"
  then have "nat \<bar>n\<bar> < 2 ^ 1023" by (simp add: nat_less_iff)
  then have e: "bit_length (nat \<bar>n\<bar>) - 53 \<le> 970" using bit_length_le [of "nat \<bar>n\<bar>" 1023] by simp
  define u :: int where "u = 2 ^ (bit_length (nat \<bar>n\<bar>) - 53)"
  have u: "0 < u" "u \<le> 2 ^ 970" unfolding u_def by (simp, rule power_increasing [OF e], simp)
  define q where "q = \<bar>n\<bar> div u + 1"
  have "q * u = \<bar>n\<bar> - \<bar>n\<bar> mod u + u"
    unfolding q_def distrib_right minus_mod_eq_div_mult [symmetric] by simp
  moreover have "\<bar>n\<bar> mod u < u" "0 \<le> \<bar>n\<bar> mod u" using u(1) by simp_all
  ultimately have b: "\<bar>n\<bar> \<le> q * u" "q * u \<le> \<bar>n\<bar> + u" by linarith+
  have "of_int \<bar>n\<bar> \<le> (of_int (q * u) :: rat)" using b(1) by (simp only: of_int_le_iff)
  then have "- of_int q \<le> (of_int n / of_int u :: rat)" "(of_int n / of_int u :: rat) \<le> of_int q"
    using u(1) by (simp_all add: field_simps abs_le_iff)
  then have r: "\<bar>round_half_even (of_int n / of_int u)\<bar> \<le> q"
    using round_half_even_bounds [of "- q" "of_int n / of_int u" q] by (simp add: abs_le_iff)
  have "\<bar>round_half_even (of_int n / of_int u) * u\<bar> \<le> q * u"
    using r u(1) by (simp add: abs_mult mult_right_mono)
  also have "\<dots> < 2 ^ 1024" using b(2) n u(2) by simp
  finally show ?thesis unfolding float_of_int_def u_def [symmetric] Let_def by simp
qed

text \<open>Numbers that every conversion accepts or refuses: no integer confidence near the overflow
  threshold and no infinite fee.\<close>

definition safe_numbers :: "(string \<times> json) list \<Rightarrow> bool" where
  "safe_numbers d \<longleftrightarrow>
     (case dict_get d ''confidence'' of Some (JInt n) \<Rightarrow> \<bar>n\<bar> < 2 ^ 1023 | _ \<Rightarrow> True)
     \<and> dict_get d ''estimated_fees_cents'' \<notin> {Some (JFloat PInf), Some (JFloat NInf)}"

lemma and_then_Escapes: "and_then a f = Escapes \<longleftrightarrow> a = Escapes \<or> (\<exists>x. a = Ok x \<and> f x = Escapes)"
  by (cases a) auto

lemma caught_if_none_Escapes [simp]: "caught_if_none x \<noteq> Escapes"
  by (simp add: caught_if_none_def split: option.split)

lemma tow_string_Escapes [simp]: "tow_string k d \<noteq> Escapes"
  by (auto simp: tow_string_def item_def and_then_Escapes split: json.splits if_splits)

lemma tow_strings_Escapes [simp]: "tow_strings env k d \<noteq> Escapes"
  by (auto simp: tow_strings_def item_def and_then_Escapes Let_def split: json.splits if_splits)

lemma int_of_json_Escapes: "int_of_json v = Escapes \<longleftrightarrow> v = JFloat PInf \<or> v = JFloat NInf"
  by (cases v rule: int_of_json.cases) simp_all

lemma float_of_json_Escapes: "float_of_json p v = Escapes \<longleftrightarrow> (\<exists>n. v = JInt n \<and> float_of_int n = Escapes)"
  by (cases v) simp_all

lemma tow_confidence_safe: "safe_numbers d \<Longrightarrow> tow_confidence env d \<noteq> Escapes"
  using float_of_int_small
  by (auto simp: tow_confidence_def item_def safe_numbers_def and_then_Escapes float_of_json_Escapes
      split: option.splits if_splits)

lemma tow_fees_safe: "safe_numbers d \<Longrightarrow> tow_fees d \<noteq> Escapes"
  by (auto simp: tow_fees_def get_or_def safe_numbers_def and_then_Escapes int_of_json_Escapes Let_def
      split: option.splits if_splits)

lemma tow_record_of_safe: "safe_numbers d \<Longrightarrow> tow_record_of env d \<noteq> Escapes"
  using tow_confidence_safe [of d env] tow_fees_safe [of d]
  by (simp add: tow_record_of_def item_def and_then_Escapes)

section \<open>Properties\<close>

lemma route_tow_lookup_asked:
  assumes "tow_request st plate vin \<noteq> None"
  shows "route_tow_lookup provider (Inr u) st plate vin =
    (case recovery_lookup provider (py_strip st) (py_strip plate) (map_option py_strip vin) of
       Inl (InvalidVehicleIdentifier m) \<Rightarrow> Inl (http_exception 422 m)
     | Inl RecoveryProviderUnavailable \<Rightarrow> Inl (http_exception 503 ''towing lookup is temporarily unavailable'')
     | Inl UncaughtError \<Rightarrow> Inl (http_exception 500 ''Unexpected server error.'')
     | Inr r \<Rightarrow> Inr (tow_response r))"
  using assms by (simp add: route_tow_lookup_def tow_request_def split: if_splits)

text \<open>Whether a request may be forwarded, and what then decides.\<close>

definition forwarded :: "string \<Rightarrow> string \<Rightarrow> string option \<Rightarrow> bool" where
  "forwarded st plate vin \<longleftrightarrow> tow_request st plate vin \<noteq> None \<and> identifiers_ok st plate vin"

lemma refused_lookup:
  assumes "\<not> forwarded st plate vin"
  shows "\<exists>m. route_tow_lookup provider (Inr u) st plate vin = Inl (http_exception 422 m)"
proof (cases "tow_request st plate vin")
  case None
  then have "route_tow_lookup provider (Inr u) st plate vin = Inl (http_exception 422 ''Invalid request.'')"
    by (simp add: route_tow_lookup_def)
  then show ?thesis by blast
next
  case (Some q)
  with assms have "\<not> identifiers_ok st plate vin" by (simp add: forwarded_def)
  then have "\<exists>m. recovery_lookup provider (py_strip st) (py_strip plate) (map_option py_strip vin) =
      Inl (InvalidVehicleIdentifier m)"
    unfolding lookup_trimmed identifiers_ok_def by (cases "asked st plate vin") (auto split: if_splits)
  then show ?thesis using route_tow_lookup_asked [of st plate vin provider u] Some by auto
qed

lemma forwarded_lookup:
  assumes "forwarded st plate vin" and "asked st plate vin = (s, p, v)"
  shows "route_tow_lookup provider (Inr u) st plate vin =
    (case provider s p v of
       Caught \<Rightarrow> Inl (http_exception 503 ''towing lookup is temporarily unavailable'')
     | Escapes \<Rightarrow> Inl (http_exception 500 ''Unexpected server error.'')
     | Ok None \<Rightarrow> Inr (tow_response \<lparr>rr_found = False, rr_message = not_found_message, rr_record = None\<rparr>)
     | Ok (Some r) \<Rightarrow> Inr (tow_response \<lparr>rr_found = True, rr_message = found_message, rr_record = Some r\<rparr>))"
proof -
  from assms have q: "tow_request st plate vin \<noteq> None" and ok: "identifiers_ok st plate vin"
    by (simp_all add: forwarded_def)
  have "recovery_lookup provider (py_strip st) (py_strip plate) (map_option py_strip vin) =
    (case provider s p v of
       Caught \<Rightarrow> Inl RecoveryProviderUnavailable
     | Escapes \<Rightarrow> Inl UncaughtError
     | Ok None \<Rightarrow> Inr \<lparr>rr_found = False, rr_message = not_found_message, rr_record = None\<rparr>
     | Ok (Some r) \<Rightarrow> Inr \<lparr>rr_found = True, rr_message = found_message, rr_record = Some r\<rparr>)"
    using ok unfolding lookup_trimmed identifiers_ok_def assms(2) by simp
  then show ?thesis unfolding route_tow_lookup_asked [OF q]
    by (simp split: attempt.split option.split)
qed

text \<open>A reply whose numbers are safe; the two kinds of reply that raise something else are not.\<close>

definition reply_safe :: "gateway_reply \<Rightarrow> bool" where
  "reply_safe r \<longleftrightarrow>
     (case r of
        Failed \<Rightarrow> True
      | Raised \<Rightarrow> False
      | Answered DecodeRaises \<Rightarrow> False
      | Answered Undecodable \<Rightarrow> True
      | Answered (Document (JObject d)) \<Rightarrow>
          (case dict_get d ''record'' of Some (JObject e) \<Rightarrow> safe_numbers e | _ \<Rightarrow> True)
      | Answered (Document _) \<Rightarrow> True)"

lemma read_reply_safe: "reply_safe (Answered (Document p)) \<Longrightarrow> read_reply env p \<noteq> Escapes"
  using tow_record_of_safe
  by (auto simp: read_reply_def reply_safe_def and_then_Escapes split: json.splits option.splits)

lemma http_tow_lookup_safe: "reply_safe (post s p v) \<Longrightarrow> http_tow_lookup env post s p v \<noteq> Escapes"
  using read_reply_safe
  by (auto simp: http_tow_lookup_def reply_safe_def split: gateway_reply.splits decoded.splits)

text \<open>An infinite fee or a confidence beyond the range of floats is not refused but raises.\<close>

lemma infinite_fee_escapes: "dict_get d ''estimated_fees_cents'' = Some (JFloat PInf) \<Longrightarrow> tow_fees d = Escapes"
  by (simp add: tow_fees_def get_or_def)

text \<open>An authenticated lookup is answered 422 exactly when an identifier is malformed, whatever
  the gateway would say; otherwise the gateway is asked with the normalised identifiers and, provided
  that its numbers are in range, a failing gateway or an invalid record is answered 503 and nothing
  else, and every other reply is answered 200.\<close>

lemma tow_lookup_statuses:
  assumes "\<And>s p v. reply_safe (post s p v)"
  shows "(case route_tow_lookup (http_tow_lookup env post) (Inr u) st plate vin of
            Inl e \<Rightarrow> status_code e = (if forwarded st plate vin then 503 else 422)
          | Inr r \<Rightarrow> forwarded st plate vin)
    \<and> (\<forall>s p v. asked st plate vin = (s, p, v) \<and> forwarded st plate vin \<longrightarrow>
         ((\<exists>r. route_tow_lookup (http_tow_lookup env post) (Inr u) st plate vin = Inr r)
          \<longleftrightarrow> (\<exists>payload x. post s p v = Answered (Document payload) \<and> read_reply env payload = Ok x)))"
proof (cases "forwarded st plate vin")
  case False
  from refused_lookup [OF this] obtain m where
    "route_tow_lookup (http_tow_lookup env post) (Inr u) st plate vin = Inl (http_exception 422 m)" by blast
  with False show ?thesis by (simp add: http_exception_def)
next
  case True
  obtain s p v where a: "asked st plate vin = (s, p, v)" by (cases "asked st plate vin")
  have "http_tow_lookup env post s p v \<noteq> Escapes" by (rule http_tow_lookup_safe) (rule assms)
  moreover have "(\<exists>x. http_tow_lookup env post s p v = Ok x) \<longleftrightarrow>
      (\<exists>payload x. post s p v = Answered (Document payload) \<and> read_reply env payload = Ok x)"
    by (auto simp: http_tow_lookup_def split: gateway_reply.splits decoded.splits)
  ultimately show ?thesis
    using True a forwarded_lookup [OF True a, of "http_tow_lookup env post" u]
    by (auto simp: http_exception_def split: attempt.splits option.splits)
qed

text \<open>A gateway that holds one record.\<close>

definition tow_sample_record :: "(string \<times> json) list" where
  "tow_sample_record = [(''tow_company'', JStr '' City Tow ''), (''storage_location'', JStr ''Lot 1''),
     (''phone_number'', JStr ''5''), (''business_hours'', JStr ''24h''), (''required_documents'', JList [JStr ''ID'']),
     (''estimated_fees_cents'', JInt 24500), (''payment_methods'', JList [JStr ''Cash'', JStr '' '']),
     (''navigation_url'', JStr ''https://m''), (''provenance'', JStr ''official''), (''confidence'', JInt 1),
     (''last_verified_at'', JStr ''0001-01-05T00:00:00+00:00'')]"

definition tow_sample_env :: tow_env where
  "tow_sample_env = \<lparr>te_float = (\<lambda>_. None), te_repr = (\<lambda>_. ''?''), te_iso = utc_codec\<rparr>"

definition tow_sample_gateway :: tow_gateway where
  "tow_sample_gateway url token st plate vin =
     (if token = ''t'' \<and> plate = ''AB123''
      then Answered (Document (JObject [(''found'', JBool True), (''record'', JObject tow_sample_record)])) else Failed)"

definition driver :: user where
  "driver = \<lparr>user_id = 7, email = ''a@b'', password_hash = [], user_role = USER, is_active = True,
     is_verified = True, user_created_at = 0, mfa_secret = None, mfa_enabled = False\<rparr>"

lemma tow_lookup_statuses_witness:
  "\<exists>e. route_tow_lookup (http_tow_lookup tow_sample_env (tow_sample_gateway ''https://g'' ''t'')) (Inr driver)
       ''fl'' ''zz-9'' (Some '' 1234 '') = Inl e \<and> status_code e = 422"
proof -
  have f: "\<not> forwarded ''fl'' ''zz-9'' (Some '' 1234 '')" by code_simp
  have "reply_safe (tow_sample_gateway ''https://g'' ''t'' s p v)" for s p v
    by (simp add: reply_safe_def tow_sample_gateway_def safe_numbers_def tow_sample_record_def)
  from tow_lookup_statuses [of "tow_sample_gateway ''https://g'' ''t''", OF this,
      where env = tow_sample_env and u = driver and st = "''fl''" and plate = "''zz-9''" and vin = "Some '' 1234 ''"] f
  show ?thesis by (auto split: sum.splits)
qed

text \<open>A towing record is answered only to an authenticated user, only when the configured gateway
  returned it for the normalised identifiers, and then with the company, place, telephone number and
  fee of that document, an https navigation link, a confidence between 0 and 1 and no empty text;
  any other answer carries no record. No answer may be stored by caches.\<close>

lemma tow_answers_come_from_the_gateway:
  assumes "route_tow_lookup (towing_recovery_service env gateway url token) found st plate vin = Inr r"
  shows "(\<exists>u. found = Inr u) \<and> forwarded st plate vin \<and> tl_cache_control r = ''private, no-store''
    \<and> (case tl_record r of
         None \<Rightarrow> \<not> tl_found r
       | Some t \<Rightarrow> tl_found r \<and> tow_record_ok t
           \<and> (\<exists>a b s p v d e. url = Some a \<and> a \<noteq> [] \<and> token = Some b \<and> b \<noteq> []
                \<and> asked st plate vin = (s, p, v) \<and> gateway a b s p v = Answered (Document (JObject d))
                \<and> dict_get d ''found'' = Some (JBool True) \<and> dict_get d ''record'' = Some (JObject e)
                \<and> tow_string ''tow_company'' e = Ok (tw_company t)
                \<and> tow_string ''storage_location'' e = Ok (tw_storage_location t)
                \<and> tow_string ''phone_number'' e = Ok (tw_phone_number t)
                \<and> tow_string ''navigation_url'' e = Ok (tw_navigation_url t)
                \<and> tow_fees e = Ok (tw_estimated_fees_cents t)))"
proof -
  let ?provider = "towing_recovery_service env gateway url token"
  from assms obtain u where u: "found = Inr u" by (cases found) (simp_all add: route_tow_lookup_def)
  have f: "forwarded st plate vin"
    using refused_lookup [of st plate vin ?provider u] assms u by force
  obtain s p v where a: "asked st plate vin = (s, p, v)" by (cases "asked st plate vin")
  from assms forwarded_lookup [OF f a, of ?provider u] u obtain x where x: "?provider s p v = Ok x"
    and r: "r = tow_response (case x of None \<Rightarrow> \<lparr>rr_found = False, rr_message = not_found_message, rr_record = None\<rparr>
        | Some t \<Rightarrow> \<lparr>rr_found = True, rr_message = found_message, rr_record = Some t\<rparr>)"
    by (auto split: attempt.splits option.splits)
  show ?thesis
  proof (cases x)
    case None
    with u f r show ?thesis by (simp add: tow_response_def)
  next
    case (Some t)
    with x obtain a' b where url: "url = Some a'" "a' \<noteq> []" "token = Some b" "b \<noteq> []"
      and h: "http_tow_lookup env (gateway a' b) s p v = Ok (Some t)"
      by (auto simp: towing_recovery_service_def disabled_tow_lookup_def split: option.splits if_splits)
    then obtain payload where g: "gateway a' b s p v = Answered (Document payload)"
      and "read_reply env payload = Ok (Some t)"
      by (auto simp: http_tow_lookup_def split: gateway_reply.splits decoded.splits)
    from read_reply_found [OF this(2)] obtain d e where d: "payload = JObject d"
      "dict_get d ''found'' = Some (JBool True)" "dict_get d ''record'' = Some (JObject e)"
      "tow_record_of env e = Ok t" by blast
    have sel: "tl_record r = Some t" "tl_found r" "tl_cache_control r = ''private, no-store''"
      unfolding r Some by (simp_all add: tow_response_def)
    show ?thesis unfolding sel option.case
      using u f sel(2) tow_record_of_Ok [OF d(4)] url a g d(1,2,3) by blast
  qed
qed

lemma tow_sample_texts:
  "py_strip '' City Tow '' = ''City Tow''" "py_strip ''Lot 1'' = ''Lot 1''" "py_strip ''5'' = ''5''"
  "py_strip ''24h'' = ''24h''" "py_strip ''ID'' = ''ID''" "py_strip ''Cash'' = ''Cash''" "py_strip '' '' = []"
  "py_strip ''https://m'' = ''https://m''"
  by code_simp+

lemma tow_sample_time: "read_canonical_datetime ''0001-01-05T00:00:00+00:00'' = Some (Aware (- 719158 * day))"
proof -
  have "is_digit (CHR ''0'')" "is_digit (CHR ''1'')" "is_digit (CHR ''5'')" by (simp_all add: is_digit_def)
  then show ?thesis
    by (simp add: read_canonical_datetime_def read_clock_def read_date_def read_fraction_def digits_two
        digits_four day_of_def valid_date_def month_lengths_def epoch_day_def)
qed

lemma float_of_one: "float_of_int 1 = Ok (Fin 1)"
  using round_half_even_int [of 1] by (simp add: float_of_int_def bit_length.simps)

lemma tow_sample_read: "\<exists>t. tow_record_of tow_sample_env tow_sample_record = Ok t \<and> tw_company t = ''City Tow''"
  by (simp add: tow_record_of_def tow_sample_record_def tow_string_def tow_strings_def tow_confidence_def
      tow_fees_def get_or_def item_def tow_sample_texts float_of_one tow_sample_env_def utc_codec_def
      tow_sample_time provenance_of_value_def)

lemma tow_answers_come_from_the_gateway_witness:
  "\<exists>r t. route_tow_lookup (towing_recovery_service tow_sample_env tow_sample_gateway (Some ''https://g'') (Some ''t''))
       (Inr driver) ''fl'' '' ab-12 3'' (Some ''123abc'') = Inr r
     \<and> tl_record r = Some t \<and> tow_record_ok t \<and> tw_company t = ''City Tow''"
proof -
  let ?route = "route_tow_lookup (towing_recovery_service tow_sample_env tow_sample_gateway (Some ''https://g'') (Some ''t''))
       (Inr driver) ''fl'' '' ab-12 3'' (Some ''123abc'')"
  from tow_sample_read obtain t where t: "tow_record_of tow_sample_env tow_sample_record = Ok t"
    "tw_company t = ''City Tow''" by blast
  have "asked ''fl'' '' ab-12 3'' (Some ''123abc'') = (''FL'', ''AB123'', Some ''123ABC'')" by code_simp
  moreover have "forwarded ''fl'' '' ab-12 3'' (Some ''123abc'')" by code_simp
  ultimately obtain r where r: "?route = Inr r" "tl_record r = Some t"
    using t(1) by (simp add: forwarded_lookup towing_recovery_service_def http_tow_lookup_def tow_sample_gateway_def
        read_reply_def tow_response_def)
  from tow_answers_come_from_the_gateway [OF r(1)] r t(2) show ?thesis by auto
qed

end
