(* ===== verification/Spec2Isabelle.thy ===== *)
theory Spec2Isabelle
  imports Parking_Source Billing_Adapters Identity_Http Admin Community_Http Notification_Safety Privacy_Safety Ingestion_Examples Sign_Scanner
    Parking_Assistant Recommendations Parking_Http Http_Errors Recovery
begin

text \<open>
  A model of the backend of ParkShield AI, the Python service under \<open>src/backend/app\<close>, with the
  properties that make it correct. Paths below are relative to that directory.

  The backend answers mobile clients over HTTP. A request passes the transport middleware, is
  authenticated and checked against its schema, and runs a handler inside one database transaction,
  which is committed when the handler returns and rolled back when it raises. A handler calls the
  service of its module; a service talks to its surroundings through ports, each with an in-memory
  adapter and a PostgreSQL one. The model keeps this shape: a port is a record of functions, an adapter
  is a value of it, a handler is a function from the database to an answer and the database after it.

  \<^bold>\<open>Theories and what they model.\<close>

    \<^item> \<open>Prelude\<close> (strings, floats, time, dictionaries), \<open>Calendar\<close> (\<open>isoformat\<close>), \<open>Iso8601\<close> (its
      inverse), \<open>Json\<close> (documents and the exceptions of reading them), \<open>Regex\<close> (a backtracking
      matcher and \<open>re.sub\<close>): what the backend uses of the language and its standard library.
    \<^item> \<open>Parking_Domain\<close>, \<open>Parking_Decision\<close>, \<open>Parking_Source\<close>, \<open>Parking_Http\<close>: \<open>modules/parking\<close> and
      \<open>routes/parking.py\<close>. The fail-closed decision over zones and their schedules, the PostGIS queries
      as a provider of the locale \<open>zone_source\<close>, the endpoints with their response contracts.
    \<^item> \<open>Parking_Assistant\<close>: \<open>modules/parking_ai\<close>; deterministic rules, the baseline prediction and
      the assistant endpoint over the same zones.
    \<^item> \<open>Billing\<close>, \<open>Billing_Adapters\<close>: \<open>modules/billing\<close>; purchase verification, entitlements and
      the two providers of the locale \<open>billing_store\<close>.
    \<^item> \<open>Identity_Domain\<close>, \<open>Identity_Sessions\<close>, \<open>Identity_Abuse\<close>, \<open>Identity\<close>, \<open>Identity_Safety\<close>,
      \<open>Identity_Http\<close>: \<open>modules/identity\<close> and \<open>routes/auth.py\<close>; users and sessions (locales
      \<open>user_store\<close>, \<open>session_store\<close>, and \<open>identity_stores\<close> for the service over both), login limiters,
      tokens, the service and its handlers.
    \<^item> \<open>Admin\<close>: \<open>modules/admin\<close>, \<open>identity/mfa.py\<close> and \<open>routes/admin.py\<close>; the hash-chained audit trail
      and the second factor.
    \<^item> \<open>Community\<close>, \<open>Community_Adapters\<close>, \<open>Community_Evidence\<close>, \<open>Community_Faults\<close>, \<open>Community_Http\<close>:
      \<open>modules/community\<close> and \<open>routes/community.py\<close>; reports, appeals and photo evidence in an object
      store, over the locale \<open>report_store\<close> and over databases whose calls may fail.
    \<^item> \<open>Notifications\<close>, \<open>Notification_Safety\<close>: \<open>modules/notifications\<close>; preferences, devices and
      preventive alerts over the locale \<open>notification_store\<close>.
    \<^item> \<open>Analytics\<close>, \<open>Telemetry\<close>: \<open>modules/observability\<close> and \<open>shared/http_security.py\<close>; product
      events, metrics, trace contexts and the middleware.
    \<^item> \<open>Privacy\<close>, \<open>Consents\<close>, \<open>Privacy_Safety\<close>: \<open>modules/privacy\<close>; consents, export and erasure over
      every table that refers to an account.
    \<^item> \<open>Ingestion_Connectors\<close>, \<open>Ingestion\<close>, \<open>Ingestion_Safety\<close>, \<open>Ingestion_Examples\<close>:
      \<open>modules/ingestion\<close>; untrusted feeds, quarantine and idempotent imports over the locale
      \<open>ingestion_store\<close>. The zones and facilities it stores are the ones the map and
      \<open>Recommendations\<close> (\<open>modules/recommendations\<close>, locale \<open>facility_source\<close>) read.
    \<^item> \<open>Sign_Scanner\<close>: \<open>modules/sign_scanner\<close>; recognition, redaction (locale \<open>redaction\<close> of
      \<open>Regex\<close>) and interpretation of street signs.
    \<^item> \<open>Recovery\<close>: \<open>modules/recovery\<close>; towing lookups through a municipal gateway.
    \<^item> \<open>Http_Errors\<close>: \<open>presentation/api/errors.py\<close>; the error contract of all endpoints.

  \<^bold>\<open>What the lemmas show.\<close> Each theory states the functional behaviour of its operations on every
  branch and an invariant that they keep. Properties of several operations are proved once inside the
  locales, for any provider, and rest on interpretations by the adapters of the code. Histories of
  requests are folds (\<open>ingestion_history\<close>, \<open>handle_requests\<close>) or step relations (\<open>identity_history\<close>,
  \<open>notification_history\<close>, \<open>community_history\<close>, \<open>contained_history\<close>) with invariants by induction. The
  numbered properties say: what a parking answer is based on and that requests get one; that paid tiers
  are backed by live purchases; that tokens, resets, limiters and the second factor do what they
  promise; that the audit trail is tamper-evident; that photo evidence follows its reports, also
  through failures; that alerts, analytics, export and erasure respect consent and ownership; that
  imports are well formed, idempotent and reach the map; that rankings, redaction and the assistant
  are sound; and that telemetry and errors keep their contracts. Lemmas named in the findings of the
  manifest are concrete runs on which the code departs from its documentation or its intent.

  \<^bold>\<open>Parameters.\<close> Code outside the repository is an argument of the definitions that use it, with its
  documented behaviour as a hypothesis where a property needs it: password hashing, JWT, HMAC, SHA-256
  (no collisions in the tamper evidence), encryption, base 32; PostGIS predicates; the IANA time zone
  data; \<open>urlparse\<close>, \<open>csv\<close>, \<open>json\<close> and number readers; pydantic coercions (its constraints are written
  out); Pillow and Tesseract; the rounded operations of doubles (monotone, as in IEEE 754); the HTTP exchanges with gateways and push services; the object store, which
  may accept or refuse each call and, when it refuses, may have taken effect or not; clocks, random
  identifiers and an injected tracer.

  \<^bold>\<open>Bounds and termination.\<close> No definition uses fuel. Loops are structural recursions over lists; the
  calendar and \<open>re.sub\<close> recurse on measures. The matcher lists every end of a match, which is finite
  because repetitions are over single characters. The bounds of the code are in the definitions: five
  thousand records in a feed, 500 reports in a purge, 100 candidates of a ranking, 128 characters
  of a reported location, ten megabytes of a photo.

  \<^bold>\<open>Not modelled.\<close> Strings are Latin-1. Requests are served one at a time: locks, isolation levels and
  concurrent transactions are left out. Failures of the database connection and of commits are
  modelled for the community requests, where a bucket is changed beside the database; elsewhere a
  statement fails only on a constraint it violates, and clashes of random primary keys (events of
  \<open>sql_reconcile\<close>, records of \<open>append_record\<close>) are left out. An exception after a response has started
  is left to the server. The digit limit of \<open>int\<close>, foreign keys to users outside the erasure, response
  headers other than those stated, and log output other than the access and integration logs are left
  out, as are the Apple and Google clients with the billing endpoints, mail delivery, configuration,
  application assembly, health probes, schema migrations, tests, scripts, mobile clients and
  infrastructure. The components of the manifest give the reason for each.
\<close>

end
